(* ===== verification/Prelude.thy ===== *)
theory Prelude
  imports
    Complex_Main
    "HOL-Library.AList"
    "HOL-Library.Char_ord"
    "HOL-Library.List_Lexorder"
    "HOL-Library.Multiset"
    "HOL-Library.Word"
begin

text \<open>
  Shared vocabulary of the development.

  \<^item> Go maps. A \<open>map[K]V\<close> is the list of its entries with distinct keys. The order
    of the list is the order in which a \<open>range\<close> over the map visits it; Go leaves that
    order unspecified, and every theorem quantifies over all entry lists, hence over all
    visiting orders. Lookup is \<open>map_of\<close>, a store is \<open>mput\<close>, \<open>delete\<close> is \<open>mdel\<close>.
  \<^item> Time. \<open>time.Time\<close> is a number of nanoseconds, \<open>time.Duration\<close> as well; a call of
    \<open>time.Now()\<close> is an argument of the operation. \<open>Time.Sub\<close> saturates at the bounds of
    a signed 64-bit integer, as the Go library documents.
  \<^item> Integers. \<open>int\<close> of Go is \<open>int\<close>; where a sum or difference of caller-controlled
    values can leave the 64-bit range the wrap-around is written out with \<open>wrap64\<close>.
  \<^item> \<open>sort.Slice\<close> is an insertion sort over the comparator the code passes; the contract
    of a comparator is the locale \<open>slice_order\<close>.
  \<^item> A registry (table of values stored under their own identifier) obeys the locale
    \<open>id_registry\<close>; a state machine with an invariant is the locale \<open>invariant_machine\<close>.
\<close>

named_theorems registry_simps \<open>definitions and frame equations of the registries\<close>
named_theorems keyed_intros \<open>operations that keep a table keyed by identifier\<close>

section \<open>Go maps\<close>

type_synonym ('k, 'v) gomap = "('k \<times> 'v) list"

abbreviation mput :: "'k \<Rightarrow> 'v \<Rightarrow> ('k, 'v) gomap \<Rightarrow> ('k, 'v) gomap" where
  "mput \<equiv> AList.update"

abbreviation mdel :: "'k \<Rightarrow> ('k, 'v) gomap \<Rightarrow> ('k, 'v) gomap" where
  "mdel \<equiv> AList.delete"

definition mvals :: "('k, 'v) gomap \<Rightarrow> 'v list" where
  "mvals m = map snd m"

definition mget_or :: "'v \<Rightarrow> ('k, 'v) gomap \<Rightarrow> 'k \<Rightarrow> 'v" where
  "mget_or d m k = (case map_of m k of None \<Rightarrow> d | Some v \<Rightarrow> v)"

text \<open>A table whose values carry their own key, as every registry of the program keeps.\<close>

definition keyed :: "('v \<Rightarrow> 'k) \<Rightarrow> ('k, 'v) gomap \<Rightarrow> bool" where
  "keyed ident m \<longleftrightarrow> distinct (map fst m) \<and> (\<forall>p \<in> set m. ident (snd p) = fst p)"

section \<open>Time, machine integers, strings\<close>

type_synonym time = int
type_synonym duration = int

text \<open>
  A finite \<open>float64\<close> is a (dyadic) rational; the rounding of arithmetic on it is a parameter
  of the operations that compute with it.
\<close>

type_synonym float64 = rat

definition second :: duration where
  "second = 1000000000"

definition minute :: duration where
  "minute = 60 * second"

definition max_int64 :: int where
  "max_int64 = 9223372036854775807"

definition min_int64 :: int where
  "min_int64 = - 9223372036854775808"

definition time_sub :: "time \<Rightarrow> time \<Rightarrow> duration" where
  "time_sub t u = max min_int64 (min max_int64 (t - u))"

definition wrap64 :: "int \<Rightarrow> int" where
  "wrap64 x = (x + 9223372036854775808) mod 18446744073709551616 - 9223372036854775808"

text \<open>Decimal output of \<open>%d\<close>.\<close>

definition digit_char :: "nat \<Rightarrow> char" where
  "digit_char d = char_of (48 + d)"

fun show_nat :: "nat \<Rightarrow> string" where
  "show_nat n = (if n < 10 then [digit_char n] else show_nat (n div 10) @ [digit_char (n mod 10)])"

declare show_nat.simps [simp del]

definition show_int :: "int \<Rightarrow> string" where
  "show_int i = (if i < 0 then ''-'' @ show_nat (nat (- i)) else show_nat (nat i))"

text \<open>\<open>strings.HasPrefix\<close> and \<open>strings.TrimPrefix\<close>.\<close>

definition has_prefix :: "string \<Rightarrow> string \<Rightarrow> bool" where
  "has_prefix s p \<longleftrightarrow> take (length p) s = p"

definition trim_prefix :: "string \<Rightarrow> string \<Rightarrow> string" where
  "trim_prefix s p = (if has_prefix s p then drop (length p) s else s)"

text \<open>\<open>strings.Split\<close> at one character.\<close>

fun split_on :: "char \<Rightarrow> string \<Rightarrow> string list" where
  "split_on d [] = [[]]"
| "split_on d (c # s) =
     (if c = d then [] # split_on d s
      else (case split_on d s of [] \<Rightarrow> [[c]] | w # ws \<Rightarrow> (c # w) # ws))"

text \<open>
  \<open>strings.TrimSuffix\<close>, and \<open>strings.ToLower\<close> and \<open>strings.TrimSpace\<close> on ASCII strings.
\<close>

definition trim_suffix :: "string \<Rightarrow> string \<Rightarrow> string" where
  "trim_suffix s p =
     (if length p \<le> length s \<and> drop (length s - length p) s = p
      then take (length s - length p) s else s)"

definition lower_char :: "char \<Rightarrow> char" where
  "lower_char c = (let n = of_char c :: nat in if 65 \<le> n \<and> n \<le> 90 then char_of (n + 32) else c)"

definition to_lower :: "string \<Rightarrow> string" where
  "to_lower s = map lower_char s"

definition is_space :: "char \<Rightarrow> bool" where
  "is_space c \<longleftrightarrow> (of_char c :: nat) \<in> {9, 10, 11, 12, 13, 32}"

definition trim_space :: "string \<Rightarrow> string" where
  "trim_space s = rev (dropWhile is_space (rev (dropWhile is_space s)))"

section \<open>sort.Slice\<close>

fun go_insert :: "('a \<Rightarrow> 'a \<Rightarrow> bool) \<Rightarrow> 'a \<Rightarrow> 'a list \<Rightarrow> 'a list" where
  "go_insert lt x [] = [x]"
| "go_insert lt x (y # ys) = (if lt y x then y # go_insert lt x ys else x # y # ys)"

definition go_sort :: "('a \<Rightarrow> 'a \<Rightarrow> bool) \<Rightarrow> 'a list \<Rightarrow> 'a list" where
  "go_sort lt xs = foldr (go_insert lt) xs []"

section \<open>Runs of a state machine\<close>

text \<open>
  The states a component can reach: from \<open>init\<close>, by operations \<open>op\<close> whose environment
  condition \<open>ok\<close> holds when they are issued (for instance that a random identifier is new).
\<close>

inductive reach :: "'s \<Rightarrow> ('op \<Rightarrow> 's \<Rightarrow> bool) \<Rightarrow> ('op \<Rightarrow> 's \<Rightarrow> 's) \<Rightarrow> 's \<Rightarrow> bool"
  for init :: 's and ok :: "'op \<Rightarrow> 's \<Rightarrow> bool" and step :: "'op \<Rightarrow> 's \<Rightarrow> 's" where
  reach_init: "reach init ok step init"
| reach_step: "reach init ok step s \<Longrightarrow> ok op s \<Longrightarrow> reach init ok step (step op s)"

section \<open>Lemmas on maps\<close>

lemma map_of_mput [simp]: "map_of (mput k v m) k' = (if k' = k then Some v else map_of m k')"
  by (simp add: AList.update_conv')

lemma map_of_mdel [simp]: "map_of (mdel k m) k' = (if k' = k then None else map_of m k')"
  by (simp add: AList.delete_conv')

lemma mvals_Nil [simp]: "mvals [] = []"
  by (simp add: mvals_def)

lemma mvals_Cons [simp]: "mvals (p # m) = snd p # mvals m"
  by (simp add: mvals_def)

lemma set_mvals: "v \<in> set (mvals m) \<longleftrightarrow> (\<exists>k. (k, v) \<in> set m)"
  by (force simp: mvals_def)

lemma mvals_lookup: "map_of m k = Some v \<Longrightarrow> v \<in> set (mvals m)"
  by (auto simp: set_mvals dest: map_of_SomeD)

lemma mget_or_mput [simp]: "mget_or d (mput k v m) k' = (if k' = k then v else mget_or d m k')"
  by (simp add: mget_or_def)

lemma mget_or_Nil [simp]: "mget_or d [] k = d"
  by (simp add: mget_or_def)

lemma mput_existing: "map_of m k = Some v \<Longrightarrow> mput k v m = m"
  by (induction m) auto

lemma fst_set_mput: "fst ` set (mput k v m) = insert k (fst ` set m)"
  by (simp add: AList.dom_update)

lemma in_mput_cases:
  "distinct (map fst m) \<Longrightarrow> (k', v') \<in> set (mput k v m) \<longleftrightarrow>
    (if k' = k then v' = v else (k', v') \<in> set m)"
proof (induction m)
  case Nil
  then show ?case by auto
next
  case (Cons p m)
  then show ?case
    by (cases p) (auto simp: image_iff)
qed

lemma length_mput_new: "map_of m k = None \<Longrightarrow> length (mput k v m) = Suc (length m)"
  by (induction m) (auto split: if_splits)

lemma mput_new: "map_of m k = None \<Longrightarrow> mput k v m = m @ [(k, v)]"
  by (induction m) (auto split: if_splits)

lemma keyedI: "distinct (map fst m) \<Longrightarrow> (\<And>k v. (k, v) \<in> set m \<Longrightarrow> ident v = k) \<Longrightarrow> keyed ident m"
  by (auto simp: keyed_def)

lemma keyed_distinct: "keyed ident m \<Longrightarrow> distinct (map fst m)"
  by (simp add: keyed_def)

lemma keyed_map_of: "keyed ident m \<Longrightarrow> map_of m k = Some v \<Longrightarrow> ident v = k"
  by (fastforce simp: keyed_def dest: map_of_SomeD)

lemma keyed_mem: "keyed ident m \<Longrightarrow> v \<in> set (mvals m) \<longleftrightarrow> map_of m (ident v) = Some v"
  by (fastforce simp: keyed_def set_mvals dest: map_of_SomeD)

lemma keyed_ids_distinct: "keyed ident m \<Longrightarrow> distinct (map ident (mvals m))"
proof -
  assume k: "keyed ident m"
  then have "map ident (mvals m) = map fst m"
    by (auto simp: keyed_def mvals_def)
  with k show ?thesis by (simp add: keyed_def)
qed

lemma keyed_Nil [simp, keyed_intros]: "keyed ident []"
  by (simp add: keyed_def)

lemma keyed_mput [keyed_intros]: "keyed ident m \<Longrightarrow> ident v = k \<Longrightarrow> keyed ident (mput k v m)"
  by (auto simp: keyed_def in_mput_cases AList.distinct_update split: if_splits)

lemma keyed_mdel [keyed_intros]: "keyed ident m \<Longrightarrow> keyed ident (mdel k m)"
  by (auto simp: keyed_def AList.delete_eq distinct_map_filter)

lemma ball_mvals_mput:
  "distinct (map fst m) \<Longrightarrow> (\<And>v'. v' \<in> set (mvals m) \<Longrightarrow> P v') \<Longrightarrow> P v \<Longrightarrow>
    v' \<in> set (mvals (mput k v m)) \<Longrightarrow> P v'"
  by (auto simp: set_mvals in_mput_cases split: if_splits)

lemma length_mvals [simp]: "length (mvals m) = length m"
  by (simp add: mvals_def)

lemma mvals_append [simp]: "mvals (m @ m') = mvals m @ mvals m'"
  by (simp add: mvals_def)

text \<open>The idiom of filling a local map from a listing, \<open>m[x.ID] = x\<close>.\<close>

definition by_id :: "('v \<Rightarrow> 'k) \<Rightarrow> 'v list \<Rightarrow> ('k, 'v) gomap" where
  "by_id ident xs = foldl (\<lambda>m x. mput (ident x) x m) [] xs"

lemma map_of_by_id_loop:
  "distinct (map ident xs) \<Longrightarrow>
    map_of (foldl (\<lambda>m x. mput (ident x) x m) m xs) k = Some y \<longleftrightarrow>
      y \<in> set xs \<and> ident y = k \<or> k \<notin> ident ` set xs \<and> map_of m k = Some y"
proof (induction xs arbitrary: m)
  case (Cons x xs)
  then show ?case by (cases "ident x = k") (auto simp: image_iff)
qed simp

lemma map_of_by_id:
  "distinct (map ident xs) \<Longrightarrow> map_of (by_id ident xs) k = Some x \<longleftrightarrow> x \<in> set xs \<and> ident x = k"
  by (simp add: by_id_def map_of_by_id_loop)

text \<open>A step of a registry that rewrites at most one stored value, in a way \<open>P\<close> allows.\<close>

definition one_write :: "('v \<Rightarrow> 'v \<Rightarrow> bool) \<Rightarrow> ('k, 'v) gomap \<Rightarrow> ('k, 'v) gomap \<Rightarrow> bool" where
  "one_write P m m' \<longleftrightarrow> m' = m \<or> (\<exists>k v v'. map_of m k = Some v \<and> m' = mput k v' m \<and> P v v')"

lemma one_write_same [simp]: "one_write P m m"
  by (simp add: one_write_def)

lemma one_write_mput: "map_of m k = Some v \<Longrightarrow> P v v' \<Longrightarrow> one_write P m (mput k v' m)"
  by (auto simp: one_write_def)

lemma one_write_keyed:
  assumes "one_write P m m'" and "keyed ident m" and "\<And>v v'. P v v' \<Longrightarrow> ident v' = ident v"
  shows "keyed ident m'"
  using assms by (auto simp: one_write_def intro!: keyed_mput dest: keyed_map_of)

lemma one_write_ball:
  assumes "one_write P m m'" and "keyed ident m" and "\<forall>v \<in> set (mvals m). Q v"
    and "\<And>v v'. P v v' \<Longrightarrow> Q v'"
  shows "\<forall>v \<in> set (mvals m'). Q v"
  using assms
  by (auto simp: one_write_def set_mvals in_mput_cases keyed_distinct split: if_splits)

lemma one_write_lookup:
  assumes "one_write P m m'" and "map_of m k = Some v" and "\<And>v. R v v"
    and "\<And>v v'. P v v' \<Longrightarrow> R v v'"
  shows "\<exists>v'. map_of m' k = Some v' \<and> R v v'"
  using assms by (auto simp: one_write_def)

lemma one_write_dom: "one_write P m m' \<Longrightarrow> map_of m' k = None \<longleftrightarrow> map_of m k = None"
  by (auto simp: one_write_def split: if_splits)

text \<open>
  A secondary index: a second map from a unique name of the values to their key, kept beside
  the table by the application, secret and domain registries.
\<close>

definition indexed :: "('v \<Rightarrow> 'n) \<Rightarrow> ('k, 'v) gomap \<Rightarrow> ('n, 'k) gomap \<Rightarrow> bool" where
  "indexed nm tbl idx \<longleftrightarrow>
     (\<forall>n k. map_of idx n = Some k \<longleftrightarrow> (\<exists>v. map_of tbl k = Some v \<and> nm v = n))"

lemma indexed_Nil [simp]: "indexed nm [] []"
  by (simp add: indexed_def)

lemma indexed_SomeD: "indexed nm tbl idx \<Longrightarrow> map_of idx n = Some k \<Longrightarrow> \<exists>v. map_of tbl k = Some v \<and> nm v = n"
  by (simp add: indexed_def)

lemma indexed_lookup: "indexed nm tbl idx \<Longrightarrow> map_of tbl k = Some v \<Longrightarrow> map_of idx (nm v) = Some k"
  by (simp add: indexed_def)

lemma indexed_free: "indexed nm tbl idx \<Longrightarrow> map_of idx n = None \<Longrightarrow> map_of tbl k = Some v \<Longrightarrow> nm v \<noteq> n"
  by (metis indexed_lookup option.distinct(1))

lemma indexed_rewrite:
  "indexed nm tbl idx \<Longrightarrow> map_of tbl k = Some v \<Longrightarrow> nm v' = nm v \<Longrightarrow> indexed nm (mput k v' tbl) idx"
  by (auto simp: indexed_def)

lemma indexed_new:
  assumes "indexed nm tbl idx" and "map_of tbl k = None" and "map_of idx n = None" and "nm v = n"
  shows "indexed nm (mput k v tbl) (mput n k idx)"
  unfolding indexed_def
proof (intro allI)
  fix n' k'
  show "map_of (mput n k idx) n' = Some k' \<longleftrightarrow> (\<exists>w. map_of (mput k v tbl) k' = Some w \<and> nm w = n')"
    using assms indexed_free [OF assms(1,3)] unfolding indexed_def
    by (cases "n' = n"; cases "k' = k") auto
qed

lemma indexed_unique:
  "indexed nm tbl idx \<Longrightarrow> map_of tbl k = Some v \<Longrightarrow> map_of tbl k' = Some v' \<Longrightarrow> nm v = nm v' \<Longrightarrow> k = k'"
  by (metis indexed_lookup option.inject)

lemma indexed_del:
  assumes "indexed nm tbl idx" and "map_of tbl k = Some v"
  shows "indexed nm (mdel k tbl) (mdel (nm v) idx)"
  unfolding indexed_def
proof (intro allI)
  fix n k'
  have only: "nm w \<noteq> nm v" if "map_of tbl k' = Some w" "k' \<noteq> k" for w
    using indexed_unique [OF assms(1) that(1) assms(2)] that(2) by blast
  have iff: "map_of idx n = Some k' \<longleftrightarrow> (\<exists>w. map_of tbl k' = Some w \<and> nm w = n)"
    using assms(1) by (simp add: indexed_def)
  show "map_of (mdel (nm v) idx) n = Some k' \<longleftrightarrow> (\<exists>w. map_of (mdel k tbl) k' = Some w \<and> nm w = n)"
    using only iff assms(2) by (cases "n = nm v"; cases "k' = k") auto
qed

lemma indexed_inj:
  assumes "indexed nm tbl idx" and "map_of idx n = Some k" and "map_of idx n' = Some k"
  shows "n = n'"
  using indexed_SomeD [OF assms(1,2)] indexed_SomeD [OF assms(1,3)] by auto

lemma in_mvals_mdel: "v \<in> set (mvals (mdel k m)) \<Longrightarrow> v \<in> set (mvals m)"
  by (auto simp: set_mvals AList.delete_eq)

lemma find_SomeD: "find P xs = Some x \<Longrightarrow> x \<in> set xs \<and> P x"
  by (auto simp: find_Some_iff)

lemma find_map: "find P (map f xs) = map_option f (find (P \<circ> f) xs)"
  by (induction xs) auto

section \<open>Lemmas on time and integers\<close>

lemma time_sub_ge_iff:
  "min_int64 < d \<Longrightarrow> d \<le> max_int64 \<Longrightarrow> d \<le> time_sub t u \<longleftrightarrow> d \<le> t - u"
  by (auto simp: time_sub_def)

lemma wrap64_small: "min_int64 \<le> x \<Longrightarrow> x \<le> max_int64 \<Longrightarrow> wrap64 x = x"
  by (simp add: wrap64_def min_int64_def max_int64_def)

lemma wrap64_bounds: "min_int64 \<le> wrap64 x \<and> wrap64 x \<le> max_int64"
  by (simp add: wrap64_def min_int64_def max_int64_def)

lemma has_prefix_append [simp]: "has_prefix (p @ s) p"
  by (simp add: has_prefix_def)

lemma trim_prefix_append [simp]: "trim_prefix (p @ s) p = s"
  by (simp add: trim_prefix_def)

section \<open>The comparator contract of sort.Slice\<close>

text \<open>
  \<open>sort.Slice\<close> requires a strict weak order. Under that contract the result is a
  permutation of the input in which no element is less than an earlier one.
\<close>

locale slice_order =
  fixes lt :: "'a \<Rightarrow> 'a \<Rightarrow> bool"
  assumes lt_asym: "lt x y \<Longrightarrow> \<not> lt y x"
    and lt_negtrans: "\<not> lt x y \<Longrightarrow> \<not> lt y z \<Longrightarrow> \<not> lt x z"
begin

lemma mset_go_insert: "mset (go_insert lt x xs) = add_mset x (mset xs)"
  by (induction xs) auto

lemma mset_go_sort: "mset (go_sort lt xs) = mset xs"
  by (induction xs) (auto simp: go_sort_def mset_go_insert)

lemma set_go_insert: "set (go_insert lt x xs) = insert x (set xs)"
  by (induction xs) auto

lemma set_go_sort: "set (go_sort lt xs) = set xs"
  by (metis mset_go_sort set_mset_mset)

lemma length_go_sort: "length (go_sort lt xs) = length xs"
  by (metis mset_go_sort size_mset)

lemma distinct_go_sort: "distinct (go_sort lt xs) \<longleftrightarrow> distinct xs"
  by (metis mset_go_sort mset_eq_imp_distinct_iff)

lemma sorted_go_insert:
  "sorted_wrt (\<lambda>a b. \<not> lt b a) xs \<Longrightarrow> sorted_wrt (\<lambda>a b. \<not> lt b a) (go_insert lt x xs)"
proof (induction xs)
  case Nil
  then show ?case by simp
next
  case (Cons y ys)
  have below: "\<not> lt z x" if "\<not> lt y x" "z \<in> set ys" for z
    using that Cons.prems lt_negtrans [of z y x] by simp
  from Cons show ?case
    by (auto simp: set_go_insert below dest: lt_asym)
qed

lemma sorted_go_sort: "sorted_wrt (\<lambda>a b. \<not> lt b a) (go_sort lt xs)"
  by (induction xs) (auto simp: go_sort_def sorted_go_insert)

lemma go_sort_Nil_iff: "go_sort lt xs = [] \<longleftrightarrow> xs = []"
  by (metis length_go_sort length_0_conv)

end

section \<open>The contract of a registry\<close>

text \<open>
  A registry keeps a table keyed by identifier, answers \<open>Get\<close> from it (with one fixed error
  for an unknown identifier) and lists its values in the order of the table.
\<close>

locale id_registry =
  fixes table :: "'r \<Rightarrow> (string, 'v) gomap"
    and ident :: "'v \<Rightarrow> string"
    and Get :: "'r \<Rightarrow> string \<Rightarrow> 'e + 'v"
    and Lst :: "'r \<Rightarrow> 'v list"
    and not_found :: 'e
  assumes Get_law: "Get r k = (case map_of (table r) k of None \<Rightarrow> Inl not_found | Some v \<Rightarrow> Inr v)"
    and Lst_law: "Lst r = mvals (table r)"
begin

lemma Get_iff_Lst:
  "keyed ident (table r) \<Longrightarrow> Get r k = Inr v \<longleftrightarrow> v \<in> set (Lst r) \<and> ident v = k"
  by (auto simp: Get_law Lst_law keyed_mem split: option.splits dest: keyed_map_of)

lemma Lst_distinct: "keyed ident (table r) \<Longrightarrow> distinct (map ident (Lst r))"
  by (simp add: Lst_law keyed_ids_distinct)

lemma Get_error:
  "keyed ident (table r) \<Longrightarrow> Get r k = Inl e \<longleftrightarrow> e = not_found \<and> k \<notin> ident ` set (Lst r)"
  by (cases "map_of (table r) k")
    (auto simp: Get_law Lst_law keyed_mem image_iff Bex_def dest: keyed_map_of)

end

section \<open>State machines with an invariant\<close>

locale invariant_machine =
  fixes init :: 's
    and ok :: "'op \<Rightarrow> 's \<Rightarrow> bool"
    and step :: "'op \<Rightarrow> 's \<Rightarrow> 's"
    and inv :: "'s \<Rightarrow> bool"
  assumes inv_init: "inv init"
    and inv_step: "inv s \<Longrightarrow> ok op s \<Longrightarrow> inv (step op s)"
begin

lemma reach_inv: "reach init ok step s \<Longrightarrow> inv s"
  by (induction rule: reach.induct) (auto intro: inv_init inv_step)

end

text \<open>
  Execution fencing, the contract between a registry and the agents: a report is taken only
  from the node and the execution the stored value names, and a refused report changes
  nothing.
\<close>

locale fenced_store =
  fixes find :: "'r \<Rightarrow> string \<Rightarrow> 'v option"
    and owner :: "'v \<Rightarrow> string"
    and exec :: "'v \<Rightarrow> string"
    and report :: "'a \<Rightarrow> string \<Rightarrow> string \<Rightarrow> string \<Rightarrow> 'r \<Rightarrow> 'r \<times> ('e + 'v)"
  assumes missing: "find r k = None \<Longrightarrow> \<exists>e. report a k node ex r = (r, Inl e)"
    and fenced: "find r k = Some v \<Longrightarrow> owner v \<noteq> node \<or> exec v \<noteq> ex \<Longrightarrow>
      \<exists>e. report a k node ex r = (r, Inl e)"
begin

lemma accepted_identity:
  assumes "snd (report a k node ex r) = Inr w"
  obtains v where "find r k = Some v" "owner v = node" "exec v = ex"
  using assms missing [of r k a node ex] fenced [of r k _ node ex a]
  by (cases "find r k") fastforce+

lemma single_writer:
  assumes "snd (report a k node ex r) = Inr w" and "snd (report a' k node' ex' r) = Inr w'"
  shows "node' = node \<and> ex' = ex"
  using accepted_identity [OF assms(1)] accepted_identity [OF assms(2)] by (metis option.inject)

end

text \<open>
  A relation that every step respects, from a state where the invariant holds, relates any
  two states of a run.
\<close>

locale monotone_machine =
  fixes ok :: "'op \<Rightarrow> 's \<Rightarrow> bool"
    and step :: "'op \<Rightarrow> 's \<Rightarrow> 's"
    and inv :: "'s \<Rightarrow> bool"
    and rel :: "'s \<Rightarrow> 's \<Rightarrow> bool"
  assumes keeps_inv: "inv s \<Longrightarrow> ok op s \<Longrightarrow> inv (step op s)"
    and rel_refl: "rel s s"
    and rel_trans: "rel s t \<Longrightarrow> rel t u \<Longrightarrow> rel s u"
    and rel_step: "inv s \<Longrightarrow> ok op s \<Longrightarrow> rel s (step op s)"
begin

lemma reach_keeps: "reach s ok step t \<Longrightarrow> inv s \<Longrightarrow> inv t \<and> rel s t"
proof (induction rule: reach.induct)
  case reach_init
  then show ?case by (simp add: rel_refl)
next
  case (reach_step t op)
  then show ?case
    using keeps_inv rel_step rel_trans [of s t "step op t"] by blast
qed

lemma reach_rel: "inv s \<Longrightarrow> reach s ok step t \<Longrightarrow> rel s t"
  using reach_keeps by blast

end

text \<open>
  A machine that implements a simpler one: the abstraction of the state follows the abstract
  operation step by step, so every run is a run of the abstract machine.
\<close>

locale simulation = invariant_machine init ok step inv
  for init :: 's and ok :: "'op \<Rightarrow> 's \<Rightarrow> bool" and step :: "'op \<Rightarrow> 's \<Rightarrow> 's" and inv :: "'s \<Rightarrow> bool" +
  fixes absf :: "'s \<Rightarrow> 'a"
    and ainit :: 'a
    and astep :: "'op \<Rightarrow> 'a \<Rightarrow> 'a"
  assumes absf_init: "absf init = ainit"
    and absf_step: "inv s \<Longrightarrow> ok op s \<Longrightarrow> absf (step op s) = astep op (absf s)"
begin

lemma reach_absf: "reach init ok step s \<Longrightarrow> reach ainit (\<lambda>_ _. True) astep (absf s)"
proof (induction rule: reach.induct)
  case reach_init
  show ?case unfolding absf_init by (rule reach.reach_init)
next
  case (reach_step s op)
  then show ?case
    using absf_step [OF reach_inv] by (simp add: reach.reach_step)
qed

end

end
