(* ===== verification/Instance.thy ===== *)
theory Instance
  imports Prelude
begin

text \<open>
  The instance registry: \<open>internal/instance/instance.go\<close> and \<open>internal/instance/registry.go\<close>.

  The registry stores values, not pointers: every operation works on a copy and writes it
  back, or does not. \<open>DeepCopy\<close> is therefore the identity here. The identifier and the
  execution identity that \<open>generateID\<close> draws, and the times, are arguments.
\<close>

section \<open>Data\<close>

datatype InstanceStatus =
    StatusPending | StatusAssigned | StatusStarting | StatusRunning | StatusStopping
  | StatusCrashed | StatusStopped | StatusUnknown
  | StatusOther string \<comment> \<open>any other string an agent may send\<close>

datatype InstanceHealth =
    HealthHealthy | HealthUnhealthy | HealthUnknown
  | HealthOther string \<comment> \<open>any other string, the empty one of a new instance included\<close>

record PortMapping =
  pm_Internal :: int
  pm_External :: int

record Instance =
  i_ID :: string
  i_ApplicationID :: string
  i_DeploymentID :: string
  i_NodeID :: string
  i_ExecutionID :: string
  i_Status :: InstanceStatus
  i_Health :: InstanceHealth
  i_Draining :: bool
  i_DrainStartedAt :: "time option"
  i_ContainerID :: string
  i_Ports :: "PortMapping list"
  i_CreatedAt :: time
  i_StartedAt :: "time option"
  i_StoppedAt :: "time option"
  i_UnknownSince :: "time option"

datatype InstError = InstNotFound | InvalidStateTransition | NodeMismatch | StaleExecution

type_synonym InstRegistry = "(string, Instance) gomap"

section \<open>Operations\<close>

definition NewInstRegistry :: InstRegistry where
  "NewInstRegistry = []"

definition Inst_Create :: "string \<Rightarrow> time \<Rightarrow> string \<Rightarrow> string \<Rightarrow> InstRegistry \<Rightarrow> InstRegistry \<times> Instance" where
  "Inst_Create rid now appID deploymentID r =
     (let inst = \<lparr>i_ID = rid, i_ApplicationID = appID, i_DeploymentID = deploymentID,
                  i_NodeID = '''', i_ExecutionID = '''', i_Status = StatusPending,
                  i_Health = HealthOther '''', i_Draining = False, i_DrainStartedAt = None,
                  i_ContainerID = '''', i_Ports = [], i_CreatedAt = now, i_StartedAt = None,
                  i_StoppedAt = None, i_UnknownSince = None\<rparr>
      in (mput rid inst r, inst))"

definition Inst_Get :: "InstRegistry \<Rightarrow> string \<Rightarrow> InstError + Instance" where
  "Inst_Get r k = (case map_of r k of None \<Rightarrow> Inl InstNotFound | Some i \<Rightarrow> Inr i)"

definition Inst_List :: "InstRegistry \<Rightarrow> Instance list" where
  "Inst_List r = mvals r"

abbreviation stopped_or_crashed :: "InstanceStatus \<Rightarrow> bool" where
  "stopped_or_crashed st \<equiv> st = StatusStopped \<or> st = StatusCrashed"

definition Update_apply :: "time \<Rightarrow> InstanceStatus \<Rightarrow> string \<Rightarrow> string \<Rightarrow> Instance \<Rightarrow> Instance" where
  "Update_apply now st nodeID containerID i =
     (let i1 = i\<lparr>i_Status := st\<rparr>;
          i2 = (if nodeID \<noteq> '''' then i1\<lparr>i_NodeID := nodeID\<rparr> else i1);
          i3 = (if containerID \<noteq> '''' then i2\<lparr>i_ContainerID := containerID\<rparr> else i2);
          i4 = (if st = StatusRunning \<and> i_StartedAt i3 = None
                then i3\<lparr>i_StartedAt := Some now\<rparr> else i3)
      in if stopped_or_crashed st \<and> i_StoppedAt i4 = None
         then i4\<lparr>i_StoppedAt := Some now\<rparr> else i4)"

definition Inst_UpdateState ::
  "time \<Rightarrow> string \<Rightarrow> InstanceStatus \<Rightarrow> string \<Rightarrow> string \<Rightarrow> InstRegistry
    \<Rightarrow> InstRegistry \<times> (InstError + Instance)" where
  "Inst_UpdateState now k st nodeID containerID r =
     (case map_of r k of
        None \<Rightarrow> (r, Inl InstNotFound)
      | Some i \<Rightarrow>
          if stopped_or_crashed (i_Status i) then (r, Inl InvalidStateTransition)
          else
            (let i1 = Update_apply now st nodeID containerID i in (mput k i1 r, Inr i1)))"

definition Inst_Claim ::
  "string \<Rightarrow> string \<Rightarrow> string \<Rightarrow> InstRegistry \<Rightarrow> InstRegistry \<times> (InstError + Instance)" where
  "Inst_Claim rid k nodeID r =
     (case map_of r k of
        None \<Rightarrow> (r, Inl InstNotFound)
      | Some i \<Rightarrow>
          if i_Status i \<noteq> StatusAssigned \<and> i_Status i \<noteq> StatusUnknown
            then (r, Inl InvalidStateTransition)
          else if i_Status i = StatusUnknown \<and> i_ExecutionID i \<noteq> ''''
            then (r, Inl InvalidStateTransition)
          else if i_NodeID i \<noteq> nodeID then (r, Inl NodeMismatch)
          else
            (let i1 = i\<lparr>i_Status := StatusStarting, i_ExecutionID := rid, i_UnknownSince := None\<rparr>
             in (mput k i1 r, Inr i1)))"

text \<open>
  \<open>ReportStatus\<close>: the idempotent branch only fills in a missing container and missing ports;
  the other branch is the transition proper.
\<close>

definition Report_same :: "string \<Rightarrow> string \<Rightarrow> PortMapping list \<Rightarrow> Instance \<Rightarrow> InstRegistry
    \<Rightarrow> InstRegistry \<times> (InstError + Instance)" where
  "Report_same k containerID ports i r =
     (let newC = (containerID \<noteq> '''' \<and> i_ContainerID i = '''');
          newP = (ports \<noteq> [] \<and> i_Ports i = []);
          i1 = (if newC then i\<lparr>i_ContainerID := containerID\<rparr> else i);
          i2 = (if newP then i1\<lparr>i_Ports := ports\<rparr> else i1)
      in (if newC \<or> newP then mput k i2 r else r, Inr i2))"

definition Report_apply ::
  "time \<Rightarrow> InstanceStatus \<Rightarrow> InstanceHealth \<Rightarrow> string \<Rightarrow> PortMapping list \<Rightarrow> Instance \<Rightarrow> Instance" where
  "Report_apply now st hl containerID ports i =
     (let i1 = i\<lparr>i_Status := st\<rparr>;
          i2 = (if hl \<noteq> HealthOther '''' then i1\<lparr>i_Health := hl\<rparr> else i1);
          i3 = i2\<lparr>i_UnknownSince := None\<rparr>;
          i4 = (if containerID \<noteq> '''' \<and> i_ContainerID i3 = ''''
                then i3\<lparr>i_ContainerID := containerID\<rparr> else i3);
          i5 = (if ports \<noteq> [] then i4\<lparr>i_Ports := ports\<rparr> else i4)
      in if st = StatusRunning \<and> i_StartedAt i5 = None then i5\<lparr>i_StartedAt := Some now\<rparr>
         else if stopped_or_crashed st \<and> i_StoppedAt i5 = None then i5\<lparr>i_StoppedAt := Some now\<rparr>
         else i5)"

definition Inst_ReportStatus ::
  "time \<Rightarrow> string \<Rightarrow> string \<Rightarrow> string \<Rightarrow> InstanceStatus \<Rightarrow> InstanceHealth \<Rightarrow> string
    \<Rightarrow> PortMapping list \<Rightarrow> InstRegistry \<Rightarrow> InstRegistry \<times> (InstError + Instance)" where
  "Inst_ReportStatus now k nodeID executionID st hl containerID ports r =
     (case map_of r k of
        None \<Rightarrow> (r, Inl InstNotFound)
      | Some i \<Rightarrow>
          if i_NodeID i \<noteq> nodeID then (r, Inl NodeMismatch)
          else if i_ExecutionID i \<noteq> executionID then (r, Inl StaleExecution)
          else if st = StatusPending \<or> st = StatusAssigned \<or> st = StatusStarting \<or> st = StatusUnknown
            then (r, Inl InvalidStateTransition)
          else if i_Status i = st \<and> i_Health i = hl then Report_same k containerID ports i r
          else if stopped_or_crashed (i_Status i) then (r, Inl InvalidStateTransition)
          else
            (let i1 = Report_apply now st hl containerID ports i in (mput k i1 r, Inr i1)))"

definition Inst_MarkUnknown :: "time \<Rightarrow> string \<Rightarrow> InstRegistry \<Rightarrow> InstRegistry \<times> InstError option" where
  "Inst_MarkUnknown now k r =
     (case map_of r k of
        None \<Rightarrow> (r, Some InstNotFound)
      | Some i \<Rightarrow>
          if stopped_or_crashed (i_Status i) then (r, None)
          else
            (let i1 = i\<lparr>i_Status := StatusUnknown\<rparr>;
                 i2 = (if i_UnknownSince i1 = None then i1\<lparr>i_UnknownSince := Some now\<rparr> else i1)
             in (mput k i2 r, None)))"

definition Inst_MarkDraining :: "time \<Rightarrow> string \<Rightarrow> InstRegistry \<Rightarrow> InstRegistry \<times> InstError option" where
  "Inst_MarkDraining now k r =
     (case map_of r k of
        None \<Rightarrow> (r, Some InstNotFound)
      | Some i \<Rightarrow>
          if stopped_or_crashed (i_Status i) then (r, None)
          else if \<not> i_Draining i
            then (mput k (i\<lparr>i_Draining := True, i_DrainStartedAt := Some now\<rparr>) r, None)
          else (r, None))"

section \<open>The instance life cycle\<close>

datatype inst_op =
    ICreate string time string string
  | IUpdate time string InstanceStatus string string
  | IClaim string string string
  | IReport time string string string InstanceStatus InstanceHealth string "PortMapping list"
  | IUnknown time string
  | IDrain time string

fun inst_step :: "inst_op \<Rightarrow> InstRegistry \<Rightarrow> InstRegistry" where
  "inst_step (ICreate rid now app dep) r = fst (Inst_Create rid now app dep r)"
| "inst_step (IUpdate now k st nd ct) r = fst (Inst_UpdateState now k st nd ct r)"
| "inst_step (IClaim rid k nd) r = fst (Inst_Claim rid k nd r)"
| "inst_step (IReport now k nd ex st hl ct ps) r = fst (Inst_ReportStatus now k nd ex st hl ct ps r)"
| "inst_step (IUnknown now k) r = fst (Inst_MarkUnknown now k r)"
| "inst_step (IDrain now k) r = fst (Inst_MarkDraining now k r)"

text \<open>
  How the rest of the program calls the registry: random identifiers are new and not empty,
  the scheduler assigns only \<open>PENDING\<close> instances, the reconciler and the claim handler stop
  or crash an instance and pass its own node and container back, and the HTTP handler lets no
  report with an empty execution identity through.
\<close>

fun inst_protocol :: "inst_op \<Rightarrow> InstRegistry \<Rightarrow> bool" where
  "inst_protocol (ICreate rid now app dep) r \<longleftrightarrow> map_of r rid = None"
| "inst_protocol (IUpdate now k st nd ct) r \<longleftrightarrow>
     (case map_of r k of None \<Rightarrow> True
      | Some i \<Rightarrow>
          (st = StatusAssigned \<and> i_Status i = StatusPending \<and> ct = '''') \<or>
          (st \<in> {StatusStopping, StatusStopped, StatusCrashed} \<and> (nd = '''' \<or> nd = i_NodeID i)
             \<and> (ct = '''' \<or> ct = i_ContainerID i)))"
| "inst_protocol (IClaim rid k nd) r \<longleftrightarrow> rid \<noteq> ''''"
| "inst_protocol (IReport now k nd ex st hl ct ps) r \<longleftrightarrow> ex \<noteq> ''''"
| "inst_protocol (IUnknown now k) r \<longleftrightarrow> True"
| "inst_protocol (IDrain now k) r \<longleftrightarrow> True"

text \<open>What the fields of a stored instance say about each other.\<close>

definition inst_ok :: "Instance \<Rightarrow> bool" where
  "inst_ok i \<longleftrightarrow>
     (stopped_or_crashed (i_Status i) \<longleftrightarrow> i_StoppedAt i \<noteq> None) \<and>
     (i_Status i = StatusRunning \<longrightarrow> i_StartedAt i \<noteq> None) \<and>
     (i_Status i = StatusUnknown \<longrightarrow> i_UnknownSince i \<noteq> None) \<and>
     (i_Draining i \<longleftrightarrow> i_DrainStartedAt i \<noteq> None) \<and>
     (i_Status i \<in> {StatusPending, StatusAssigned} \<longrightarrow> i_ExecutionID i = '''') \<and>
     (i_Status i \<in> {StatusStarting, StatusRunning} \<longrightarrow> i_ExecutionID i \<noteq> '''')"

definition inst_inv :: "InstRegistry \<Rightarrow> bool" where
  "inst_inv r \<longleftrightarrow> keyed i_ID r \<and> (\<forall>i \<in> set (mvals r). inst_ok i)"

text \<open>What never changes, or changes only once, in the life of an instance.\<close>

definition inst_evolves :: "Instance \<Rightarrow> Instance \<Rightarrow> bool" where
  "inst_evolves i i' \<longleftrightarrow>
     i_ID i' = i_ID i \<and> i_ApplicationID i' = i_ApplicationID i \<and>
     i_DeploymentID i' = i_DeploymentID i \<and> i_CreatedAt i' = i_CreatedAt i \<and>
     (stopped_or_crashed (i_Status i) \<longrightarrow>
        i_Status i' = i_Status i \<and> i_StoppedAt i' = i_StoppedAt i \<and> i_Health i' = i_Health i) \<and>
     (i_ExecutionID i \<noteq> '''' \<longrightarrow>
        i_ExecutionID i' = i_ExecutionID i \<and> i_NodeID i' = i_NodeID i) \<and>
     (i_StartedAt i \<noteq> None \<longrightarrow> i_StartedAt i' = i_StartedAt i) \<and>
     (i_ContainerID i \<noteq> '''' \<longrightarrow> i_ContainerID i' = i_ContainerID i) \<and>
     (i_Draining i \<longrightarrow> i_Draining i' \<and> i_DrainStartedAt i' = i_DrainStartedAt i) \<and>
     (i_Status i \<noteq> StatusPending \<longrightarrow> i_Status i' \<noteq> StatusPending)"

definition insts_evolve :: "InstRegistry \<Rightarrow> InstRegistry \<Rightarrow> bool" where
  "insts_evolve r r' \<longleftrightarrow> (\<forall>k i. map_of r k = Some i \<longrightarrow> (\<exists>i'. map_of r' k = Some i' \<and> inst_evolves i i'))"

section \<open>Preservation\<close>

lemma Report_apply_simps [simp]:
  "i_ID (Report_apply now st hl ct ps i) = i_ID i"
  "i_ApplicationID (Report_apply now st hl ct ps i) = i_ApplicationID i"
  "i_DeploymentID (Report_apply now st hl ct ps i) = i_DeploymentID i"
  "i_CreatedAt (Report_apply now st hl ct ps i) = i_CreatedAt i"
  "i_NodeID (Report_apply now st hl ct ps i) = i_NodeID i"
  "i_ExecutionID (Report_apply now st hl ct ps i) = i_ExecutionID i"
  "i_Status (Report_apply now st hl ct ps i) = st"
  "i_Draining (Report_apply now st hl ct ps i) = i_Draining i"
  "i_DrainStartedAt (Report_apply now st hl ct ps i) = i_DrainStartedAt i"
  "i_UnknownSince (Report_apply now st hl ct ps i) = None"
  "i_Health (Report_apply now st hl ct ps i) = (if hl = HealthOther '''' then i_Health i else hl)"
  "i_ContainerID (Report_apply now st hl ct ps i) = (if i_ContainerID i = '''' then ct else i_ContainerID i)"
  "i_StartedAt (Report_apply now st hl ct ps i) =
     (if st = StatusRunning \<and> i_StartedAt i = None then Some now else i_StartedAt i)"
  "i_StoppedAt (Report_apply now st hl ct ps i) =
     (if stopped_or_crashed st \<and> i_StoppedAt i = None then Some now else i_StoppedAt i)"
  by (simp_all add: Report_apply_def Let_def)

lemma Update_apply_simps [simp]:
  "i_ID (Update_apply now st nd ct i) = i_ID i"
  "i_ApplicationID (Update_apply now st nd ct i) = i_ApplicationID i"
  "i_DeploymentID (Update_apply now st nd ct i) = i_DeploymentID i"
  "i_CreatedAt (Update_apply now st nd ct i) = i_CreatedAt i"
  "i_NodeID (Update_apply now st nd ct i) = (if nd = '''' then i_NodeID i else nd)"
  "i_ExecutionID (Update_apply now st nd ct i) = i_ExecutionID i"
  "i_Status (Update_apply now st nd ct i) = st"
  "i_Health (Update_apply now st nd ct i) = i_Health i"
  "i_Draining (Update_apply now st nd ct i) = i_Draining i"
  "i_DrainStartedAt (Update_apply now st nd ct i) = i_DrainStartedAt i"
  "i_Ports (Update_apply now st nd ct i) = i_Ports i"
  "i_UnknownSince (Update_apply now st nd ct i) = i_UnknownSince i"
  "i_ContainerID (Update_apply now st nd ct i) = (if ct = '''' then i_ContainerID i else ct)"
  "i_StartedAt (Update_apply now st nd ct i) =
     (if st = StatusRunning \<and> i_StartedAt i = None then Some now else i_StartedAt i)"
  "i_StoppedAt (Update_apply now st nd ct i) =
     (if stopped_or_crashed st \<and> i_StoppedAt i = None then Some now else i_StoppedAt i)"
  by (simp_all add: Update_apply_def Let_def)

text \<open>Every operation but creation rewrites at most one entry.\<close>

definition inst_moves :: "Instance \<Rightarrow> Instance \<Rightarrow> bool" where
  "inst_moves i i' \<longleftrightarrow> inst_ok i' \<and> inst_evolves i i'"

lemmas inst_move_defs = inst_moves_def inst_ok_def inst_evolves_def

lemma inst_evolves_refl: "inst_evolves i i"
  by (simp add: inst_evolves_def)

lemma Update_apply_assign:
  "inst_ok i \<Longrightarrow> i_Status i = StatusPending \<Longrightarrow> inst_moves i (Update_apply now StatusAssigned nd '''' i)"
  by (simp add: inst_move_defs)

lemma Update_apply_stop:
  "inst_ok i \<Longrightarrow> \<not> stopped_or_crashed (i_Status i) \<Longrightarrow> st \<in> {StatusStopping, StatusStopped, StatusCrashed} \<Longrightarrow>
    nd = '''' \<or> nd = i_NodeID i \<Longrightarrow> ct = '''' \<or> ct = i_ContainerID i \<Longrightarrow>
    inst_moves i (Update_apply now st nd ct i)"
  by (elim insertE disjE) (simp_all add: inst_move_defs)

lemma Report_apply_moves:
  "inst_ok i \<Longrightarrow> \<not> stopped_or_crashed (i_Status i) \<Longrightarrow> i_ExecutionID i \<noteq> '''' \<Longrightarrow>
    st \<notin> {StatusPending, StatusAssigned, StatusStarting, StatusUnknown} \<Longrightarrow>
    inst_moves i (Report_apply now st hl ct ps i)"
  by (simp add: inst_move_defs)

lemma Report_same_one_write:
  "map_of r k = Some i \<Longrightarrow> inst_ok i \<Longrightarrow> one_write inst_moves r (fst (Report_same k ct ps i r))"
  unfolding Report_same_def Let_def fst_conv
  by (split if_split, intro conjI impI one_write_mput one_write_same, assumption)
    (simp add: inst_move_defs)

lemma Inst_Update_one_write:
  assumes "inst_protocol (IUpdate now k st nd ct) r" and "\<forall>i \<in> set (mvals r). inst_ok i"
  shows "one_write inst_moves r (fst (Inst_UpdateState now k st nd ct r))"
proof (cases "map_of r k")
  case None
  then show ?thesis by (simp add: Inst_UpdateState_def)
next
  case (Some i)
  then have "inst_ok i" using mvals_lookup [OF Some] assms by auto
  with Some assms(1) show ?thesis
    by (auto simp: Inst_UpdateState_def Let_def
        intro!: one_write_mput [OF Some] Update_apply_assign Update_apply_stop)
qed

lemma Inst_Claim_one_write:
  assumes "rid \<noteq> ''''" and "\<forall>i \<in> set (mvals r). inst_ok i"
  shows "one_write inst_moves r (fst (Inst_Claim rid k nd r))"
proof (cases "map_of r k")
  case None
  then show ?thesis by (simp add: Inst_Claim_def)
next
  case (Some i)
  then have ok: "inst_ok i" using mvals_lookup [OF Some] assms by blast
  let ?i = "i\<lparr>i_Status := StatusStarting, i_ExecutionID := rid, i_UnknownSince := None\<rparr>"
  have "inst_moves i ?i" if "i_Status i = StatusAssigned \<or> i_Status i = StatusUnknown \<and> i_ExecutionID i = ''''"
    using that ok assms(1) by (auto simp: inst_move_defs)
  with Some show ?thesis by (simp add: Inst_Claim_def Let_def one_write_mput [OF Some])
qed

lemma Inst_Report_one_write:
  assumes "ex \<noteq> ''''" and "\<forall>i \<in> set (mvals r). inst_ok i"
  shows "one_write inst_moves r (fst (Inst_ReportStatus now k nd ex st hl ct ps r))"
proof (cases "map_of r k")
  case None
  then show ?thesis by (simp add: Inst_ReportStatus_def)
next
  case (Some i)
  then have "inst_ok i" using mvals_lookup [OF Some] assms by auto
  with Some assms(1) show ?thesis
    by (auto simp: Inst_ReportStatus_def Let_def
        intro!: one_write_mput [OF Some] Report_apply_moves Report_same_one_write)
qed

lemma Inst_MarkUnknown_one_write:
  assumes "\<forall>i \<in> set (mvals r). inst_ok i"
  shows "one_write inst_moves r (fst (Inst_MarkUnknown now k r))"
proof (cases "map_of r k")
  case None
  then show ?thesis by (simp add: Inst_MarkUnknown_def)
next
  case (Some i)
  then have ok: "inst_ok i" using mvals_lookup [OF Some] assms by blast
  show ?thesis
  proof (cases "stopped_or_crashed (i_Status i)")
    case True
    with Some show ?thesis by (simp add: Inst_MarkUnknown_def)
  next
    case False
    with ok have "inst_moves i (i\<lparr>i_Status := StatusUnknown\<rparr>)" if "i_UnknownSince i \<noteq> None"
      using that by (simp add: inst_move_defs)
    moreover from False ok have "inst_moves i (i\<lparr>i_Status := StatusUnknown, i_UnknownSince := Some now\<rparr>)"
      by (simp add: inst_move_defs)
    ultimately show ?thesis
      using False Some by (simp add: Inst_MarkUnknown_def Let_def one_write_mput [OF Some])
  qed
qed

lemma Inst_MarkDraining_one_write:
  assumes "\<forall>i \<in> set (mvals r). inst_ok i"
  shows "one_write inst_moves r (fst (Inst_MarkDraining now k r))"
proof (cases "map_of r k")
  case None
  then show ?thesis by (simp add: Inst_MarkDraining_def)
next
  case (Some i)
  then have ok: "inst_ok i" using mvals_lookup [OF Some] assms by blast
  then have "inst_moves i (i\<lparr>i_Draining := True, i_DrainStartedAt := Some now\<rparr>)" if "\<not> i_Draining i"
    using that by (simp add: inst_move_defs)
  with Some show ?thesis by (simp add: Inst_MarkDraining_def one_write_mput [OF Some])
qed

lemmas inst_one_write =
  Inst_Update_one_write Inst_Claim_one_write Inst_Report_one_write
  Inst_MarkUnknown_one_write Inst_MarkDraining_one_write

lemma inst_step_one_write:
  assumes "inst_inv r" and "inst_protocol op r" and "\<And>rid now app dep. op \<noteq> ICreate rid now app dep"
  shows "one_write inst_moves r (inst_step op r)"
  using assms by (cases op) (auto simp: inst_inv_def simp del: inst_protocol.simps(2) intro: inst_one_write)

lemma inst_inv_one_write:
  assumes "inst_inv r" and "one_write inst_moves r r'"
  shows "inst_inv r' \<and> insts_evolve r r'"
proof -
  have k: "keyed i_ID r" and b: "\<forall>i \<in> set (mvals r). inst_ok i"
    using assms(1) by (auto simp: inst_inv_def)
  have "keyed i_ID r'"
    by (rule one_write_keyed [OF assms(2) k]) (simp add: inst_move_defs)
  moreover have "\<forall>i \<in> set (mvals r'). inst_ok i"
    by (rule one_write_ball [OF assms(2) k b]) (simp add: inst_moves_def)
  moreover have "insts_evolve r r'"
    unfolding insts_evolve_def
    using one_write_lookup [OF assms(2), where R = inst_evolves] inst_evolves_refl
    by (metis inst_moves_def)
  ultimately show ?thesis by (simp add: inst_inv_def)
qed

lemma inst_inv_Create:
  assumes "inst_inv r" and "map_of r rid = None"
  shows "inst_inv (fst (Inst_Create rid now app dep r)) \<and> insts_evolve r (fst (Inst_Create rid now app dep r))"
  using assms
  by (auto simp: inst_inv_def Inst_Create_def Let_def inst_ok_def insts_evolve_def inst_evolves_refl
      set_mvals in_mput_cases keyed_distinct intro!: keyed_mput split: if_splits)

lemma inst_step_keeps:
  assumes "inst_inv r" and "inst_protocol op r"
  shows "inst_inv (inst_step op r) \<and> insts_evolve r (inst_step op r)"
proof (cases "\<exists>rid now app dep. op = ICreate rid now app dep")
  case True
  then show ?thesis using assms inst_inv_Create by auto
next
  case False
  with assms show ?thesis by (intro inst_inv_one_write inst_step_one_write) auto
qed

lemma inst_evolves_trans: "inst_evolves i i' \<Longrightarrow> inst_evolves i' i'' \<Longrightarrow> inst_evolves i i''"
  by (auto simp: inst_evolves_def)

interpretation inst_machine: invariant_machine NewInstRegistry inst_protocol inst_step inst_inv
  by unfold_locales (simp add: NewInstRegistry_def inst_inv_def, blast dest: inst_step_keeps)

interpretation inst_progress: monotone_machine inst_protocol inst_step inst_inv insts_evolve
proof
  show "insts_evolve s s" for s by (auto simp: insts_evolve_def inst_evolves_refl)
  show "insts_evolve s t \<Longrightarrow> insts_evolve t u \<Longrightarrow> insts_evolve s u" for s t u
    unfolding insts_evolve_def using inst_evolves_trans by meson
qed (auto dest: inst_step_keeps)

interpretation inst_table: id_registry "\<lambda>r. r" i_ID Inst_Get Inst_List InstNotFound
  by unfold_locales (auto simp: Inst_Get_def Inst_List_def split: option.splits)

definition inst_report ::
  "time \<times> InstanceStatus \<times> InstanceHealth \<times> string \<times> PortMapping list \<Rightarrow> string \<Rightarrow> string \<Rightarrow> string
    \<Rightarrow> InstRegistry \<Rightarrow> InstRegistry \<times> (InstError + Instance)" where
  "inst_report a k nodeID executionID r =
     (case a of (now, st, hl, ct, ps) \<Rightarrow> Inst_ReportStatus now k nodeID executionID st hl ct ps r)"

interpretation inst_fence: fenced_store map_of i_NodeID i_ExecutionID inst_report
  by unfold_locales (auto simp: inst_report_def Inst_ReportStatus_def split: prod.splits)

section \<open>Properties\<close>

text \<open>
  C21: in every state the registry reaches under the calls the program makes, the fields of an
  instance agree with its status: it is stored under its own identifier; \<open>StoppedAt\<close> is set
  exactly on \<open>STOPPED\<close> and \<open>CRASHED\<close>, \<open>StartedAt\<close> on every \<open>RUNNING\<close> and \<open>UnknownSince\<close> on
  every \<open>UNKNOWN\<close> instance, so the \<open>UNKNOWN\<close> timeout of the reconciler always has a start;
  \<open>DrainStartedAt\<close> exactly on draining ones; a \<open>PENDING\<close> or \<open>ASSIGNED\<close> instance has no
  execution identity, a \<open>STARTING\<close> or \<open>RUNNING\<close> one has.
\<close>

theorem inst_fields_agree:
  assumes "reach NewInstRegistry inst_protocol inst_step r" and "Inst_Get r k = Inr i"
  shows "i_ID i = k \<and> (stopped_or_crashed (i_Status i) \<longleftrightarrow> i_StoppedAt i \<noteq> None) \<and>
    (i_Status i = StatusRunning \<longrightarrow> i_StartedAt i \<noteq> None) \<and>
    (i_Status i = StatusUnknown \<longrightarrow> i_UnknownSince i \<noteq> None) \<and>
    (i_Draining i \<longleftrightarrow> i_DrainStartedAt i \<noteq> None) \<and>
    (i_Status i \<in> {StatusPending, StatusAssigned} \<longrightarrow> i_ExecutionID i = '''') \<and>
    (i_Status i \<in> {StatusStarting, StatusRunning} \<longrightarrow> i_ExecutionID i \<noteq> '''')"
proof -
  have inv: "inst_inv r" using assms(1) by (rule inst_machine.reach_inv)
  then have "i \<in> set (Inst_List r) \<and> i_ID i = k"
    using assms(2) inst_table.Get_iff_Lst by (auto simp: inst_inv_def)
  with inv show ?thesis by (simp add: inst_inv_def Inst_List_def inst_ok_def)
qed

definition example_ops :: "inst_op list" where
  "example_ops = [ICreate ''i1'' 1 ''app'' ''dep'', IUpdate 2 ''i1'' StatusAssigned ''n1'' '''',
     IClaim ''x1'' ''i1'' ''n1'']"

definition example_insts :: InstRegistry where
  "example_insts = fold inst_step example_ops NewInstRegistry"

lemma example_insts_reach: "reach NewInstRegistry inst_protocol inst_step example_insts"
  unfolding example_insts_def example_ops_def fold.simps comp_def id_def
  by (intro reach_step reach_init)
    (simp_all add: NewInstRegistry_def Inst_Create_def Let_def)

lemma example_insts_value:
  "example_insts = [(''i1'', \<lparr>i_ID = ''i1'', i_ApplicationID = ''app'', i_DeploymentID = ''dep'',
     i_NodeID = ''n1'', i_ExecutionID = ''x1'', i_Status = StatusStarting,
     i_Health = HealthOther '''', i_Draining = False, i_DrainStartedAt = None,
     i_ContainerID = '''', i_Ports = [], i_CreatedAt = 1, i_StartedAt = None,
     i_StoppedAt = None, i_UnknownSince = None\<rparr>)]"
  by (simp add: example_insts_def example_ops_def NewInstRegistry_def Inst_Create_def
      Inst_UpdateState_def Update_apply_def Inst_Claim_def Let_def)

theorem inst_fields_agree_witness:
  "\<exists>i. Inst_Get example_insts ''i1'' = Inr i \<and> i_Status i = StatusStarting \<and> i_ExecutionID i \<noteq> ''''"
  using inst_fields_agree [OF example_insts_reach, of "''i1''"]
  by (auto simp: Inst_Get_def example_insts_value)

text \<open>
  An instance never leaves \<open>STOPPED\<close> or \<open>CRASHED\<close> and is never queued again; its
  application, deployment and identifier never change; once it has an execution identity, it
  keeps it and its node, and the container it once got, for ever; draining is never undone.
\<close>

lemma inst_terminal_final:
  assumes "inst_inv r" and "reach r inst_protocol inst_step r'" and "map_of r k = Some i"
  shows "\<exists>i'. map_of r' k = Some i' \<and> i_ID i' = i_ID i \<and> i_ApplicationID i' = i_ApplicationID i \<and>
    i_DeploymentID i' = i_DeploymentID i \<and>
    (stopped_or_crashed (i_Status i) \<longrightarrow> i_Status i' = i_Status i \<and> i_StoppedAt i' = i_StoppedAt i) \<and>
    (i_Status i \<noteq> StatusPending \<longrightarrow> i_Status i' \<noteq> StatusPending) \<and>
    (i_ExecutionID i \<noteq> '''' \<longrightarrow> i_ExecutionID i' = i_ExecutionID i \<and> i_NodeID i' = i_NodeID i) \<and>
    (i_ContainerID i \<noteq> '''' \<longrightarrow> i_ContainerID i' = i_ContainerID i) \<and>
    (i_Draining i \<longrightarrow> i_Draining i')"
  using inst_progress.reach_rel [OF assms(1,2)] assms(3)
  unfolding insts_evolve_def inst_evolves_def by blast

lemma inst_terminal_final_example:
  "\<exists>i'. map_of (inst_step (IDrain 5 ''i1'') example_insts) ''i1'' = Some i' \<and>
    i_ExecutionID i' = ''x1'' \<and> i_NodeID i' = ''n1''"
proof -
  have "reach example_insts inst_protocol inst_step (inst_step (IDrain 5 ''i1'') example_insts)"
    by (intro reach_step reach_init) simp
  from inst_terminal_final [OF inst_machine.reach_inv [OF example_insts_reach] this, of "''i1''"]
  show ?thesis by (auto simp: example_insts_value)
qed

text \<open>
  An instance is started at most once. After a claim succeeded, no later claim for it
  succeeds, by any node and after any sequence of further calls; so no two agents run it.
\<close>

lemma inst_claimed_once:
  assumes "inst_inv r" and "rid \<noteq> ''''" and "Inst_Claim rid k nd r = (r1, Inr i)"
    and "reach r1 inst_protocol inst_step r2"
  shows "\<exists>e. Inst_Claim rid' k nd' r2 = (r2, Inl e)"
proof -
  have "inst_inv r1"
    using inst_step_keeps [OF assms(1), of "IClaim rid k nd"] assms(2,3) by simp
  moreover obtain i1 where "map_of r1 k = Some i1" "i_ExecutionID i1 \<noteq> ''''"
    using assms(2,3) by (auto simp: Inst_Claim_def Let_def split: option.splits if_splits)
  ultimately obtain i2 where look: "map_of r2 k = Some i2" and ex: "i_ExecutionID i2 \<noteq> ''''"
    using inst_progress.reach_rel [OF _ assms(4)]
    unfolding insts_evolve_def inst_evolves_def by (metis (no_types, lifting))
  have "inst_ok i2"
    using inst_progress.reach_keeps [OF assms(4) \<open>inst_inv r1\<close>] mvals_lookup [OF look]
    by (auto simp: inst_inv_def)
  with look ex show ?thesis by (auto simp: Inst_Claim_def inst_ok_def)
qed

definition example_assigned :: InstRegistry where
  "example_assigned = fold inst_step (take 2 example_ops) NewInstRegistry"

lemma example_assigned_inv: "inst_inv example_assigned"
  unfolding example_assigned_def example_ops_def
  by (simp add: NewInstRegistry_def Inst_Create_def Inst_UpdateState_def Update_apply_def Let_def
      inst_inv_def keyed_def inst_ok_def)

lemma example_claim: "\<exists>i. Inst_Claim ''x1'' ''i1'' ''n1'' example_assigned = (example_insts, Inr i)"
  by (simp add: example_assigned_def example_insts_value example_ops_def NewInstRegistry_def
      Inst_Create_def Inst_UpdateState_def Update_apply_def Inst_Claim_def Let_def)

lemma inst_claimed_once_example:
  "\<exists>e. Inst_Claim ''x2'' ''i1'' ''n1'' example_insts = (example_insts, Inl e)"
  using example_claim inst_claimed_once [OF example_assigned_inv, of "''x1''" "''i1''" "''n1''" example_insts _ example_insts "''x2''" "''n1''"]
  by (auto intro: reach_init)

text \<open>
  Fencing of status reports. A report that names another node or another execution than
  the stored instance changes nothing; an accepted report came from the node and execution
  the instance names; and no report sets \<open>PENDING\<close>, \<open>ASSIGNED\<close>, \<open>STARTING\<close> or \<open>UNKNOWN\<close>.
\<close>

lemma inst_report_fenced:
  "case map_of r k of
     None \<Rightarrow> Inst_ReportStatus now k node ex st hl ct ps r = (r, Inl InstNotFound)
   | Some i \<Rightarrow>
       (i_NodeID i \<noteq> node \<or> i_ExecutionID i \<noteq> ex \<or>
        st \<in> {StatusPending, StatusAssigned, StatusStarting, StatusUnknown} \<longrightarrow>
          (\<exists>e. Inst_ReportStatus now k node ex st hl ct ps r = (r, Inl e))) \<and>
       (\<forall>i'. snd (Inst_ReportStatus now k node ex st hl ct ps r) = Inr i' \<longrightarrow>
          i_Status i' = st \<and> i_ExecutionID i' = ex \<and> i_NodeID i' = node \<and>
          map_of (fst (Inst_ReportStatus now k node ex st hl ct ps r)) k = Some i')"
proof (cases "map_of r k")
  case (Some i)
  then show ?thesis
    by (auto simp: Inst_ReportStatus_def Let_def) (auto simp: Report_same_def Let_def)
qed (simp add: Inst_ReportStatus_def)

lemma inst_report_fenced_example:
  "\<exists>e. Inst_ReportStatus 9 ''i1'' ''n1'' ''old'' StatusRunning HealthHealthy ''c'' [] example_insts =
    (example_insts, Inl e)"
  using inst_report_fenced [where r = example_insts and k = "''i1''" and now = 9 and node = "''n1''"
      and ex = "''old''" and st = StatusRunning and hl = HealthHealthy and ct = "''c''" and ps = "[]"]
  by (simp add: example_insts_value)

text \<open>
  The comment in \<open>ReportStatus\<close> lets an agent move a \<open>STOPPING\<close> instance to \<open>STOPPED\<close> or
  \<open>CRASHED\<close> only; the code also accepts \<open>RUNNING\<close> for it, so a late health report of the
  agent undoes the stop the reconciler decided.
\<close>

lemma inst_report_revives_stopping:
  assumes "map_of r k = Some i" and "i_Status i = StatusStopping"
  shows "\<exists>i'. Inst_ReportStatus now k (i_NodeID i) (i_ExecutionID i) StatusRunning hl ct ps r =
      (mput k i' r, Inr i') \<and> i_Status i' = StatusRunning"
  using assms by (simp add: Inst_ReportStatus_def Let_def)

definition example_stopping :: InstRegistry where
  "example_stopping = inst_step (IUpdate 7 ''i1'' StatusStopping '''' '''') example_insts"

lemma inst_report_revives_stopping_example:
  "map_option i_Status (map_of (inst_step (IReport 8 ''i1'' ''n1'' ''x1'' StatusRunning
      HealthHealthy ''c'' []) example_stopping) ''i1'') = Some StatusRunning"
proof -
  obtain i where i: "map_of example_stopping ''i1'' = Some i" "i_Status i = StatusStopping"
    "i_NodeID i = ''n1''" "i_ExecutionID i = ''x1''"
    by (simp add: example_stopping_def example_insts_value Inst_UpdateState_def Let_def)
  from inst_report_revives_stopping [OF i(1,2), of 8 HealthHealthy "''c''" "[]"] i(3,4)
  show ?thesis by auto
qed

end
