(* ===== verification/Application.thy ===== *)
theory Application
  imports Prelude
begin

text \<open>
  Applications: \<open>internal/application/application.go\<close>, \<open>validation.go\<close> and \<open>registry.go\<close>.

  The registry keeps two maps, the applications by identifier and the identifier of each
  name. Pointers to optional parts (\<open>Resources\<close>, \<open>Strategy\<close>, the probes) are options; nil and
  empty slices and maps are not told apart, as the code never does. No code writes through
  the pointers that \<open>DeepCopy\<close> shares, so copies are values.
\<close>

section \<open>Data\<close>

datatype AppStatus =
    AppPending | AppDeploying | AppReady | AppDegraded | AppStopped | AppStatusOther string

record AppPort =
  ap_ContainerPort :: int
  ap_HostPort :: int
  ap_Protocol :: string

datatype RolloutStrategyType =
    RolloutStrategyImmediate | RolloutStrategyRollingUpdate | RolloutStrategyOther string

record RolloutStrategy =
  rs_Type :: RolloutStrategyType
  rs_MaxSurge :: int
  rs_MaxUnavailable :: int

record ResourceRequirements =
  rr_CPU :: float64
  rr_MemoryMB :: int

record Probe =
  pr_Type :: string
  pr_Path :: string
  pr_Port :: int
  pr_InitialDelaySecs :: int
  pr_PeriodSecs :: int
  pr_TimeoutSecs :: int
  pr_SuccessThreshold :: int
  pr_FailureThreshold :: int

record AppSpec =
  s_Resources :: "ResourceRequirements option"
  s_Image :: string
  s_Command :: "string list"
  s_Args :: "string list"
  s_Environment :: "(string, string) gomap"
  s_Ports :: "AppPort list"
  s_Replicas :: int
  s_Strategy :: "RolloutStrategy option"
  s_ReadinessProbe :: "Probe option"
  s_LivenessProbe :: "Probe option"

record Application =
  a_ID :: string
  a_Name :: string
  a_Spec :: AppSpec
  a_ActiveDeploymentID :: string
  a_Status :: AppStatus
  a_CreatedAt :: time
  a_UpdatedAt :: time

datatype AppError =
    AppNotFound | AppAlreadyExists
  | CPUNotPositive | MemoryNotPositive | NegativeReplicas | SurgeAndUnavailableZero
  | ProbeType | ProbePort | ProbePath | ProbeDelay | ProbePeriod | ProbeTimeout
  | ProbeSuccess | ProbeFailure

section \<open>Validation\<close>

definition validateProbe :: "Probe option \<Rightarrow> AppError option" where
  "validateProbe po =
     (case po of None \<Rightarrow> None
      | Some p \<Rightarrow>
          if pr_Type p \<noteq> ''HTTP'' \<and> pr_Type p \<noteq> ''TCP'' then Some ProbeType
          else if pr_Port p \<le> 0 \<or> pr_Port p > 65535 then Some ProbePort
          else if pr_Type p = ''HTTP'' \<and> pr_Path p = '''' then Some ProbePath
          else if pr_InitialDelaySecs p < 0 then Some ProbeDelay
          else if pr_PeriodSecs p \<le> 0 then Some ProbePeriod
          else if pr_TimeoutSecs p \<le> 0 then Some ProbeTimeout
          else if pr_SuccessThreshold p \<le> 0 then Some ProbeSuccess
          else if pr_FailureThreshold p \<le> 0 then Some ProbeFailure
          else None)"

definition validateResources :: "ResourceRequirements option \<Rightarrow> AppError option" where
  "validateResources ro =
     (case ro of None \<Rightarrow> None
      | Some rr \<Rightarrow>
          if rr_CPU rr \<le> 0 then Some CPUNotPositive
          else if rr_MemoryMB rr \<le> 0 then Some MemoryNotPositive
          else None)"

definition rolling_deadlock :: "AppSpec \<Rightarrow> bool" where
  "rolling_deadlock spec \<longleftrightarrow>
     (case s_Strategy spec of None \<Rightarrow> False
      | Some st \<Rightarrow> rs_Type st = RolloutStrategyRollingUpdate \<and> s_Replicas spec \<ge> 1 \<and>
          rs_MaxSurge st = 0 \<and> rs_MaxUnavailable st = 0)"

definition ValidateAppSpec :: "AppSpec \<Rightarrow> AppError option" where
  "ValidateAppSpec spec =
     (case validateResources (s_Resources spec) of
        Some e \<Rightarrow> Some e
      | None \<Rightarrow>
          if s_Replicas spec < 0 then Some NegativeReplicas
          else if rolling_deadlock spec then Some SurgeAndUnavailableZero
          else
            (case validateProbe (s_ReadinessProbe spec) of
               Some e \<Rightarrow> Some e
             | None \<Rightarrow> validateProbe (s_LivenessProbe spec)))"

definition EnsureDefaultStrategy :: "AppSpec \<Rightarrow> AppSpec" where
  "EnsureDefaultStrategy spec =
     (case s_Strategy spec of
        None \<Rightarrow> spec\<lparr>s_Strategy := Some \<lparr>rs_Type = RolloutStrategyRollingUpdate, rs_MaxSurge = 1,
                                        rs_MaxUnavailable = 1\<rparr>\<rparr>
      | Some _ \<Rightarrow> spec)"

section \<open>The registry\<close>

record AppRegistry =
  apps :: "(string, Application) gomap"
  app_names :: "(string, string) gomap"

definition NewAppRegistry :: AppRegistry where
  "NewAppRegistry = \<lparr>apps = [], app_names = []\<rparr>"

definition App_Create ::
  "string \<Rightarrow> time \<Rightarrow> time \<Rightarrow> string \<Rightarrow> AppSpec \<Rightarrow> AppRegistry \<Rightarrow> AppRegistry \<times> (AppError + Application)" where
  "App_Create rid nowC nowU name spec0 r =
     (if map_of (app_names r) name \<noteq> None then (r, Inl AppAlreadyExists)
      else
        (let spec = EnsureDefaultStrategy spec0 in
         case ValidateAppSpec spec of
           Some e \<Rightarrow> (r, Inl e)
         | None \<Rightarrow>
             (let app = \<lparr>a_ID = rid, a_Name = name, a_Spec = spec, a_ActiveDeploymentID = '''',
                         a_Status = AppPending, a_CreatedAt = nowC, a_UpdatedAt = nowU\<rparr>
              in (r\<lparr>apps := mput rid app (apps r), app_names := mput name rid (app_names r)\<rparr>,
                  Inr app))))"

definition App_Get :: "AppRegistry \<Rightarrow> string \<Rightarrow> AppError + Application" where
  "App_Get r k = (case map_of (apps r) k of None \<Rightarrow> Inl AppNotFound | Some a \<Rightarrow> Inr a)"

definition App_List :: "AppRegistry \<Rightarrow> Application list" where
  "App_List r = mvals (apps r)"

definition App_Update ::
  "time \<Rightarrow> string \<Rightarrow> AppSpec \<Rightarrow> string \<Rightarrow> AppStatus \<Rightarrow> AppRegistry
    \<Rightarrow> AppRegistry \<times> (AppError + Application)" where
  "App_Update now k spec0 activeDeploymentID st r =
     (case map_of (apps r) k of
        None \<Rightarrow> (r, Inl AppNotFound)
      | Some app \<Rightarrow>
          (let spec = EnsureDefaultStrategy spec0 in
           case ValidateAppSpec spec of
             Some e \<Rightarrow> (r, Inl e)
           | None \<Rightarrow>
               (let app1 = app\<lparr>a_Spec := spec, a_ActiveDeploymentID := activeDeploymentID,
                               a_Status := st, a_UpdatedAt := now\<rparr>
                in (r\<lparr>apps := mput k app1 (apps r)\<rparr>, Inr app1))))"

definition App_Rollback ::
  "time \<Rightarrow> string \<Rightarrow> string \<Rightarrow> AppRegistry \<Rightarrow> AppRegistry \<times> (AppError + Application)" where
  "App_Rollback now k activeDeploymentID r =
     (case map_of (apps r) k of
        None \<Rightarrow> (r, Inl AppNotFound)
      | Some app \<Rightarrow>
          (let app1 = app\<lparr>a_ActiveDeploymentID := activeDeploymentID, a_UpdatedAt := now\<rparr>
           in (r\<lparr>apps := mput k app1 (apps r)\<rparr>, Inr app1)))"

definition App_GetByName :: "AppRegistry \<Rightarrow> string \<Rightarrow> AppError + Application" where
  "App_GetByName r name =
     (case map_of (app_names r) name of
        None \<Rightarrow> Inl AppNotFound
      | Some k \<Rightarrow> (case map_of (apps r) k of None \<Rightarrow> Inl AppNotFound | Some a \<Rightarrow> Inr a))"

section \<open>Runs of the registry\<close>

datatype app_op =
    ACreate string time time string AppSpec
  | AUpdate time string AppSpec string AppStatus
  | ARollback time string string

fun app_step :: "app_op \<Rightarrow> AppRegistry \<Rightarrow> AppRegistry" where
  "app_step (ACreate rid t u name spec) r = fst (App_Create rid t u name spec r)"
| "app_step (AUpdate t k spec dep st) r = fst (App_Update t k spec dep st r)"
| "app_step (ARollback t k dep) r = fst (App_Rollback t k dep r)"

text \<open>The only condition on the environment: a drawn identifier is new.\<close>

fun app_op_ok :: "app_op \<Rightarrow> AppRegistry \<Rightarrow> bool" where
  "app_op_ok (ACreate rid t u name spec) r \<longleftrightarrow> map_of (apps r) rid = None"
| "app_op_ok (AUpdate t k spec dep st) r \<longleftrightarrow> True"
| "app_op_ok (ARollback t k dep) r \<longleftrightarrow> True"

definition spec_ok :: "AppSpec \<Rightarrow> bool" where
  "spec_ok spec \<longleftrightarrow> ValidateAppSpec spec = None \<and> s_Strategy spec \<noteq> None"

text \<open>The name index and the table describe the same relation.\<close>

definition app_inv :: "AppRegistry \<Rightarrow> bool" where
  "app_inv r \<longleftrightarrow> keyed a_ID (apps r) \<and> indexed a_Name (apps r) (app_names r) \<and>
     (\<forall>a \<in> set (mvals (apps r)). spec_ok (a_Spec a))"

lemma EnsureDefaultStrategy_set [simp]: "s_Strategy (EnsureDefaultStrategy spec) \<noteq> None"
  by (simp add: EnsureDefaultStrategy_def split: option.splits)

lemma EnsureDefaultStrategy_idem [simp]:
  "EnsureDefaultStrategy (EnsureDefaultStrategy spec) = EnsureDefaultStrategy spec"
  by (simp add: EnsureDefaultStrategy_def split: option.splits)

lemma spec_ok_EnsureDefaultStrategy [simp]:
  "spec_ok (EnsureDefaultStrategy spec) \<longleftrightarrow> ValidateAppSpec (EnsureDefaultStrategy spec) = None"
  by (simp add: spec_ok_def del: not_None_eq)

lemma validateProbe_None:
  "validateProbe (Some p) = None \<longleftrightarrow>
     (pr_Type p = ''HTTP'' \<and> pr_Path p \<noteq> '''' \<or> pr_Type p = ''TCP'') \<and>
     0 < pr_Port p \<and> pr_Port p \<le> 65535 \<and> 0 \<le> pr_InitialDelaySecs p \<and> 0 < pr_PeriodSecs p \<and>
     0 < pr_TimeoutSecs p \<and> 0 < pr_SuccessThreshold p \<and> 0 < pr_FailureThreshold p"
  by (auto simp: validateProbe_def)

lemma ValidateAppSpec_None:
  "ValidateAppSpec spec = None \<longleftrightarrow> validateResources (s_Resources spec) = None \<and>
     0 \<le> s_Replicas spec \<and> \<not> rolling_deadlock spec \<and>
     validateProbe (s_ReadinessProbe spec) = None \<and> validateProbe (s_LivenessProbe spec) = None"
  by (auto simp: ValidateAppSpec_def split: option.splits)

lemma app_inv_put:
  assumes inv: "app_inv r" and look: "map_of (apps r) k = Some a"
    and kept: "a_ID a' = a_ID a" "a_Name a' = a_Name a" and ok: "spec_ok (a_Spec a')"
  shows "app_inv (r\<lparr>apps := mput k a' (apps r)\<rparr>)"
proof -
  have "a_ID a' = k" using inv look kept by (auto simp: app_inv_def dest: keyed_map_of)
  with inv look kept ok show ?thesis
    unfolding app_inv_def
    by (auto intro!: keyed_mput indexed_rewrite simp: set_mvals in_mput_cases keyed_distinct
        split: if_splits)
qed

lemma app_inv_Create:
  assumes inv: "app_inv r" and new: "map_of (apps r) rid = None"
  shows "app_inv (fst (App_Create rid t u name spec r))"
proof (cases "map_of (app_names r) name = None \<and> ValidateAppSpec (EnsureDefaultStrategy spec) = None")
  case False
  with inv show ?thesis by (auto simp: App_Create_def Let_def split: option.splits)
next
  case True
  then show ?thesis
    using inv new unfolding app_inv_def
    by (auto simp: App_Create_def Let_def set_mvals in_mput_cases keyed_distinct
        intro!: keyed_mput indexed_new split: if_splits)
qed

lemma app_inv_Update: "app_inv r \<Longrightarrow> app_inv (fst (App_Update t k spec dep st r))"
  by (auto simp: App_Update_def Let_def split: option.splits intro!: app_inv_put)

lemma app_inv_Rollback:
  assumes "app_inv r"
  shows "app_inv (fst (App_Rollback t k dep r))"
proof (cases "map_of (apps r) k")
  case None
  with assms show ?thesis by (simp add: App_Rollback_def)
next
  case (Some a)
  then have "spec_ok (a_Spec a)" using assms mvals_lookup [OF Some] by (auto simp: app_inv_def)
  with assms Some show ?thesis by (auto simp: App_Rollback_def Let_def intro!: app_inv_put)
qed

interpretation app_machine: invariant_machine NewAppRegistry app_op_ok app_step app_inv
proof
  show "app_inv NewAppRegistry" by (simp add: app_inv_def NewAppRegistry_def)
next
  fix s op assume "app_inv s" and "app_op_ok op s"
  then show "app_inv (app_step op s)"
    by (cases op) (auto intro: app_inv_Create app_inv_Update app_inv_Rollback)
qed

interpretation app_table: id_registry apps a_ID App_Get App_List AppNotFound
  by unfold_locales (auto simp: App_Get_def App_List_def split: option.splits)

lemma App_GetByName_iff:
  assumes "app_inv r"
  shows "App_GetByName r n = Inr a \<longleftrightarrow> a \<in> set (App_List r) \<and> a_Name a = n"
proof
  have kd: "keyed a_ID (apps r)" and ix: "indexed a_Name (apps r) (app_names r)"
    using assms by (simp_all add: app_inv_def)
  {
    assume "App_GetByName r n = Inr a"
    then obtain k where "map_of (app_names r) n = Some k" and a: "map_of (apps r) k = Some a"
      by (auto simp: App_GetByName_def split: option.splits)
    then have "a_Name a = n" using indexed_SomeD [OF ix] by fastforce
    with a show "a \<in> set (App_List r) \<and> a_Name a = n"
      by (auto simp: App_List_def dest: mvals_lookup)
  next
    assume "a \<in> set (App_List r) \<and> a_Name a = n"
    then show "App_GetByName r n = Inr a"
      using keyed_mem [OF kd] indexed_lookup [OF ix] by (auto simp: App_GetByName_def App_List_def)
  }
qed

section \<open>Properties\<close>

text \<open>
  In every reachable state the two maps of the application registry agree: \<open>Get\<close> and
  \<open>GetByName\<close> find exactly the listed applications under their own identifier and name,
  identifiers and names are unique, and a name that is taken is refused.
\<close>

lemma app_lookup_consistent:
  assumes "reach NewAppRegistry app_op_ok app_step r"
  shows "(App_Get r k = Inr a \<longleftrightarrow> a \<in> set (App_List r) \<and> a_ID a = k) \<and>
    (App_GetByName r n = Inr a \<longleftrightarrow> a \<in> set (App_List r) \<and> a_Name a = n) \<and>
    distinct (map a_ID (App_List r)) \<and> distinct (map a_Name (App_List r)) \<and>
    (n \<in> a_Name ` set (App_List r) \<longrightarrow>
       App_Create rid t u n spec r = (r, Inl AppAlreadyExists))"
proof -
  have inv: "app_inv r" using assms by (rule app_machine.reach_inv)
  then have kd: "keyed a_ID (apps r)" by (simp add: app_inv_def)
  have ix: "indexed a_Name (apps r) (app_names r)" using inv by (simp add: app_inv_def)
  have mem: "v \<in> set (App_List r) \<longleftrightarrow> map_of (apps r) (a_ID v) = Some v" for v
    using kd by (simp add: App_List_def keyed_mem)
  note byname = App_GetByName_iff [OF inv]
  have "inj_on a_Name (set (App_List r))"
    using byname by (intro inj_onI) (metis sum.inject(2))
  moreover have d: "distinct (map a_ID (App_List r))" by (rule app_table.Lst_distinct [OF kd])
  ultimately have "distinct (map a_Name (App_List r))" by (auto simp: distinct_map)
  moreover have "App_Create rid t u n spec r = (r, Inl AppAlreadyExists)" if "n \<in> a_Name ` set (App_List r)"
    using that mem indexed_lookup [OF ix] by (auto simp: App_Create_def)
  ultimately show ?thesis using app_table.Get_iff_Lst [OF kd] byname d by blast
qed

definition example_spec :: AppSpec where
  "example_spec = \<lparr>s_Resources = Some \<lparr>rr_CPU = 1 / 2, rr_MemoryMB = 64\<rparr>, s_Image = ''web'',
     s_Command = [], s_Args = [], s_Environment = [], s_Ports = [], s_Replicas = 2,
     s_Strategy = None, s_ReadinessProbe = None, s_LivenessProbe = None\<rparr>"

definition example_apps :: AppRegistry where
  "example_apps = app_step (ACreate ''a1'' 1 2 ''shop'' example_spec) NewAppRegistry"

lemma example_apps_reach: "reach NewAppRegistry app_op_ok app_step example_apps"
  unfolding example_apps_def by (intro reach_step reach_init) (simp add: NewAppRegistry_def)

lemma example_spec_valid: "ValidateAppSpec (EnsureDefaultStrategy example_spec) = None"
  by (simp add: example_spec_def EnsureDefaultStrategy_def ValidateAppSpec_def
      validateResources_def rolling_deadlock_def validateProbe_def)

lemma example_apps_value:
  "example_apps = \<lparr>apps = [(''a1'', \<lparr>a_ID = ''a1'', a_Name = ''shop'',
      a_Spec = EnsureDefaultStrategy example_spec, a_ActiveDeploymentID = '''',
      a_Status = AppPending, a_CreatedAt = 1, a_UpdatedAt = 2\<rparr>)], app_names = [(''shop'', ''a1'')]\<rparr>"
  by (simp add: example_apps_def App_Create_def NewAppRegistry_def example_spec_valid Let_def)

lemma app_lookup_consistent_example:
  "App_Create ''a2'' 3 4 ''shop'' example_spec example_apps = (example_apps, Inl AppAlreadyExists)"
  using app_lookup_consistent [OF example_apps_reach, of _ _ "''shop''" "''a2''" 3 4 example_spec]
  by (auto simp: example_apps_value App_List_def)

text \<open>
  Every stored specification is valid. Whatever the clients send, an application of the
  registry has a rollout strategy, a replica count of at least 0, positive resource requests
  if it has any, probes with a port in range and positive thresholds, and a rolling update
  with at least one replica never has both \<open>MaxSurge\<close> and \<open>MaxUnavailable\<close> equal to 0.
\<close>

lemma app_specs_valid:
  assumes "reach NewAppRegistry app_op_ok app_step r" and "App_Get r k = Inr a"
  shows "(\<exists>st. s_Strategy (a_Spec a) = Some st \<and>
      (rs_Type st = RolloutStrategyRollingUpdate \<and> 1 \<le> s_Replicas (a_Spec a) \<longrightarrow>
         rs_MaxSurge st \<noteq> 0 \<or> rs_MaxUnavailable st \<noteq> 0)) \<and>
    0 \<le> s_Replicas (a_Spec a) \<and>
    (\<forall>rr. s_Resources (a_Spec a) = Some rr \<longrightarrow> 0 < rr_CPU rr \<and> 0 < rr_MemoryMB rr) \<and>
    (\<forall>p. s_ReadinessProbe (a_Spec a) = Some p \<or> s_LivenessProbe (a_Spec a) = Some p \<longrightarrow>
       0 < pr_Port p \<and> pr_Port p \<le> 65535 \<and> 0 < pr_PeriodSecs p \<and> 0 < pr_TimeoutSecs p \<and>
       0 < pr_SuccessThreshold p \<and> 0 < pr_FailureThreshold p)"
proof -
  have "app_inv r" using assms(1) by (rule app_machine.reach_inv)
  moreover have "map_of (apps r) k = Some a"
    using assms(2) by (auto simp: App_Get_def split: option.splits)
  ultimately have "spec_ok (a_Spec a)" by (auto simp: app_inv_def dest: mvals_lookup)
  then obtain st where "s_Strategy (a_Spec a) = Some st" and "\<not> rolling_deadlock (a_Spec a)"
    "0 \<le> s_Replicas (a_Spec a)" "validateResources (s_Resources (a_Spec a)) = None"
    "validateProbe (s_ReadinessProbe (a_Spec a)) = None"
    "validateProbe (s_LivenessProbe (a_Spec a)) = None"
    by (auto simp: spec_ok_def ValidateAppSpec_None)
  then show ?thesis
    by (auto simp: validateProbe_None validateResources_def rolling_deadlock_def split: if_splits)
qed

lemma app_specs_valid_example:
  "\<exists>a. App_Get example_apps ''a1'' = Inr a \<and> 0 \<le> s_Replicas (a_Spec a)"
  using app_specs_valid [OF example_apps_reach, of "''a1''"]
  by (auto simp: App_Get_def example_apps_value)

end
