(* ===== verification/Deployment.thy ===== *)
theory Deployment
  imports Application
begin

text \<open>
  Deployments: \<open>internal/deployment/deployment.go\<close> and \<open>internal/deployment/registry.go\<close>.

  A deployment is a numbered snapshot of an application specification with its crash counter
  and rollout status. SHA-256 of the JSON encoding is the parameter \<open>hash\<close>; the encoder writes
  map entries in key order, so \<open>hash\<close> is applied to the specification with its environment
  sorted.
\<close>

section \<open>Data\<close>

datatype DeploymentStatus =
    DepActive | DepSuperseded | DepFailed | DepRolledBack | DepStatusOther string

datatype RolloutStatus =
    RolloutPending | RolloutProgressing | RolloutPaused | RolloutFailed | RolloutCompleted
  | RolloutRolledBack

record Deployment =
  d_ID :: string
  d_ApplicationID :: string
  d_Version :: int
  d_SpecSnapshot :: AppSpec
  d_Hash :: string
  d_Status :: DeploymentStatus
  d_RolloutStatus :: RolloutStatus
  d_DesiredReplicas :: int
  d_UpdatedReplicas :: int
  d_ReadyReplicas :: int
  d_UnavailableReplicas :: int
  d_BlockedReason :: string
  d_ConsecutiveCrashes :: int
  d_Degraded :: bool
  d_CreatedAt :: time

record DepRegistry =
  deployments :: "(string, Deployment) gomap"
  appVersions :: "(string, int) gomap"

datatype DepError = DepNotFound

definition MaxCrashLoopThreshold :: int where
  "MaxCrashLoopThreshold = 5"

section \<open>Operations\<close>

definition NewDepRegistry :: DepRegistry where
  "NewDepRegistry = \<lparr>deployments = [], appVersions = []\<rparr>"

definition json_spec :: "AppSpec \<Rightarrow> AppSpec" where
  "json_spec spec = spec\<lparr>s_Environment := go_sort (\<lambda>p q. fst p < fst q) (s_Environment spec)\<rparr>"

definition Dep_Create ::
  "(AppSpec \<Rightarrow> string) \<Rightarrow> string \<Rightarrow> time \<Rightarrow> string \<Rightarrow> AppSpec \<Rightarrow> DepRegistry \<Rightarrow> DepRegistry \<times> Deployment" where
  "Dep_Create hash rid now appID spec r =
     (let version = mget_or 0 (appVersions r) appID + 1;
          dep = \<lparr>d_ID = rid, d_ApplicationID = appID, d_Version = version, d_SpecSnapshot = spec,
                 d_Hash = hash (json_spec spec), d_Status = DepActive,
                 d_RolloutStatus = RolloutPending, d_DesiredReplicas = 0, d_UpdatedReplicas = 0,
                 d_ReadyReplicas = 0, d_UnavailableReplicas = 0, d_BlockedReason = '''',
                 d_ConsecutiveCrashes = 0, d_Degraded = False, d_CreatedAt = now\<rparr>
      in (r\<lparr>appVersions := mput appID version (appVersions r),
            deployments := mput rid dep (deployments r)\<rparr>, dep))"

definition Dep_Get :: "DepRegistry \<Rightarrow> string \<Rightarrow> DepError + Deployment" where
  "Dep_Get r k = (case map_of (deployments r) k of None \<Rightarrow> Inl DepNotFound | Some d \<Rightarrow> Inr d)"

definition Dep_List :: "DepRegistry \<Rightarrow> Deployment list" where
  "Dep_List r = mvals (deployments r)"

definition Dep_ListByApplication :: "DepRegistry \<Rightarrow> string \<Rightarrow> Deployment list" where
  "Dep_ListByApplication r appID = filter (\<lambda>d. d_ApplicationID d = appID) (mvals (deployments r))"

definition put_dep :: "string \<Rightarrow> Deployment \<Rightarrow> DepRegistry \<Rightarrow> DepRegistry" where
  "put_dep k d r = r\<lparr>deployments := mput k d (deployments r)\<rparr>"

definition Dep_UpdateStatus ::
  "string \<Rightarrow> DeploymentStatus \<Rightarrow> DepRegistry \<Rightarrow> DepRegistry \<times> (DepError + Deployment)" where
  "Dep_UpdateStatus k st r =
     (case map_of (deployments r) k of
        None \<Rightarrow> (r, Inl DepNotFound)
      | Some d \<Rightarrow> (let d1 = d\<lparr>d_Status := st\<rparr> in (put_dep k d1 r, Inr d1)))"

definition Dep_UpdateState :: "string \<Rightarrow> DeploymentStatus \<Rightarrow> DepRegistry \<Rightarrow> DepRegistry \<times> DepError option" where
  "Dep_UpdateState k st r =
     (case map_of (deployments r) k of
        None \<Rightarrow> (r, Some DepNotFound)
      | Some d \<Rightarrow> (put_dep k (d\<lparr>d_Status := st\<rparr>) r, None))"

definition Dep_RecordCrash :: "string \<Rightarrow> int \<Rightarrow> DepRegistry \<Rightarrow> DepRegistry \<times> (DepError + Deployment)" where
  "Dep_RecordCrash k threshold r =
     (case map_of (deployments r) k of
        None \<Rightarrow> (r, Inl DepNotFound)
      | Some d \<Rightarrow>
          (let d1 = d\<lparr>d_ConsecutiveCrashes := d_ConsecutiveCrashes d + 1\<rparr>;
               d2 = (if d_ConsecutiveCrashes d1 \<ge> threshold then d1\<lparr>d_Degraded := True\<rparr> else d1)
           in (put_dep k d2 r, Inr d2)))"

definition Dep_ResetCrashCounter :: "string \<Rightarrow> DepRegistry \<Rightarrow> DepRegistry \<times> DepError option" where
  "Dep_ResetCrashCounter k r =
     (case map_of (deployments r) k of
        None \<Rightarrow> (r, Some DepNotFound)
      | Some d \<Rightarrow> (put_dep k (d\<lparr>d_ConsecutiveCrashes := 0\<rparr>) r, None))"

definition Dep_UpdateRolloutStatus ::
  "string \<Rightarrow> RolloutStatus \<Rightarrow> int \<Rightarrow> int \<Rightarrow> int \<Rightarrow> int \<Rightarrow> string \<Rightarrow> DepRegistry
    \<Rightarrow> DepRegistry \<times> DepError option" where
  "Dep_UpdateRolloutStatus k st desired updated ready unavailable reason r =
     (case map_of (deployments r) k of
        None \<Rightarrow> (r, Some DepNotFound)
      | Some d \<Rightarrow>
          (put_dep k (d\<lparr>d_RolloutStatus := st, d_DesiredReplicas := desired,
                        d_UpdatedReplicas := updated, d_ReadyReplicas := ready,
                        d_UnavailableReplicas := unavailable, d_BlockedReason := reason\<rparr>) r, None))"

definition Dep_UpdateRolloutStatusOnly ::
  "string \<Rightarrow> RolloutStatus \<Rightarrow> string \<Rightarrow> DepRegistry \<Rightarrow> DepRegistry \<times> DepError option" where
  "Dep_UpdateRolloutStatusOnly k st reason r =
     (case map_of (deployments r) k of
        None \<Rightarrow> (r, Some DepNotFound)
      | Some d \<Rightarrow> (put_dep k (d\<lparr>d_RolloutStatus := st, d_BlockedReason := reason\<rparr>) r, None))"

section \<open>Runs of the registry\<close>

datatype dep_op =
    DCreate string time string AppSpec
  | DStatus string DeploymentStatus
  | DState string DeploymentStatus
  | DCrash string int
  | DReset string
  | DRollout string RolloutStatus int int int int string
  | DRolloutOnly string RolloutStatus string

fun dep_step :: "(AppSpec \<Rightarrow> string) \<Rightarrow> dep_op \<Rightarrow> DepRegistry \<Rightarrow> DepRegistry" where
  "dep_step hash (DCreate rid now app spec) r = fst (Dep_Create hash rid now app spec r)"
| "dep_step hash (DStatus k st) r = fst (Dep_UpdateStatus k st r)"
| "dep_step hash (DState k st) r = fst (Dep_UpdateState k st r)"
| "dep_step hash (DCrash k th) r = fst (Dep_RecordCrash k th r)"
| "dep_step hash (DReset k) r = fst (Dep_ResetCrashCounter k r)"
| "dep_step hash (DRollout k st a b c d re) r = fst (Dep_UpdateRolloutStatus k st a b c d re r)"
| "dep_step hash (DRolloutOnly k st re) r = fst (Dep_UpdateRolloutStatusOnly k st re r)"

fun dep_op_ok :: "dep_op \<Rightarrow> DepRegistry \<Rightarrow> bool" where
  "dep_op_ok (DCreate rid now app spec) r \<longleftrightarrow> map_of (deployments r) rid = None"
| "dep_op_ok _ r \<longleftrightarrow> True"

text \<open>The versions of an application are exactly the numbers up to the counter.\<close>

definition versions :: "DepRegistry \<Rightarrow> string \<Rightarrow> int list" where
  "versions r app = map d_Version (Dep_ListByApplication r app)"

definition dep_inv :: "DepRegistry \<Rightarrow> bool" where
  "dep_inv r \<longleftrightarrow> keyed d_ID (deployments r) \<and>
     (\<forall>app. distinct (versions r app) \<and> set (versions r app) = {1..mget_or 0 (appVersions r) app} \<and>
        0 \<le> mget_or 0 (appVersions r) app)"

definition dep_evolves :: "Deployment \<Rightarrow> Deployment \<Rightarrow> bool" where
  "dep_evolves d d' \<longleftrightarrow> d_ID d' = d_ID d \<and> d_ApplicationID d' = d_ApplicationID d \<and>
     d_Version d' = d_Version d \<and> d_SpecSnapshot d' = d_SpecSnapshot d \<and> d_Hash d' = d_Hash d \<and>
     d_CreatedAt d' = d_CreatedAt d \<and> (d_Degraded d \<longrightarrow> d_Degraded d')"

definition deps_evolve :: "DepRegistry \<Rightarrow> DepRegistry \<Rightarrow> bool" where
  "deps_evolve r r' \<longleftrightarrow> (\<forall>k d. map_of (deployments r) k = Some d \<longrightarrow>
     (\<exists>d'. map_of (deployments r') k = Some d' \<and> dep_evolves d d'))"

lemma dep_evolves_refl: "dep_evolves d d"
  by (simp add: dep_evolves_def)

lemmas dep_rewrite_defs =
  Dep_UpdateStatus_def Dep_UpdateState_def Dep_RecordCrash_def Dep_ResetCrashCounter_def
  Dep_UpdateRolloutStatus_def Dep_UpdateRolloutStatusOnly_def

lemma map_mput_same:
  assumes "distinct (map fst m)" and "map_of m k = Some v" and "P v' = P v" and "f v' = f v"
  shows "map f (filter P (mvals (mput k v' m))) = map f (filter P (mvals m))"
  using assms
proof (induction m)
  case (Cons p m)
  then show ?case by (cases p) (auto split: if_splits)
qed simp

text \<open>Every operation but creation rewrites one deployment and no version counter.\<close>

lemma dep_step_writes:
  assumes "\<And>rid now app spec. op \<noteq> DCreate rid now app spec"
  shows "one_write dep_evolves (deployments r) (deployments (dep_step hash op r)) \<and>
    appVersions (dep_step hash op r) = appVersions r"
  using assms
  by (cases op)
    (auto simp: dep_rewrite_defs put_dep_def Let_def dep_evolves_def intro!: one_write_mput
      split: option.splits)

lemma dep_inv_write:
  assumes "dep_inv r" and "one_write dep_evolves (deployments r) (deployments r')"
    and "appVersions r' = appVersions r"
  shows "dep_inv r'"
proof -
  have k: "keyed d_ID (deployments r)" using assms(1) by (simp add: dep_inv_def)
  have "versions r' app = versions r app" for app
    using assms(2) map_mput_same [OF keyed_distinct [OF k], where f = d_Version]
    by (auto simp: versions_def Dep_ListByApplication_def one_write_def dep_evolves_def)
  moreover have "keyed d_ID (deployments r')"
    by (rule one_write_keyed [OF assms(2) k]) (simp add: dep_evolves_def)
  ultimately show ?thesis using assms(1,3) by (simp add: dep_inv_def)
qed

lemma deps_evolve_write:
  assumes "one_write dep_evolves (deployments r) (deployments r')"
  shows "deps_evolve r r'"
  unfolding deps_evolve_def
  using one_write_lookup [OF assms, where R = dep_evolves] dep_evolves_refl by blast

lemma dep_inv_Create:
  assumes "dep_inv r" and "map_of (deployments r) rid = None"
  shows "dep_inv (fst (Dep_Create hash rid now app spec r))"
proof -
  let ?r = "fst (Dep_Create hash rid now app spec r)"
  let ?n = "\<lambda>a. mget_or 0 (appVersions r) a"
  have v: "versions ?r a = versions r a @ (if a = app then [?n a + 1] else [])" for a
    using assms(2)
    by (simp add: versions_def Dep_ListByApplication_def Dep_Create_def Let_def mput_new)
  have n: "mget_or 0 (appVersions ?r) a = (if a = app then ?n a + 1 else ?n a)" for a
    by (simp add: Dep_Create_def Let_def)
  have "keyed d_ID (deployments ?r)"
    using assms(1) by (auto simp: dep_inv_def Dep_Create_def Let_def intro!: keyed_mput)
  moreover have "distinct (versions ?r a) \<and> set (versions ?r a) = {1..mget_or 0 (appVersions ?r) a} \<and>
      0 \<le> mget_or 0 (appVersions ?r) a" for a
    using assms(1) unfolding v n dep_inv_def by (auto split: if_splits)
  ultimately show ?thesis by (simp add: dep_inv_def)
qed

lemma dep_step_keeps:
  assumes "dep_inv r" and "dep_op_ok op r"
  shows "dep_inv (dep_step hash op r) \<and> deps_evolve r (dep_step hash op r)"
proof (cases "\<exists>rid now app spec. op = DCreate rid now app spec")
  case True
  with assms dep_inv_Create show ?thesis
    by (auto simp: deps_evolve_def dep_evolves_refl Dep_Create_def Let_def)
next
  case False
  with assms show ?thesis
    using dep_step_writes [of op r hash] dep_inv_write deps_evolve_write by blast
qed

interpretation dep_machine: invariant_machine NewDepRegistry dep_op_ok "dep_step hash" dep_inv for hash
  by unfold_locales
    (simp add: dep_inv_def NewDepRegistry_def versions_def Dep_ListByApplication_def,
     blast dest: dep_step_keeps)

lemma dep_evolves_trans: "dep_evolves a b \<Longrightarrow> dep_evolves b c \<Longrightarrow> dep_evolves a c"
  by (simp add: dep_evolves_def)

interpretation dep_progress: monotone_machine dep_op_ok "dep_step hash" dep_inv deps_evolve for hash
proof
  show "deps_evolve s s" for s by (auto simp: deps_evolve_def dep_evolves_refl)
  show "deps_evolve s t \<Longrightarrow> deps_evolve t u \<Longrightarrow> deps_evolve s u" for s t u
    unfolding deps_evolve_def using dep_evolves_trans by meson
qed (blast dest: dep_step_keeps)+

interpretation dep_table: id_registry deployments d_ID Dep_Get Dep_List DepNotFound
  by unfold_locales (auto simp: Dep_Get_def Dep_List_def split: option.splits)

section \<open>Properties\<close>

text \<open>
  Deployment versions of an application are numbered without gap or repetition: in every
  reachable state its deployments carry exactly the numbers 1 to the latest version, each
  once, so the history of an application can be told from the version numbers.
\<close>

lemma dep_versions_gapless:
  assumes "reach NewDepRegistry dep_op_ok (dep_step hash) r"
  shows "sort (map d_Version (Dep_ListByApplication r app)) =
    [1..mget_or 0 (appVersions r) app]"
proof -
  have "dep_inv r" using assms by (rule dep_machine.reach_inv)
  then have "distinct (versions r app)" "set (versions r app) = {1..mget_or 0 (appVersions r) app}"
    by (auto simp: dep_inv_def)
  then show ?thesis
    by (intro sorted_distinct_set_unique) (auto simp: versions_def)
qed

definition example_deps :: DepRegistry where
  "example_deps = dep_step (\<lambda>_. ''h'') (DCreate ''d2'' 2 ''a1'' example_spec)
     (dep_step (\<lambda>_. ''h'') (DCreate ''d1'' 1 ''a1'' example_spec) NewDepRegistry)"

lemma example_deps_reach: "reach NewDepRegistry dep_op_ok (dep_step (\<lambda>_. ''h'')) example_deps"
  unfolding example_deps_def
  by (intro reach_step reach_init) (simp_all add: NewDepRegistry_def Dep_Create_def Let_def)

lemma dep_versions_gapless_example:
  "sort (map d_Version (Dep_ListByApplication example_deps ''a1'')) = [1, 2]"
proof -
  have "mget_or 0 (appVersions example_deps) ''a1'' = 2"
    by (simp add: example_deps_def NewDepRegistry_def Dep_Create_def Let_def mget_or_def)
  with dep_versions_gapless [OF example_deps_reach, of "''a1''"] show ?thesis
    by (simp add: upto.simps)
qed

text \<open>
  A deployment is immutable evidence. Its specification, hash, version, application and
  creation time never change, and once it is degraded no operation of the registry clears
  the mark.
\<close>

lemma dep_snapshot_immutable:
  assumes "dep_inv r" and "reach r dep_op_ok (dep_step hash) r'" and "map_of (deployments r) k = Some d"
  shows "\<exists>d'. map_of (deployments r') k = Some d' \<and> d_SpecSnapshot d' = d_SpecSnapshot d \<and>
    d_Hash d' = d_Hash d \<and> d_Version d' = d_Version d \<and> d_ApplicationID d' = d_ApplicationID d \<and>
    d_CreatedAt d' = d_CreatedAt d \<and> (d_Degraded d \<longrightarrow> d_Degraded d')"
  using dep_progress.reach_rel [OF assms(1,2)] assms(3)
  unfolding deps_evolve_def dep_evolves_def by blast

lemma dep_snapshot_immutable_example:
  "\<exists>d. map_of (deployments (dep_step (\<lambda>_. ''h'') (DCrash ''d1'' 1) example_deps)) ''d1'' = Some d \<and>
    d_Version d = 1"
proof -
  have "reach example_deps dep_op_ok (dep_step (\<lambda>_. ''h''))
      (dep_step (\<lambda>_. ''h'') (DCrash ''d1'' 1) example_deps)"
    by (intro reach_step reach_init) simp
  moreover obtain d where "map_of (deployments example_deps) ''d1'' = Some d" "d_Version d = 1"
    by (simp add: example_deps_def NewDepRegistry_def Dep_Create_def Let_def)
  ultimately show ?thesis
    using dep_snapshot_immutable [OF dep_machine.reach_inv [OF example_deps_reach]] by fastforce
qed

text \<open>
  The crash counter against its specification: the events of one deployment, \<open>True\<close> a crash and
  \<open>False\<close> a reset after a healthy period.
\<close>

fun crash_run :: "int \<Rightarrow> string \<Rightarrow> bool list \<Rightarrow> DepRegistry \<Rightarrow> DepRegistry" where
  "crash_run th k [] r = r"
| "crash_run th k (e # es) r =
     crash_run th k es (if e then fst (Dep_RecordCrash k th r) else fst (Dep_ResetCrashCounter k r))"

definition crash_streak :: "bool list \<Rightarrow> nat" where
  "crash_streak es = length (takeWhile (\<lambda>e. e) (rev es))"

lemma crash_streak_snoc [simp]:
  "crash_streak (es @ [True]) = Suc (crash_streak es)" "crash_streak (es @ [False]) = 0" "crash_streak [] = 0"
  by (simp_all add: crash_streak_def)

lemma crash_run_append [simp]: "crash_run th k (es @ fs) r = crash_run th k fs (crash_run th k es r)"
  by (induction es arbitrary: r) simp_all

lemma crash_streak_ge: "n \<le> crash_streak es \<longleftrightarrow> (\<exists>xs. es = xs @ replicate n True)"
proof (induction es arbitrary: n rule: rev_induct)
  case Nil
  then show ?case by simp
next
  case (snoc e es)
  show ?case
  proof (cases n)
    case 0
    then show ?thesis by simp
  next
    case (Suc m)
    then have "replicate n True = replicate m True @ [True]"
      by (metis replicate_append_same replicate_Suc)
    with Suc snoc [of m] show ?thesis by (cases e) auto
  qed
qed

text \<open>A window of \<open>n\<close> crashes appears with the last event, or was there before.\<close>

lemma crash_window_snoc:
  assumes "0 < n"
  shows "(\<exists>xs ys. es @ [e] = xs @ replicate n True @ ys) \<longleftrightarrow>
    (\<exists>xs ys. es = xs @ replicate n True @ ys) \<or> n \<le> crash_streak (es @ [e])" (is "?L \<longleftrightarrow> ?R")
proof
  assume ?L
  then obtain xs ys where eq: "es @ [e] = xs @ replicate n True @ ys" by blast
  show ?R
  proof (cases ys rule: rev_cases)
    case Nil
    with eq have "\<exists>xs. es @ [e] = xs @ replicate n True" by auto
    then show ?thesis using crash_streak_ge by blast
  next
    case (snoc zs z)
    with eq show ?thesis by auto
  qed
next
  assume ?R
  then show ?L
  proof
    assume "\<exists>xs ys. es = xs @ replicate n True @ ys"
    then show ?L by force
  next
    assume "n \<le> crash_streak (es @ [e])"
    then obtain xs where "es @ [e] = xs @ replicate n True @ []" using crash_streak_ge by auto
    then show ?L by blast
  qed
qed

lemma crash_run_state:
  assumes "map_of (deployments r) k = Some d" and "d_ConsecutiveCrashes d = 0" and "\<not> d_Degraded d"
    and "1 \<le> th"
  shows "\<exists>d'. map_of (deployments (crash_run th k es r)) k = Some d' \<and>
    d_ConsecutiveCrashes d' = int (crash_streak es) \<and>
    (d_Degraded d' \<longleftrightarrow> (\<exists>xs ys. es = xs @ replicate (nat th) True @ ys))"
proof (induction es rule: rev_induct)
  case Nil
  with assms show ?case by auto
next
  case (snoc e es)
  then obtain d' where d': "map_of (deployments (crash_run th k es r)) k = Some d'"
    "d_ConsecutiveCrashes d' = int (crash_streak es)"
    "d_Degraded d' \<longleftrightarrow> (\<exists>xs ys. es = xs @ replicate (nat th) True @ ys)"
    by blast
  have pos: "0 < nat th" using assms(4) by simp
  have le: "nat th \<le> m \<longleftrightarrow> th \<le> int m" for m using assms(4) by linarith
  show ?case
    unfolding crash_window_snoc [OF pos] le d'(3) [symmetric] using d'(1,2) assms(4)
    by (cases e) (auto simp: Dep_RecordCrash_def Dep_ResetCrashCounter_def put_dep_def Let_def)
qed

text \<open>
  C22: crash-loop detection. From a new deployment, after any sequence of crashes and resets the
  counter is the number of crashes since the last reset, and the deployment is degraded
  exactly when at some point as many crashes as the threshold had followed each other
  without a reset, even if resets came later.
\<close>

theorem dep_crash_loop_detection:
  assumes "map_of (deployments r) k = Some d" and "d_ConsecutiveCrashes d = 0" and "\<not> d_Degraded d"
    and "1 \<le> th"
  shows "\<exists>d'. map_of (deployments (crash_run th k es r)) k = Some d' \<and>
    d_ConsecutiveCrashes d' = int (length (takeWhile (\<lambda>e. e) (rev es))) \<and>
    (d_Degraded d' \<longleftrightarrow> (\<exists>xs ys. es = xs @ replicate (nat th) True @ ys))"
  using crash_run_state [OF assms, of es] by (simp add: crash_streak_def)

theorem dep_crash_loop_detection_witness:
  "\<exists>d'. map_of (deployments (crash_run 2 ''d1'' [True, True, False] example_deps)) ''d1'' = Some d' \<and>
    d_ConsecutiveCrashes d' = 0 \<and> d_Degraded d'"
proof -
  obtain d where "map_of (deployments example_deps) ''d1'' = Some d" "d_ConsecutiveCrashes d = 0"
    "\<not> d_Degraded d"
    by (simp add: example_deps_def NewDepRegistry_def Dep_Create_def Let_def)
  from dep_crash_loop_detection [OF this, of 2 "[True, True, False]"]
  obtain d' where "map_of (deployments (crash_run 2 ''d1'' [True, True, False] example_deps)) ''d1'' = Some d'"
    "d_ConsecutiveCrashes d' = 0"
    "d_Degraded d' \<longleftrightarrow> (\<exists>xs ys. [True, True, False] = xs @ replicate (nat 2) True @ ys)"
    by auto
  moreover have "[True, True, False] = [] @ replicate (nat 2) True @ [False]"
    by (simp add: numeral_2_eq_2)
  ultimately show ?thesis by blast
qed

end
