(* ===== verification/Rollout.thy ===== *)
theory Rollout
  imports Instance Deployment
begin

text \<open>
  The rollout controller, \<open>internal/scheduler/rollout_controller.go\<close>: from the deployments and
  instances of an application it computes how many instances each deployment should have.

  Replica counts, \<open>MaxSurge\<close> and \<open>MaxUnavailable\<close> come from clients as 64-bit integers, so the
  arithmetic on them is written with its wrap-around; the lemmas use it on values below
  \<open>2 ^ 31\<close>, where it is exact. The controller also writes rollout status into the deployment
  registry, which is threaded through.
\<close>

section \<open>Data\<close>

record DeploymentTarget =
  dt_DeploymentID :: string
  dt_DesiredCount :: int

record AppTarget =
  at_AppID :: string
  at_ActiveDeploymentID :: string
  at_Targets :: "DeploymentTarget list"

definition isViable :: "InstanceStatus \<Rightarrow> bool" where
  "isViable st \<longleftrightarrow> st \<in> {StatusPending, StatusAssigned, StatusStarting, StatusRunning, StatusUnknown}"

definition isReady :: "Instance \<Rightarrow> bool" where
  "isReady i \<longleftrightarrow> i_Status i = StatusRunning \<and> i_Health i = HealthHealthy"

definition count_if :: "('a \<Rightarrow> bool) \<Rightarrow> 'a list \<Rightarrow> int" where
  "count_if P xs = int (length (filter P xs))"

definition viable_count :: "string \<Rightarrow> Instance list \<Rightarrow> int" where
  "viable_count depID insts = count_if (\<lambda>i. i_DeploymentID i = depID \<and> isViable (i_Status i)) insts"

definition ready_count :: "string \<Rightarrow> Instance list \<Rightarrow> int" where
  "ready_count depID insts = count_if (\<lambda>i. i_DeploymentID i = depID \<and> isReady i) insts"

definition old_viable :: "string \<Rightarrow> Instance list \<Rightarrow> int" where
  "old_viable activeID insts = count_if (\<lambda>i. i_DeploymentID i \<noteq> activeID \<and> isViable (i_Status i)) insts"

definition old_ready :: "string \<Rightarrow> Instance list \<Rightarrow> int" where
  "old_ready activeID insts = count_if (\<lambda>i. i_DeploymentID i \<noteq> activeID \<and> isReady i) insts"

definition target :: "string \<Rightarrow> int \<Rightarrow> DeploymentTarget" where
  "target depID n = \<lparr>dt_DeploymentID = depID, dt_DesiredCount = n\<rparr>"

section \<open>Immediate rollout\<close>

fun immediate_loop ::
  "Deployment \<Rightarrow> Instance list \<Rightarrow> Deployment list \<Rightarrow> DepRegistry \<Rightarrow> DepRegistry \<times> DeploymentTarget list" where
  "immediate_loop activeDep insts [] r = (r, [])"
| "immediate_loop activeDep insts (dep # deps) r =
     (let (r1, t) =
        (if d_ID dep = d_ID activeDep then
           (if d_Degraded activeDep then
              (if d_RolloutStatus dep \<noteq> RolloutFailed
               then fst (Dep_UpdateRolloutStatusOnly (d_ID dep) RolloutFailed ''Deployment degraded (crash loop)'' r)
               else r, target (d_ID dep) (viable_count (d_ID dep) insts))
            else
              (if d_RolloutStatus dep \<noteq> RolloutCompleted
               then fst (Dep_UpdateRolloutStatusOnly (d_ID dep) RolloutCompleted '''' r)
               else r, target (d_ID dep) (s_Replicas (d_SpecSnapshot dep))))
         else
           (if d_RolloutStatus dep \<noteq> RolloutRolledBack \<and> d_RolloutStatus dep \<noteq> RolloutCompleted \<and>
               d_Status dep \<noteq> DepSuperseded
            then fst (Dep_UpdateRolloutStatusOnly (d_ID dep) RolloutRolledBack ''Superseded by immediate rollout'' r)
            else r, target (d_ID dep) 0));
          (r2, ts) = immediate_loop activeDep insts deps r1
      in (r2, t # ts))"

definition computeImmediateTarget ::
  "string \<Rightarrow> Deployment \<Rightarrow> Deployment list \<Rightarrow> Instance list \<Rightarrow> DepRegistry \<Rightarrow> DepRegistry \<times> AppTarget" where
  "computeImmediateTarget appID activeDep appDeps insts r =
     (let (r', ts) = immediate_loop activeDep insts appDeps r
      in (r', \<lparr>at_AppID = appID, at_ActiveDeploymentID = d_ID activeDep, at_Targets = ts\<rparr>))"

section \<open>Rolling update\<close>

text \<open>
  The arithmetic of a rolling update: the new target of the active deployment, the total kept
  of the old ones, and the number of old instances required for availability.
\<close>

definition rolling_counts :: "int \<Rightarrow> int \<Rightarrow> int \<Rightarrow> int \<Rightarrow> int \<Rightarrow> int \<Rightarrow> int \<times> int" where
  "rolling_counts desired surge unavailable activeViable activeReady oldViable =
     (let totalViable = wrap64 (activeViable + oldViable);
          maxAllowedTotal = wrap64 (desired + surge);
          minAvailable = max 0 (wrap64 (desired - unavailable));
          oldTarget1 = (if totalViable > maxAllowedTotal
                        then wrap64 (oldViable - min (wrap64 (totalViable - maxAllowedTotal)) oldViable)
                        else oldViable);
          requiredOld = max 0 (wrap64 (minAvailable - activeReady));
          maxOld = max (wrap64 (maxAllowedTotal - desired)) requiredOld;
          oldTargetTotal = min oldTarget1 maxOld;
          allowedActive = wrap64 (maxAllowedTotal - oldTargetTotal);
          newActiveTarget = max (min desired allowedActive) activeViable
      in (newActiveTarget, oldTargetTotal))"

text \<open>Distributing the total over the old deployments, in the order of their identifiers.\<close>

fun old_loop ::
  "Instance list \<Rightarrow> Deployment list \<Rightarrow> int \<Rightarrow> DepRegistry \<Rightarrow> DepRegistry \<times> DeploymentTarget list" where
  "old_loop appInsts [] remainingOld r = (r, [])"
| "old_loop appInsts (dep # deps) remainingOld r =
     (let depViable = viable_count (d_ID dep) appInsts;
          assign = min depViable remainingOld;
          r1 = (if assign = 0 \<and> depViable = 0 \<and> d_RolloutStatus dep \<noteq> RolloutRolledBack \<and>
                   d_Status dep \<noteq> DepSuperseded
                then fst (Dep_UpdateRolloutStatusOnly (d_ID dep) RolloutRolledBack ''Scaled to 0 by rollout'' r)
                else r);
          (r2, ts) = old_loop appInsts deps (remainingOld - assign) r1
      in (r2, target (d_ID dep) assign # ts))"

definition computeRollingTarget ::
  "RolloutStrategy \<Rightarrow> string \<Rightarrow> Deployment \<Rightarrow> Deployment list \<Rightarrow> Instance list \<Rightarrow> DepRegistry
    \<Rightarrow> DepRegistry \<times> AppTarget" where
  "computeRollingTarget strategy appID activeDep appDeps appInsts r =
     (let desired = s_Replicas (d_SpecSnapshot activeDep);
          activeViable = viable_count (d_ID activeDep) appInsts;
          activeReady = ready_count (d_ID activeDep) appInsts;
          oldViable = old_viable (d_ID activeDep) appInsts;
          oldReady = old_ready (d_ID activeDep) appInsts;
          r1 = fst (Dep_UpdateRolloutStatus (d_ID activeDep) (d_RolloutStatus activeDep) desired activeViable
                      activeReady (wrap64 (desired - (activeReady + oldReady))) (d_BlockedReason activeDep) r)
      in if d_Degraded activeDep then
           (if d_RolloutStatus activeDep \<noteq> RolloutFailed
            then fst (Dep_UpdateRolloutStatusOnly (d_ID activeDep) RolloutFailed ''Deployment degraded (crash loop)'' r1)
            else r1,
            \<lparr>at_AppID = appID, at_ActiveDeploymentID = d_ID activeDep,
             at_Targets = map (\<lambda>dep. target (d_ID dep)
               (if d_ID dep = d_ID activeDep then activeViable else viable_count (d_ID dep) appInsts)) appDeps\<rparr>)
         else
           (let (newActive, oldTotal) =
                  rolling_counts desired (rs_MaxSurge strategy) (rs_MaxUnavailable strategy)
                    activeViable activeReady oldViable;
                oldDeps = go_sort (\<lambda>a b. d_ID a < d_ID b) (filter (\<lambda>d. d_ID d \<noteq> d_ID activeDep) appDeps);
                (r2, ts) = old_loop appInsts oldDeps oldTotal r1;
                r3 = (if d_RolloutStatus activeDep = RolloutPending
                      then fst (Dep_UpdateRolloutStatusOnly (d_ID activeDep) RolloutProgressing '''' r2)
                      else if activeReady = desired \<and> oldViable = 0
                      then fst (Dep_UpdateRolloutStatusOnly (d_ID activeDep) RolloutCompleted '''' r2)
                      else r2)
            in (r3, \<lparr>at_AppID = appID, at_ActiveDeploymentID = d_ID activeDep,
                     at_Targets = target (d_ID activeDep) newActive # ts\<rparr>)))"

definition computeAppTarget ::
  "Application \<Rightarrow> Instance list \<Rightarrow> Deployment list \<Rightarrow> DepRegistry \<Rightarrow> DepRegistry \<times> AppTarget option" where
  "computeAppTarget app allInstances allDeployments r =
     (let appDeps = filter (\<lambda>d. d_ApplicationID d = a_ID app) allDeployments;
          appInsts = filter (\<lambda>i. i_ApplicationID i = a_ID app) allInstances
      in case find (\<lambda>d. d_ID d = a_ActiveDeploymentID app) (rev appDeps) of
           None \<Rightarrow> (r, None)
         | Some activeDep \<Rightarrow>
             (case s_Strategy (d_SpecSnapshot activeDep) of
                None \<Rightarrow> apsnd Some (computeImmediateTarget (a_ID app) activeDep appDeps allInstances r)
              | Some st \<Rightarrow>
                  if rs_Type st = RolloutStrategyImmediate
                  then apsnd Some (computeImmediateTarget (a_ID app) activeDep appDeps allInstances r)
                  else apsnd Some (computeRollingTarget st (a_ID app) activeDep appDeps appInsts r)))"

fun compute_loop ::
  "Instance list \<Rightarrow> Deployment list \<Rightarrow> Application list \<Rightarrow> DepRegistry \<Rightarrow> DepRegistry \<times> AppTarget list" where
  "compute_loop insts deps [] r = (r, [])"
| "compute_loop insts deps (app # rest) r =
     (if a_ActiveDeploymentID app = '''' then compute_loop insts deps rest r
      else
        (let (r1, t) = computeAppTarget app insts deps r;
             (r2, ts) = compute_loop insts deps rest r1
         in (r2, case t of None \<Rightarrow> ts | Some x \<Rightarrow> x # ts)))"

definition ComputeTargets :: "AppRegistry \<Rightarrow> InstRegistry \<Rightarrow> DepRegistry \<Rightarrow> DepRegistry \<times> AppTarget list" where
  "ComputeTargets appReg instReg depReg =
     compute_loop (Inst_List instReg) (Dep_List depReg) (App_List appReg) depReg"

section \<open>The arithmetic without wrap-around\<close>

definition small :: "int \<Rightarrow> bool" where
  "small x \<longleftrightarrow> - 2147483648 \<le> x \<and> x \<le> 2147483648"

definition rolling_exact :: "int \<Rightarrow> int \<Rightarrow> int \<Rightarrow> int \<Rightarrow> int \<Rightarrow> int \<Rightarrow> int \<times> int" where
  "rolling_exact D S U aV aR oV =
     (let old1 = min oV (max 0 (D + S - aV));
          old2 = min old1 (max S (max 0 (max 0 (D - U) - aR)))
      in (max (min D (D + S - old2)) aV, old2))"

lemma wrap64_id: "- 4611686018427387904 \<le> x \<Longrightarrow> x \<le> 4611686018427387904 \<Longrightarrow> wrap64 x = x"
  by (rule wrap64_small) (simp_all add: min_int64_def max_int64_def)

text \<open>The old total as a function of its cap \<open>x\<close> from surge and of the number \<open>q\<close> required.\<close>

lemma old_total_bounds:
  fixes oV x S q :: int
  assumes "0 \<le> oV" and "0 \<le> q" and "old = min (min oV (max 0 x)) (max S q)"
  shows "0 \<le> old" "old \<le> oV" "old \<le> max 0 x" "oV \<le> x \<Longrightarrow> min oV q \<le> old" "old = oV \<Longrightarrow> oV \<le> max S q"
  using assms by (simp_all add: min_def max_def split: if_splits)

definition required :: "int \<Rightarrow> int \<Rightarrow> int \<Rightarrow> int" where
  "required D U aR = max 0 (max 0 (D - U) - aR)"

lemma required_ge: "0 \<le> required D U aR" "D - U - aR \<le> required D U aR"
  by (simp_all add: required_def max_def)

lemma rolling_exact_cases:
  assumes "rolling_exact D S U aV aR oV = (new, old)"
  shows "old = min (min oV (max 0 (D + S - aV))) (max S (required D U aR))"
    and "new = max (min D (D + S - old)) aV"
proof -
  have "max (min D (D + S - old)) aV = new \<and> min (min oV (max 0 (D + S - aV))) (max S (required D U aR)) = old"
    using assms unfolding rolling_exact_def required_def Let_def prod.inject by (elim conjE) (intro conjI; hypsubst; rule refl)
  then show "old = min (min oV (max 0 (D + S - aV))) (max S (required D U aR))"
    and "new = max (min D (D + S - old)) aV" by (metis)+
qed

lemma rolling_counts_exact:
  assumes "small D" "small S" "small U" "small aV" "small aR" "small oV" "0 \<le> aV" "0 \<le> aR" "0 \<le> oV"
  shows "rolling_counts D S U aV aR oV = rolling_exact D S U aV aR oV"
proof -
  have b: "- 2147483648 \<le> D" "D \<le> 2147483648" "- 2147483648 \<le> S" "S \<le> 2147483648"
    "- 2147483648 \<le> U" "U \<le> 2147483648" "aV \<le> 2147483648" "aR \<le> 2147483648" "oV \<le> 2147483648"
    "0 \<le> aV" "0 \<le> aR" "0 \<le> oV"
    using assms by (simp_all add: small_def)
  have w1: "wrap64 (aV + oV) = aV + oV" "wrap64 (D + S) = D + S" "wrap64 (D - U) = D - U"
      "wrap64 (aV + oV - (D + S)) = aV + oV - (D + S)" "wrap64 S = S"
    using b by (auto intro!: wrap64_id)
  have wx: "wrap64 (x - aR) = x - aR" if "0 \<le> x" "x \<le> 4294967296" for x
    using b that by (intro wrap64_id) linarith+
  have "0 \<le> max 0 (D - U)" "max 0 (D - U) \<le> 4294967296" using b by simp_all
  from wx [OF this] have w2: "wrap64 (max 0 (D - U) - aR) = max 0 (D - U) - aR" .
  have old1: "(if aV + oV > D + S then wrap64 (oV - min (aV + oV - (D + S)) oV) else oV) =
      min oV (max 0 (D + S - aV))"
  proof (cases "aV + oV > D + S")
    case True
    have e: "oV - min (aV + oV - (D + S)) oV = max (D + S - aV) 0" by (simp add: min_def max_def)
    have "wrap64 (max (D + S - aV) 0) = max (D + S - aV) 0"
      using b by (cases "D + S - aV \<le> 0") (simp_all add: wrap64_id)
    then show ?thesis using True b by (simp add: e)
  next
    case False
    then show ?thesis using b by (simp add: min_def max_def)
  qed
  have wy: "wrap64 (D + S - x) = D + S - x" if "0 \<le> x" "x \<le> oV" for x
    using b that by (intro wrap64_id) linarith+
  let ?old2 = "min (min oV (max 0 (D + S - aV))) (max S (required D U aR))"
  have w3: "wrap64 (D + S - ?old2) = D + S - ?old2"
    using old_total_bounds(1,2) [OF assms(9) required_ge(1) refl] by (rule wy)
  have w4: "wrap64 (D + S - D) = S" using w1(5) by simp
  show ?thesis
    unfolding rolling_counts_def rolling_exact_def Let_def w1(1-4) w2 old1 w4 required_def [symmetric] w3
    by (rule refl)
qed

text \<open>What the arithmetic guarantees, for any parameters.\<close>

lemma rolling_exact_bounds:
  assumes "rolling_exact D S U aV aR oV = (new, old)" and "0 \<le> oV"
  shows "0 \<le> old" "old \<le> oV" "aV \<le> new" "new + old \<le> max (D + S) aV"
proof -
  note c = rolling_exact_cases [OF assms(1)]
  note o = old_total_bounds [OF assms(2) required_ge(1) c(1)]
  show "0 \<le> old" "old \<le> oV" using o by auto
  show "aV \<le> new" using c(2) by simp
  have "old \<le> max 0 (D + S - aV)" using o(3) .
  then show "new + old \<le> max (D + S) aV"
    unfolding c(2) by (simp add: max_def min_def split: if_splits)
qed

text \<open>Availability: while the surge limit is kept, as many old instances stay as availability needs.\<close>

lemma rolling_exact_available:
  assumes "rolling_exact D S U aV aR oV = (new, old)" and "0 \<le> oV" and "aV + oV \<le> D + S"
  shows "min oV (D - U - aR) \<le> old"
proof -
  have "min oV (required D U aR) \<le> old"
    using old_total_bounds(4) [OF assms(2) required_ge(1) rolling_exact_cases(1) [OF assms(1)]] assms(3) by simp
  then show ?thesis using required_ge(2) [of D U aR] by (simp add: min_def split: if_splits)
qed

text \<open>Progress: when all active instances are ready and some are missing, the next round acts.\<close>

lemma rolling_exact_progress:
  assumes "rolling_exact D S U aV aV oV = (new, old)" and "0 \<le> oV" and "0 \<le> aV" and "aV < D"
    and "0 \<le> S" and "0 \<le> U" and "S + U \<ge> 1"
  shows "aV < new \<or> old < oV"
proof (rule ccontr)
  assume "\<not> (aV < new \<or> old < oV)"
  note c = rolling_exact_cases [OF assms(1)]
  note o = old_total_bounds [OF assms(2) required_ge(1) c(1)]
  from \<open>\<not> _\<close> o(2) have new: "new \<le> aV" and eq: "old = oV" by auto
  have "D + S - oV \<le> aV" using new assms(4) c(2) eq by (simp add: max_def min_def split: if_splits)
  then have "S < oV" using assms(4) by simp
  then have "oV \<le> required D U aV" using o(5) [OF eq] by simp
  moreover have "required D U aV = 0 \<or> required D U aV = D - U - aV \<or> required D U aV = - aV"
    by (simp add: required_def max_def)
  ultimately show False using assms(3,5-7) \<open>S < oV\<close> \<open>D + S - oV \<le> aV\<close> by linarith
qed

text \<open>A complete new version with no more old instances than the surge leaves them all alone.\<close>

lemma rolling_exact_complete:
  assumes "rolling_exact D S U D D oV = (new, old)" and "0 \<le> oV" and "oV \<le> S"
  shows "old = oV" "new = D"
proof -
  note c = rolling_exact_cases [OF assms(1)]
  have "oV \<le> max S (required D U D)" using assms(3) by simp
  then show "old = oV" using c(1) assms(2,3) by simp
  then show "new = D" using c(2) assms(3) by simp
qed

section \<open>From the arithmetic to the targets\<close>

interpretation dep_order: slice_order "\<lambda>a b. d_ID a < d_ID b"
  by unfold_locales auto

abbreviation total :: "DeploymentTarget list \<Rightarrow> int" where
  "total ts \<equiv> sum_list (map dt_DesiredCount ts)"

lemma viable_count_nonneg [simp]: "0 \<le> viable_count k insts"
  by (simp add: viable_count_def count_if_def)

lemma counts_bounded:
  assumes "length insts \<le> 2147483648"
  shows "small (viable_count k insts)" "small (ready_count k insts)" "small (old_viable k insts)"
    "0 \<le> ready_count k insts" "0 \<le> old_viable k insts"
proof -
  have "length (filter P insts) \<le> 2147483648" for P using length_filter_le [of P insts] assms by linarith
  then have "int (length (filter P insts)) \<le> 2147483648" for P
    by (metis of_nat_le_iff of_nat_numeral)
  then show "small (viable_count k insts)" "small (ready_count k insts)" "small (old_viable k insts)"
    "0 \<le> ready_count k insts" "0 \<le> old_viable k insts"
    by (simp_all add: small_def viable_count_def ready_count_def old_viable_def count_if_def)
qed

lemma ready_le_viable: "ready_count k insts \<le> viable_count k insts"
proof -
  have "filter (\<lambda>i. i_DeploymentID i = k \<and> isReady i) insts =
      filter isReady (filter (\<lambda>i. i_DeploymentID i = k \<and> isViable (i_Status i)) insts)"
    by (auto simp: isReady_def isViable_def intro!: filter_cong)
  then show ?thesis by (simp add: viable_count_def ready_count_def count_if_def del: filter_filter)
qed

lemma old_loop_targets:
  assumes "0 \<le> remaining" and "old_loop insts deps remaining r = (r', ts)"
  shows "total ts = min remaining (sum_list (map (\<lambda>d. viable_count (d_ID d) insts) deps))"
    and "map dt_DeploymentID ts = map d_ID deps"
    and "t \<in> set ts \<Longrightarrow> 0 \<le> dt_DesiredCount t \<and> dt_DesiredCount t \<le> viable_count (dt_DeploymentID t) insts"
    and "sum_list (map (\<lambda>d. viable_count (d_ID d) insts) deps) \<le> remaining \<Longrightarrow> t \<in> set ts \<Longrightarrow>
      dt_DesiredCount t = viable_count (dt_DeploymentID t) insts"
  using assms
proof (induction deps arbitrary: remaining r r' ts)
  case Nil
  { case 1 then show ?case by simp }
  { case 2 then show ?case by simp }
  { case 3 then show ?case by simp }
  { case 4 then show ?case by simp }
next
  case (Cons dep deps)
  have nn: "0 \<le> sum_list (map (\<lambda>d. viable_count (d_ID d) insts) deps)" by (rule sum_list_nonneg) auto
  have step: "\<exists>r1 ts1. old_loop insts deps (rem - min (viable_count (d_ID dep) insts) rem) r1 = (r', ts1) \<and>
      ts = target (d_ID dep) (min (viable_count (d_ID dep) insts) rem) # ts1"
    if "old_loop insts (dep # deps) rem r = (r', ts)" for rem r r' ts
    using that by (auto simp: Let_def split: prod.splits)
  { case 1
    from step [OF 1(2)] obtain r1 ts1 where l: "old_loop insts deps (remaining - min (viable_count (d_ID dep) insts) remaining) r1 = (r', ts1)"
      and ts: "ts = target (d_ID dep) (min (viable_count (d_ID dep) insts) remaining) # ts1" by blast
    from Cons.IH(1) [OF _ l] 1(1) nn show ?case
      by (simp add: ts target_def min_def split: if_splits) }
  { case 2
    from step [OF 2(2)] obtain r1 ts1 where l: "old_loop insts deps (remaining - min (viable_count (d_ID dep) insts) remaining) r1 = (r', ts1)"
      and ts: "ts = target (d_ID dep) (min (viable_count (d_ID dep) insts) remaining) # ts1" by blast
    from Cons.IH(2) [OF _ l] 2(1) show ?case by (simp add: ts target_def) }
  { case 3
    from step [OF 3(3)] obtain r1 ts1 where l: "old_loop insts deps (remaining - min (viable_count (d_ID dep) insts) remaining) r1 = (r', ts1)"
      and ts: "ts = target (d_ID dep) (min (viable_count (d_ID dep) insts) remaining) # ts1" by blast
    from Cons.IH(3) [OF _ _ l] 3(1,2) show ?case by (auto simp: ts target_def) }
  { case 4
    from step [OF 4(4)] obtain r1 ts1 where l: "old_loop insts deps (remaining - min (viable_count (d_ID dep) insts) remaining) r1 = (r', ts1)"
      and ts: "ts = target (d_ID dep) (min (viable_count (d_ID dep) insts) remaining) # ts1" by blast
    have "viable_count (d_ID dep) insts \<le> remaining" using 4(1) nn by simp
    with Cons.IH(4) [OF _ _ _ l] 4(1,2) show ?case by (auto simp: ts target_def) }
qed

text \<open>
  The viable instances of distinct deployments, added up, are instances with one of these
  deployments; so the old deployments together have at most \<open>old_viable\<close>, and exactly that
  many when every instance belongs to a listed deployment.
\<close>

lemma viable_sum:
  assumes "distinct (map d_ID deps)"
  shows "sum_list (map (\<lambda>d. viable_count (d_ID d) insts) deps) =
    count_if (\<lambda>i. i_DeploymentID i \<in> d_ID ` set deps \<and> isViable (i_Status i)) insts"
  using assms
proof (induction deps)
  case Nil
  then show ?case by (simp add: count_if_def)
next
  case (Cons d deps)
  have "count_if (\<lambda>i. i_DeploymentID i \<in> d_ID ` set (d # deps) \<and> isViable (i_Status i)) insts =
      viable_count (d_ID d) insts + count_if (\<lambda>i. i_DeploymentID i \<in> d_ID ` set deps \<and> isViable (i_Status i)) insts"
    using Cons.prems by (induction insts) (auto simp: viable_count_def count_if_def)
  with Cons show ?case by simp
qed

lemma old_sum:
  assumes "distinct (map d_ID deps)"
  shows "sum_list (map (\<lambda>d. viable_count (d_ID d) insts) (filter (\<lambda>d. d_ID d \<noteq> k) deps)) \<le> old_viable k insts"
    and "\<forall>i \<in> set insts. i_DeploymentID i \<in> d_ID ` set deps \<Longrightarrow>
      sum_list (map (\<lambda>d. viable_count (d_ID d) insts) (filter (\<lambda>d. d_ID d \<noteq> k) deps)) = old_viable k insts"
proof -
  let ?P = "\<lambda>i. i_DeploymentID i \<in> d_ID ` set (filter (\<lambda>d. d_ID d \<noteq> k) deps) \<and> isViable (i_Status i)"
  have s: "sum_list (map (\<lambda>d. viable_count (d_ID d) insts) (filter (\<lambda>d. d_ID d \<noteq> k) deps)) = count_if ?P insts"
    by (rule viable_sum) (simp add: assms distinct_map_filter)
  have "filter ?P insts = filter ?P (filter (\<lambda>i. i_DeploymentID i \<noteq> k \<and> isViable (i_Status i)) insts)"
    by (auto intro!: filter_cong)
  then have "length (filter ?P insts) \<le> length (filter (\<lambda>i. i_DeploymentID i \<noteq> k \<and> isViable (i_Status i)) insts)"
    using length_filter_le [of ?P "filter (\<lambda>i. i_DeploymentID i \<noteq> k \<and> isViable (i_Status i)) insts"] by argo
  then show "sum_list (map (\<lambda>d. viable_count (d_ID d) insts) (filter (\<lambda>d. d_ID d \<noteq> k) deps)) \<le> old_viable k insts"
    unfolding s old_viable_def count_if_def by (rule of_nat_mono)
  assume "\<forall>i \<in> set insts. i_DeploymentID i \<in> d_ID ` set deps"
  then have "filter ?P insts = filter (\<lambda>i. i_DeploymentID i \<noteq> k \<and> isViable (i_Status i)) insts"
    by (auto intro!: filter_cong)
  then show "sum_list (map (\<lambda>d. viable_count (d_ID d) insts) (filter (\<lambda>d. d_ID d \<noteq> k) deps)) = old_viable k insts"
    unfolding s old_viable_def count_if_def by simp
qed

lemma active_and_others:
  "x \<in> set xs \<Longrightarrow> distinct (map f xs) \<Longrightarrow>
    mset (map f xs) = add_mset (f x) (mset (map f (filter (\<lambda>y. f y \<noteq> f x) xs)))"
proof (induction xs)
  case (Cons y ys)
  have "filter (\<lambda>z. f z \<noteq> f y) ys = ys" using Cons.prems by (fastforce simp: filter_id_conv image_iff)
  with Cons show ?case by (cases "f y = f x") (auto simp: image_iff)
qed simp

lemma old_ids:
  "mset (map dt_DeploymentID ts) = mset (map d_ID (filter (\<lambda>d. d_ID d \<noteq> k) deps)) \<Longrightarrow>
    t \<in> set ts \<Longrightarrow> dt_DeploymentID t \<noteq> k"
  by (drule arg_cong [of _ _ set_mset]) (force simp: image_iff)

text \<open>A rolling round within the sizes where 64-bit arithmetic is exact.\<close>

definition rollout_round :: "RolloutStrategy \<Rightarrow> Deployment \<Rightarrow> Deployment list \<Rightarrow> Instance list \<Rightarrow> bool" where
  "rollout_round st dep deps insts \<longleftrightarrow>
     \<not> d_Degraded dep \<and> dep \<in> set deps \<and> distinct (map d_ID deps) \<and> length insts \<le> 2147483648 \<and>
     small (s_Replicas (d_SpecSnapshot dep)) \<and> small (rs_MaxSurge st) \<and> small (rs_MaxUnavailable st)"

lemma rolling_targets:
  fixes st dep deps insts appID r
  defines "k \<equiv> d_ID dep" and "T \<equiv> snd (computeRollingTarget st appID dep deps insts r)"
  assumes "rollout_round st dep deps insts"
  obtains new old ts where
    "rolling_exact (s_Replicas (d_SpecSnapshot dep)) (rs_MaxSurge st) (rs_MaxUnavailable st)
       (viable_count k insts) (ready_count k insts) (old_viable k insts) = (new, old)"
    "at_Targets T = target k new # ts" "0 \<le> old"
    "total ts = min old (sum_list (map (\<lambda>d. viable_count (d_ID d) insts) (filter (\<lambda>d. d_ID d \<noteq> k) deps)))"
    "mset (map dt_DeploymentID ts) = mset (map d_ID (filter (\<lambda>d. d_ID d \<noteq> k) deps))"
    "\<And>t. t \<in> set ts \<Longrightarrow> 0 \<le> dt_DesiredCount t \<and> dt_DesiredCount t \<le> viable_count (dt_DeploymentID t) insts"
    "\<And>t. sum_list (map (\<lambda>d. viable_count (d_ID d) insts) (filter (\<lambda>d. d_ID d \<noteq> k) deps)) \<le> old \<Longrightarrow> t \<in> set ts \<Longrightarrow>
      dt_DesiredCount t = viable_count (dt_DeploymentID t) insts"
proof -
  note h = assms(3) [unfolded rollout_round_def]
  let ?olds = "filter (\<lambda>d. d_ID d \<noteq> k) deps" and ?sorted = "go_sort (\<lambda>a b. d_ID a < d_ID b) (filter (\<lambda>d. d_ID d \<noteq> k) deps)"
  obtain new old where e: "rolling_exact (s_Replicas (d_SpecSnapshot dep)) (rs_MaxSurge st) (rs_MaxUnavailable st)
       (viable_count k insts) (ready_count k insts) (old_viable k insts) = (new, old)"
    by fastforce
  have b: "small (viable_count k insts)" "small (ready_count k insts)" "small (old_viable k insts)"
    "0 \<le> ready_count k insts" "0 \<le> old_viable k insts"
    using h by (auto intro: counts_bounded)
  have c: "rolling_counts (s_Replicas (d_SpecSnapshot dep)) (rs_MaxSurge st) (rs_MaxUnavailable st)
       (viable_count k insts) (ready_count k insts) (old_viable k insts) = (new, old)"
    using e h b by (subst rolling_counts_exact) auto
  have pos: "0 \<le> old" using rolling_exact_bounds(1) [OF e b(5)] .
  let ?r1 = "fst (Dep_UpdateRolloutStatus k (d_RolloutStatus dep) (s_Replicas (d_SpecSnapshot dep)) (viable_count k insts)
    (ready_count k insts) (wrap64 (s_Replicas (d_SpecSnapshot dep) - (ready_count k insts + old_ready k insts)))
    (d_BlockedReason dep) r)"
  obtain r2 ts where l: "old_loop insts ?sorted old ?r1 = (r2, ts)" by fastforce
  then have T: "at_Targets T = target k new # ts"
    using h c by (simp add: T_def computeRollingTarget_def k_def Let_def)
  note o = old_loop_targets [OF pos l]
  have m: "mset ?sorted = mset ?olds" by (rule dep_order.mset_go_sort)
  have s: "sum_list (map (\<lambda>d. viable_count (d_ID d) insts) ?sorted) = sum_list (map (\<lambda>d. viable_count (d_ID d) insts) ?olds)"
    by (simp only: sum_mset_sum_list [symmetric] mset_map m)
  show ?thesis
  proof (rule that [OF e T pos])
    show "mset (map dt_DeploymentID ts) = mset (map d_ID ?olds)" using o(2) m by simp
  qed (use o s in auto)
qed

section \<open>Properties\<close>

text \<open>The state of the examples: version 2 rolls over version 1, three replicas wanted.\<close>

definition example_dep :: "string \<Rightarrow> Deployment" where
  "example_dep k = (snd (Dep_Create (\<lambda>_. ''h'') k 1 ''a1'' (example_spec\<lparr>s_Replicas := 3\<rparr>) NewDepRegistry))
     \<lparr>d_RolloutStatus := RolloutProgressing\<rparr>"

definition example_running :: "string \<Rightarrow> string \<Rightarrow> Instance" where
  "example_running k dep = (snd (Inst_Create k 1 ''a1'' dep NewInstRegistry))
     \<lparr>i_Status := StatusRunning, i_Health := HealthHealthy\<rparr>"

definition surge_one :: RolloutStrategy where
  "surge_one = \<lparr>rs_Type = RolloutStrategyRollingUpdate, rs_MaxSurge = 1, rs_MaxUnavailable = 0\<rparr>"

definition example_insts_of :: "nat \<Rightarrow> nat \<Rightarrow> Instance list" where
  "example_insts_of old new = map (\<lambda>n. example_running (''o'' @ show_nat n) ''d1'') [0..<old] @
     map (\<lambda>n. example_running (''n'' @ show_nat n) ''d2'') [0..<new]"

lemma example_round: "rollout_round surge_one (example_dep ''d2'') [example_dep ''d1'', example_dep ''d2''] (example_insts_of 2 1)"
    "rollout_round surge_one (example_dep ''d2'') [example_dep ''d1'', example_dep ''d2''] (example_insts_of 1 3)"
  by (simp_all add: rollout_round_def example_dep_def Dep_Create_def Let_def surge_one_def small_def example_insts_of_def)

lemma example_counts:
  "viable_count ''d1'' (example_insts_of m n) = int m" "viable_count ''d2'' (example_insts_of m n) = int n"
  "ready_count ''d2'' (example_insts_of m n) = int n" "old_viable ''d2'' (example_insts_of m n) = int m"
  by (simp_all add: example_insts_of_def example_running_def Inst_Create_def Let_def isViable_def isReady_def
      viable_count_def ready_count_def old_viable_def count_if_def filter_empty_conv comp_def)

lemma example_known: "i \<in> set (example_insts_of m n) \<Longrightarrow> i_DeploymentID i = ''d1'' \<or> i_DeploymentID i = ''d2''"
  by (auto simp: example_insts_of_def example_running_def Inst_Create_def Let_def)

lemma example_dep_fields [simp]:
  "d_ID (example_dep k) = k" "s_Replicas (d_SpecSnapshot (example_dep k)) = 3"
  "d_RolloutStatus (example_dep k) = RolloutProgressing" "d_Degraded (example_dep k) = False"
  by (simp_all add: example_dep_def Dep_Create_def Let_def)

lemma rolling_round_bounds:
  assumes "rollout_round st dep deps insts"
    and "T = snd (computeRollingTarget st appID dep deps insts r)"
  shows "sum_list (map dt_DesiredCount (at_Targets T)) \<le>
      max (s_Replicas (d_SpecSnapshot dep) + rs_MaxSurge st) (viable_count (d_ID dep) insts)"
    and "\<forall>t \<in> set (at_Targets T). 0 \<le> dt_DesiredCount t \<and>
      (if dt_DeploymentID t = d_ID dep then viable_count (d_ID dep) insts \<le> dt_DesiredCount t
       else dt_DesiredCount t \<le> viable_count (dt_DeploymentID t) insts)"
    and "mset (map dt_DeploymentID (at_Targets T)) = mset (map d_ID deps)"
proof -
  obtain new old ts where e: "rolling_exact (s_Replicas (d_SpecSnapshot dep)) (rs_MaxSurge st) (rs_MaxUnavailable st)
       (viable_count (d_ID dep) insts) (ready_count (d_ID dep) insts) (old_viable (d_ID dep) insts) = (new, old)"
    and T: "at_Targets T = target (d_ID dep) new # ts" and "0 \<le> old"
    and tot: "total ts \<le> old"
    and ids: "mset (map dt_DeploymentID ts) = mset (map d_ID (filter (\<lambda>d. d_ID d \<noteq> d_ID dep) deps))"
    and each: "\<And>t. t \<in> set ts \<Longrightarrow> 0 \<le> dt_DesiredCount t \<and> dt_DesiredCount t \<le> viable_count (dt_DeploymentID t) insts"
    using rolling_targets [OF assms(1)] unfolding assms(2) by (metis min.cobounded1)
  have nn: "0 \<le> old_viable (d_ID dep) insts" by (simp add: old_viable_def count_if_def)
  note b = rolling_exact_bounds [OF e nn]
  show "total (at_Targets T) \<le> max (s_Replicas (d_SpecSnapshot dep) + rs_MaxSurge st) (viable_count (d_ID dep) insts)"
    using b(4) tot unfolding T target_def by simp
  note old_ids [OF ids]
  moreover have "0 \<le> new" using b(3) viable_count_nonneg [of "d_ID dep" insts] by linarith
  ultimately show "\<forall>t \<in> set (at_Targets T). 0 \<le> dt_DesiredCount t \<and>
      (if dt_DeploymentID t = d_ID dep then viable_count (d_ID dep) insts \<le> dt_DesiredCount t
       else dt_DesiredCount t \<le> viable_count (dt_DeploymentID t) insts)"
    unfolding T target_def using each b(3) by auto
  have "dep \<in> set deps" "distinct (map d_ID deps)" using assms(1) by (auto simp: rollout_round_def)
  then have "mset (map d_ID deps) = add_mset (d_ID dep) (mset (map d_ID (filter (\<lambda>d. d_ID d \<noteq> d_ID dep) deps)))"
    by (rule active_and_others)
  then show "mset (map dt_DeploymentID (at_Targets T)) = mset (map d_ID deps)"
    unfolding T target_def using ids by simp
qed



text \<open>
  C6: a rolling update keeps the application available. While the viable instances are within
  the surge limit and every instance belongs to a known deployment, the old deployments
  together keep at least \<open>Replicas - MaxUnavailable\<close> less the ready new instances, or all they
  have when that is less.
\<close>

theorem rolling_keeps_available:
  assumes "rollout_round st dep deps insts"
    and "\<forall>i \<in> set insts. i_DeploymentID i \<in> d_ID ` set deps"
    and "viable_count (d_ID dep) insts + old_viable (d_ID dep) insts \<le>
      s_Replicas (d_SpecSnapshot dep) + rs_MaxSurge st"
    and "T = snd (computeRollingTarget st appID dep deps insts r)"
  shows "min (old_viable (d_ID dep) insts)
      (s_Replicas (d_SpecSnapshot dep) - rs_MaxUnavailable st - ready_count (d_ID dep) insts) \<le>
    sum_list (map dt_DesiredCount (filter (\<lambda>t. dt_DeploymentID t \<noteq> d_ID dep) (at_Targets T)))"
proof -
  obtain new old ts where e: "rolling_exact (s_Replicas (d_SpecSnapshot dep)) (rs_MaxSurge st) (rs_MaxUnavailable st)
       (viable_count (d_ID dep) insts) (ready_count (d_ID dep) insts) (old_viable (d_ID dep) insts) = (new, old)"
    and T: "at_Targets T = target (d_ID dep) new # ts"
    and tot: "total ts = min old (old_viable (d_ID dep) insts)"
    and ids: "mset (map dt_DeploymentID ts) = mset (map d_ID (filter (\<lambda>d. d_ID d \<noteq> d_ID dep) deps))"
    using rolling_targets [OF assms(1)] old_sum(2) [OF _ assms(2), of "d_ID dep"] assms(1)
    unfolding assms(4) rollout_round_def by metis
  have nn: "0 \<le> old_viable (d_ID dep) insts" by (simp add: old_viable_def count_if_def)
  have "filter (\<lambda>t. dt_DeploymentID t \<noteq> d_ID dep) (at_Targets T) = ts"
    unfolding T using old_ids [OF ids] by (simp add: target_def filter_id_conv)
  then show ?thesis
    using rolling_exact_available [OF e nn assms(3)] rolling_exact_bounds(2) [OF e nn] tot by simp
qed

theorem rolling_keeps_available_witness:
  "2 \<le> sum_list (map dt_DesiredCount (filter (\<lambda>t. dt_DeploymentID t \<noteq> ''d2'')
     (at_Targets (snd (computeRollingTarget surge_one ''a1'' (example_dep ''d2'')
       [example_dep ''d1'', example_dep ''d2''] (example_insts_of 2 1) NewDepRegistry)))))"
  using rolling_keeps_available [OF example_round(1) _ _ refl, of "''a1''" NewDepRegistry]
  by (simp add: example_counts surge_one_def example_known)



lemma old_loop_frame:
  "\<forall>d \<in> set deps. d_ID d \<noteq> k \<Longrightarrow>
    map_of (deployments (fst (old_loop insts deps n r))) k = map_of (deployments r) k"
proof (induction deps arbitrary: n r)
  case (Cons d deps)
  have only: "map_of (deployments (fst (Dep_UpdateRolloutStatusOnly (d_ID d) st re r))) k = map_of (deployments r) k"
    for st re r
    using Cons.prems by (auto simp: Dep_UpdateRolloutStatusOnly_def put_dep_def split: option.splits)
  show ?case using Cons by (simp add: Let_def only split: prod.splits) (metis fst_conv only)
qed simp

text \<open>
  Yet with a positive \<open>MaxSurge\<close> a rolling update does not finish. Once the new version is
  complete and ready and at most \<open>MaxSurge\<close> old instances are left, every target equals what
  is there and the status stays \<open>PROGRESSING\<close>: the old instances stay for good, although the
  comment in the controller says that no old instance is wanted then.
\<close>

lemma rolling_never_completes:
  assumes "rollout_round st dep deps insts"
    and "\<forall>i \<in> set insts. i_DeploymentID i \<in> d_ID ` set deps"
    and "viable_count (d_ID dep) insts = s_Replicas (d_SpecSnapshot dep)"
    and "ready_count (d_ID dep) insts = s_Replicas (d_SpecSnapshot dep)"
    and "0 < old_viable (d_ID dep) insts" and "old_viable (d_ID dep) insts \<le> rs_MaxSurge st"
    and "map_of (deployments r) (d_ID dep) = Some dep" and "d_RolloutStatus dep = RolloutProgressing"
  shows "(\<forall>t \<in> set (at_Targets (snd (computeRollingTarget st appID dep deps insts r))).
      dt_DesiredCount t = viable_count (dt_DeploymentID t) insts) \<and>
    map_option d_RolloutStatus
      (map_of (deployments (fst (computeRollingTarget st appID dep deps insts r))) (d_ID dep)) =
    Some RolloutProgressing"
proof
  let ?k = "d_ID dep"
  obtain new old ts where e: "rolling_exact (s_Replicas (d_SpecSnapshot dep)) (rs_MaxSurge st) (rs_MaxUnavailable st)
       (viable_count ?k insts) (ready_count ?k insts) (old_viable ?k insts) = (new, old)"
    and T: "at_Targets (snd (computeRollingTarget st appID dep deps insts r)) = target ?k new # ts"
    and all: "\<And>t. old_viable ?k insts \<le> old \<Longrightarrow> t \<in> set ts \<Longrightarrow>
      dt_DesiredCount t = viable_count (dt_DeploymentID t) insts"
    using rolling_targets [OF assms(1)] old_sum(2) [OF _ assms(2), of ?k] assms(1)
    unfolding rollout_round_def by metis
  have "old = old_viable ?k insts" "new = viable_count ?k insts"
    using rolling_exact_complete [OF e [unfolded assms(3,4)]] assms(3,5,6) by auto
  then show "\<forall>t \<in> set (at_Targets (snd (computeRollingTarget st appID dep deps insts r))).
      dt_DesiredCount t = viable_count (dt_DeploymentID t) insts"
    unfolding T using all by (auto simp: target_def)
  have fr: "map_of (deployments (fst (old_loop insts
      (go_sort (\<lambda>a b. d_ID a < d_ID b) (filter (\<lambda>d. d_ID d \<noteq> ?k) deps)) n r'))) ?k = map_of (deployments r') ?k"
    for n r' by (rule old_loop_frame) (simp add: dep_order.set_go_sort)
  have "map_of (deployments (fst (Dep_UpdateRolloutStatus ?k (d_RolloutStatus dep) a b c d re r))) ?k =
      Some (dep\<lparr>d_DesiredReplicas := a, d_UpdatedReplicas := b, d_ReadyReplicas := c,
                d_UnavailableReplicas := d, d_BlockedReason := re\<rparr>)" for a b c d re
    using assms(7) by (simp add: Dep_UpdateRolloutStatus_def put_dep_def)
  then show "map_option d_RolloutStatus
      (map_of (deployments (fst (computeRollingTarget st appID dep deps insts r))) ?k) = Some RolloutProgressing"
    using assms(1,5,8) by (simp add: rollout_round_def computeRollingTarget_def Let_def fr case_prod_unfold)
qed

lemma rolling_never_completes_example:
  "map_option d_RolloutStatus (map_of (deployments (fst (computeRollingTarget surge_one ''a1'' (example_dep ''d2'')
       [example_dep ''d1'', example_dep ''d2''] (example_insts_of 1 3) (put_dep ''d2'' (example_dep ''d2'') NewDepRegistry)))) ''d2'') =
     Some RolloutProgressing"
  using rolling_never_completes [OF example_round(2), of "put_dep ''d2'' (example_dep ''d2'') NewDepRegistry" "''a1''"]
  by (simp add: example_counts surge_one_def example_known put_dep_def NewDepRegistry_def)

end
