(* ===== verification/Node.thy ===== *)
theory Node
  imports Prelude
begin

text \<open>
  Nodes of the cluster: the registry of \<open>internal/node/registry.go\<close>, which decides from
  heartbeats which nodes are online, and the port allocator of
  \<open>internal/node/port_allocator.go\<close>, which an agent uses for the ports of its containers.

  The node registry keeps pointers, so a write to a node is a write to the table. The port
  allocator keeps two maps, the owner of each port and the ports of each instance.
\<close>

section \<open>Data\<close>

datatype NodeStatus = NodeOnline | NodeOffline | NodeStatusOther string

record Capabilities =
  TotalMemoryBytes :: "64 word"
  AvailableMemoryBytes :: "64 word"
  HasDocker :: bool
  HasPodman :: bool

record Node =
  n_ID :: string
  n_Hostname :: string
  n_IPAddress :: string
  n_CPUCores :: int
  n_OS :: string
  n_Architecture :: string
  n_Status :: NodeStatus
  n_LastHeartbeat :: time
  n_OfflineSince :: "time option"
  n_Capabilities :: Capabilities
  n_Token :: string

datatype NodeError = NodeNotFound

type_synonym NodeRegistry = "(string, Node) gomap"

section \<open>The node registry\<close>

definition NewNodeRegistry :: NodeRegistry where
  "NewNodeRegistry = []"

definition Node_Register :: "time \<Rightarrow> Node \<Rightarrow> string \<Rightarrow> NodeRegistry \<Rightarrow> NodeRegistry \<times> Node" where
  "Node_Register now n token r =
     (let n1 = n\<lparr>n_Status := NodeOnline, n_LastHeartbeat := now\<rparr>;
          n2 = (case map_of r (n_ID n) of
                  Some existing \<Rightarrow> if token = '''' then n1\<lparr>n_Token := n_Token existing\<rparr>
                                  else n1\<lparr>n_Token := token\<rparr>
                | None \<Rightarrow> n1\<lparr>n_Token := token\<rparr>)
      in (mput (n_ID n) n2 r, n2))"

definition Node_Get :: "NodeRegistry \<Rightarrow> string \<Rightarrow> NodeError + Node" where
  "Node_Get r k = (case map_of r k of None \<Rightarrow> Inl NodeNotFound | Some n \<Rightarrow> Inr n)"

definition Node_List :: "NodeRegistry \<Rightarrow> Node list" where
  "Node_List r = mvals r"

definition Node_Heartbeat ::
  "time \<Rightarrow> string \<Rightarrow> Capabilities option \<Rightarrow> NodeRegistry \<Rightarrow> NodeRegistry \<times> (NodeError + Node)" where
  "Node_Heartbeat now k caps r =
     (case map_of r k of
        None \<Rightarrow> (r, Inl NodeNotFound)
      | Some n \<Rightarrow>
          (let n1 = n\<lparr>n_Status := NodeOnline, n_LastHeartbeat := now, n_OfflineSince := None\<rparr>;
               n2 = (case caps of None \<Rightarrow> n1 | Some c \<Rightarrow> n1\<lparr>n_Capabilities := c\<rparr>)
           in (mput k n2 r, Inr n2)))"

definition mark_offline :: "time \<Rightarrow> duration \<Rightarrow> Node \<Rightarrow> Node" where
  "mark_offline now timeout n =
     (if time_sub now (n_LastHeartbeat n) > timeout \<and> n_Status n \<noteq> NodeOffline
      then n\<lparr>n_Status := NodeOffline, n_OfflineSince := Some now\<rparr> else n)"

definition MarkOfflineNodes :: "time \<Rightarrow> duration \<Rightarrow> NodeRegistry \<Rightarrow> NodeRegistry" where
  "MarkOfflineNodes now timeout r = map (\<lambda>(k, n). (k, mark_offline now timeout n)) r"

definition Node_GetByToken :: "NodeRegistry \<Rightarrow> string \<Rightarrow> Node option" where
  "Node_GetByToken r token = find (\<lambda>n. n_Token n = token \<and> token \<noteq> '''') (mvals r)"

datatype node_op =
    NRegister time Node string
  | NHeartbeat time string "Capabilities option"
  | NMarkOffline time duration

fun node_step :: "node_op \<Rightarrow> NodeRegistry \<Rightarrow> NodeRegistry" where
  "node_step (NRegister now n token) r = fst (Node_Register now n token r)"
| "node_step (NHeartbeat now k caps) r = fst (Node_Heartbeat now k caps r)"
| "node_step (NMarkOffline now timeout) r = MarkOfflineNodes now timeout r"

definition node_inv :: "NodeRegistry \<Rightarrow> bool" where
  "node_inv r \<longleftrightarrow> keyed n_ID r \<and>
     (\<forall>n \<in> set (mvals r). n_Status n = NodeOnline \<or> n_Status n = NodeOffline \<and> n_OfflineSince n \<noteq> None)"

lemma mark_offline_id [simp]: "n_ID (mark_offline now timeout n) = n_ID n"
  by (simp add: mark_offline_def)

lemma map_of_MarkOffline [simp]:
  "map_of (MarkOfflineNodes now timeout r) k = map_option (mark_offline now timeout) (map_of r k)"
  by (simp add: MarkOfflineNodes_def map_of_map)

lemma keyed_MarkOffline: "keyed n_ID r \<Longrightarrow> keyed n_ID (MarkOfflineNodes now timeout r)"
  by (auto simp: keyed_def MarkOfflineNodes_def comp_def case_prod_unfold)

lemma mvals_MarkOffline [simp]:
  "mvals (MarkOfflineNodes now timeout r) = map (mark_offline now timeout) (mvals r)"
  by (simp add: MarkOfflineNodes_def mvals_def case_prod_unfold)

lemma node_inv_put:
  assumes "node_inv r" and "n_ID n = k" and "n_Status n = NodeOnline"
  shows "node_inv (mput k n r)"
  using assms
  by (auto simp: node_inv_def set_mvals in_mput_cases keyed_distinct intro!: keyed_mput split: if_splits)

lemma node_step_inv: "node_inv r \<Longrightarrow> node_inv (node_step op r)"
proof (cases op)
  case (NRegister now n token)
  moreover assume "node_inv r"
  ultimately show ?thesis
    by (auto simp: Node_Register_def Let_def intro!: node_inv_put split: option.splits)
next
  case (NHeartbeat now k caps)
  moreover assume inv: "node_inv r"
  moreover have "n_ID n = k" if "map_of r k = Some n" for n
    using inv that by (auto simp: node_inv_def dest: keyed_map_of)
  ultimately show ?thesis
    by (auto simp: Node_Heartbeat_def Let_def intro!: node_inv_put split: option.splits)
next
  case (NMarkOffline now timeout)
  moreover assume "node_inv r"
  ultimately show ?thesis
    by (auto simp: node_inv_def keyed_MarkOffline mark_offline_def)
qed

interpretation node_machine: invariant_machine NewNodeRegistry "\<lambda>_ _. True" node_step node_inv
  by unfold_locales (simp add: node_inv_def NewNodeRegistry_def, simp add: node_step_inv)

interpretation node_table: id_registry "\<lambda>r. r" n_ID Node_Get Node_List NodeNotFound
  by unfold_locales (auto simp: Node_Get_def Node_List_def split: option.splits)

section \<open>The port allocator\<close>

record PortAllocator =
  minPort :: int
  maxPort :: int
  allocated :: "(int, string) gomap"
  instanceMap :: "(string, int list) gomap"

definition NewPortAllocator :: "int \<Rightarrow> int \<Rightarrow> PortAllocator" where
  "NewPortAllocator lo hi = \<lparr>minPort = lo, maxPort = hi, allocated = [], instanceMap = []\<rparr>"

definition claim_port :: "int \<Rightarrow> string \<Rightarrow> PortAllocator \<Rightarrow> PortAllocator" where
  "claim_port p inst pa =
     pa\<lparr>allocated := mput p inst (allocated pa),
        instanceMap := mput inst (mget_or [] (instanceMap pa) inst @ [p]) (instanceMap pa)\<rparr>"

definition Port_Allocate :: "string \<Rightarrow> PortAllocator \<Rightarrow> PortAllocator \<times> int option" where
  "Port_Allocate inst pa =
     (case find (\<lambda>p. map_of (allocated pa) p = None) [minPort pa..maxPort pa] of
        None \<Rightarrow> (pa, None)
      | Some p \<Rightarrow> (claim_port p inst pa, Some p))"

definition Port_Release :: "string \<Rightarrow> PortAllocator \<Rightarrow> PortAllocator" where
  "Port_Release inst pa =
     (case map_of (instanceMap pa) inst of
        None \<Rightarrow> pa
      | Some ports \<Rightarrow>
          pa\<lparr>allocated := foldl (\<lambda>m p. mdel p m) (allocated pa) ports,
             instanceMap := mdel inst (instanceMap pa)\<rparr>)"

definition Port_Sync :: "(int, string) gomap \<Rightarrow> PortAllocator \<Rightarrow> PortAllocator" where
  "Port_Sync m pa =
     foldl (\<lambda>a (p, inst). claim_port p inst a) (pa\<lparr>allocated := [], instanceMap := []\<rparr>) m"

datatype port_op = PAllocate string | PRelease string | PSync "(int, string) gomap"

fun port_step :: "port_op \<Rightarrow> PortAllocator \<Rightarrow> PortAllocator" where
  "port_step (PAllocate inst) pa = fst (Port_Allocate inst pa)"
| "port_step (PRelease inst) pa = Port_Release inst pa"
| "port_step (PSync m) pa = Port_Sync m pa"

fun port_op_ok :: "port_op \<Rightarrow> PortAllocator \<Rightarrow> bool" where
  "port_op_ok (PSync m) pa \<longleftrightarrow> distinct (map fst m)"
| "port_op_ok _ pa \<longleftrightarrow> True"

definition ports_of :: "PortAllocator \<Rightarrow> string \<Rightarrow> int list" where
  "ports_of pa inst = mget_or [] (instanceMap pa) inst"

text \<open>The two maps describe one relation, and no port is listed twice.\<close>

definition port_inv :: "PortAllocator \<Rightarrow> bool" where
  "port_inv pa \<longleftrightarrow>
     (\<forall>p inst. map_of (allocated pa) p = Some inst \<longleftrightarrow> p \<in> set (ports_of pa inst)) \<and>
     (\<forall>inst. distinct (ports_of pa inst))"

lemma ports_of_claim [simp]:
  "ports_of (claim_port p inst pa) i = (if i = inst then ports_of pa inst @ [p] else ports_of pa i)"
  by (simp add: ports_of_def claim_port_def)

lemma allocated_claim [simp]:
  "map_of (allocated (claim_port p inst pa)) q = (if q = p then Some inst else map_of (allocated pa) q)"
  by (simp add: claim_port_def)

lemma claim_port_range [simp]:
  "minPort (claim_port p inst pa) = minPort pa" "maxPort (claim_port p inst pa) = maxPort pa"
  by (simp_all add: claim_port_def)

lemma port_inv_claim:
  assumes "port_inv pa" and "map_of (allocated pa) p = None"
  shows "port_inv (claim_port p inst pa)"
proof -
  have "p \<notin> set (ports_of pa i)" for i
    using assms unfolding port_inv_def by (metis option.distinct(1))
  with assms(1) show ?thesis unfolding port_inv_def by auto
qed

lemma map_of_foldl_mdel: "map_of (foldl (\<lambda>m p. mdel p m) m ps) q = (if q \<in> set ps then None else map_of m q)"
  by (induction ps arbitrary: m) auto

lemma port_inv_Release: "port_inv pa \<Longrightarrow> port_inv (Port_Release inst pa)"
  unfolding port_inv_def Port_Release_def ports_of_def mget_or_def
  by (auto simp: map_of_foldl_mdel split: option.splits if_splits) (metis option.inject)+

lemma port_inv_Sync_loop:
  "port_inv pa \<Longrightarrow> distinct (map fst m) \<Longrightarrow> \<forall>p \<in> fst ` set m. map_of (allocated pa) p = None \<Longrightarrow>
    port_inv (foldl (\<lambda>a (p, inst). claim_port p inst a) pa m)"
proof (induction m arbitrary: pa)
  case (Cons e m)
  obtain p inst where e: "e = (p, inst)" by (cases e)
  have "port_inv (claim_port p inst pa)" using Cons.prems e by (intro port_inv_claim) auto
  moreover have "\<forall>q \<in> fst ` set m. map_of (allocated (claim_port p inst pa)) q = None"
    using Cons.prems e by (auto simp: image_iff)
  ultimately show ?case using Cons.IH Cons.prems e by simp
qed simp

lemma port_inv_Sync: "distinct (map fst m) \<Longrightarrow> port_inv (Port_Sync m pa)"
  unfolding Port_Sync_def
  by (rule port_inv_Sync_loop) (simp_all add: port_inv_def ports_of_def)

lemma port_inv_Allocate: "port_inv pa \<Longrightarrow> port_inv (fst (Port_Allocate inst pa))"
  by (auto simp: Port_Allocate_def find_Some_iff intro!: port_inv_claim split: option.splits)

interpretation port_machine: invariant_machine "NewPortAllocator lo hi" port_op_ok port_step port_inv for lo hi
proof
  show "port_inv (NewPortAllocator lo hi)" by (simp add: port_inv_def NewPortAllocator_def ports_of_def)
next
  fix s op assume "port_inv s" and "port_op_ok op s"
  then show "port_inv (port_step op s)"
    by (cases op) (auto intro: port_inv_Allocate port_inv_Release port_inv_Sync)
qed

lemma find_upto_least:
  "find P [lo..hi] = Some (p :: int) \<longleftrightarrow> lo \<le> p \<and> p \<le> hi \<and> P p \<and> (\<forall>q. lo \<le> q \<and> q < p \<longrightarrow> \<not> P q)"
proof (induction lo hi rule: upto.induct)
  case (1 i j)
  show ?case
  proof (cases "i \<le> j")
    case True
    have "(\<forall>q. i \<le> q \<and> q < p \<longrightarrow> \<not> P q) \<longleftrightarrow> (i < p \<longrightarrow> \<not> P i) \<and> (\<forall>q. i + 1 \<le> q \<and> q < p \<longrightarrow> \<not> P q)"
      by (metis add1_zle_eq dual_order.order_iff_strict zless_add1_eq add_le_cancel_right)
    moreover have "i \<le> p \<longleftrightarrow> p = i \<or> i + 1 \<le> p" by arith
    ultimately show ?thesis using True 1 [OF True]
      by (cases "P i") (auto simp: upto_rec1 [of i j])
  qed (auto simp: upto.simps [of i j])
qed

lemma find_upto_none: "find P [lo..hi] = None \<longleftrightarrow> (\<forall>q :: int. lo \<le> q \<and> q \<le> hi \<longrightarrow> \<not> P q)"
  by (auto simp: find_None_iff)

section \<open>Properties\<close>

text \<open>
  Failure detection. In every reachable state a node is online or offline, and an offline
  one records since when. Marking at time \<open>now\<close> turns offline exactly the nodes whose last
  heartbeat is more than the timeout ago, keeps the time at which a node went offline first,
  and touches no other node; a heartbeat brings a node back and clears that time.
\<close>

lemma node_failure_detection:
  assumes "reach NewNodeRegistry (\<lambda>_ _. True) node_step r" and "Node_Get r k = Inr n"
  shows "n_ID n = k \<and> (n_Status n = NodeOnline \<or> n_Status n = NodeOffline \<and> n_OfflineSince n \<noteq> None) \<and>
    (\<exists>n'. Node_Get (MarkOfflineNodes now timeout r) k = Inr n' \<and>
       (if time_sub now (n_LastHeartbeat n) > timeout
        then n_Status n' = NodeOffline \<and>
             n_OfflineSince n' = (if n_Status n = NodeOffline then n_OfflineSince n else Some now)
        else n' = n)) \<and>
    (\<exists>n'. Node_Heartbeat now k caps r = (mput k n' r, Inr n') \<and> n_Status n' = NodeOnline \<and>
       n_OfflineSince n' = None \<and> n_LastHeartbeat n' = now \<and> n_Token n' = n_Token n)"
proof -
  have inv: "node_inv r" using assms(1) by (rule node_machine.reach_inv)
  have look: "map_of r k = Some n" using assms(2) by (auto simp: Node_Get_def split: option.splits)
  then have "n_ID n = k" "n_Status n = NodeOnline \<or> n_Status n = NodeOffline \<and> n_OfflineSince n \<noteq> None"
    using inv by (auto simp: node_inv_def dest: keyed_map_of mvals_lookup)
  with look show ?thesis
    by (auto simp: Node_Get_def mark_offline_def Node_Heartbeat_def Let_def split: option.splits)
qed

definition example_node :: Node where
  "example_node = \<lparr>n_ID = ''n1'', n_Hostname = ''h'', n_IPAddress = ''10.0.0.1'', n_CPUCores = 4,
     n_OS = ''linux'', n_Architecture = ''amd64'', n_Status = NodeStatusOther '''',
     n_LastHeartbeat = 0, n_OfflineSince = None,
     n_Capabilities = \<lparr>TotalMemoryBytes = 4294967296, AvailableMemoryBytes = 0, HasDocker = True,
       HasPodman = False\<rparr>, n_Token = ''''\<rparr>"

definition example_nodes :: NodeRegistry where
  "example_nodes = node_step (NRegister 100 example_node ''tok'') NewNodeRegistry"

lemma example_nodes_reach: "reach NewNodeRegistry (\<lambda>_ _. True) node_step example_nodes"
  unfolding example_nodes_def by (intro reach_step reach_init) simp

lemma node_failure_detection_example:
  "\<exists>n'. Node_Get (MarkOfflineNodes 200 50 example_nodes) ''n1'' = Inr n' \<and> n_Status n' = NodeOffline"
proof -
  obtain n where n: "Node_Get example_nodes ''n1'' = Inr n" "n_LastHeartbeat n = 100"
    by (simp add: example_nodes_def NewNodeRegistry_def Node_Register_def Let_def example_node_def
        Node_Get_def)
  from node_failure_detection [OF example_nodes_reach n(1), of 200 50] n(2) show ?thesis
    by (auto simp: time_sub_def min_int64_def max_int64_def)
qed

text \<open>
  Ports are exclusive. However allocations, releases and resynchronisations follow each
  other, no port belongs to two instances. An allocation takes the lowest free port of the
  range and fails only when every port of the range is taken; a release frees exactly the
  ports of that instance.
\<close>

lemma port_allocation_exclusive:
  assumes "reach (NewPortAllocator lo hi) port_op_ok port_step pa"
  shows "(i \<noteq> j \<longrightarrow> set (ports_of pa i) \<inter> set (ports_of pa j) = {}) \<and> distinct (ports_of pa i) \<and>
    (case Port_Allocate i pa of
       (pa', Some p) \<Rightarrow> minPort pa \<le> p \<and> p \<le> maxPort pa \<and> (\<forall>k. p \<notin> set (ports_of pa k)) \<and>
         (\<forall>q. minPort pa \<le> q \<and> q < p \<longrightarrow> (\<exists>k. q \<in> set (ports_of pa k))) \<and>
         ports_of pa' j = (if j = i then ports_of pa i @ [p] else ports_of pa j)
     | (pa', None) \<Rightarrow> pa' = pa \<and>
         (\<forall>q. minPort pa \<le> q \<and> q \<le> maxPort pa \<longrightarrow> (\<exists>k. q \<in> set (ports_of pa k)))) \<and>
    ports_of (Port_Release i pa) j = (if j = i then [] else ports_of pa j)"
proof -
  have inv: "port_inv pa" using assms by (rule port_machine.reach_inv)
  then have own: "map_of (allocated pa) p = Some k \<longleftrightarrow> p \<in> set (ports_of pa k)" for p k
    by (simp add: port_inv_def)
  then have free: "map_of (allocated pa) p = None \<longleftrightarrow> (\<forall>k. p \<notin> set (ports_of pa k))" for p
    by (metis not_Some_eq)
  have "i \<noteq> j \<longrightarrow> set (ports_of pa i) \<inter> set (ports_of pa j) = {}"
    using own by (metis disjoint_iff option.inject)
  moreover have "distinct (ports_of pa i)" using inv by (simp add: port_inv_def)
  moreover have "ports_of (Port_Release i pa) j = (if j = i then [] else ports_of pa j)"
    by (auto simp: Port_Release_def ports_of_def mget_or_def split: option.splits)
  ultimately show ?thesis
    using free by (auto simp: Port_Allocate_def find_upto_least find_upto_none split: option.splits)
qed

lemma port_allocation_exclusive_example:
  "\<exists>pa p. Port_Allocate ''i1'' (NewPortAllocator 30000 30002) = (pa, Some p) \<and> 30000 \<le> p \<and> p \<le> 30002"
  using port_allocation_exclusive [OF reach_init, of "''i1''" "''i2''" 30000 30002]
  by (auto simp: NewPortAllocator_def ports_of_def split: option.splits prod.splits)

end
