(* ===== verification/Reconciler.thy ===== *)
theory Reconciler
  imports Rollout Node
begin

text \<open>
  The instance reconciler, \<open>internal/scheduler/instance_reconciler.go\<close>: one pass marks the
  instances of lost nodes, evaluates health, asks the rollout controller for targets and
  creates, drains and stops instances until the targets are met.

  The state of a pass is the instance registry, the deployment registry and the number of
  random identifiers drawn so far; \<open>gen n\<close> is the \<open>n\<close>-th of them. The readings of the clock
  are the record \<open>RecClock\<close>: one reading in each of the two first phases, one per instance for
  the writes of the registry and for the drain timer. Logging is left out.
\<close>

section \<open>Definitions\<close>

record RecState =
  rc_insts :: InstRegistry
  rc_deps :: DepRegistry
  rc_drawn :: nat

record RecClock =
  ck_recover :: time
  ck_health :: time
  ck_write :: "string \<Rightarrow> time"
  ck_drain :: "string \<Rightarrow> time"
  ck_since :: "string \<Rightarrow> time"

definition InstanceUnknownTimeout :: duration where
  "InstanceUnknownTimeout = 5 * minute"

definition HealthyRecoveryWindow :: duration where
  "HealthyRecoveryWindow = 60 * second"

definition DrainTimeout :: duration where
  "DrainTimeout = 10 * second"

definition onlineNodes :: "NodeRegistry \<Rightarrow> (string, bool) gomap" where
  "onlineNodes nodeReg = foldl (\<lambda>m n. if n_Status n = NodeOnline then mput (n_ID n) True m else m) [] (Node_List nodeReg)"

definition recover_instance :: "(string, bool) gomap \<Rightarrow> RecClock \<Rightarrow> InstRegistry \<Rightarrow> Instance \<Rightarrow> InstRegistry" where
  "recover_instance onl ck r inst =
     (let r1 = (if i_NodeID inst \<noteq> '''' \<and> \<not> mget_or False onl (i_NodeID inst) \<and>
                   isViable (i_Status inst) \<and> i_Status inst \<noteq> StatusUnknown
                then fst (Inst_MarkUnknown (ck_write ck (i_ID inst)) (i_ID inst) r) else r)
      in if i_Status inst = StatusUnknown \<and>
            (case i_UnknownSince inst of None \<Rightarrow> False
             | Some t \<Rightarrow> time_sub (ck_recover ck) t \<ge> InstanceUnknownTimeout)
         then fst (Inst_UpdateState (ck_write ck (i_ID inst)) (i_ID inst) StatusCrashed (i_NodeID inst)
                     (i_ContainerID inst) r1)
         else r1)"

definition recoverOrphanedInstances :: "NodeRegistry \<Rightarrow> RecClock \<Rightarrow> RecState \<Rightarrow> RecState" where
  "recoverOrphanedInstances nodeReg ck s =
     s\<lparr>rc_insts := foldl (recover_instance (onlineNodes nodeReg) ck) (rc_insts s) (Inst_List (rc_insts s))\<rparr>"

definition evaluate_instance :: "RecClock \<Rightarrow> RecState \<Rightarrow> Instance \<Rightarrow> RecState" where
  "evaluate_instance ck s inst =
     (if i_Status inst = StatusRunning then
        (if i_Health inst = HealthUnhealthy then
           s\<lparr>rc_insts := fst (Inst_UpdateState (ck_write ck (i_ID inst)) (i_ID inst) StatusCrashed
                               (i_NodeID inst) (i_ContainerID inst) (rc_insts s)),
             rc_deps := fst (Dep_RecordCrash (i_DeploymentID inst) MaxCrashLoopThreshold (rc_deps s))\<rparr>
         else if i_Health inst = HealthHealthy \<and>
                 (case i_StartedAt inst of None \<Rightarrow> False
                  | Some t \<Rightarrow> time_sub (ck_health ck) t \<ge> HealthyRecoveryWindow)
         then s\<lparr>rc_deps := fst (Dep_ResetCrashCounter (i_DeploymentID inst) (rc_deps s))\<rparr>
         else s)
      else s)"

definition evaluateHealthAndCrashes :: "RecClock \<Rightarrow> RecState \<Rightarrow> RecState" where
  "evaluateHealthAndCrashes ck s = foldl (evaluate_instance ck) s (Inst_List (rc_insts s))"

text \<open>Scaling up: \<open>n\<close> calls of \<open>Create\<close>.\<close>

fun create_instances :: "(nat \<Rightarrow> string) \<Rightarrow> (string \<Rightarrow> time) \<Rightarrow> string \<Rightarrow> string \<Rightarrow> nat \<Rightarrow> RecState \<Rightarrow> RecState" where
  "create_instances gen clk appID depID 0 s = s"
| "create_instances gen clk appID depID (Suc n) s =
     (let rid = gen (rc_drawn s)
      in create_instances gen clk appID depID n
           (s\<lparr>rc_insts := fst (Inst_Create rid (clk rid) appID depID (rc_insts s)),
              rc_drawn := Suc (rc_drawn s)\<rparr>))"

text \<open>Scaling down: draining instances first, then those not ready, then by identifier.\<close>

definition stop_before :: "Instance \<Rightarrow> Instance \<Rightarrow> bool" where
  "stop_before a b =
     (if i_Draining a \<noteq> i_Draining b then i_Draining a
      else if isReady a \<noteq> isReady b then \<not> isReady a
      else i_ID a > i_ID b)"

definition stop_instance :: "duration \<Rightarrow> RecClock \<Rightarrow> InstRegistry \<Rightarrow> Instance \<Rightarrow> InstRegistry" where
  "stop_instance timeout ck r inst =
     (let k = i_ID inst;
          r1 = (if \<not> i_Draining inst then fst (Inst_MarkDraining (ck_write ck k) k r) else r);
          inst1 = (if \<not> i_Draining inst
                   then inst\<lparr>i_Draining := True, i_DrainStartedAt := Some (ck_drain ck k)\<rparr> else inst)
      in case i_DrainStartedAt inst1 of
           None \<Rightarrow> r1
         | Some t \<Rightarrow>
             if timeout \<le> 0 \<or> time_sub (ck_since ck k) t \<ge> timeout
             then fst (Inst_UpdateState (ck_write ck k) k
                         (if i_Status inst1 = StatusAssigned \<or> i_Status inst1 = StatusPending
                          then StatusStopped else StatusStopping)
                         (i_NodeID inst1) (i_ContainerID inst1) r1)
             else r1)"

text \<open>The loop over \<open>viableInstances[0..toStop)\<close> panics when it indexes past the end.\<close>

datatype RecError = IndexOutOfRange

definition viableInstances :: "string \<Rightarrow> string \<Rightarrow> InstRegistry \<Rightarrow> Instance list" where
  "viableInstances appID depID r =
     filter (\<lambda>i. i_ApplicationID i = appID \<and> i_DeploymentID i = depID \<and> isViable (i_Status i)) (Inst_List r)"

definition scale_down ::
  "duration \<Rightarrow> RecClock \<Rightarrow> Instance list \<Rightarrow> int \<Rightarrow> RecState \<Rightarrow> RecError + RecState" where
  "scale_down timeout ck viable toStop s =
     (if toStop > int (length viable) then Inl IndexOutOfRange
      else Inr (s\<lparr>rc_insts := foldl (stop_instance timeout ck) (rc_insts s)
                                (take (nat toStop) (go_sort stop_before viable))\<rparr>))"

definition reconcile_target ::
  "(nat \<Rightarrow> string) \<Rightarrow> duration \<Rightarrow> RecClock \<Rightarrow> string \<Rightarrow> DeploymentTarget \<Rightarrow> RecState \<Rightarrow> RecError + RecState" where
  "reconcile_target gen timeout ck appID t s =
     (case Dep_Get (rc_deps s) (dt_DeploymentID t) of
        Inl _ \<Rightarrow> Inr s
      | Inr dep \<Rightarrow>
          (let viable = viableInstances appID (dt_DeploymentID t) (rc_insts s);
               actual = int (length viable);
               desired = dt_DesiredCount t;
               s1 = (if actual < desired
                     then create_instances gen (ck_write ck) appID (d_ID dep) (nat (wrap64 (desired - actual))) s
                     else s)
           in if actual > desired then scale_down timeout ck viable (wrap64 (actual - desired)) s1
              else Inr s1))"

fun reconcile_targets ::
  "(nat \<Rightarrow> string) \<Rightarrow> duration \<Rightarrow> RecClock \<Rightarrow> (string \<times> DeploymentTarget) list \<Rightarrow> RecState \<Rightarrow> RecError + RecState" where
  "reconcile_targets gen timeout ck [] s = Inr s"
| "reconcile_targets gen timeout ck ((appID, t) # ts) s =
     (case reconcile_target gen timeout ck appID t s of
        Inl e \<Rightarrow> Inl e
      | Inr s1 \<Rightarrow> reconcile_targets gen timeout ck ts s1)"

definition flat_targets :: "AppTarget list \<Rightarrow> (string \<times> DeploymentTarget) list" where
  "flat_targets ats = concat (map (\<lambda>a. map (Pair (at_AppID a)) (at_Targets a)) ats)"

definition Reconcile ::
  "(nat \<Rightarrow> string) \<Rightarrow> duration \<Rightarrow> AppRegistry \<Rightarrow> NodeRegistry \<Rightarrow> RecClock \<Rightarrow> RecState \<Rightarrow> RecError + RecState" where
  "Reconcile gen timeout appReg nodeReg ck s =
     (let s1 = recoverOrphanedInstances nodeReg ck s;
          s2 = evaluateHealthAndCrashes ck s1;
          (deps', targets) = ComputeTargets appReg (rc_insts s2) (rc_deps s2)
      in reconcile_targets gen timeout ck (flat_targets targets) (s2\<lparr>rc_deps := deps'\<rparr>))"

section \<open>Loops over a snapshot\<close>

text \<open>
  The code lists a registry and then rewrites the listed values one by one. When each
  iteration rewrites only its own entry, from the value of the snapshot, the loop is a map
  over the table.
\<close>

definition rewrite_in :: "'v set \<Rightarrow> ('v \<Rightarrow> 'v) \<Rightarrow> 'v \<Rightarrow> 'v" where
  "rewrite_in X f v = (if v \<in> X then f v else v)"

lemma mput_map:
  "distinct (map fst m) \<Longrightarrow> map_of m k = Some v \<Longrightarrow>
    mput k w m = map (\<lambda>(k', v'). (k', if k' = k then w else v')) m"
proof (induction m)
  case (Cons p m)
  then show ?case by (cases p) (auto intro!: map_idI [symmetric] simp: image_iff split: if_splits)
qed simp

lemma mput_keyed:
  assumes "keyed ident m" and "map_of m (ident x) = Some x"
  shows "mput (ident x) w m = map (\<lambda>(k, v). (k, if v = x then w else v)) m"
proof -
  have "k = ident x \<longleftrightarrow> v = x" if "(k, v) \<in> set m" for k v
    using that assms by (auto simp: keyed_def dest: map_of_SomeD)
      (metis assms(1) keyed_distinct map_of_is_SomeI option.inject)
  then show ?thesis
    unfolding mput_map [OF keyed_distinct [OF assms(1)] assms(2)] by (intro map_cong) auto
qed

lemma map_of_map_val: "map_of (map (\<lambda>(k, v). (k, g v)) m) k = map_option g (map_of m k)"
  by (induction m) auto

lemma snapshot_fold:
  assumes "keyed ident m" and "distinct xs" and "set xs \<subseteq> set (mvals m)"
    and step: "\<And>r i. map_of r (ident i) = Some i \<Longrightarrow> step r i = mput (ident i) (f i) r"
    and ident: "\<And>i. ident (f i) = ident i"
  shows "foldl step m xs = map (\<lambda>(k, v). (k, rewrite_in (set xs) f v)) m"
  using assms(1-3)
proof (induction xs arbitrary: m)
  case Nil
  then show ?case by (auto simp: rewrite_in_def)
next
  case (Cons x xs)
  have x: "map_of m (ident x) = Some x" using Cons.prems keyed_mem by fastforce
  let ?m = "mput (ident x) (f x) m"
  have e: "?m = map (\<lambda>(k, v). (k, if v = x then f x else v)) m" by (rule mput_keyed [OF Cons.prems(1) x])
  have sub: "set xs \<subseteq> set (mvals ?m)"
  proof
    fix y assume y: "y \<in> set xs"
    then have "y \<in> set (mvals m)" using Cons.prems(3) by auto
    then obtain k where "(k, y) \<in> set m" by (auto simp: set_mvals)
    then have "(k, if y = x then f x else y) \<in> set ?m" unfolding e by force
    moreover have "y \<noteq> x" using y Cons.prems(2) by auto
    ultimately show "y \<in> set (mvals ?m)" by (auto simp: set_mvals)
  qed
  have fx: "f x \<notin> set xs"
  proof
    assume a: "f x \<in> set xs"
    then have "f x \<in> set (mvals m)" using Cons.prems(3) by auto
    then have "map_of m (ident x) = Some (f x)" using Cons.prems(1) ident [of x] by (simp add: keyed_mem)
    with x a Cons.prems(2) show False by auto
  qed
  have "foldl step m (x # xs) = foldl step ?m xs" using step [OF x] by simp
  also have "\<dots> = map (\<lambda>(k, v). (k, rewrite_in (set xs) f v)) ?m"
    using Cons.prems(1,2) sub ident by (intro Cons.IH) (auto intro: keyed_mput)
  also have "\<dots> = map (\<lambda>(k, v). (k, rewrite_in (set (x # xs)) f v)) m"
    using fx Cons.prems(2) unfolding e by (auto simp: rewrite_in_def)
  finally show ?case .
qed

lemma mvals_map_val: "mvals (map (\<lambda>(k, v). (k, g v)) m) = map g (mvals m)"
  by (induction m) auto

lemma keyed_map_val: "keyed ident m \<Longrightarrow> (\<And>v. ident (g v) = ident v) \<Longrightarrow> keyed ident (map (\<lambda>(k, v). (k, g v)) m)"
  by (auto simp: keyed_def case_prod_unfold comp_def)

text \<open>What the three loops do to one instance.\<close>

definition recovered :: "(string, bool) gomap \<Rightarrow> RecClock \<Rightarrow> Instance \<Rightarrow> Instance" where
  "recovered onl ck i =
     (if i_NodeID i \<noteq> '''' \<and> \<not> mget_or False onl (i_NodeID i) \<and> isViable (i_Status i) \<and> i_Status i \<noteq> StatusUnknown
      then (if i_UnknownSince i = None
            then i\<lparr>i_Status := StatusUnknown, i_UnknownSince := Some (ck_write ck (i_ID i))\<rparr>
            else i\<lparr>i_Status := StatusUnknown\<rparr>)
      else if i_Status i = StatusUnknown \<and> (\<exists>t. i_UnknownSince i = Some t \<and> InstanceUnknownTimeout \<le> time_sub (ck_recover ck) t)
      then Update_apply (ck_write ck (i_ID i)) StatusCrashed (i_NodeID i) (i_ContainerID i) i
      else i)"

definition evaluated :: "RecClock \<Rightarrow> Instance \<Rightarrow> Instance" where
  "evaluated ck i =
     (if i_Status i = StatusRunning \<and> i_Health i = HealthUnhealthy
      then Update_apply (ck_write ck (i_ID i)) StatusCrashed (i_NodeID i) (i_ContainerID i) i else i)"

definition drained :: "RecClock \<Rightarrow> Instance \<Rightarrow> Instance" where
  "drained ck i = (if i_Draining i then i else i\<lparr>i_Draining := True, i_DrainStartedAt := Some (ck_write ck (i_ID i))\<rparr>)"

definition drain_over :: "duration \<Rightarrow> RecClock \<Rightarrow> Instance \<Rightarrow> bool" where
  "drain_over timeout ck i \<longleftrightarrow>
     (case (if i_Draining i then i_DrainStartedAt i else Some (ck_drain ck (i_ID i))) of None \<Rightarrow> False
      | Some t \<Rightarrow> timeout \<le> 0 \<or> timeout \<le> time_sub (ck_since ck (i_ID i)) t)"

definition stopped :: "duration \<Rightarrow> RecClock \<Rightarrow> Instance \<Rightarrow> Instance" where
  "stopped timeout ck i =
     (if drain_over timeout ck i
      then Update_apply (ck_write ck (i_ID i))
             (if i_Status i = StatusAssigned \<or> i_Status i = StatusPending then StatusStopped else StatusStopping)
             (i_NodeID i) (i_ContainerID i) (drained ck i)
      else drained ck i)"

lemma recovered_ident [simp]: "i_ID (recovered onl ck i) = i_ID i"
  by (simp add: recovered_def)

lemma evaluated_ident [simp]: "i_ID (evaluated ck i) = i_ID i"
  by (simp add: evaluated_def)

lemma drained_simps [simp]:
  "i_ID (drained ck i) = i_ID i" "i_Status (drained ck i) = i_Status i" "i_NodeID (drained ck i) = i_NodeID i"
  "i_ApplicationID (drained ck i) = i_ApplicationID i" "i_DeploymentID (drained ck i) = i_DeploymentID i"
  "i_ContainerID (drained ck i) = i_ContainerID i" "i_Draining (drained ck i)"
  by (simp_all add: drained_def)

lemma stopped_ident [simp]: "i_ID (stopped timeout ck i) = i_ID i"
  by (simp add: stopped_def)

lemma recover_instance_eq:
  "map_of r (i_ID i) = Some i \<Longrightarrow> recover_instance onl ck r i = mput (i_ID i) (recovered onl ck i) r"
  by (cases "i_UnknownSince i")
    (auto simp: recover_instance_def recovered_def Inst_MarkUnknown_def Inst_UpdateState_def Let_def
      isViable_def mput_existing)

lemma stop_instance_eq:
  assumes "map_of r (i_ID i) = Some i" and "isViable (i_Status i)"
  shows "stop_instance timeout ck r i = mput (i_ID i) (stopped timeout ck i) r"
proof -
  let ?k = "i_ID i"
  have st: "i_Status i \<noteq> StatusStopped" "i_Status i \<noteq> StatusCrashed" using assms(2) by (auto simp: isViable_def)
  have r1: "(if \<not> i_Draining i then fst (Inst_MarkDraining (ck_write ck ?k) ?k r) else r) = mput ?k (drained ck i) r"
    using assms(1) st by (simp add: drained_def Inst_MarkDraining_def mput_existing)
  have up: "fst (Inst_UpdateState now ?k s (i_NodeID i) (i_ContainerID i) (mput ?k (drained ck i) r)) =
      mput ?k (Update_apply now s (i_NodeID i) (i_ContainerID i) (drained ck i)) r" for now s
    using st by (simp add: Inst_UpdateState_def Let_def)
  show ?thesis
    unfolding stop_instance_def stopped_def Let_def r1
    by (cases "i_Draining i"; cases "i_DrainStartedAt i") (simp_all add: up drain_over_def)
qed


section \<open>The three loops as maps\<close>

lemma mvals_distinct: "keyed ident m \<Longrightarrow> distinct (mvals m)"
  using keyed_ids_distinct distinct_map by blast

lemma recover_phase:
  assumes "keyed i_ID (rc_insts s)"
  shows "rc_insts (recoverOrphanedInstances nodeReg ck s) =
    map (\<lambda>(k, i). (k, recovered (onlineNodes nodeReg) ck i)) (rc_insts s)"
proof -
  have "foldl (recover_instance (onlineNodes nodeReg) ck) (rc_insts s) (mvals (rc_insts s)) =
      map (\<lambda>(k, v). (k, rewrite_in (set (mvals (rc_insts s))) (recovered (onlineNodes nodeReg) ck) v)) (rc_insts s)"
    by (rule snapshot_fold [OF assms mvals_distinct [OF assms] subset_refl]) (simp_all add: recover_instance_eq)
  also have "\<dots> = map (\<lambda>(k, i). (k, recovered (onlineNodes nodeReg) ck i)) (rc_insts s)"
    by (auto simp: rewrite_in_def set_mvals)
  finally show ?thesis by (simp add: recoverOrphanedInstances_def Inst_List_def)
qed

lemma evaluate_insts:
  "rc_insts (foldl (evaluate_instance ck) s is) =
    foldl (\<lambda>r i. if i_Status i = StatusRunning \<and> i_Health i = HealthUnhealthy
                 then fst (Inst_UpdateState (ck_write ck (i_ID i)) (i_ID i) StatusCrashed (i_NodeID i)
                            (i_ContainerID i) r) else r) (rc_insts s) is"
  by (induction "is" arbitrary: s) (simp_all add: evaluate_instance_def)

lemma evaluate_phase:
  assumes "keyed i_ID (rc_insts s)"
  shows "rc_insts (evaluateHealthAndCrashes ck s) = map (\<lambda>(k, i). (k, evaluated ck i)) (rc_insts s)"
proof -
  have "rc_insts (evaluateHealthAndCrashes ck s) =
      map (\<lambda>(k, v). (k, rewrite_in (set (mvals (rc_insts s))) (evaluated ck) v)) (rc_insts s)"
    unfolding evaluateHealthAndCrashes_def Inst_List_def evaluate_insts
    by (rule snapshot_fold [OF assms mvals_distinct [OF assms] subset_refl])
      (auto simp: evaluated_def Inst_UpdateState_def Let_def mput_existing)
  also have "\<dots> = map (\<lambda>(k, i). (k, evaluated ck i)) (rc_insts s)"
    by (auto simp: rewrite_in_def set_mvals)
  finally show ?thesis .
qed

interpretation stop_order: slice_order stop_before
proof
  show "stop_before x y \<Longrightarrow> \<not> stop_before y x" for x y by (auto simp: stop_before_def split: if_splits)
  show "\<not> stop_before x y \<Longrightarrow> \<not> stop_before y z \<Longrightarrow> \<not> stop_before x z" for x y z
    by (auto simp: stop_before_def split: if_splits)
qed

text \<open>The instances that a pass stops for one deployment.\<close>

definition victims :: "Instance list \<Rightarrow> int \<Rightarrow> Instance list" where
  "victims viable n = take (nat n) (go_sort stop_before viable)"

lemma victims_sub: "set (victims viable n) \<subseteq> set viable"
  using set_take_subset [of "nat n" "go_sort stop_before viable"] by (simp add: victims_def stop_order.set_go_sort)

lemma victims_distinct: "distinct viable \<Longrightarrow> distinct (victims viable n)"
  by (simp add: victims_def stop_order.distinct_go_sort)

lemma stop_phase:
  assumes "keyed i_ID r" and "viable = viableInstances a d r"
  shows "foldl (stop_instance timeout ck) r (victims viable n) =
    map (\<lambda>(k, i). (k, rewrite_in (set (victims viable n)) (stopped timeout ck) i)) r"
proof -
  have v: "isViable (i_Status i)" if "i \<in> set (victims viable n)" for i
    using that victims_sub assms(2) by (fastforce simp: viableInstances_def)
  let ?step = "\<lambda>r i. if isViable (i_Status i) then stop_instance timeout ck r i else mput (i_ID i) (stopped timeout ck i) r"
  have "foldl (stop_instance timeout ck) r (victims viable n) = foldl ?step r (victims viable n)"
    by (rule foldl_cong) (auto simp: v)
  also have "\<dots> = map (\<lambda>(k, i). (k, rewrite_in (set (victims viable n)) (stopped timeout ck) i)) r"
  proof (rule snapshot_fold [OF assms(1)])
    show "distinct (victims viable n)"
      using assms(2) mvals_distinct [OF assms(1)] by (intro victims_distinct) (simp add: viableInstances_def Inst_List_def)
    show "set (victims viable n) \<subseteq> set (mvals r)"
      using victims_sub assms(2) by (fastforce simp: viableInstances_def Inst_List_def)
  qed (simp_all add: stop_instance_eq)
  finally show ?thesis .
qed

text \<open>Creation appends instances of one deployment; identifiers are new.\<close>

definition fresh_ids :: "(nat \<Rightarrow> string) \<Rightarrow> RecState \<Rightarrow> bool" where
  "fresh_ids gen s \<longleftrightarrow> inj gen \<and> (\<forall>n \<ge> rc_drawn s. map_of (rc_insts s) (gen n) = None)"

definition new_instance :: "(nat \<Rightarrow> string) \<Rightarrow> (string \<Rightarrow> time) \<Rightarrow> string \<Rightarrow> string \<Rightarrow> nat \<Rightarrow> Instance" where
  "new_instance gen clk a d n = snd (Inst_Create (gen n) (clk (gen n)) a d [])"

lemma new_instance_simps [simp]:
  "i_ID (new_instance gen clk a d n) = gen n" "i_ApplicationID (new_instance gen clk a d n) = a"
  "i_DeploymentID (new_instance gen clk a d n) = d" "i_Status (new_instance gen clk a d n) = StatusPending"
  by (simp_all add: new_instance_def Inst_Create_def Let_def)

lemma create_phase:
  assumes "fresh_ids gen s"
  shows "rc_insts (create_instances gen clk a d n s) =
      rc_insts s @ map (\<lambda>m. (gen m, new_instance gen clk a d m)) [rc_drawn s..<rc_drawn s + n] \<and>
    rc_drawn (create_instances gen clk a d n s) = rc_drawn s + n \<and>
    rc_deps (create_instances gen clk a d n s) = rc_deps s \<and> fresh_ids gen (create_instances gen clk a d n s)"
  using assms
proof (induction n arbitrary: s)
  case (Suc n)
  let ?s = "s\<lparr>rc_insts := fst (Inst_Create (gen (rc_drawn s)) (clk (gen (rc_drawn s))) a d (rc_insts s)),
              rc_drawn := Suc (rc_drawn s)\<rparr>"
  have i: "rc_insts ?s = rc_insts s @ [(gen (rc_drawn s), new_instance gen clk a d (rc_drawn s))]"
    using Suc.prems by (simp add: fresh_ids_def Inst_Create_def new_instance_def Let_def mput_new)
  have "fresh_ids gen ?s"
    using Suc.prems unfolding fresh_ids_def i by (auto simp: inj_eq)
  from Suc.IH [OF this] show ?case
    unfolding create_instances.simps Let_def i
    by (simp add: upt_rec [of "rc_drawn s"])
qed simp


section \<open>A pass as a run of the registries\<close>

lemma reach_trans: "reach s ok step t \<Longrightarrow> reach t ok step u \<Longrightarrow> reach s ok step u"
  by (rotate_tac, induction rule: reach.induct) (auto intro: reach_step)

lemma reach_mono: "reach s ok step t \<Longrightarrow> (\<And>op s. ok op s \<Longrightarrow> ok' op s) \<Longrightarrow> reach s ok' step t"
  by (induction rule: reach.induct) (auto intro: reach_init reach_step)

lemma reach_one: "ok op s \<Longrightarrow> reach s ok step (step op s)"
  by (intro reach_step reach_init)

lemma snapshot_run:
  assumes "\<forall>x \<in> set xs. map_of m (ident x) = Some x" and "distinct (map ident xs)"
    and "\<And>r i. i \<in> set xs \<Longrightarrow> map_of r (ident i) = Some i \<Longrightarrow> stp r i = mput (ident i) (f i) r"
    and "\<And>r i. i \<in> set xs \<Longrightarrow> map_of r (ident i) = Some i \<Longrightarrow> reach r ok step (stp r i)"
  shows "reach m ok step (foldl stp m xs)"
  using assms
proof (induction xs arbitrary: m)
  case Nil
  then show ?case by (simp add: reach_init)
next
  case (Cons x xs)
  have "reach (stp m x) ok step (foldl stp (stp m x) xs)"
  proof (rule Cons.IH)
    have "stp m x = mput (ident x) (f x) m" using Cons.prems(1) by (intro Cons.prems(3)) simp_all
    moreover have "ident y \<noteq> ident x" if "y \<in> set xs" for y
      using imageI [OF that, of ident] Cons.prems(2) by auto
    ultimately show "\<forall>y \<in> set xs. map_of (stp m x) (ident y) = Some y" using Cons.prems(1) by simp
    show "distinct (map ident xs)" using Cons.prems(2) by simp
  qed (intro Cons.prems(3,4); simp)+
  moreover have "reach m ok step (stp m x)" using Cons.prems(1,4) by simp
  ultimately have "reach m ok step (foldl stp (stp m x) xs)" by (rule reach_trans [rotated])
  then show ?case by simp
qed

lemma listed_values:
  assumes "keyed ident m"
  shows "\<forall>x \<in> set (mvals m). map_of m (ident x) = Some x" and "distinct (map ident (mvals m))"
  using assms by (simp_all add: keyed_mem [symmetric] keyed_ids_distinct)

text \<open>The reconciler creates, drains, stops and gives up instances; it never places or claims one.\<close>

fun reconciler_op :: "inst_op \<Rightarrow> InstRegistry \<Rightarrow> bool" where
  "reconciler_op (IUpdate now k st nd ct) r \<longleftrightarrow> st \<noteq> StatusAssigned \<and> inst_protocol (IUpdate now k st nd ct) r \<and>
     (st = StatusStopping \<longrightarrow> (\<forall>i. map_of r k = Some i \<longrightarrow> isViable (i_Status i)))"
| "reconciler_op (IUnknown now k) r \<longleftrightarrow> (\<forall>i. map_of r k = Some i \<longrightarrow> isViable (i_Status i))"
| "reconciler_op (IClaim rid k nd) r \<longleftrightarrow> False"
| "reconciler_op (IReport now k nd ex st hl ct ps) r \<longleftrightarrow> False"
| "reconciler_op op r \<longleftrightarrow> inst_protocol op r"

lemma reconciler_op_protocol: "reconciler_op op r \<Longrightarrow> inst_protocol op r"
  by (cases op) auto

abbreviation inst_run :: "InstRegistry \<Rightarrow> InstRegistry \<Rightarrow> bool" where
  "inst_run r r' \<equiv> reach r reconciler_op inst_step r'"

lemma MarkUnknown_run:
  "map_of r k = Some i \<Longrightarrow> isViable (i_Status i) \<Longrightarrow> inst_run r (fst (Inst_MarkUnknown now k r))"
  using reach_one [of reconciler_op "IUnknown now k" r inst_step] by simp

lemma MarkDraining_run: "inst_run r (fst (Inst_MarkDraining now k r))"
  using reach_one [of reconciler_op "IDrain now k" r inst_step] by simp

lemma Stop_run:
  "map_of r k = Some i \<Longrightarrow> st \<in> {StatusStopping, StatusStopped, StatusCrashed} \<Longrightarrow>
    (st = StatusStopping \<Longrightarrow> isViable (i_Status i)) \<Longrightarrow>
    inst_run r (fst (Inst_UpdateState now k st (i_NodeID i) (i_ContainerID i) r))"
  using reach_one [of reconciler_op "IUpdate now k st (i_NodeID i) (i_ContainerID i)" r inst_step] by auto

lemma Create_run: "map_of r rid = None \<Longrightarrow> inst_run r (fst (Inst_Create rid now a d r))"
  using reach_one [of reconciler_op "ICreate rid now a d" r inst_step] by simp

lemma recover_run:
  assumes "keyed i_ID (rc_insts s)"
  shows "inst_run (rc_insts s) (rc_insts (recoverOrphanedInstances nodeReg ck s))"
proof -
  have "inst_run (rc_insts s) (foldl (recover_instance (onlineNodes nodeReg) ck) (rc_insts s) (mvals (rc_insts s)))"
  proof (rule snapshot_run [where ident = i_ID and f = "recovered (onlineNodes nodeReg) ck"])
    fix r :: InstRegistry and i :: Instance assume m: "map_of r (i_ID i) = Some i"
    then show "recover_instance (onlineNodes nodeReg) ck r i = mput (i_ID i) (recovered (onlineNodes nodeReg) ck i) r"
      by (rule recover_instance_eq)
    show "inst_run r (recover_instance (onlineNodes nodeReg) ck r i)"
      using MarkUnknown_run [OF m] Stop_run [OF m, of StatusCrashed] reach_init [of r reconciler_op inst_step]
      by (auto simp: recover_instance_def Let_def split: option.splits)
  qed (simp_all add: listed_values [OF assms])
  then show ?thesis by (simp add: recoverOrphanedInstances_def Inst_List_def)
qed

lemma evaluate_run:
  assumes "keyed i_ID (rc_insts s)"
  shows "inst_run (rc_insts s) (rc_insts (evaluateHealthAndCrashes ck s))"
  unfolding evaluateHealthAndCrashes_def Inst_List_def evaluate_insts
proof (rule snapshot_run [where ident = i_ID and f = "evaluated ck"])
  fix r :: InstRegistry and i :: Instance assume m: "map_of r (i_ID i) = Some i"
  show "inst_run r (if i_Status i = StatusRunning \<and> i_Health i = HealthUnhealthy
      then fst (Inst_UpdateState (ck_write ck (i_ID i)) (i_ID i) StatusCrashed (i_NodeID i) (i_ContainerID i) r) else r)"
    using Stop_run [OF m, of StatusCrashed] by (simp add: reach_init)
qed (auto simp: listed_values [OF assms] evaluated_def Inst_UpdateState_def Let_def mput_existing)

lemma stop_instance_run:
  assumes "map_of r (i_ID i) = Some i" and "isViable (i_Status i)"
  shows "inst_run r (stop_instance timeout ck r i)"
proof -
  let ?k = "i_ID i"
  let ?r = "if \<not> i_Draining i then fst (Inst_MarkDraining (ck_write ck ?k) ?k r) else r"
  have r: "inst_run r ?r" using MarkDraining_run reach_init [of r reconciler_op inst_step] by auto
  have "?r = mput ?k (drained ck i) r"
    using assms by (auto simp: drained_def Inst_MarkDraining_def mput_existing isViable_def)
  then have "map_of ?r ?k = Some (drained ck i)" by simp
  from Stop_run [OF this] have "inst_run r (fst (Inst_UpdateState now ?k st (i_NodeID i) (i_ContainerID i) ?r))"
    if "st = StatusStopped \<or> st = StatusStopping" for now st
    using that assms(2) by (intro reach_trans [OF r]) auto
  with r show ?thesis
    unfolding stop_instance_def Let_def by (auto split: option.splits)
qed

lemma stop_run:
  assumes "keyed i_ID r"
  shows "inst_run r (foldl (stop_instance timeout ck) r (victims (viableInstances a d r) n))"
proof (rule snapshot_run [where ident = i_ID and f = "stopped timeout ck"])
  have sub: "i \<in> set (mvals r) \<and> isViable (i_Status i)" if "i \<in> set (victims (viableInstances a d r) n)" for i
    using that victims_sub by (fastforce simp: viableInstances_def Inst_List_def)
  then show "\<forall>i \<in> set (victims (viableInstances a d r) n). map_of r (i_ID i) = Some i"
    using assms by (auto simp: keyed_mem)
  have "distinct (victims (viableInstances a d r) n)"
    using mvals_distinct [OF assms] by (intro victims_distinct) (simp add: viableInstances_def Inst_List_def)
  then show "distinct (map i_ID (victims (viableInstances a d r) n))"
    using sub assms by (auto simp: distinct_map keyed_mem intro!: inj_onI) (metis keyed_mem option.inject)
qed (use victims_sub in \<open>fastforce simp: viableInstances_def intro: stop_instance_eq stop_instance_run\<close>)+

lemma create_run: "fresh_ids gen s \<Longrightarrow> inst_run (rc_insts s) (rc_insts (create_instances gen clk a d n s))"
proof (induction n arbitrary: s)
  case 0
  then show ?case by (simp add: reach_init)
next
  case (Suc n)
  let ?s = "create_instances gen clk a d 1 s"
  have f: "fresh_ids gen ?s" using create_phase [OF Suc.prems] by blast
  have "inst_run (rc_insts s) (rc_insts ?s)"
    using Suc.prems by (simp add: Let_def fresh_ids_def Create_run)
  from reach_trans [OF this Suc.IH [OF f]] show ?case by (simp add: Let_def)
qed


definition no_create :: "dep_op \<Rightarrow> DepRegistry \<Rightarrow> bool" where
  "no_create op r \<longleftrightarrow> (\<forall>rid now app spec. op \<noteq> DCreate rid now app spec)"

abbreviation dep_run :: "(AppSpec \<Rightarrow> string) \<Rightarrow> DepRegistry \<Rightarrow> DepRegistry \<Rightarrow> bool" where
  "dep_run hash r r' \<equiv> reach r no_create (dep_step hash) r'"

lemma RolloutOnly_run: "dep_run hash r (fst (Dep_UpdateRolloutStatusOnly k st re r))"
  using reach_one [of no_create "DRolloutOnly k st re" r "dep_step hash"] by (simp add: no_create_def)

lemma Rollout_run: "dep_run hash r (fst (Dep_UpdateRolloutStatus k st a b c d re r))"
  using reach_one [of no_create "DRollout k st a b c d re" r "dep_step hash"] by (simp add: no_create_def)

lemma Crash_run: "dep_run hash r (fst (Dep_RecordCrash k n r))"
  using reach_one [of no_create "DCrash k n" r "dep_step hash"] by (simp add: no_create_def)

lemma Reset_run: "dep_run hash r (fst (Dep_ResetCrashCounter k r))"
  using reach_one [of no_create "DReset k" r "dep_step hash"] by (simp add: no_create_def)

lemmas dep_runs = reach_init [of _ no_create] RolloutOnly_run Rollout_run Crash_run Reset_run

lemma evaluate_dep_run: "dep_run hash (rc_deps s) (rc_deps (foldl (evaluate_instance ck) s is))"
proof (induction "is" arbitrary: s)
  case (Cons i "is")
  have "dep_run hash (rc_deps s) (rc_deps (evaluate_instance ck s i))"
    by (auto simp: evaluate_instance_def intro: dep_runs)
  from reach_trans [OF this Cons.IH] show ?case by simp
qed (simp add: reach_init)

lemma immediate_loop_run: "dep_run hash r (fst (immediate_loop act insts deps r))"
proof (induction deps arbitrary: r)
  case (Cons d deps)
  let ?t = "if d_ID d = d_ID act then
           (if d_Degraded act then
              (if d_RolloutStatus d \<noteq> RolloutFailed
               then fst (Dep_UpdateRolloutStatusOnly (d_ID d) RolloutFailed ''Deployment degraded (crash loop)'' r)
               else r, target (d_ID d) (viable_count (d_ID d) insts))
            else
              (if d_RolloutStatus d \<noteq> RolloutCompleted
               then fst (Dep_UpdateRolloutStatusOnly (d_ID d) RolloutCompleted '''' r)
               else r, target (d_ID d) (s_Replicas (d_SpecSnapshot d))))
         else
           (if d_RolloutStatus d \<noteq> RolloutRolledBack \<and> d_RolloutStatus d \<noteq> RolloutCompleted \<and>
               d_Status d \<noteq> DepSuperseded
            then fst (Dep_UpdateRolloutStatusOnly (d_ID d) RolloutRolledBack ''Superseded by immediate rollout'' r)
            else r, target (d_ID d) 0)"
  have "dep_run hash r (fst ?t)" by (auto intro: dep_runs)
  from reach_trans [OF this Cons.IH] show ?case by (simp only: immediate_loop.simps Let_def case_prod_unfold fst_conv)
qed (simp add: reach_init)

lemma old_loop_run: "dep_run hash r (fst (old_loop insts deps n r))"
proof (induction deps arbitrary: n r)
  case (Cons d deps)
  have "dep_run hash r (if P then fst (Dep_UpdateRolloutStatusOnly (d_ID d) st re r) else r)" for P st re
    by (auto intro: dep_runs)
  from reach_trans [OF this Cons.IH] show ?case by (simp only: old_loop.simps Let_def case_prod_unfold fst_conv)
qed (simp add: reach_init)

lemma immediate_run: "dep_run hash r (fst (computeImmediateTarget appID act deps insts r))"
  unfolding computeImmediateTarget_def Let_def case_prod_unfold fst_conv by (rule immediate_loop_run)

lemma rolling_run: "dep_run hash r (fst (computeRollingTarget st appID act deps insts r))"
proof -
  have only: "dep_run hash r1 (if P then fst (Dep_UpdateRolloutStatusOnly k x re r2)
      else if Q then fst (Dep_UpdateRolloutStatusOnly k x' re' r2) else r2)" if "dep_run hash r1 r2" for r1 r2 P Q k x x' re re'
    using reach_trans [OF that RolloutOnly_run] that by auto
  note only' = only [where Q = False, unfolded if_False]
  show ?thesis
  proof (cases "d_Degraded act")
    case True
    show ?thesis
      unfolding computeRollingTarget_def Let_def if_P [OF True] fst_conv by (rule only' [OF Rollout_run])
  next
    case False
    show ?thesis
      unfolding computeRollingTarget_def Let_def if_not_P [OF False] case_prod_unfold fst_conv
      by (rule only) (rule reach_trans [OF Rollout_run old_loop_run])
  qed
qed

lemma compute_loop_run: "dep_run hash r (fst (compute_loop insts deps as r))"
proof (induction as arbitrary: r)
  case (Cons a as)
  have "dep_run hash r (fst (computeAppTarget a insts deps r))"
    by (auto simp: computeAppTarget_def Let_def immediate_run rolling_run reach_init split: option.splits)
  from reach_trans [OF this Cons.IH] Cons.IH show ?case by (simp add: Let_def case_prod_unfold)
qed (simp add: reach_init)


section \<open>Meeting the targets\<close>

lemma count_rewrite:
  assumes "distinct xs" and "finite X" and "\<And>x. x \<notin> X \<Longrightarrow> g x = x"
  shows "length (filter P xs) \<le> length (filter P (map g xs)) + card X"
proof -
  have "length (filter P xs) = card {x \<in> set xs. P x}"
    using assms(1) by (metis distinct_card distinct_filter set_filter)
  also have "{x \<in> set xs. P x} \<subseteq> {x \<in> set xs. P x \<and> x \<notin> X} \<union> X" by auto
  then have "card {x \<in> set xs. P x} \<le> card ({x \<in> set xs. P x \<and> x \<notin> X} \<union> X)"
    using assms(2) by (intro card_mono) auto
  also have "\<dots> \<le> card {x \<in> set xs. P x \<and> x \<notin> X} + card X" by (rule card_Un_le)
  also have "card {x \<in> set xs. P x \<and> x \<notin> X} = length (filter (\<lambda>x. P x \<and> x \<notin> X) xs)"
    using assms(1) by (metis (no_types, lifting) distinct_card distinct_filter set_filter Collect_cong)
  also have "length (filter (\<lambda>x. P x \<and> x \<notin> X) xs) \<le> length (filter P (map g xs))"
    unfolding filter_map length_map using assms(3) by (induction xs) auto
  finally show ?thesis by simp
qed

lemma count_rewrite_le:
  assumes "\<And>x. x \<in> set xs \<Longrightarrow> P (g x) \<Longrightarrow> P x"
  shows "length (filter P (map g xs)) \<le> length (filter P xs)"
  using assms by (induction xs) (auto simp: le_SucI)

lemma filter_rewrite:
  assumes "\<And>x. x \<in> X \<Longrightarrow> \<not> P x \<and> \<not> P (f x)"
  shows "filter P (map (rewrite_in X f) xs) = filter P xs"
proof (induction xs)
  case (Cons x xs)
  then show ?case using assms [of x] by (cases "x \<in> X") (simp_all add: rewrite_in_def)
qed simp

lemma stopped_simps [simp]:
  "i_ApplicationID (stopped timeout ck i) = i_ApplicationID i"
  "i_DeploymentID (stopped timeout ck i) = i_DeploymentID i"
  by (simp_all add: stopped_def)

text \<open>Stopping instances of one deployment leaves the others alone and takes at most \<open>n\<close> of it.\<close>

lemma stop_viable:
  assumes "keyed i_ID r" and "0 \<le> n" and "r' = foldl (stop_instance timeout ck) r (victims (viableInstances a d r) n)"
  shows "(a', d') \<noteq> (a, d) \<Longrightarrow> viableInstances a' d' r' = viableInstances a' d' r"
    and "int (length (viableInstances a d r)) - n \<le> int (length (viableInstances a d r'))"
    and "length (viableInstances a d r') \<le> length (viableInstances a d r)"
    and "keyed i_ID r'" and "map_of r' k = None \<longleftrightarrow> map_of r k = None"
proof -
  define X where "X = set (victims (viableInstances a d r) n)"
  let ?g = "rewrite_in X (stopped timeout ck)"
  have r': "r' = map (\<lambda>(k, i). (k, ?g i)) r" unfolding assms(3) X_def by (rule stop_phase [OF assms(1) refl])
  have vi: "viableInstances a' d' r' = filter (\<lambda>i. i_ApplicationID i = a' \<and> i_DeploymentID i = d' \<and> isViable (i_Status i)) (map ?g (mvals r))"
    for a' d' by (simp add: viableInstances_def Inst_List_def r' mvals_map_val)
  have inX: "i_ApplicationID i = a \<and> i_DeploymentID i = d \<and> isViable (i_Status i)" if "i \<in> X" for i
    using that victims_sub unfolding X_def by (fastforce simp: viableInstances_def)
  show "viableInstances a' d' r' = viableInstances a' d' r" if "(a', d') \<noteq> (a, d)"
  proof -
    have "\<not> (i_ApplicationID i = a' \<and> i_DeploymentID i = d')" if "i \<in> X" for i
      using inX [OF that] \<open>(a', d') \<noteq> (a, d)\<close> by auto
    then show ?thesis
      unfolding vi unfolding viableInstances_def Inst_List_def
      by (intro filter_rewrite) auto
  qed
  have "card X \<le> length (victims (viableInstances a d r) n)" unfolding X_def by (rule card_length)
  also have "\<dots> \<le> nat n" by (simp add: victims_def)
  finally have c: "card X \<le> nat n" .
  have "length (viableInstances a d r) \<le> length (viableInstances a d r') + card X"
    unfolding vi unfolding viableInstances_def Inst_List_def
    by (rule count_rewrite [OF mvals_distinct [OF assms(1)]]) (simp_all add: rewrite_in_def X_def)
  with c assms(2) show "int (length (viableInstances a d r)) - n \<le> int (length (viableInstances a d r'))" by linarith
  show "length (viableInstances a d r') \<le> length (viableInstances a d r)"
    unfolding vi unfolding viableInstances_def Inst_List_def
    by (rule count_rewrite_le, rename_tac i, case_tac "i \<in> X") (simp_all add: inX rewrite_in_def)
  show "keyed i_ID r'" unfolding r' by (rule keyed_map_val [OF assms(1)]) (simp add: rewrite_in_def)
  show "map_of r' k = None \<longleftrightarrow> map_of r k = None" unfolding r' by (simp add: map_of_map_val)
qed

definition in_range :: "int \<Rightarrow> bool" where
  "in_range n \<longleftrightarrow> 0 \<le> n \<and> n \<le> 4294967296"

lemma create_viable:
  assumes "fresh_ids gen s"
  shows "viableInstances a' d' (rc_insts (create_instances gen clk a d n s)) = viableInstances a' d' (rc_insts s) @
    (if (a', d') = (a, d) then map (new_instance gen clk a d) [rc_drawn s..<rc_drawn s + n] else [])"
proof -
  have "mvals (map (\<lambda>m. (gen m, new_instance gen clk a d m)) ns) = map (new_instance gen clk a d) ns" for ns
    by (induction ns) auto
  moreover have "filter (\<lambda>i. i_ApplicationID i = a' \<and> i_DeploymentID i = d' \<and> isViable (i_Status i)) (map (new_instance gen clk a d) ns) =
      (if (a', d') = (a, d) then map (new_instance gen clk a d) ns else [])" for ns
    by (induction ns) (auto simp: isViable_def)
  ultimately show ?thesis
    using create_phase [OF assms, of clk a d n] by (simp add: viableInstances_def Inst_List_def)
qed

lemma create_keyed:
  assumes "fresh_ids gen s" and "keyed i_ID (rc_insts s)"
  shows "keyed i_ID (rc_insts (create_instances gen clk a d n s))"
  using assms
proof (induction n arbitrary: s)
  case (Suc n)
  let ?s = "create_instances gen clk a d 1 s"
  have "fresh_ids gen ?s" using create_phase [OF Suc.prems(1)] by blast
  moreover have "keyed i_ID (rc_insts ?s)"
    using Suc.prems by (simp add: Let_def Inst_Create_def keyed_mput)
  ultimately have "keyed i_ID (rc_insts (create_instances gen clk a d n ?s))" by (rule Suc.IH)
  then show ?case by (simp add: Let_def)
qed simp


definition known_target :: "DepRegistry \<Rightarrow> DeploymentTarget \<Rightarrow> bool" where
  "known_target deps t \<longleftrightarrow> map_of (deployments deps) (dt_DeploymentID t) \<noteq> None"

abbreviation viable_num :: "string \<Rightarrow> string \<Rightarrow> RecState \<Rightarrow> int" where
  "viable_num a d s \<equiv> int (length (viableInstances a d (rc_insts s)))"

definition scaled :: "string \<Rightarrow> DeploymentTarget \<Rightarrow> RecState \<Rightarrow> RecState \<Rightarrow> bool" where
  "scaled a t s s' \<longleftrightarrow> dt_DesiredCount t \<le> viable_num a (dt_DeploymentID t) s' \<and>
     viable_num a (dt_DeploymentID t) s' \<le> max (dt_DesiredCount t) (viable_num a (dt_DeploymentID t) s)"

lemma range_wrap: "in_range x \<Longrightarrow> in_range y \<Longrightarrow> wrap64 (x - y) = x - y"
  unfolding in_range_def by (rule wrap64_id) linarith+

lemma target_step:
  assumes "keyed i_ID (rc_insts s)" and "fresh_ids gen s" and "keyed d_ID (deployments (rc_deps s))"
    and "in_range (dt_DesiredCount t)" and "in_range (viable_num a (dt_DeploymentID t) s)"
  obtains s' where "reconcile_target gen timeout ck a t s = Inr s'"
    "keyed i_ID (rc_insts s')" "fresh_ids gen s'" "rc_deps s' = rc_deps s" "inst_run (rc_insts s) (rc_insts s')"
    "\<And>a' d'. (a', d') \<noteq> (a, dt_DeploymentID t) \<Longrightarrow> viableInstances a' d' (rc_insts s') = viableInstances a' d' (rc_insts s)"
    "known_target (rc_deps s) t \<Longrightarrow> scaled a t s s'"
proof (cases "map_of (deployments (rc_deps s)) (dt_DeploymentID t)")
  case None
  then show ?thesis
    using assms(1,2) by (intro that [of s]) (simp_all add: reconcile_target_def Dep_Get_def known_target_def reach_init)
next
  case (Some dep)
  let ?d = "dt_DeploymentID t" and ?n = "dt_DesiredCount t" and ?v = "viable_num a (dt_DeploymentID t) s"
  have dep: "d_ID dep = ?d" using assms(3) Some by (rule keyed_map_of)
  consider "?v < ?n" | "?v = ?n" | "?n < ?v" by linarith
  then show ?thesis
  proof cases
    case 1
    let ?s = "create_instances gen (ck_write ck) a ?d (nat (?n - ?v)) s"
    show ?thesis
    proof (rule that [of ?s])
      show "reconcile_target gen timeout ck a t s = Inr ?s"
        using 1 Some range_wrap [OF assms(4,5)] by (simp add: reconcile_target_def Dep_Get_def dep Let_def)
      show "known_target (rc_deps s) t \<Longrightarrow> scaled a t s ?s"
        using 1 by (simp add: scaled_def create_viable [OF assms(2)])
      show "fresh_ids gen ?s" "rc_deps ?s = rc_deps s" using create_phase [OF assms(2)] by blast+
    qed (use assms(1,2) in \<open>auto simp: create_keyed create_run create_viable\<close>)
  next
    case 2
    then show ?thesis
      using Some assms(1,2) by (intro that [of s]) (simp_all add: reconcile_target_def Dep_Get_def Let_def scaled_def reach_init)
  next
    case 3
    let ?r = "foldl (stop_instance timeout ck) (rc_insts s) (victims (viableInstances a ?d (rc_insts s)) (?v - ?n))"
    note v = stop_viable [OF assms(1) _ refl, where n = "?v - ?n" and timeout = timeout and ck = ck and a = a and d = ?d]
    show ?thesis
    proof (rule that [of "s\<lparr>rc_insts := ?r\<rparr>"])
      have "?v - ?n \<le> ?v" using assms(4) by (simp add: in_range_def)
      then show "reconcile_target gen timeout ck a t s = Inr (s\<lparr>rc_insts := ?r\<rparr>)"
        using 3 Some range_wrap [OF assms(5,4)] assms(4)
        by (simp add: reconcile_target_def Dep_Get_def Let_def scale_down_def victims_def)
      show "known_target (rc_deps s) t \<Longrightarrow> scaled a t s (s\<lparr>rc_insts := ?r\<rparr>)"
        using 3 v(2,3) by (simp add: scaled_def max_def)
      show "fresh_ids gen (s\<lparr>rc_insts := ?r\<rparr>)" using assms(2) 3 v(5) by (simp add: fresh_ids_def)
    qed (use 3 v(1,4) stop_run [OF assms(1)] in simp_all)
  qed
qed

lemma targets_run:
  assumes "keyed i_ID (rc_insts s)" and "fresh_ids gen s" and "keyed d_ID (deployments (rc_deps s))"
    and "distinct (map (\<lambda>(a, t). (a, dt_DeploymentID t)) ts)"
    and "\<And>a t. (a, t) \<in> set ts \<Longrightarrow> in_range (dt_DesiredCount t) \<and> in_range (viable_num a (dt_DeploymentID t) s)"
  shows "\<exists>s'. reconcile_targets gen timeout ck ts s = Inr s' \<and> rc_deps s' = rc_deps s \<and>
    inst_run (rc_insts s) (rc_insts s') \<and>
    (\<forall>a d. (\<forall>t. (a, t) \<in> set ts \<longrightarrow> dt_DeploymentID t \<noteq> d) \<longrightarrow>
       viableInstances a d (rc_insts s') = viableInstances a d (rc_insts s)) \<and>
    (\<forall>(a, t) \<in> set ts. known_target (rc_deps s) t \<longrightarrow> scaled a t s s')"
  using assms
proof (induction ts arbitrary: s)
  case Nil
  then show ?case by (simp add: reach_init)
next
  case (Cons p ts)
  obtain a t where p: "p = (a, t)" by fastforce
  have rng: "in_range (dt_DesiredCount t)" "in_range (viable_num a (dt_DeploymentID t) s)"
    using Cons.prems(5) [of a t] p by auto
  from target_step [OF Cons.prems(1-3) rng, of timeout ck] obtain s1 where
    e: "reconcile_target gen timeout ck a t s = Inr s1" and k: "keyed i_ID (rc_insts s1)" and f: "fresh_ids gen s1"
    and d: "rc_deps s1 = rc_deps s" and r: "inst_run (rc_insts s) (rc_insts s1)"
    and o: "\<And>a' d'. (a', d') \<noteq> (a, dt_DeploymentID t) \<Longrightarrow> viableInstances a' d' (rc_insts s1) = viableInstances a' d' (rc_insts s)"
    and sc: "known_target (rc_deps s) t \<Longrightarrow> scaled a t s s1" by blast
  have ne: "(a', dt_DeploymentID t') \<noteq> (a, dt_DeploymentID t)" if "(a', t') \<in> set ts" for a' t'
    using Cons.prems(4) that p by force
  have "in_range (dt_DesiredCount t') \<and> in_range (viable_num a' (dt_DeploymentID t') s1)" if "(a', t') \<in> set ts" for a' t'
    using Cons.prems(5) [of a' t'] that o [OF ne [OF that]] by auto
  with Cons.IH [OF k f] Cons.prems(3,4) have "\<exists>s'. reconcile_targets gen timeout ck ts s1 = Inr s' \<and> rc_deps s' = rc_deps s \<and>
    inst_run (rc_insts s1) (rc_insts s') \<and>
    (\<forall>a d. (\<forall>t. (a, t) \<in> set ts \<longrightarrow> dt_DeploymentID t \<noteq> d) \<longrightarrow>
       viableInstances a d (rc_insts s') = viableInstances a d (rc_insts s1)) \<and>
    (\<forall>(a, t) \<in> set ts. known_target (rc_deps s) t \<longrightarrow> scaled a t s1 s')"
    unfolding d p by simp
  then obtain s' where
    e': "reconcile_targets gen timeout ck ts s1 = Inr s'" and d': "rc_deps s' = rc_deps s"
    and r': "inst_run (rc_insts s1) (rc_insts s')"
    and o': "\<And>a d. (\<And>t. (a, t) \<in> set ts \<Longrightarrow> dt_DeploymentID t \<noteq> d) \<Longrightarrow> viableInstances a d (rc_insts s') = viableInstances a d (rc_insts s1)"
    and sc': "\<And>a t. (a, t) \<in> set ts \<Longrightarrow> known_target (rc_deps s) t \<Longrightarrow> scaled a t s1 s'"
    by blast
  have "viableInstances a (dt_DeploymentID t) (rc_insts s') = viableInstances a (dt_DeploymentID t) (rc_insts s1)"
    using ne by (intro o') auto
  then have "scaled a t s s'" if "known_target (rc_deps s) t" using sc [OF that] by (simp add: scaled_def)
  moreover have "scaled a' t' s s'" if "(a', t') \<in> set ts" "known_target (rc_deps s) t'" for a' t'
    using sc' [OF that] o [OF ne [OF that(1)]] by (simp add: scaled_def)
  moreover have "viableInstances a'' d'' (rc_insts s') = viableInstances a'' d'' (rc_insts s)"
    if "\<forall>t'. (a'', t') \<in> set (p # ts) \<longrightarrow> dt_DeploymentID t' \<noteq> d''" for a'' d''
    using that o [of a'' d''] o' [of a'' d''] by (auto simp: p)
  ultimately show ?case
    using e e' d' reach_trans [OF r r'] by (auto simp: p)
qed


lemma one_write_all:
  assumes "one_write R m m'" and "keyed ident m" and "\<forall>v \<in> set (mvals m). Q v"
    and "\<And>v v'. R v v' \<Longrightarrow> Q v \<Longrightarrow> Q v'"
  shows "\<forall>v \<in> set (mvals m'). Q v"
  using assms(1) unfolding one_write_def
proof (elim disjE exE conjE)
  fix k v v' assume m: "map_of m k = Some v" "m' = mput k v' m" "R v v'"
  have "Q v'" using assms(3,4) m(3) mvals_lookup [OF m(1)] by blast
  then show ?thesis
    using ball_mvals_mput [OF keyed_distinct [OF assms(2)], of Q v'] assms(3) unfolding m(2) by blast
qed (use assms(3) in simp)

text \<open>A run without creations keeps the deployments and their snapshots.\<close>

lemma dep_run_keeps:
  assumes "dep_run hash r r'" and "dep_inv r"
  shows "dep_inv r' \<and> deps_evolve r r' \<and> reach r dep_op_ok (dep_step hash) r' \<and>
    ((\<forall>d \<in> set (Dep_List r). P (d_SpecSnapshot d)) \<longrightarrow> (\<forall>d \<in> set (Dep_List r'). P (d_SpecSnapshot d)))"
  using assms
proof (induction rule: reach.induct)
  case reach_init
  then show ?case by (simp add: reach.reach_init deps_evolve_def dep_evolves_refl)
next
  case (reach_step t op)
  have w: "one_write dep_evolves (deployments t) (deployments (dep_step hash op t))"
    using dep_step_writes reach_step(2) by (metis no_create_def)
  have ok: "dep_op_ok op t" using reach_step(2) by (cases op) (auto simp: no_create_def)
  have k: "keyed d_ID (deployments t)" using reach_step by (simp add: dep_inv_def)
  have "dep_inv (dep_step hash op t)" "deps_evolve t (dep_step hash op t)"
    using dep_step_keeps ok reach_step by blast+
  moreover have "\<forall>d \<in> set (Dep_List (dep_step hash op t)). P (d_SpecSnapshot d)"
    if "\<forall>d \<in> set (Dep_List t). P (d_SpecSnapshot d)"
    unfolding Dep_List_def
    by (rule one_write_all [OF w k that [unfolded Dep_List_def]]) (simp add: dep_evolves_def)
  moreover have "reach r dep_op_ok (dep_step hash) (dep_step hash op t)"
    using reach_step ok by (intro reach.reach_step) auto
  ultimately show ?case
    using reach_step dep_progress.rel_trans [of r t "dep_step hash op t"] by blast
qed

section \<open>The targets of a pass\<close>

definition spec_sizes :: "AppSpec \<Rightarrow> bool" where
  "spec_sizes spec \<longleftrightarrow> 0 \<le> s_Replicas spec \<and> small (s_Replicas spec) \<and>
     (case s_Strategy spec of None \<Rightarrow> True | Some st \<Rightarrow> small (rs_MaxSurge st) \<and> small (rs_MaxUnavailable st))"

definition target_ok :: "Deployment list \<Rightarrow> DeploymentTarget \<Rightarrow> bool" where
  "target_ok deps t \<longleftrightarrow> in_range (dt_DesiredCount t) \<and> dt_DeploymentID t \<in> d_ID ` set deps"

lemma viable_range: "length insts \<le> 2147483648 \<Longrightarrow> in_range (viable_count k insts)"
  using counts_bounded(1) [of insts k] by (simp add: small_def in_range_def)

lemma immediate_targets:
  assumes "immediate_loop act insts deps r = (r', ts)" and "length insts \<le> 2147483648"
    and "\<forall>d \<in> set deps. spec_sizes (d_SpecSnapshot d)"
  shows "map dt_DeploymentID ts = map d_ID deps \<and> (\<forall>t \<in> set ts. in_range (dt_DesiredCount t))"
  using assms
proof (induction deps arbitrary: r r' ts)
  case (Cons d deps)
  then obtain r1 ts1 n where l: "immediate_loop act insts deps r1 = (r', ts1)" and ts: "ts = target (d_ID d) n # ts1"
    and n: "n = viable_count (d_ID d) insts \<or> n = s_Replicas (d_SpecSnapshot d) \<or> n = 0"
    by (auto simp: Let_def split: prod.splits if_splits)
  have "in_range (s_Replicas (d_SpecSnapshot d))"
    using Cons.prems(3) by (auto simp: spec_sizes_def small_def in_range_def)
  with n viable_range [OF Cons.prems(2)] have "in_range n" by (auto simp: in_range_def)
  with Cons.IH [OF l Cons.prems(2)] Cons.prems(3) show ?case by (simp add: ts target_def)
qed simp

lemma rolling_target_ok:
  assumes "dep \<in> set deps" and "distinct (map d_ID deps)" and "length insts \<le> 2147483648"
    and "\<forall>d \<in> set deps. spec_sizes (d_SpecSnapshot d)" and "s_Strategy (d_SpecSnapshot dep) = Some st"
    and "T = snd (computeRollingTarget st appID dep deps insts r)"
  shows "mset (map dt_DeploymentID (at_Targets T)) = mset (map d_ID deps)"
    and "t \<in> set (at_Targets T) \<Longrightarrow> in_range (dt_DesiredCount t)"
proof -
  have sz: "small (s_Replicas (d_SpecSnapshot dep))" "small (rs_MaxSurge st)" "small (rs_MaxUnavailable st)"
    using assms(1,4,5) by (auto simp: spec_sizes_def)
  have "mset (map dt_DeploymentID (at_Targets T)) = mset (map d_ID deps) \<and>
      (\<forall>t \<in> set (at_Targets T). in_range (dt_DesiredCount t))"
  proof (cases "d_Degraded dep")
    case True
    then show ?thesis
      using viable_range [OF assms(3)]
      by (auto simp: assms(6) computeRollingTarget_def Let_def target_def comp_def)
  next
    case False
    then have rr: "rollout_round st dep deps insts" using assms sz by (simp add: rollout_round_def)
    note b = rolling_round_bounds [OF rr assms(6)]
    have "total (at_Targets T) \<le> 4294967296"
      using b(1) sz counts_bounded(1) [OF assms(3), of "d_ID dep"] unfolding small_def by linarith
    moreover have "dt_DesiredCount t \<le> total (at_Targets T)" if "t \<in> set (at_Targets T)" for t
      using that b(2) by (intro member_le_sum_list) auto
    ultimately show ?thesis using b(2,3) by (fastforce simp: in_range_def)
  qed
  then show "mset (map dt_DeploymentID (at_Targets T)) = mset (map d_ID deps)"
    and "t \<in> set (at_Targets T) \<Longrightarrow> in_range (dt_DesiredCount t)" by auto
qed


lemma app_target_ok:
  assumes "snd (computeAppTarget app insts deps r) = Some T" and "distinct (map d_ID deps)"
    and "length insts \<le> 2147483648" and "\<forall>d \<in> set deps. spec_sizes (d_SpecSnapshot d)"
  shows "at_AppID T = a_ID app" and "distinct (map dt_DeploymentID (at_Targets T))"
    and "t \<in> set (at_Targets T) \<Longrightarrow> target_ok deps t"
proof -
  let ?deps = "filter (\<lambda>d. d_ApplicationID d = a_ID app) deps"
  let ?insts = "filter (\<lambda>i. i_ApplicationID i = a_ID app) insts"
  obtain act where f: "find (\<lambda>d. d_ID d = a_ActiveDeploymentID app) (rev ?deps) = Some act"
    using assms(1) by (auto simp: computeAppTarget_def Let_def split: option.splits)
  have act: "act \<in> set ?deps" using find_SomeD [OF f] by simp
  have d: "distinct (map d_ID ?deps)" using assms(2) by (rule distinct_map_filter)
  have sz: "\<forall>d \<in> set ?deps. spec_sizes (d_SpecSnapshot d)" using assms(4) by simp
  have li: "length ?insts \<le> 2147483648" using length_filter_le assms(3) le_trans by blast
  have "at_AppID T = a_ID app \<and> mset (map dt_DeploymentID (at_Targets T)) = mset (map d_ID ?deps) \<and>
      (\<forall>t \<in> set (at_Targets T). in_range (dt_DesiredCount t))"
  proof (cases "\<exists>st. s_Strategy (d_SpecSnapshot act) = Some st \<and> rs_Type st \<noteq> RolloutStrategyImmediate")
    case True
    then obtain st where st: "s_Strategy (d_SpecSnapshot act) = Some st" "rs_Type st \<noteq> RolloutStrategyImmediate" by blast
    then have T: "T = snd (computeRollingTarget st (a_ID app) act ?deps ?insts r)"
      using assms(1) f by (simp add: computeAppTarget_def Let_def)
    have "at_AppID T = a_ID app"
      unfolding T by (simp add: computeRollingTarget_def Let_def case_prod_unfold)
    with rolling_target_ok [OF act d li sz st(1) T] show ?thesis by blast
  next
    case False
    then have T: "T = snd (computeImmediateTarget (a_ID app) act ?deps insts r)"
      using assms(1) f by (auto simp: computeAppTarget_def Let_def split: option.splits if_splits)
    obtain r' ts where l: "immediate_loop act insts ?deps r = (r', ts)" by fastforce
    show ?thesis
      using immediate_targets [OF l assms(3) sz] l by (simp add: T computeImmediateTarget_def)
  qed
  moreover from this have "dt_DeploymentID ` set (at_Targets T) = d_ID ` set ?deps" by (metis mset_eq_setD set_map)
  ultimately show "at_AppID T = a_ID app" and "distinct (map dt_DeploymentID (at_Targets T))"
    and "t \<in> set (at_Targets T) \<Longrightarrow> target_ok deps t"
    using mset_eq_imp_distinct_iff d by (blast, blast, force simp: target_ok_def)
qed

lemma compute_loop_targets:
  assumes "distinct (map d_ID deps)" and "length insts \<le> 2147483648"
    and "\<forall>d \<in> set deps. spec_sizes (d_SpecSnapshot d)" and "distinct (map a_ID as)"
    and "snd (compute_loop insts deps as r) = ats"
  shows "distinct (map at_AppID ats) \<and> at_AppID ` set ats \<subseteq> a_ID ` set as \<and>
    (\<forall>T \<in> set ats. distinct (map dt_DeploymentID (at_Targets T)) \<and> (\<forall>t \<in> set (at_Targets T). target_ok deps t))"
  using assms(4,5)
proof (induction as arbitrary: r ats)
  case (Cons a as)
  show ?case
  proof (cases "a_ActiveDeploymentID a = ''''")
    case True
    with Cons show ?thesis by auto
  next
    case False
    let ?r = "fst (computeAppTarget a insts deps r)"
    have IH: "distinct (map at_AppID (snd (compute_loop insts deps as ?r))) \<and>
      at_AppID ` set (snd (compute_loop insts deps as ?r)) \<subseteq> a_ID ` set as \<and>
      (\<forall>T \<in> set (snd (compute_loop insts deps as ?r)).
        distinct (map dt_DeploymentID (at_Targets T)) \<and> (\<forall>t \<in> set (at_Targets T). target_ok deps t))"
      using Cons by simp
    have e: "ats = (case snd (computeAppTarget a insts deps r) of None \<Rightarrow> snd (compute_loop insts deps as ?r)
        | Some x \<Rightarrow> x # snd (compute_loop insts deps as ?r))"
      using False Cons.prems(2) by (auto simp: case_prod_unfold Let_def)
    show ?thesis
    proof (cases "snd (computeAppTarget a insts deps r)")
      case None
      with IH e show ?thesis by auto
    next
      case (Some T)
      note T = app_target_ok [OF Some assms(1-3)]
      have "a_ID a \<notin> a_ID ` set as" using Cons.prems(1) by simp
      with IH have "at_AppID T \<notin> at_AppID ` set (snd (compute_loop insts deps as ?r))"
        using T(1) by auto
      with IH T Some e show ?thesis by (auto simp: subset_iff)
    qed
  qed
qed simp

lemma flat_targets_mem: "(a, t) \<in> set (flat_targets ats) \<longleftrightarrow> (\<exists>T \<in> set ats. at_AppID T = a \<and> t \<in> set (at_Targets T))"
  by (auto simp: flat_targets_def)

lemma flat_targets_distinct:
  "distinct (map at_AppID ats) \<Longrightarrow> (\<And>T. T \<in> set ats \<Longrightarrow> distinct (map dt_DeploymentID (at_Targets T))) \<Longrightarrow>
    distinct (map (\<lambda>(a, t). (a, dt_DeploymentID t)) (flat_targets ats))"
proof (induction ats)
  case (Cons T ats)
  have "map (\<lambda>(a, t). (a, dt_DeploymentID t)) (flat_targets (T # ats)) =
      map (Pair (at_AppID T)) (map dt_DeploymentID (at_Targets T)) @
      map (\<lambda>(a, t). (a, dt_DeploymentID t)) (flat_targets ats)"
    by (simp add: flat_targets_def comp_def)
  moreover have "distinct (map (Pair (at_AppID T)) (map dt_DeploymentID (at_Targets T)))"
    using Cons.prems(2) [of T] by (subst distinct_map) (auto intro!: inj_onI)
  moreover have "fst p \<noteq> at_AppID T" if "p \<in> set (map (\<lambda>(a, t). (a, dt_DeploymentID t)) (flat_targets ats))" for p
    using that Cons.prems(1) by (force simp: flat_targets_mem image_iff)
  ultimately show ?case using Cons by fastforce
qed (simp add: flat_targets_def)


section \<open>A whole pass\<close>

text \<open>
  The environment of a pass: the invariants of the registries, new identifiers, and sizes for
  which the 64-bit arithmetic of the rollout controller is exact.
\<close>

definition pass_env :: "(nat \<Rightarrow> string) \<Rightarrow> AppRegistry \<Rightarrow> RecState \<Rightarrow> bool" where
  "pass_env gen appReg s \<longleftrightarrow> inst_inv (rc_insts s) \<and> dep_inv (rc_deps s) \<and> keyed a_ID (apps appReg) \<and>
     fresh_ids gen s \<and> length (rc_insts s) \<le> 2147483648 \<and>
     (\<forall>d \<in> set (Dep_List (rc_deps s)). spec_sizes (d_SpecSnapshot d))"

definition observed :: "NodeRegistry \<Rightarrow> RecClock \<Rightarrow> RecState \<Rightarrow> RecState" where
  "observed nodeReg ck s = evaluateHealthAndCrashes ck (recoverOrphanedInstances nodeReg ck s)"

lemma observed_state:
  assumes "keyed i_ID (rc_insts s)"
  shows "rc_insts (observed nodeReg ck s) =
      map (\<lambda>(k, i). (k, evaluated ck (recovered (onlineNodes nodeReg) ck i))) (rc_insts s)"
    and "inst_run (rc_insts s) (rc_insts (observed nodeReg ck s))"
    and "dep_run hash (rc_deps s) (rc_deps (observed nodeReg ck s))"
    and "fresh_ids gen s \<Longrightarrow> fresh_ids gen (observed nodeReg ck s)"
proof -
  let ?s = "recoverOrphanedInstances nodeReg ck s"
  note e = recover_phase [OF assms, of nodeReg ck]
  have k: "keyed i_ID (rc_insts ?s)" unfolding e by (rule keyed_map_val [OF assms]) simp
  show obs: "rc_insts (observed nodeReg ck s) =
      map (\<lambda>(k, i). (k, evaluated ck (recovered (onlineNodes nodeReg) ck i))) (rc_insts s)"
    unfolding observed_def evaluate_phase [OF k] e by (simp add: case_prod_unfold)
  show "inst_run (rc_insts s) (rc_insts (observed nodeReg ck s))"
    unfolding observed_def by (rule reach_trans [OF recover_run [OF assms] evaluate_run [OF k]])
  show "dep_run hash (rc_deps s) (rc_deps (observed nodeReg ck s))"
    using evaluate_dep_run [where hash = hash and s = ?s and ck = ck]
    by (simp add: observed_def evaluateHealthAndCrashes_def recoverOrphanedInstances_def)
  have "rc_drawn (foldl (evaluate_instance ck) t is) = rc_drawn t" for t "is"
    by (induction "is" arbitrary: t) (simp_all add: evaluate_instance_def)
  then have "rc_drawn (observed nodeReg ck s) = rc_drawn s"
    by (simp add: observed_def evaluateHealthAndCrashes_def recoverOrphanedInstances_def)
  then show "fresh_ids gen (observed nodeReg ck s)" if "fresh_ids gen s"
    using that by (simp add: fresh_ids_def obs map_of_map_val)
qed

lemma pass_runs:
  assumes "pass_env gen appReg s" and "ComputeTargets appReg (rc_insts (observed nodeReg ck s)) (rc_deps (observed nodeReg ck s)) = (deps', ats)"
  shows "\<exists>s'. Reconcile gen timeout appReg nodeReg ck s = Inr s' \<and>
    inst_run (rc_insts s) (rc_insts s') \<and> dep_run hash (rc_deps s) (rc_deps s') \<and>
    (\<forall>T \<in> set ats. \<forall>t \<in> set (at_Targets T). scaled (at_AppID T) t (observed nodeReg ck s) s')"
proof -
  let ?o = "observed nodeReg ck s"
  have k: "keyed i_ID (rc_insts s)" and di: "dep_inv (rc_deps s)" and ka: "keyed a_ID (apps appReg)"
    and f: "fresh_ids gen s" and len: "length (rc_insts s) \<le> 2147483648"
    using assms(1) by (auto simp: pass_env_def inst_inv_def)
  note o = observed_state [OF k, where nodeReg = nodeReg and ck = ck]
  from dep_run_keeps [OF o(3) di, where P = spec_sizes] assms(1)
  have do: "dep_inv (rc_deps ?o)" and sz: "\<forall>d \<in> set (Dep_List (rc_deps ?o)). spec_sizes (d_SpecSnapshot d)"
    by (auto simp: pass_env_def)
  have dd: "distinct (map d_ID (Dep_List (rc_deps ?o)))"
    using do by (intro dep_table.Lst_distinct) (simp add: dep_inv_def)
  have lo: "length (Inst_List (rc_insts ?o)) \<le> 2147483648" using len by (simp add: Inst_List_def o(1))
  have da: "distinct (map a_ID (App_List appReg))" using ka by (simp add: App_List_def keyed_ids_distinct)
  have run: "dep_run hash (rc_deps ?o) deps'"
    using compute_loop_run [where hash = hash and r = "rc_deps ?o"] assms(2) by (metis ComputeTargets_def fst_conv)
  have dv: "dep_inv deps'" "deps_evolve (rc_deps ?o) deps'" using dep_run_keeps [OF run do] by auto
  have tg: "distinct (map at_AppID ats) \<and>
    (\<forall>T \<in> set ats. distinct (map dt_DeploymentID (at_Targets T)) \<and> (\<forall>t \<in> set (at_Targets T). target_ok (Dep_List (rc_deps ?o)) t))"
    using compute_loop_targets [OF dd lo sz da] assms(2) by (metis ComputeTargets_def snd_conv)
  have kn: "known_target deps' t" if "T \<in> set ats" "t \<in> set (at_Targets T)" for T t
  proof -
    have "dt_DeploymentID t \<in> d_ID ` set (Dep_List (rc_deps ?o))" using tg that by (auto simp: target_ok_def)
    then obtain d where "map_of (deployments (rc_deps ?o)) (dt_DeploymentID t) = Some d"
      using do by (auto simp: Dep_List_def dep_inv_def keyed_mem)
    with dv(2) show ?thesis by (auto simp: deps_evolve_def known_target_def)
  qed
  let ?s = "?o\<lparr>rc_deps := deps'\<rparr>"
  have "\<exists>s'. reconcile_targets gen timeout ck (flat_targets ats) ?s = Inr s' \<and> rc_deps s' = rc_deps ?s \<and>
    inst_run (rc_insts ?s) (rc_insts s') \<and>
    (\<forall>a d. (\<forall>t. (a, t) \<in> set (flat_targets ats) \<longrightarrow> dt_DeploymentID t \<noteq> d) \<longrightarrow>
       viableInstances a d (rc_insts s') = viableInstances a d (rc_insts ?s)) \<and>
    (\<forall>(a, t) \<in> set (flat_targets ats). known_target (rc_deps ?s) t \<longrightarrow> scaled a t ?s s')"
  proof (rule targets_run)
    show "keyed i_ID (rc_insts ?s)" unfolding RecState.select_convs o(1) RecState.simps by (simp add: o(1) keyed_map_val [OF k])
    show "fresh_ids gen ?s" using o(4) [OF f] by (simp add: fresh_ids_def)
    show "keyed d_ID (deployments (rc_deps ?s))" using dv(1) by (simp add: dep_inv_def)
    show "distinct (map (\<lambda>(a, t). (a, dt_DeploymentID t)) (flat_targets ats))"
      using tg by (intro flat_targets_distinct) auto
    fix a t assume "(a, t) \<in> set (flat_targets ats)"
    then have "in_range (dt_DesiredCount t)" using tg by (auto simp: flat_targets_mem target_ok_def)
    moreover have "length (viableInstances a d (rc_insts ?s)) \<le> 2147483648" for d
      using order_trans [OF length_filter_le lo] by (simp add: viableInstances_def)
    then have "viable_num a d ?s \<le> 2147483648" for d by (simp add: nat_le_iff flip: nat_numeral)
    ultimately show "in_range (dt_DesiredCount t) \<and> in_range (viable_num a (dt_DeploymentID t) ?s)"
      by (simp add: in_range_def order_trans [of _ 2147483648])
  qed
  then obtain s' where r0: "reconcile_targets gen timeout ck (flat_targets ats) ?s = Inr s'" "rc_deps s' = rc_deps ?s"
    "inst_run (rc_insts ?s) (rc_insts s')"
    and sc0: "\<forall>(a, t) \<in> set (flat_targets ats). known_target (rc_deps ?s) t \<longrightarrow> scaled a t ?s s'" by blast
  have r: "reconcile_targets gen timeout ck (flat_targets ats) ?s = Inr s'" "rc_deps s' = deps'"
    "inst_run (rc_insts ?o) (rc_insts s')" using r0 by simp_all
  have sc: "\<And>a t. (a, t) \<in> set (flat_targets ats) \<Longrightarrow> known_target deps' t \<Longrightarrow> scaled a t ?s s'"
    using sc0 by auto
  have "Reconcile gen timeout appReg nodeReg ck s = Inr s'"
    using r(1) assms(2) by (simp add: Reconcile_def observed_def Let_def)
  moreover have "scaled (at_AppID T) t ?o s'" if "T \<in> set ats" "t \<in> set (at_Targets T)" for T t
    using sc [of "at_AppID T" t] kn [OF that] that by (auto simp: flat_targets_mem scaled_def)
  ultimately show ?thesis
    using reach_trans [OF o(2) r(3)] reach_trans [OF o(3) run] r(2) by blast
qed


text \<open>Any reflexive and transitive relation that stopping respects holds across the scaling loop.\<close>

definition table_rel :: "('v \<Rightarrow> 'v \<Rightarrow> bool) \<Rightarrow> ('k, 'v) gomap \<Rightarrow> ('k, 'v) gomap \<Rightarrow> bool" where
  "table_rel R m m' \<longleftrightarrow> (\<forall>k v. map_of m k = Some v \<longrightarrow> (\<exists>v'. map_of m' k = Some v' \<and> R v v'))"

lemma table_relD: "table_rel R m m' \<Longrightarrow> map_of m k = Some v \<Longrightarrow> map_of m' k = Some v' \<Longrightarrow> R v v'"
  by (fastforce simp: table_rel_def)

lemma table_rel_trans: "(\<And>a b c. R a b \<Longrightarrow> R b c \<Longrightarrow> R a c) \<Longrightarrow> table_rel R m m' \<Longrightarrow> table_rel R m' m'' \<Longrightarrow> table_rel R m m''"
  unfolding table_rel_def by meson

lemma table_rel_map: "(\<And>v. R v (g v)) \<Longrightarrow> table_rel R m (map (\<lambda>(k, v). (k, g v)) m)"
  by (simp add: table_rel_def map_of_map_val)

lemma target_rel:
  assumes "keyed i_ID (rc_insts s)" and "fresh_ids gen s" and "\<And>i. R i i"
    and "\<And>i. isViable (i_Status i) \<Longrightarrow> R i (stopped timeout ck i)"
    and "reconcile_target gen timeout ck a t s = Inr s'"
  shows "keyed i_ID (rc_insts s') \<and> fresh_ids gen s' \<and> table_rel R (rc_insts s) (rc_insts s')"
proof -
  let ?d = "dt_DeploymentID t"
  let ?v = "viableInstances a ?d (rc_insts s)"
  have same: "table_rel R (rc_insts s) (rc_insts s)" using assms(3) by (auto simp: table_rel_def)
  consider "s' = s" | d n where "s' = create_instances gen (ck_write ck) a d n s"
    | n where "0 \<le> n" "s' = s\<lparr>rc_insts := foldl (stop_instance timeout ck) (rc_insts s) (victims ?v n)\<rparr>"
  proof -
    let ?n = "max 0 (wrap64 (int (length ?v) - dt_DesiredCount t))"
    have nm: "nat (max 0 x) = nat x" for x :: int by (simp add: max_def)
    have "s' = s \<or> (\<exists>d n. s' = create_instances gen (ck_write ck) a d n s) \<or>
        s' = s\<lparr>rc_insts := foldl (stop_instance timeout ck) (rc_insts s) (victims ?v ?n)\<rparr>"
      using assms(5) unfolding reconcile_target_def Let_def scale_down_def victims_def nm
      by (auto split: sum.splits if_splits)
    then show thesis using that(1,2) that(3) [of ?n] by auto
  qed
  then show ?thesis
  proof cases
    case 1
    then show ?thesis using assms(1,2) same by simp
  next
    case (2 d n)
    have "table_rel R (rc_insts s) (rc_insts s')"
      using create_phase [OF assms(2), of "ck_write ck" a d n] assms(3) by (auto simp: 2 table_rel_def)
    with 2 show ?thesis using create_phase [OF assms(2)] create_keyed [OF assms(2,1)] by blast
  next
    case (3 n)
    note v = stop_viable [OF assms(1) 3(1) refl, where timeout = timeout and ck = ck and a = a and d = ?d]
    have "table_rel R (rc_insts s) (rc_insts s')"
      unfolding 3(2) RecState.select_convs RecState.update_convs
      using stop_phase [OF assms(1) refl, of timeout ck a ?d n] victims_sub [of ?v n] assms(3,4)
      by (auto simp: rewrite_in_def viableInstances_def intro!: table_rel_map)
    with 3(2) v(4,5) assms(2) show ?thesis by (simp add: fresh_ids_def)
  qed
qed

lemma targets_rel:
  assumes "\<And>i. R i i" and "\<And>a b c. R a b \<Longrightarrow> R b c \<Longrightarrow> R a c" and "\<And>i. isViable (i_Status i) \<Longrightarrow> R i (stopped timeout ck i)"
  shows "keyed i_ID (rc_insts s) \<Longrightarrow> fresh_ids gen s \<Longrightarrow> reconcile_targets gen timeout ck ts s = Inr s' \<Longrightarrow>
    table_rel R (rc_insts s) (rc_insts s')"
proof (induction ts arbitrary: s)
  case Nil
  then show ?case using assms(1) by (auto simp: table_rel_def)
next
  case (Cons p ts)
  obtain a t where p: "p = (a, t)" by fastforce
  from Cons.prems(3) obtain s1 where s1: "reconcile_target gen timeout ck a t s = Inr s1"
    "reconcile_targets gen timeout ck ts s1 = Inr s'" by (auto simp: p split: sum.splits)
  note r = target_rel [OF Cons.prems(1,2), where R = R, OF assms(1,3) s1(1)]
  from r Cons.IH s1(2) have "table_rel R (rc_insts s1) (rc_insts s')" by blast
  with r show ?case using table_rel_trans [of R] assms(2) by blast
qed

text \<open>An instance stops only after it has drained.\<close>

abbreviation stopping :: "Instance \<Rightarrow> bool" where
  "stopping i \<equiv> i_Status i = StatusStopping \<or> i_Status i = StatusStopped"

definition drain_elapsed :: "duration \<Rightarrow> RecClock \<Rightarrow> Instance \<Rightarrow> bool" where
  "drain_elapsed timeout ck i \<longleftrightarrow> i_Draining i \<and>
     (\<exists>t. i_DrainStartedAt i = Some t \<and> timeout \<le> time_sub (ck_since ck (i_ID i)) t)"

definition drain_rel :: "duration \<Rightarrow> RecClock \<Rightarrow> Instance \<Rightarrow> Instance \<Rightarrow> bool" where
  "drain_rel timeout ck i i' \<longleftrightarrow> i_ID i' = i_ID i \<and>
     (i_Draining i' = i_Draining i \<and> i_DrainStartedAt i' = i_DrainStartedAt i \<or>
      i_DrainStartedAt i' = Some (ck_write ck (i_ID i))) \<and>
     (stopping i' \<longrightarrow> stopping i \<or> drain_elapsed timeout ck i)"

definition quick_pass :: "duration \<Rightarrow> RecClock \<Rightarrow> bool" where
  "quick_pass timeout ck \<longleftrightarrow> 0 < timeout \<and>
     (\<forall>k. time_sub (ck_since ck k) (ck_drain ck k) < timeout \<and> time_sub (ck_since ck k) (ck_write ck k) < timeout)"

lemma drain_rel_trans:
  assumes "quick_pass timeout ck" and "drain_rel timeout ck a b" and "drain_rel timeout ck b c"
  shows "drain_rel timeout ck a c"
proof -
  have q: "\<not> timeout \<le> time_sub (ck_since ck (i_ID a)) (ck_write ck (i_ID a))"
    using assms(1) by (simp add: quick_pass_def not_le)
  have "drain_elapsed timeout ck b \<Longrightarrow> drain_elapsed timeout ck a"
    using assms(2) q by (auto simp: drain_rel_def drain_elapsed_def)
  with assms(2,3) show ?thesis unfolding drain_rel_def by metis
qed

lemma drain_rel_stopped:
  assumes "quick_pass timeout ck" and "isViable (i_Status i)"
  shows "drain_rel timeout ck i (stopped timeout ck i)"
proof -
  have q: "0 < timeout" "\<not> timeout \<le> time_sub (ck_since ck (i_ID i)) (ck_drain ck (i_ID i))"
    using assms(1) by (simp_all add: quick_pass_def not_le)
  then have "drain_over timeout ck i \<Longrightarrow> drain_elapsed timeout ck i"
    by (auto simp: drain_over_def drain_elapsed_def split: if_splits option.splits)
  moreover have "\<not> stopping i" using assms(2) by (auto simp: isViable_def)
  ultimately show ?thesis by (auto simp: drain_rel_def stopped_def drained_def)
qed

lemma drain_rel_observed:
  "drain_rel timeout ck i (evaluated ck (recovered onl ck i))"
  by (simp add: drain_rel_def evaluated_def recovered_def)


section \<open>Properties\<close>

lemma online_lookup_loop:
  "mget_or False (foldl (\<lambda>m n. if n_Status n = NodeOnline then mput (n_ID n) True m else m) m ns) k \<longleftrightarrow>
    mget_or False m k \<or> (\<exists>n \<in> set ns. n_ID n = k \<and> n_Status n = NodeOnline)"
  by (induction ns arbitrary: m) auto

lemma online_lookup:
  "mget_or False (onlineNodes nodeReg) k \<longleftrightarrow> (\<exists>n \<in> set (Node_List nodeReg). n_ID n = k \<and> n_Status n = NodeOnline)"
  by (simp add: onlineNodes_def online_lookup_loop)

lemma unknown_timeout: "InstanceUnknownTimeout \<le> time_sub t u \<longleftrightarrow> 300000000000 \<le> t - u"
  by (subst time_sub_ge_iff)
    (simp_all add: InstanceUnknownTimeout_def minute_def second_def min_int64_def max_int64_def)

lemma recovered_cases:
  assumes "inst_ok i"
  shows "recovered (onlineNodes nodeReg) ck i =
      (if i_NodeID i \<noteq> '''' \<and> (\<forall>n \<in> set (Node_List nodeReg). n_ID n = i_NodeID i \<longrightarrow> n_Status n \<noteq> NodeOnline) \<and>
                  i_Status i \<in> {StatusPending, StatusAssigned, StatusStarting, StatusRunning}
               then i\<lparr>i_Status := StatusUnknown,
                      i_UnknownSince := (if i_UnknownSince i = None then Some (ck_write ck (i_ID i)) else i_UnknownSince i)\<rparr>
               else if i_Status i = StatusUnknown \<and> 300000000000 \<le> ck_recover ck - the (i_UnknownSince i)
               then i\<lparr>i_Status := StatusCrashed, i_StoppedAt := Some (ck_write ck (i_ID i))\<rparr>
               else i)"
proof -
  have v: "isViable (i_Status i) \<and> i_Status i \<noteq> StatusUnknown \<longleftrightarrow>
      i_Status i \<in> {StatusPending, StatusAssigned, StatusStarting, StatusRunning}"
    by (auto simp: isViable_def)
  have c: "Update_apply now StatusCrashed (i_NodeID i) (i_ContainerID i) i =
      i\<lparr>i_Status := StatusCrashed, i_StoppedAt := Some now\<rparr>" if "i_Status i = StatusUnknown" for now
    using assms that by (cases i) (simp add: Update_apply_def inst_ok_def Let_def)
  have u: "i_Status i = StatusUnknown \<Longrightarrow> \<exists>t. i_UnknownSince i = Some t" using assms by (auto simp: inst_ok_def)
  have e: "i\<lparr>i_Status := StatusUnknown, i_UnknownSince := i_UnknownSince i\<rparr> = i\<lparr>i_Status := StatusUnknown\<rparr>"
    by (cases i) simp
  show ?thesis
  proof (cases "i_Status i = StatusUnknown")
    case True
    with u obtain t where "i_UnknownSince i = Some t" by blast
    then show ?thesis using True by (simp add: recovered_def unknown_timeout c)
  next
    case False
    then show ?thesis
      unfolding recovered_def online_lookup v
      by (cases "i_UnknownSince i = None") (simp_all add: e)
  qed
qed

text \<open>The state of the examples: one application that wants three replicas and has none.\<close>

definition example_gen :: "nat \<Rightarrow> string" where
  "example_gen n = replicate (Suc n) (CHR ''i'')"

definition example_clock :: RecClock where
  "example_clock = \<lparr>ck_recover = 0, ck_health = 0, ck_write = (\<lambda>_. 0), ck_drain = (\<lambda>_. 0), ck_since = (\<lambda>_. 0)\<rparr>"

definition example_pass :: RecState where
  "example_pass = \<lparr>rc_insts = [], rc_deps = fst (Dep_Create (\<lambda>_. ''h'') ''d1'' 1 ''a1'' (example_spec\<lparr>s_Replicas := 3\<rparr>) NewDepRegistry),
     rc_drawn = 0\<rparr>"

definition example_active :: AppRegistry where
  "example_active = \<lparr>apps = [(''a1'', \<lparr>a_ID = ''a1'', a_Name = ''shop'', a_Spec = example_spec\<lparr>s_Replicas := 3\<rparr>,
      a_ActiveDeploymentID = ''d1'', a_Status = AppDeploying, a_CreatedAt = 1, a_UpdatedAt = 2\<rparr>)],
     app_names = [(''shop'', ''a1'')]\<rparr>"

lemma example_pass_env: "pass_env example_gen example_active example_pass"
proof -
  have "dep_inv NewDepRegistry" by (rule dep_machine.inv_init)
  then have "dep_inv (rc_deps example_pass)"
    unfolding example_pass_def RecState.select_convs by (rule dep_inv_Create) (simp add: NewDepRegistry_def)
  moreover have "inj example_gen"
    by (rule inj_onI) (metis example_gen_def length_replicate nat.inject)
  ultimately show ?thesis
    by (simp add: pass_env_def example_pass_def example_active_def fresh_ids_def inst_inv_def keyed_def
        Dep_List_def Dep_Create_def NewDepRegistry_def Let_def example_spec_def spec_sizes_def small_def)
qed

lemma example_pass_targets:
  "snd (ComputeTargets example_active (rc_insts (observed [] example_clock example_pass))
     (rc_deps (observed [] example_clock example_pass))) =
   [\<lparr>at_AppID = ''a1'', at_ActiveDeploymentID = ''d1'', at_Targets = [target ''d1'' 3]\<rparr>]"
  by (simp add: ComputeTargets_def observed_def recoverOrphanedInstances_def evaluateHealthAndCrashes_def
      Inst_List_def example_pass_def example_active_def App_List_def Dep_List_def Dep_Create_def NewDepRegistry_def
      Let_def computeAppTarget_def computeImmediateTarget_def example_spec_def)



text \<open>
  C9: a reconciliation pass uses the registries only as their protocols allow. Its effect on the
  instance registry is a run of registry operations under \<open>inst_protocol\<close> and its effect on
  the deployment registry a run under \<open>dep_op_ok\<close>; hence the invariants of both registries
  hold afterwards, a stopped or crashed instance stays so, and no snapshot changes.
\<close>

theorem reconcile_follows_protocol:
  assumes "pass_env gen appReg s" and "Reconcile gen timeout appReg nodeReg ck s = Inr s'"
  shows "reach (rc_insts s) inst_protocol inst_step (rc_insts s') \<and>
    reach (rc_deps s) dep_op_ok (dep_step hash) (rc_deps s') \<and>
    inst_inv (rc_insts s') \<and> dep_inv (rc_deps s') \<and>
    insts_evolve (rc_insts s) (rc_insts s') \<and> deps_evolve (rc_deps s) (rc_deps s')"
proof -
  obtain deps' ats where "ComputeTargets appReg (rc_insts (observed nodeReg ck s)) (rc_deps (observed nodeReg ck s)) = (deps', ats)"
    by fastforce
  from pass_runs [OF assms(1) this, where timeout = timeout and hash = hash] assms(2)
  have i: "inst_run (rc_insts s) (rc_insts s')" and d: "dep_run hash (rc_deps s) (rc_deps s')" by auto
  have "inst_inv (rc_insts s)" "dep_inv (rc_deps s)" using assms(1) by (auto simp: pass_env_def)
  moreover have p: "reach (rc_insts s) inst_protocol inst_step (rc_insts s')"
    using reach_mono [OF i] reconciler_op_protocol by blast
  ultimately show ?thesis using inst_progress.reach_keeps [OF p] dep_run_keeps [OF d] by blast
qed

theorem reconcile_follows_protocol_witness:
  "\<exists>s'. Reconcile example_gen DrainTimeout example_active [] example_clock example_pass = Inr s' \<and> inst_inv (rc_insts s')"
proof -
  obtain s' where s': "Reconcile example_gen DrainTimeout example_active [] example_clock example_pass = Inr s'"
    using pass_runs [OF example_pass_env prod.collapse [symmetric],
      where timeout = DrainTimeout and nodeReg = "[]" and ck = example_clock] by blast
  with reconcile_follows_protocol [OF example_pass_env this] show ?thesis by blast
qed

text \<open>
  C11: instances on lost nodes. The first phase of a pass marks every \<open>PENDING\<close>, \<open>ASSIGNED\<close>,
  \<open>STARTING\<close> or \<open>RUNNING\<close> instance whose node is not registered as online as \<open>UNKNOWN\<close> (keeping
  an earlier start of the timer), declares an instance \<open>CRASHED\<close> exactly when it has been
  \<open>UNKNOWN\<close> for five minutes or more, leaves every other instance alone, and counts no crash
  against any deployment.
\<close>

theorem reconcile_lost_nodes:
  assumes "inst_inv (rc_insts s)"
  shows "Inst_List (rc_insts (recoverOrphanedInstances nodeReg ck s)) =
      map (\<lambda>i. if i_NodeID i \<noteq> '''' \<and> (\<forall>n \<in> set (Node_List nodeReg). n_ID n = i_NodeID i \<longrightarrow> n_Status n \<noteq> NodeOnline) \<and>
                  i_Status i \<in> {StatusPending, StatusAssigned, StatusStarting, StatusRunning}
               then i\<lparr>i_Status := StatusUnknown,
                      i_UnknownSince := (if i_UnknownSince i = None then Some (ck_write ck (i_ID i)) else i_UnknownSince i)\<rparr>
               else if i_Status i = StatusUnknown \<and> 300000000000 \<le> ck_recover ck - the (i_UnknownSince i)
               then i\<lparr>i_Status := StatusCrashed, i_StoppedAt := Some (ck_write ck (i_ID i))\<rparr>
               else i) (Inst_List (rc_insts s)) \<and>
    rc_deps (recoverOrphanedInstances nodeReg ck s) = rc_deps s"
proof -
  have k: "keyed i_ID (rc_insts s)" using assms by (simp add: inst_inv_def)
  have "recovered (onlineNodes nodeReg) ck i =
      (if i_NodeID i \<noteq> '''' \<and> (\<forall>n \<in> set (Node_List nodeReg). n_ID n = i_NodeID i \<longrightarrow> n_Status n \<noteq> NodeOnline) \<and>
                  i_Status i \<in> {StatusPending, StatusAssigned, StatusStarting, StatusRunning}
               then i\<lparr>i_Status := StatusUnknown,
                      i_UnknownSince := (if i_UnknownSince i = None then Some (ck_write ck (i_ID i)) else i_UnknownSince i)\<rparr>
               else if i_Status i = StatusUnknown \<and> 300000000000 \<le> ck_recover ck - the (i_UnknownSince i)
               then i\<lparr>i_Status := StatusCrashed, i_StoppedAt := Some (ck_write ck (i_ID i))\<rparr>
               else i)" if "i \<in> set (mvals (rc_insts s))" for i
    by (rule recovered_cases) (use assms that in \<open>simp add: inst_inv_def\<close>)
  then show ?thesis
    unfolding Inst_List_def recover_phase [OF k] mvals_map_val
    by (intro conjI map_cong refl) (simp_all add: recoverOrphanedInstances_def)
qed


definition example_lost :: RecState where
  "example_lost = \<lparr>rc_insts = [(''i1'', (example_running ''i1'' ''d1'')
      \<lparr>i_NodeID := ''n1'', i_ExecutionID := ''x1'', i_StartedAt := Some 1\<rparr>)],
     rc_deps = NewDepRegistry, rc_drawn = 0\<rparr>"

theorem reconcile_lost_nodes_witness:
  "map i_Status (Inst_List (rc_insts (recoverOrphanedInstances [] example_clock example_lost))) = [StatusUnknown]"
proof -
  have "inst_inv (rc_insts example_lost)"
    by (simp add: example_lost_def inst_inv_def keyed_def inst_ok_def example_running_def Inst_Create_def Let_def)
  from reconcile_lost_nodes [OF this, of "[]" example_clock] show ?thesis
    by (simp add: example_lost_def Inst_List_def Node_List_def example_running_def Inst_Create_def Let_def)
qed

text \<open>
  C10: instances drain before they are stopped. In a pass during which less than the drain
  timeout goes by, an instance that was not stopping before and is \<open>STOPPING\<close> or \<open>STOPPED\<close>
  afterwards had been draining since at least the timeout: it was marked in an earlier pass,
  and since that mark the router has not sent it requests.
\<close>

theorem reconcile_drains_first:
  assumes "pass_env gen appReg s" and "quick_pass timeout ck"
    and "Reconcile gen timeout appReg nodeReg ck s = Inr s'"
    and "map_of (rc_insts s) k = Some i" and "map_of (rc_insts s') k = Some i'"
    and "i_Status i' = StatusStopping \<or> i_Status i' = StatusStopped"
  shows "i_Status i = StatusStopping \<or> i_Status i = StatusStopped \<or>
    i_Draining i \<and> (\<exists>t. i_DrainStartedAt i = Some t \<and> timeout \<le> time_sub (ck_since ck (i_ID i)) t)"
proof -
  let ?R = "drain_rel timeout ck" and ?o = "observed nodeReg ck s"
  have k: "keyed i_ID (rc_insts s)" and f: "fresh_ids gen s" using assms(1) by (auto simp: pass_env_def inst_inv_def)
  note o = observed_state [OF k, where nodeReg = nodeReg and ck = ck]
  obtain deps' ats where t: "ComputeTargets appReg (rc_insts ?o) (rc_deps ?o) = (deps', ats)" by fastforce
  have r: "reconcile_targets gen timeout ck (flat_targets ats) (?o\<lparr>rc_deps := deps'\<rparr>) = Inr s'"
    using assms(3) t by (simp add: Reconcile_def observed_def Let_def)
  have "table_rel ?R (rc_insts s) (rc_insts ?o)"
    unfolding o(1) by (rule table_rel_map) (rule drain_rel_observed)
  moreover have "table_rel ?R (rc_insts (?o\<lparr>rc_deps := deps'\<rparr>)) (rc_insts s')"
  proof (rule targets_rel [where R = ?R and timeout = timeout and ck = ck, OF _ _ _ _ _ r])
    show "?R i i" for i by (simp add: drain_rel_def)
    show "?R a b \<Longrightarrow> ?R b c \<Longrightarrow> ?R a c" for a b c by (rule drain_rel_trans [OF assms(2)])
    show "isViable (i_Status i) \<Longrightarrow> ?R i (stopped timeout ck i)" for i by (rule drain_rel_stopped [OF assms(2)])
    show "keyed i_ID (rc_insts (?o\<lparr>rc_deps := deps'\<rparr>))" using o(1) keyed_map_val [OF k] by simp
    show "fresh_ids gen (?o\<lparr>rc_deps := deps'\<rparr>)" using o(4) [OF f] by (simp add: fresh_ids_def)
  qed
  ultimately have "table_rel ?R (rc_insts s) (rc_insts s')"
    using table_rel_trans [where R = ?R] drain_rel_trans [OF assms(2)] by (metis RecState.select_convs(1) RecState.surjective RecState.update_convs(2))
  from table_relD [OF this assms(4,5)] assms(6) show ?thesis
    by (auto simp: drain_rel_def drain_elapsed_def)
qed

text \<open>One draining replica of a deployment scaled to zero: it is stopped.\<close>

definition example_scale :: RecState where
  "example_scale = \<lparr>rc_insts = [(''i1'', (example_running ''i1'' ''d1'')
      \<lparr>i_ExecutionID := ''x1'', i_StartedAt := Some 1, i_Draining := True, i_DrainStartedAt := Some 5\<rparr>)],
     rc_deps = fst (Dep_Create (\<lambda>_. ''h'') ''d1'' 1 ''a1'' (example_spec\<lparr>s_Replicas := 0\<rparr>) NewDepRegistry), rc_drawn = 2\<rparr>"

definition example_late :: RecClock where
  "example_late = \<lparr>ck_recover = 0, ck_health = 0, ck_write = (\<lambda>_. 20000000000), ck_drain = (\<lambda>_. 20000000000),
     ck_since = (\<lambda>_. 20000000000)\<rparr>"

lemma example_scale_env: "pass_env example_gen example_active example_scale"
proof -
  have "dep_inv NewDepRegistry" by (rule dep_machine.inv_init)
  then have "dep_inv (rc_deps example_scale)"
    unfolding example_scale_def RecState.select_convs by (rule dep_inv_Create) (simp add: NewDepRegistry_def)
  moreover have "length (example_gen n) = Suc n" for n by (simp add: example_gen_def)
  then have "example_gen n \<noteq> ''i1''" if "2 \<le> n" for n using that by (metis (no_types) Suc_n_not_le_n length_Cons list.size(3) One_nat_def numeral_2_eq_2)
  moreover have "inj example_gen" using example_pass_env by (simp add: pass_env_def fresh_ids_def)
  moreover have "inst_inv (rc_insts example_scale)"
    by (simp add: example_scale_def inst_inv_def keyed_def inst_ok_def example_running_def Inst_Create_def Let_def)
  ultimately show ?thesis
    by (simp add: pass_env_def example_scale_def example_active_def fresh_ids_def keyed_def
        Dep_List_def Dep_Create_def NewDepRegistry_def Let_def example_spec_def spec_sizes_def small_def)
qed

lemma example_scale_pass:
  "\<exists>s' i'. Reconcile example_gen DrainTimeout example_active [] example_late example_scale = Inr s' \<and>
     map_of (rc_insts s') ''i1'' = Some i' \<and> i_Status i' = StatusStopping"
  by (simp add: Reconcile_def ComputeTargets_def recoverOrphanedInstances_def recover_instance_def
      evaluateHealthAndCrashes_def evaluate_instance_def Inst_List_def example_scale_def example_active_def App_List_def
      Dep_List_def Dep_Create_def NewDepRegistry_def Let_def computeAppTarget_def computeImmediateTarget_def
      example_spec_def example_running_def Inst_Create_def example_late_def time_sub_def max_int64_def min_int64_def
      HealthyRecoveryWindow_def second_def flat_targets_def reconcile_target_def Dep_Get_def target_def
      Dep_UpdateRolloutStatusOnly_def put_dep_def viableInstances_def isViable_def scale_down_def wrap64_def go_sort_def
      stop_instance_def DrainTimeout_def Inst_UpdateState_def Update_apply_def)

theorem reconcile_drains_first_witness:
  "\<exists>s' i'. Reconcile example_gen DrainTimeout example_active [] example_late example_scale = Inr s' \<and>
     map_of (rc_insts s') ''i1'' = Some i' \<and> i_Status i' = StatusStopping \<and>
     DrainTimeout \<le> time_sub (ck_since example_late ''i1'') 5"
proof -
  obtain s' i' where r: "Reconcile example_gen DrainTimeout example_active [] example_late example_scale = Inr s'"
    "map_of (rc_insts s') ''i1'' = Some i'" "i_Status i' = StatusStopping"
    using example_scale_pass by blast
  have q: "quick_pass DrainTimeout example_late"
    by (simp add: quick_pass_def example_late_def DrainTimeout_def second_def time_sub_def max_int64_def min_int64_def)
  have "DrainTimeout \<le> time_sub (ck_since example_late ''i1'') 5"
    using reconcile_drains_first [OF example_scale_env q r(1) _ r(2), of "snd (hd (rc_insts example_scale))"] r(3)
    by (simp add: example_scale_def example_running_def Inst_Create_def Let_def)
  with r show ?thesis by blast
qed

end
