(* ===== verification/Job.thy ===== *)
theory Job
  imports Prelude
begin

text \<open>
  The job registry: \<open>internal/job/job.go\<close> and \<open>internal/job/registry.go\<close>.

  The registry keeps pointers to jobs, so a write to a field of a job is visible in the
  registry at once, also when the operation later returns an error; the model writes the
  job back at the point where the code writes the field. An operation returns the new
  registry and the pair (value, error) of Go as a sum. Every call of \<open>time.Now()\<close> and of
  \<open>GenerateID()\<close> is an argument.
\<close>

section \<open>Data\<close>

datatype JobStatus =
    JobPending | JobAssigned | JobRunning | JobSucceeded | JobFailed
  | JobOther string \<comment> \<open>any other string a client may send\<close>

record JobResult =
  r_ExitCode :: int
  r_Stdout :: string
  r_Stderr :: string
  r_Error :: string

record Job =
  j_ID :: string
  j_Name :: string
  j_Command :: string
  j_Status :: JobStatus
  j_CreatedAt :: time
  j_StartedAt :: "time option"
  j_CompletedAt :: "time option"
  j_AssignedNodeID :: string
  j_ExecutionID :: string
  j_CPU :: float64
  j_MemoryMB :: int
  j_MaxRetries :: int
  j_Attempts :: int
  j_Result :: "JobResult option"

datatype JobEventType =
    EventCreated | EventAssigned | EventClaimed | EventSucceeded | EventFailed
  | EventRecovered | EventRetried

record JobEvent =
  e_ID :: string
  e_JobID :: string
  e_Timestamp :: time
  e_Type :: JobEventType
  e_From :: JobStatus
  e_To :: JobStatus
  e_NodeID :: string
  e_ExecutionID :: string
  e_Attempts :: int
  e_Reason :: string

record JobRegistry =
  jobs :: "(string, Job) gomap"
  job_events :: "(string, JobEvent list) gomap"

datatype JobError =
    ErrInvalidTransition | ErrJobNotFound
  | ErrRunningToPending | ErrAssignedToPending | ErrToFailed
  | ErrExecutionFields | ErrPendingFields
  | ErrOtherNode | ErrStaleResult | ErrContradictoryResult

fun isValidTransition :: "JobStatus \<Rightarrow> JobStatus \<Rightarrow> bool" where
  "isValidTransition current nxt =
     (if current = nxt then True
      else case current of
        JobPending \<Rightarrow> nxt = JobAssigned \<or> nxt = JobFailed
      | JobAssigned \<Rightarrow> nxt = JobRunning \<or> nxt = JobFailed \<or> nxt = JobPending
      | JobRunning \<Rightarrow> nxt = JobSucceeded \<or> nxt = JobFailed \<or> nxt = JobPending
      | _ \<Rightarrow> False)"

section \<open>Operations\<close>

definition NewJobRegistry :: JobRegistry where
  "NewJobRegistry = \<lparr>jobs = [], job_events = []\<rparr>"

definition appendEvent ::
  "time \<Rightarrow> string \<Rightarrow> JobEventType \<Rightarrow> JobStatus \<Rightarrow> JobStatus \<Rightarrow> string \<Rightarrow> string \<Rightarrow> int \<Rightarrow> string
    \<Rightarrow> JobRegistry \<Rightarrow> JobRegistry" where
  "appendEvent now jobID ty from to node exec att reason r =
     (let evs = mget_or [] (job_events r) jobID;
          evt = \<lparr>e_ID = jobID @ ''-evt-'' @ show_int (int (length evs) + 1),
                 e_JobID = jobID, e_Timestamp = now, e_Type = ty, e_From = from, e_To = to,
                 e_NodeID = node, e_ExecutionID = exec, e_Attempts = att, e_Reason = reason\<rparr>
      in r\<lparr>job_events := mput jobID (evs @ [evt]) (job_events r)\<rparr>)"

definition put_job :: "string \<Rightarrow> Job \<Rightarrow> JobRegistry \<Rightarrow> JobRegistry" where
  "put_job jid j r = r\<lparr>jobs := mput jid j (jobs r)\<rparr>"

definition Job_Create ::
  "string \<Rightarrow> time \<Rightarrow> time \<Rightarrow> string \<Rightarrow> string \<Rightarrow> int \<Rightarrow> float64 \<Rightarrow> int \<Rightarrow> JobRegistry \<Rightarrow> JobRegistry \<times> Job" where
  "Job_Create rid now nowE name command maxRetries cpu mem r =
     (let j = \<lparr>j_ID = ''job-'' @ rid, j_Name = name, j_Command = command, j_Status = JobPending,
               j_CreatedAt = now, j_StartedAt = None, j_CompletedAt = None,
               j_AssignedNodeID = '''', j_ExecutionID = '''', j_CPU = 0, j_MemoryMB = 0,
               j_MaxRetries = maxRetries, j_Attempts = 0, j_Result = None\<rparr>
      in (appendEvent nowE (j_ID j) EventCreated (JobOther '''') JobPending '''' '''' 0
            ''Job created'' (put_job (j_ID j) j r), j))"

definition Job_Get :: "JobRegistry \<Rightarrow> string \<Rightarrow> JobError + Job" where
  "Job_Get r jid = (case map_of (jobs r) jid of Some j \<Rightarrow> Inr j | None \<Rightarrow> Inl ErrJobNotFound)"

definition Job_List :: "JobRegistry \<Rightarrow> Job list" where
  "Job_List r = mvals (jobs r)"

definition Job_GetEvents :: "JobRegistry \<Rightarrow> string \<Rightarrow> JobError + JobEvent list" where
  "Job_GetEvents r jid =
     (case map_of (jobs r) jid of
        None \<Rightarrow> Inl ErrJobNotFound
      | Some _ \<Rightarrow> Inr (mget_or [] (job_events r) jid))"

record UpdateParams =
  p_Status :: "JobStatus option"
  p_AssignedNodeID :: "string option"
  p_StartedAt :: "time option"
  p_CompletedAt :: "time option"
  p_Result :: "JobResult option"

text \<open>The guarded write of the status, the first half of \<open>Update\<close>.\<close>

definition Job_Update_status :: "Job \<Rightarrow> UpdateParams \<Rightarrow> JobError + Job" where
  "Job_Update_status j params =
     (case p_Status params of
        None \<Rightarrow> Inr j
      | Some st \<Rightarrow>
          if \<not> isValidTransition (j_Status j) st then Inl ErrInvalidTransition
          else if j_Status j = JobRunning \<and> st = JobPending then Inl ErrRunningToPending
          else if j_Status j = JobAssigned \<and> st = JobPending then Inl ErrAssignedToPending
          else if st = JobFailed \<and> (j_Status j = JobPending \<or> j_Status j = JobAssigned)
            then Inl ErrToFailed
          else Inr (j\<lparr>j_Status := st\<rparr>))"

definition Job_Update_fields :: "Job \<Rightarrow> UpdateParams \<Rightarrow> Job" where
  "Job_Update_fields j params =
     (let j1 = (case p_AssignedNodeID params of None \<Rightarrow> j | Some n \<Rightarrow> j\<lparr>j_AssignedNodeID := n\<rparr>);
          j2 = (case p_StartedAt params of None \<Rightarrow> j1 | Some t \<Rightarrow> j1\<lparr>j_StartedAt := Some t\<rparr>);
          j3 = (case p_CompletedAt params of None \<Rightarrow> j2 | Some t \<Rightarrow> j2\<lparr>j_CompletedAt := Some t\<rparr>)
      in (case p_Result params of None \<Rightarrow> j3 | Some res \<Rightarrow> j3\<lparr>j_Result := Some res\<rparr>))"

definition sets_execution_fields :: "UpdateParams \<Rightarrow> bool" where
  "sets_execution_fields params \<longleftrightarrow>
     p_AssignedNodeID params \<noteq> None \<or> p_StartedAt params \<noteq> None \<or> p_Result params \<noteq> None"

definition Job_Update ::
  "time \<Rightarrow> string \<Rightarrow> UpdateParams \<Rightarrow> JobRegistry \<Rightarrow> JobRegistry \<times> (JobError + Job)" where
  "Job_Update nowE jid params r =
     (case map_of (jobs r) jid of
        None \<Rightarrow> (r, Inl ErrJobNotFound)
      | Some j \<Rightarrow>
          (let oldStatus = j_Status j in
           case Job_Update_status j params of
             Inl e \<Rightarrow> (r, Inl e)
           | Inr j1 \<Rightarrow>
               if oldStatus \<in> {JobRunning, JobSucceeded, JobFailed} \<and> sets_execution_fields params
                 then (put_job jid j1 r, Inl ErrExecutionFields)
               else if oldStatus = JobPending \<and> j_Status j1 = JobPending
                       \<and> sets_execution_fields params
                 then (put_job jid j1 r, Inl ErrPendingFields)
               else
                 (let j2 = Job_Update_fields j1 params;
                      r2 = put_job jid j2 r
                  in (if oldStatus \<noteq> j_Status j2 \<and> j_Status j2 = JobAssigned
                      then appendEvent nowE (j_ID j2) EventAssigned oldStatus (j_Status j2)
                             (j_AssignedNodeID j2) '''' (j_Attempts j2)
                             ''Job assigned by scheduler'' r2
                      else r2, Inr j2))))"

definition Job_Claim ::
  "string \<Rightarrow> time \<Rightarrow> time \<Rightarrow> string \<Rightarrow> string \<Rightarrow> JobRegistry \<Rightarrow> JobRegistry \<times> (JobError + Job)" where
  "Job_Claim rid now nowE jid nodeID r =
     (case map_of (jobs r) jid of
        None \<Rightarrow> (r, Inl ErrJobNotFound)
      | Some j \<Rightarrow>
          if j_Status j \<noteq> JobAssigned then (r, Inl ErrInvalidTransition)
          else if j_AssignedNodeID j \<noteq> nodeID then (r, Inl ErrOtherNode)
          else
            (let j1 = j\<lparr>j_Attempts := j_Attempts j + 1, j_Status := JobRunning,
                        j_StartedAt := Some now, j_ExecutionID := ''exec-'' @ rid\<rparr>
             in (appendEvent nowE (j_ID j1) EventClaimed JobAssigned JobRunning nodeID
                   (j_ExecutionID j1) (j_Attempts j1) ''Job claimed by agent'' (put_job jid j1 r),
                 Inr j1)))"

text \<open>
  Back to \<open>PENDING\<close> with the execution identity cleared (the retry branch of
  \<open>ReportResult\<close> and of both recovery loops), and the terminal \<open>FAILED\<close> write.
\<close>

definition requeue :: "Job \<Rightarrow> Job" where
  "requeue j = j\<lparr>j_Status := JobPending, j_AssignedNodeID := '''', j_StartedAt := None,
                 j_ExecutionID := ''''\<rparr>"

definition finish :: "JobStatus \<Rightarrow> time \<Rightarrow> JobResult \<Rightarrow> Job \<Rightarrow> Job" where
  "finish st now res j = j\<lparr>j_Status := st, j_CompletedAt := Some now, j_Result := Some res\<rparr>"

definition Job_ReportResult ::
  "time \<Rightarrow> time \<Rightarrow> string \<Rightarrow> string \<Rightarrow> string \<Rightarrow> JobResult \<Rightarrow> JobRegistry
    \<Rightarrow> JobRegistry \<times> (JobError + Job)" where
  "Job_ReportResult now nowE jid nodeID execID res r =
     (case map_of (jobs r) jid of
        None \<Rightarrow> (r, Inl ErrJobNotFound)
      | Some j \<Rightarrow>
          if j_Status j = JobSucceeded \<or> j_Status j = JobFailed then
            (if j_AssignedNodeID j \<noteq> nodeID \<or> j_ExecutionID j \<noteq> execID
               then (r, Inl ErrStaleResult)
             else if (case j_Result j of None \<Rightarrow> False
                      | Some old \<Rightarrow> r_ExitCode old \<noteq> r_ExitCode res)
               then (r, Inl ErrContradictoryResult)
             else (r, Inr j))
          else if j_Status j \<noteq> JobRunning then (r, Inl ErrInvalidTransition)
          else if j_AssignedNodeID j \<noteq> nodeID \<or> j_ExecutionID j \<noteq> execID
            then (r, Inl ErrStaleResult)
          else if r_ExitCode res = 0 then
            (let j1 = finish JobSucceeded now res j
             in (appendEvent nowE (j_ID j1) EventSucceeded JobRunning JobSucceeded nodeID execID
                   (j_Attempts j1) ''Job completed successfully'' (put_job jid j1 r), Inr j1))
          else if j_Attempts j \<le> j_MaxRetries j then
            (let j1 = requeue j
             in (appendEvent nowE (j_ID j1) EventRetried JobRunning JobPending nodeID execID
                   (j_Attempts j1) (''Job failed with exit code '' @ show_int (r_ExitCode res))
                   (put_job jid j1 r), Inr j1))
          else
            (let j1 = finish JobFailed now res j
             in (appendEvent nowE (j_ID j1) EventFailed JobRunning JobFailed nodeID execID
                   (j_Attempts j1)
                   (''Job failed with exit code '' @ show_int (r_ExitCode res)
                     @ '' (Retries exhausted)'') (put_job jid j1 r), Inr j1)))"

text \<open>
  The recovery loops range over the jobs and change each one in place. An iteration looks at
  one entry; \<open>nowE k\<close> is the time its event is written, \<open>nowC k\<close> the time its completion is.
\<close>

definition recover_error :: "string \<Rightarrow> JobResult" where
  "recover_error msg = \<lparr>r_ExitCode = - 1, r_Stdout = '''', r_Stderr = '''', r_Error = msg\<rparr>"

definition recover_job ::
  "time \<Rightarrow> time \<Rightarrow> string \<Rightarrow> string \<Rightarrow> string \<Rightarrow> Job \<Rightarrow> JobRegistry \<Rightarrow> JobRegistry" where
  "recover_job nowC nowE reason oldNode k j r =
     (if j_Attempts j \<le> j_MaxRetries j
      then appendEvent nowE (j_ID j) EventRecovered (j_Status j) JobPending oldNode
             (j_ExecutionID j) (j_Attempts j) reason (put_job k (requeue j) r)
      else appendEvent nowE (j_ID j) EventFailed (j_Status j) JobFailed oldNode
             (j_ExecutionID j) (j_Attempts j) (reason @ '' (Retries exhausted)'')
             (put_job k (finish JobFailed nowC (recover_error reason) j) r))"

definition timed_out :: "time \<Rightarrow> duration \<Rightarrow> Job \<Rightarrow> bool" where
  "timed_out now timeout j \<longleftrightarrow>
     j_Status j = JobRunning \<and>
     (case j_StartedAt j of None \<Rightarrow> False | Some t \<Rightarrow> timeout \<le> time_sub now t)"

fun timeouts_loop ::
  "time \<Rightarrow> (string \<Rightarrow> time) \<Rightarrow> duration \<Rightarrow> string list \<Rightarrow> JobRegistry \<Rightarrow> nat \<Rightarrow> JobRegistry \<times> nat" where
  "timeouts_loop now nowE timeout [] r n = (r, n)"
| "timeouts_loop now nowE timeout (k # ks) r n =
     (case map_of (jobs r) k of
        None \<Rightarrow> timeouts_loop now nowE timeout ks r n
      | Some j \<Rightarrow>
          if timed_out now timeout j
          then timeouts_loop now nowE timeout ks
                 (recover_job now (nowE k) ''Execution timeout exceeded'' (j_AssignedNodeID j) k j r)
                 (Suc n)
          else timeouts_loop now nowE timeout ks r n)"

definition RecoverExecutionTimeouts ::
  "time \<Rightarrow> (string \<Rightarrow> time) \<Rightarrow> duration \<Rightarrow> JobRegistry \<Rightarrow> JobRegistry \<times> nat" where
  "RecoverExecutionTimeouts now nowE timeout r =
     timeouts_loop now nowE timeout (map fst (jobs r)) r 0"

definition on_node :: "string \<Rightarrow> Job \<Rightarrow> bool" where
  "on_node nodeID j \<longleftrightarrow>
     (j_Status j = JobRunning \<or> j_Status j = JobAssigned) \<and> j_AssignedNodeID j = nodeID"

fun node_jobs_loop ::
  "(string \<Rightarrow> time) \<Rightarrow> (string \<Rightarrow> time) \<Rightarrow> string \<Rightarrow> string \<Rightarrow> string list \<Rightarrow> JobRegistry \<Rightarrow> nat
    \<Rightarrow> JobRegistry \<times> nat" where
  "node_jobs_loop nowC nowE nodeID reason [] r n = (r, n)"
| "node_jobs_loop nowC nowE nodeID reason (k # ks) r n =
     (case map_of (jobs r) k of
        None \<Rightarrow> node_jobs_loop nowC nowE nodeID reason ks r n
      | Some j \<Rightarrow>
          if on_node nodeID j
          then node_jobs_loop nowC nowE nodeID reason ks
                 (recover_job (nowC k) (nowE k) reason nodeID k j r) (Suc n)
          else node_jobs_loop nowC nowE nodeID reason ks r n)"

definition RecoverNodeJobs ::
  "(string \<Rightarrow> time) \<Rightarrow> (string \<Rightarrow> time) \<Rightarrow> string \<Rightarrow> string \<Rightarrow> JobRegistry \<Rightarrow> JobRegistry \<times> nat" where
  "RecoverNodeJobs nowC nowE nodeID reason r =
     node_jobs_loop nowC nowE nodeID reason (map fst (jobs r)) r 0"

section \<open>The registry as a state machine\<close>

datatype job_op =
    OpCreate string time time string string int float64 int
  | OpUpdate time string UpdateParams
  | OpClaim string time time string string
  | OpReport time time string string string JobResult
  | OpTimeouts time "string \<Rightarrow> time" duration
  | OpNodeJobs "string \<Rightarrow> time" "string \<Rightarrow> time" string string

fun job_step :: "job_op \<Rightarrow> JobRegistry \<Rightarrow> JobRegistry" where
  "job_step (OpCreate rid now nowE name cmd retries cpu mem) r =
     fst (Job_Create rid now nowE name cmd retries cpu mem r)"
| "job_step (OpUpdate nowE jid params) r = fst (Job_Update nowE jid params r)"
| "job_step (OpClaim rid now nowE jid node) r = fst (Job_Claim rid now nowE jid node r)"
| "job_step (OpReport now nowE jid node exec res) r =
     fst (Job_ReportResult now nowE jid node exec res r)"
| "job_step (OpTimeouts now nowE timeout) r = fst (RecoverExecutionTimeouts now nowE timeout r)"
| "job_step (OpNodeJobs nowC nowE node reason) r = fst (RecoverNodeJobs nowC nowE node reason r)"

text \<open>
  The environment of a run: identifiers drawn at random are new, and jobs are created with a
  non-negative retry budget (the check of the HTTP handler).
\<close>

fun job_op_ok :: "job_op \<Rightarrow> JobRegistry \<Rightarrow> bool" where
  "job_op_ok (OpCreate rid now nowE name cmd retries cpu mem) r \<longleftrightarrow>
     map_of (jobs r) (''job-'' @ rid) = None \<and> 0 \<le> retries"
| "job_op_ok _ r \<longleftrightarrow> True"

text \<open>What the registry keeps of every job.\<close>

definition job_ok :: "Job \<Rightarrow> bool" where
  "job_ok j \<longleftrightarrow>
     (j_Status j = JobPending \<longrightarrow>
        j_AssignedNodeID j = '''' \<and> j_StartedAt j = None \<and> j_ExecutionID j = '''') \<and>
     (j_Status j = JobAssigned \<longrightarrow> j_ExecutionID j = '''') \<and>
     (j_Status j = JobPending \<or> j_Status j = JobAssigned \<longrightarrow> j_Attempts j \<le> j_MaxRetries j) \<and>
     0 \<le> j_Attempts j \<and> j_Attempts j \<le> j_MaxRetries j + 1"

definition job_inv :: "JobRegistry \<Rightarrow> bool" where
  "job_inv r \<longleftrightarrow> keyed j_ID (jobs r) \<and> (\<forall>j \<in> set (mvals (jobs r)). job_ok j)"

section \<open>Frame lemmas\<close>

lemma jobs_appendEvent [simp]: "jobs (appendEvent now k ty from to n e a re r) = jobs r"
  by (simp add: appendEvent_def Let_def)

lemma jobs_put_job [simp]: "jobs (put_job k j r) = mput k j (jobs r)"
  by (simp add: put_job_def)

lemma events_put_job [simp]: "job_events (put_job k j r) = job_events r"
  by (simp add: put_job_def)

lemma requeue_simps [simp]:
  "j_ID (requeue j) = j_ID j" "j_Status (requeue j) = JobPending"
  "j_Attempts (requeue j) = j_Attempts j" "j_MaxRetries (requeue j) = j_MaxRetries j"
  "j_AssignedNodeID (requeue j) = ''''" "j_StartedAt (requeue j) = None"
  "j_ExecutionID (requeue j) = ''''"
  by (simp_all add: requeue_def)

lemma finish_simps [simp]:
  "j_ID (finish st now res j) = j_ID j" "j_Status (finish st now res j) = st"
  "j_Attempts (finish st now res j) = j_Attempts j"
  "j_MaxRetries (finish st now res j) = j_MaxRetries j"
  "j_AssignedNodeID (finish st now res j) = j_AssignedNodeID j"
  "j_ExecutionID (finish st now res j) = j_ExecutionID j"
  "j_Result (finish st now res j) = Some res"
  by (simp_all add: finish_def)

lemma Update_fields_simps [simp]:
  "j_ID (Job_Update_fields j params) = j_ID j"
  "j_Status (Job_Update_fields j params) = j_Status j"
  "j_Attempts (Job_Update_fields j params) = j_Attempts j"
  "j_MaxRetries (Job_Update_fields j params) = j_MaxRetries j"
  "j_ExecutionID (Job_Update_fields j params) = j_ExecutionID j"
  by (simp_all add: Job_Update_fields_def Let_def split: option.splits)

lemma Update_fields_unset:
  "\<not> sets_execution_fields params \<Longrightarrow>
    j_AssignedNodeID (Job_Update_fields j params) = j_AssignedNodeID j \<and>
    j_StartedAt (Job_Update_fields j params) = j_StartedAt j \<and>
    j_Result (Job_Update_fields j params) = j_Result j"
  by (simp add: Job_Update_fields_def sets_execution_fields_def Let_def split: option.splits)

section \<open>The invariant\<close>

lemma job_inv_put:
  "job_inv r \<Longrightarrow> j_ID j = k \<Longrightarrow> job_ok j \<Longrightarrow> job_inv (put_job k j r)"
  by (auto simp: job_inv_def set_mvals in_mput_cases keyed_distinct intro: keyed_mput split: if_splits)

lemma job_inv_appendEvent [simp]: "job_inv (appendEvent now k ty from to n e a re r) = job_inv r"
  by (simp add: job_inv_def)

lemma job_inv_lookup:
  "job_inv r \<Longrightarrow> map_of (jobs r) k = Some j \<Longrightarrow> j_ID j = k \<and> job_ok j"
  by (auto simp: job_inv_def dest: keyed_map_of mvals_lookup)

lemma job_inv_New: "job_inv NewJobRegistry"
  by (simp add: job_inv_def NewJobRegistry_def)

lemma job_inv_Create:
  "job_inv r \<Longrightarrow> 0 \<le> retries \<Longrightarrow> job_inv (fst (Job_Create rid now nowE name cmd retries cpu mem r))"
  by (auto simp: Job_Create_def Let_def intro!: job_inv_put) (simp add: job_ok_def)

lemma Update_status_keeps:
  assumes "Job_Update_status j params = Inr j1"
  shows "j1 = j \<or> (\<exists>st. j1 = j\<lparr>j_Status := st\<rparr> \<and> st \<noteq> JobPending \<and>
            (st = JobAssigned \<longrightarrow> j_Status j = JobPending \<or> j_Status j = JobAssigned))"
  using assms
  by (auto simp: Job_Update_status_def split: option.splits if_splits JobStatus.splits)

lemma Update_status_ok: "Job_Update_status j params = Inr j1 \<Longrightarrow> job_ok j \<Longrightarrow> job_ok j1 \<and> j_ID j1 = j_ID j"
  by (drule Update_status_keeps) (auto simp: job_ok_def)

lemma Update_fields_ok:
  "job_ok j \<Longrightarrow> j_Status j \<noteq> JobPending \<or> \<not> sets_execution_fields params \<Longrightarrow>
    job_ok (Job_Update_fields j params)"
  using Update_fields_unset [of params j] by (auto simp: job_ok_def)

lemma job_inv_Update: "job_inv r \<Longrightarrow> job_inv (fst (Job_Update nowE jid params r))"
proof (cases "map_of (jobs r) jid")
  case None
  then show "job_inv r \<Longrightarrow> ?thesis" by (simp add: Job_Update_def)
next
  case (Some j)
  assume inv: "job_inv r"
  from job_inv_lookup [OF inv Some] have j: "j_ID j = jid" "job_ok j" by auto
  show ?thesis
  proof (cases "Job_Update_status j params")
    case (Inl e)
    with inv Some show ?thesis by (simp add: Job_Update_def)
  next
    case (Inr j1)
    from Update_status_ok [OF Inr j(2)] j(1) have j1: "job_ok j1" "j_ID j1 = jid" by auto
    have "j_Status j = JobPending" if "j_Status j1 = JobPending"
      using Update_status_keeps [OF Inr] that by auto
    then show ?thesis
      using Some Inr inv j1
      by (auto simp: Job_Update_def Let_def intro!: job_inv_put Update_fields_ok)
  qed
qed

lemma job_inv_Claim: "job_inv r \<Longrightarrow> job_inv (fst (Job_Claim rid now nowE jid node r))"
  by (auto simp: Job_Claim_def Let_def job_ok_def split: option.splits
      dest: job_inv_lookup intro!: job_inv_put)

lemma job_ok_requeue: "job_ok j \<Longrightarrow> j_Attempts j \<le> j_MaxRetries j \<Longrightarrow> job_ok (requeue j)"
  by (simp add: job_ok_def)

lemma job_ok_finish: "job_ok j \<Longrightarrow> st \<in> {JobSucceeded, JobFailed} \<Longrightarrow> job_ok (finish st now res j)"
  by (auto simp: job_ok_def)

lemma job_inv_Report: "job_inv r \<Longrightarrow> job_inv (fst (Job_ReportResult now nowE jid node exec res r))"
  by (auto simp: Job_ReportResult_def Let_def split: option.splits
      dest: job_inv_lookup intro!: job_inv_put job_ok_requeue job_ok_finish)

lemma job_inv_recover_job:
  "job_inv r \<Longrightarrow> map_of (jobs r) k = Some j \<Longrightarrow> job_inv (recover_job nowC nowE reason node k j r)"
  by (auto simp: recover_job_def dest: job_inv_lookup intro!: job_inv_put job_ok_requeue job_ok_finish)

lemma job_inv_timeouts_loop: "job_inv r \<Longrightarrow> job_inv (fst (timeouts_loop now nowE timeout ks r n))"
  by (induction now nowE timeout ks r n rule: timeouts_loop.induct)
    (auto split: option.splits intro: job_inv_recover_job)

lemma job_inv_node_jobs_loop:
  "job_inv r \<Longrightarrow> job_inv (fst (node_jobs_loop nowC nowE node reason ks r n))"
  by (induction nowC nowE node reason ks r n rule: node_jobs_loop.induct)
    (auto split: option.splits intro: job_inv_recover_job)

lemma job_inv_step: "job_inv r \<Longrightarrow> job_op_ok op r \<Longrightarrow> job_inv (job_step op r)"
  by (cases op)
    (auto simp: RecoverExecutionTimeouts_def RecoverNodeJobs_def intro: job_inv_Create
      job_inv_Update job_inv_Claim job_inv_Report job_inv_timeouts_loop job_inv_node_jobs_loop)

interpretation job_machine: invariant_machine NewJobRegistry job_op_ok job_step job_inv
  by unfold_locales (auto intro: job_inv_New job_inv_step)

interpretation job_table: id_registry jobs j_ID Job_Get Job_List ErrJobNotFound
  by unfold_locales (auto simp: Job_Get_def Job_List_def split: option.splits)

section \<open>Progress: attempts grow, terminal jobs are final\<close>

definition terminal :: "Job \<Rightarrow> bool" where
  "terminal j \<longleftrightarrow> j_Status j = JobSucceeded \<or> j_Status j = JobFailed"

definition job_evolves :: "Job \<Rightarrow> Job \<Rightarrow> bool" where
  "job_evolves j j' \<longleftrightarrow>
     j_ID j' = j_ID j \<and> j_Name j' = j_Name j \<and> j_Command j' = j_Command j \<and>
     j_CreatedAt j' = j_CreatedAt j \<and> j_MaxRetries j' = j_MaxRetries j \<and>
     j_CPU j' = j_CPU j \<and> j_MemoryMB j' = j_MemoryMB j \<and>
     j_Attempts j \<le> j_Attempts j' \<and>
     (terminal j \<longrightarrow> j_Status j' = j_Status j \<and> j_Result j' = j_Result j \<and>
        j_AssignedNodeID j' = j_AssignedNodeID j \<and> j_ExecutionID j' = j_ExecutionID j \<and>
        j_StartedAt j' = j_StartedAt j \<and> j_Attempts j' = j_Attempts j)"

definition jobs_evolve :: "JobRegistry \<Rightarrow> JobRegistry \<Rightarrow> bool" where
  "jobs_evolve r r' \<longleftrightarrow>
     (\<forall>k j. map_of (jobs r) k = Some j \<longrightarrow>
        (\<exists>j'. map_of (jobs r') k = Some j' \<and> job_evolves j j')) \<and>
     (\<forall>k j'. map_of (jobs r) k = None \<longrightarrow> map_of (jobs r') k = Some j' \<longrightarrow>
        j_CPU j' = 0 \<and> j_MemoryMB j' = 0)"

lemma job_evolves_refl [simp]: "job_evolves j j"
  by (simp add: job_evolves_def)

lemma job_evolves_trans: "job_evolves i j \<Longrightarrow> job_evolves j k \<Longrightarrow> job_evolves i k"
  by (auto simp: job_evolves_def terminal_def)

lemma jobs_evolve_refl [simp]: "jobs_evolve r r"
  by (simp add: jobs_evolve_def)

lemma jobs_evolve_trans: "jobs_evolve r s \<Longrightarrow> jobs_evolve s t \<Longrightarrow> jobs_evolve r t"
  unfolding jobs_evolve_def
proof (intro conjI allI impI, goal_cases)
  case (1 k j)
  then obtain i where "map_of (jobs s) k = Some i" "job_evolves j i" by blast
  with 1 show ?case by (metis job_evolves_trans)
next
  case (2 k j')
  then show ?case by (cases "map_of (jobs s) k") (fastforce simp: job_evolves_def)+
next
  case (3 k j')
  then show ?case by (cases "map_of (jobs s) k") (fastforce simp: job_evolves_def)+
qed

lemma jobs_evolve_appendEvent [simp]:
  "jobs_evolve s (appendEvent now k ty from to n e a re r) = jobs_evolve s r"
  by (simp add: jobs_evolve_def)

lemma jobs_evolve_put:
  "map_of (jobs r) k = Some j \<Longrightarrow> job_evolves j j' \<Longrightarrow> jobs_evolve r (put_job k j' r)"
  by (simp add: jobs_evolve_def)

lemma evolves_requeue: "\<not> terminal j \<Longrightarrow> job_evolves j (requeue j)"
  by (simp add: job_evolves_def requeue_def)

lemma evolves_finish: "\<not> terminal j \<Longrightarrow> job_evolves j (finish st now res j)"
  by (simp add: job_evolves_def finish_def)

lemma evolves_Update_status: "Job_Update_status j params = Inr j1 \<Longrightarrow> job_evolves j j1"
  by (auto simp: Job_Update_status_def job_evolves_def terminal_def
      split: option.splits if_splits JobStatus.splits)

lemma Update_status_terminal:
  "Job_Update_status j params = Inr j1 \<Longrightarrow> terminal j1 \<Longrightarrow>
    j_Status j \<in> {JobRunning, JobSucceeded, JobFailed}"
  by (auto simp: terminal_def Job_Update_status_def
      split: option.splits if_splits JobStatus.splits)

lemma evolves_Update_fields:
  "\<not> terminal j \<or> \<not> sets_execution_fields params \<Longrightarrow> job_evolves j (Job_Update_fields j params)"
  using Update_fields_unset [of params j]
  by (auto simp: job_evolves_def Job_Update_fields_def Let_def split: option.splits)

lemma evolves_Update: "jobs_evolve r (fst (Job_Update nowE k params r))"
proof (cases "map_of (jobs r) k")
  case None
  then show ?thesis by (simp add: Job_Update_def)
next
  case (Some j)
  show ?thesis
  proof (cases "Job_Update_status j params")
    case (Inl e)
    with Some show ?thesis by (simp add: Job_Update_def)
  next
    case (Inr j1)
    note ev = evolves_Update_status [OF Inr]
    have "job_evolves j (Job_Update_fields j1 params)"
      if "\<not> (j_Status j \<in> {JobRunning, JobSucceeded, JobFailed} \<and> sets_execution_fields params)"
    proof (rule job_evolves_trans [OF ev evolves_Update_fields])
      from that Update_status_terminal [OF Inr]
      show "\<not> terminal j1 \<or> \<not> sets_execution_fields params" by blast
    qed
    with Some Inr ev show ?thesis
      by (auto simp: Job_Update_def Let_def intro!: jobs_evolve_put)
  qed
qed

lemma evolves_Claim: "jobs_evolve r (fst (Job_Claim rid now nowE k node r))"
  by (auto simp: Job_Claim_def Let_def job_evolves_def terminal_def
      split: option.splits intro!: jobs_evolve_put)

lemma evolves_Report: "jobs_evolve r (fst (Job_ReportResult now nowE k node exec res r))"
  by (auto simp: Job_ReportResult_def Let_def terminal_def
      split: option.splits intro!: jobs_evolve_put evolves_requeue evolves_finish)

lemma evolves_recover_job:
  "map_of (jobs r) k = Some j \<Longrightarrow> \<not> terminal j \<Longrightarrow>
    jobs_evolve r (recover_job nowC nowE reason node k j r)"
  by (auto simp: recover_job_def intro!: jobs_evolve_put evolves_requeue evolves_finish)

lemma evolves_timeouts_loop: "jobs_evolve r (fst (timeouts_loop now nowE timeout ks r n))"
proof (induction now nowE timeout ks r n rule: timeouts_loop.induct)
  case (1 now nowE timeout r n)
  then show ?case by simp
next
  case (2 now nowE timeout k ks r n)
  then show ?case
    by (auto split: option.splits simp: timed_out_def terminal_def
        intro: jobs_evolve_trans [OF evolves_recover_job])
qed

lemma evolves_node_jobs_loop: "jobs_evolve r (fst (node_jobs_loop nowC nowE node reason ks r n))"
proof (induction nowC nowE node reason ks r n rule: node_jobs_loop.induct)
  case (1 nowC nowE node reason r n)
  then show ?case by simp
next
  case (2 nowC nowE node reason k ks r n)
  then show ?case
    by (auto split: option.splits simp: on_node_def terminal_def
        intro: jobs_evolve_trans [OF evolves_recover_job])
qed

lemma evolves_Create:
  "map_of (jobs r) (''job-'' @ rid) = None \<Longrightarrow>
    jobs_evolve r (fst (Job_Create rid now nowE name cmd retries cpu mem r))"
  by (auto simp: Job_Create_def Let_def jobs_evolve_def)

lemma evolves_step: "job_op_ok op r \<Longrightarrow> jobs_evolve r (job_step op r)"
  by (cases op)
    (auto simp: RecoverExecutionTimeouts_def RecoverNodeJobs_def intro: evolves_Create
      evolves_Update evolves_Claim evolves_Report evolves_timeouts_loop evolves_node_jobs_loop)

interpretation job_progress: monotone_machine job_op_ok job_step job_inv jobs_evolve
  by unfold_locales (auto intro: job_inv_step jobs_evolve_trans evolves_step)

section \<open>Reports\<close>

definition job_report ::
  "time \<times> time \<times> JobResult \<Rightarrow> string \<Rightarrow> string \<Rightarrow> string \<Rightarrow> JobRegistry
    \<Rightarrow> JobRegistry \<times> (JobError + Job)" where
  "job_report a k node exec r =
     Job_ReportResult (fst a) (fst (snd a)) k node exec (snd (snd a)) r"

interpretation job_fence: fenced_store "\<lambda>r. map_of (jobs r)" j_AssignedNodeID j_ExecutionID job_report
  by unfold_locales (auto simp: job_report_def Job_ReportResult_def)

lemma Report_settles:
  assumes "Job_ReportResult now nowE k node exec res r = (r', Inr j')"
  obtains "map_of (jobs r') k = Some j'" "terminal j'" | "map_of (jobs r') k = Some j'" "j_Status j' = JobPending"
  using assms
  by (auto simp: Job_ReportResult_def Let_def terminal_def split: option.splits if_splits)

lemma Report_settled_frame:
  "map_of (jobs r) k = Some j \<Longrightarrow> terminal j \<or> j_Status j = JobPending \<Longrightarrow>
    fst (Job_ReportResult now nowE k node exec res r) = r"
  by (auto simp: Job_ReportResult_def terminal_def)

section \<open>Event history\<close>

text \<open>A list of events that leads from one status to another, each starting where the last ended.\<close>

fun event_path :: "JobStatus \<Rightarrow> JobEvent list \<Rightarrow> JobStatus \<Rightarrow> bool" where
  "event_path s [] t \<longleftrightarrow> s = t"
| "event_path s (e # es) t \<longleftrightarrow> e_From e = s \<and> event_path (e_To e) es t"

definition events_of :: "JobRegistry \<Rightarrow> string \<Rightarrow> JobEvent list" where
  "events_of r k = mget_or [] (job_events r) k"

definition numbered :: "string \<Rightarrow> JobEvent list \<Rightarrow> bool" where
  "numbered k evs \<longleftrightarrow>
     (\<forall>i < length evs. e_JobID (evs ! i) = k \<and> e_ID (evs ! i) = k @ ''-evt-'' @ show_int (int i + 1))"

definition history_inv :: "JobRegistry \<Rightarrow> bool" where
  "history_inv r \<longleftrightarrow>
     job_inv r \<and>
     (\<forall>k. numbered k (events_of r k)) \<and>
     (\<forall>k. map_of (jobs r) k = None \<longrightarrow> events_of r k = []) \<and>
     (\<forall>k j. map_of (jobs r) k = Some j \<longrightarrow>
        events_of r k \<noteq> [] \<and> event_path (JobOther '''') (events_of r k) (j_Status j))"

text \<open>
  The operations of the scheduler and of the agents: the scheduler changes a job by
  \<open>Update\<close> with status \<open>ASSIGNED\<close> and a node, and nothing else patches a job.
\<close>

definition assign_params :: "string \<Rightarrow> UpdateParams" where
  "assign_params node =
     \<lparr>p_Status = Some JobAssigned, p_AssignedNodeID = Some node, p_StartedAt = None,
      p_CompletedAt = None, p_Result = None\<rparr>"

fun protocol_op :: "job_op \<Rightarrow> JobRegistry \<Rightarrow> bool" where
  "protocol_op (OpUpdate nowE k params) r \<longleftrightarrow> (\<exists>node. params = assign_params node)"
| "protocol_op op r \<longleftrightarrow> job_op_ok op r"

lemma protocol_op_ok: "protocol_op op r \<Longrightarrow> job_op_ok op r"
  by (cases op) auto

lemma event_path_snoc: "event_path s (es @ [e]) t \<longleftrightarrow> event_path s es (e_From e) \<and> e_To e = t"
  by (induction es arbitrary: s) auto

lemma events_of_put_job [simp]: "events_of (put_job k j r) k' = events_of r k'"
  by (simp add: events_of_def)

lemma events_of_appendEvent:
  "events_of (appendEvent now k ty from to n e a re r) k' =
    (if k' = k then events_of r k @
       [\<lparr>e_ID = k @ ''-evt-'' @ show_int (int (length (events_of r k)) + 1), e_JobID = k,
         e_Timestamp = now, e_Type = ty, e_From = from, e_To = to, e_NodeID = n,
         e_ExecutionID = e, e_Attempts = a, e_Reason = re\<rparr>]
     else events_of r k')"
  by (simp add: events_of_def appendEvent_def Let_def)

lemma numbered_appendEvent:
  "(\<And>k'. numbered k' (events_of r k')) \<Longrightarrow>
    numbered k' (events_of (appendEvent now k ty from to n e a re r) k')"
  by (auto simp: numbered_def events_of_appendEvent nth_append less_Suc_eq)

lemma history_inv_put_append:
  assumes inv: "history_inv r" and old: "map_of (jobs r) k = Some j"
    and new: "job_ok j'" "j_ID j' = k" and ev: "from = j_Status j" "to = j_Status j'"
    and key: "kid = k"
  shows "history_inv (appendEvent now kid ty from to n e a re (put_job k j' r))"
proof -
  have "job_inv (put_job k j' r)"
    using inv new by (auto simp: history_inv_def intro: job_inv_put)
  moreover have "numbered k' (events_of (appendEvent now k ty from to n e a re (put_job k j' r)) k')" for k'
    using inv by (auto simp: history_inv_def intro!: numbered_appendEvent)
  moreover have "event_path (JobOther '''') (events_of r k) (j_Status j)"
    using inv old by (auto simp: history_inv_def)
  ultimately show ?thesis
    using inv ev old unfolding history_inv_def key
    by (simp add: events_of_appendEvent event_path_snoc)
qed

lemma history_inv_put_same:
  assumes inv: "history_inv r" and old: "map_of (jobs r) k = Some j"
    and new: "job_ok j'" "j_ID j' = k" and st: "j_Status j' = j_Status j"
  shows "history_inv (put_job k j' r)"
proof -
  have "job_inv (put_job k j' r)"
    using inv new by (auto simp: history_inv_def intro: job_inv_put)
  with inv old st show ?thesis by (simp add: history_inv_def)
qed

lemma history_lookup:
  "history_inv r \<Longrightarrow> map_of (jobs r) k = Some j \<Longrightarrow> j_ID j = k \<and> job_ok j"
  by (auto simp: history_inv_def dest: job_inv_lookup)

lemma history_inv_New: "history_inv NewJobRegistry"
proof -
  have "events_of NewJobRegistry k = []" "map_of (jobs NewJobRegistry) k = None" for k
    by (simp_all add: events_of_def NewJobRegistry_def)
  then show ?thesis
    by (simp add: history_inv_def job_inv_New numbered_def)
qed

lemma history_inv_Create:
  assumes inv: "history_inv r" and fresh: "map_of (jobs r) (''job-'' @ rid) = None" and ret: "0 \<le> retries"
  shows "history_inv (fst (Job_Create rid now nowE name cmd retries cpu mem r))"
proof -
  have none: "events_of r (''job-'' @ rid) = []"
    using inv fresh by (simp add: history_inv_def)
  have "job_inv (fst (Job_Create rid now nowE name cmd retries cpu mem r))"
    using inv ret by (auto simp: history_inv_def intro: job_inv_Create)
  moreover have "numbered k (events_of (fst (Job_Create rid now nowE name cmd retries cpu mem r)) k)" for k
    using inv by (auto simp: history_inv_def Job_Create_def Let_def intro!: numbered_appendEvent)
  ultimately show ?thesis
    using inv none unfolding history_inv_def
    by (simp add: Job_Create_def Let_def events_of_appendEvent)
qed

lemma history_inv_Assign:
  assumes inv: "history_inv r"
  shows "history_inv (fst (Job_Update nowE k (assign_params node) r))"
proof (cases "map_of (jobs r) k")
  case None
  with inv show ?thesis by (simp add: Job_Update_def)
next
  case (Some j)
  note lk = history_lookup [OF inv Some]
  show ?thesis
  proof (cases "Job_Update_status j (assign_params node)")
    case (Inl e)
    with inv Some show ?thesis by (simp add: Job_Update_def)
  next
    case (Inr j1)
    then have j1: "j1 = j\<lparr>j_Status := JobAssigned\<rparr>" "j_Status j = JobPending \<or> j_Status j = JobAssigned"
      by (auto simp: Job_Update_status_def assign_params_def split: if_splits JobStatus.splits)
    from Update_status_ok [OF Inr] lk have "job_ok j1" "j_ID j1 = k" by auto
    moreover from this j1(1) have "job_ok (Job_Update_fields j1 (assign_params node))"
      by (intro Update_fields_ok) auto
    ultimately show ?thesis
      using Some Inr inv lk j1
      by (cases "j_Status j = JobPending")
        (auto simp: Job_Update_def Let_def intro!: history_inv_put_append history_inv_put_same)
  qed
qed

lemma history_inv_Claim:
  "history_inv r \<Longrightarrow> history_inv (fst (Job_Claim rid now nowE k node r))"
  by (auto simp: Job_Claim_def Let_def job_ok_def split: option.splits
      dest: history_lookup intro!: history_inv_put_append)

lemma history_inv_Report:
  "history_inv r \<Longrightarrow> history_inv (fst (Job_ReportResult now nowE k node exec res r))"
  by (auto simp: Job_ReportResult_def Let_def split: option.splits
      dest: history_lookup intro!: history_inv_put_append job_ok_requeue job_ok_finish)

lemma history_inv_recover_job:
  "history_inv r \<Longrightarrow> map_of (jobs r) k = Some j \<Longrightarrow>
    history_inv (recover_job nowC nowE reason node k j r)"
  by (auto simp: recover_job_def dest: history_lookup
      intro!: history_inv_put_append job_ok_requeue job_ok_finish)

lemma history_inv_timeouts_loop:
  "history_inv r \<Longrightarrow> history_inv (fst (timeouts_loop now nowE timeout ks r n))"
  by (induction now nowE timeout ks r n rule: timeouts_loop.induct)
    (auto split: option.splits intro: history_inv_recover_job)

lemma history_inv_node_jobs_loop:
  "history_inv r \<Longrightarrow> history_inv (fst (node_jobs_loop nowC nowE node reason ks r n))"
  by (induction nowC nowE node reason ks r n rule: node_jobs_loop.induct)
    (auto split: option.splits intro: history_inv_recover_job)

lemma history_inv_step: "history_inv r \<Longrightarrow> protocol_op op r \<Longrightarrow> history_inv (job_step op r)"
  by (cases op)
    (auto simp: RecoverExecutionTimeouts_def RecoverNodeJobs_def intro: history_inv_Create
      history_inv_Assign history_inv_Claim history_inv_Report history_inv_timeouts_loop
      history_inv_node_jobs_loop)

interpretation job_history: invariant_machine NewJobRegistry protocol_op job_step history_inv
  by unfold_locales (auto intro: history_inv_New history_inv_step)

section \<open>The recovery loops, job by job\<close>

definition recovered :: "time \<Rightarrow> string \<Rightarrow> Job \<Rightarrow> Job" where
  "recovered nowC reason j =
     (if j_Attempts j \<le> j_MaxRetries j then requeue j
      else finish JobFailed nowC (recover_error reason) j)"

lemma jobs_recover_job [simp]:
  "jobs (recover_job nowC nowE reason node k j r) = mput k (recovered nowC reason j) (jobs r)"
  by (simp add: recover_job_def recovered_def)

lemma timeouts_loop_spec:
  "distinct ks \<Longrightarrow>
    map_of (jobs (fst (timeouts_loop now nowE timeout ks r n))) k =
      map_option (\<lambda>j. if k \<in> set ks \<and> timed_out now timeout j
                       then recovered now ''Execution timeout exceeded'' j else j) (map_of (jobs r) k)
    \<and> snd (timeouts_loop now nowE timeout ks r n) =
      n + length (filter (\<lambda>k. case map_of (jobs r) k of None \<Rightarrow> False | Some j \<Rightarrow> timed_out now timeout j) ks)"
proof (induction ks arbitrary: r n)
  case Nil
  then show ?case by (simp add: option.map_ident)
next
  case (Cons x ks)
  have frame: "filter (\<lambda>k. case map_of (jobs (recover_job now (nowE x) re nd x j r)) k of None \<Rightarrow> False | Some j \<Rightarrow> timed_out now timeout j) ks
     = filter (\<lambda>k. case map_of (jobs r) k of None \<Rightarrow> False | Some j \<Rightarrow> timed_out now timeout j) ks" for re nd j
    using Cons.prems by (auto intro: filter_cong)
  show ?case
  proof (cases "map_of (jobs r) x")
    case None
    with Cons show ?thesis by (cases "map_of (jobs r) k") auto
  next
    case (Some j)
    with Cons frame show ?thesis by (cases "map_of (jobs r) k") auto
  qed
qed

lemma node_jobs_loop_spec:
  "distinct ks \<Longrightarrow>
    map_of (jobs (fst (node_jobs_loop nowC nowE node reason ks r n))) k =
      map_option (\<lambda>j. if k \<in> set ks \<and> on_node node j then recovered (nowC k) reason j else j)
        (map_of (jobs r) k)
    \<and> snd (node_jobs_loop nowC nowE node reason ks r n) =
      n + length (filter (\<lambda>k. case map_of (jobs r) k of None \<Rightarrow> False | Some j \<Rightarrow> on_node node j) ks)"
proof (induction ks arbitrary: r n)
  case Nil
  then show ?case by (simp add: option.map_ident)
next
  case (Cons x ks)
  have frame: "filter (\<lambda>k. case map_of (jobs (recover_job nc (nowE x) re nd x j r)) k of None \<Rightarrow> False | Some j \<Rightarrow> on_node node j) ks
     = filter (\<lambda>k. case map_of (jobs r) k of None \<Rightarrow> False | Some j \<Rightarrow> on_node node j) ks" for nc re nd j
    using Cons.prems by (auto intro: filter_cong)
  show ?case
  proof (cases "map_of (jobs r) x")
    case None
    with Cons show ?thesis by (cases "map_of (jobs r) k") auto
  next
    case (Some j)
    with Cons frame show ?thesis by (cases "map_of (jobs r) k") auto
  qed
qed

lemma filter_keys_vals:
  "distinct (map fst m) \<Longrightarrow>
    length (filter (\<lambda>k. case map_of m k of None \<Rightarrow> False | Some v \<Rightarrow> P v) (map fst m)) =
      length (filter P (mvals m))"
proof (induction m)
  case Nil
  then show ?case by simp
next
  case (Cons p m)
  have "filter (\<lambda>k. case map_of (p # m) k of None \<Rightarrow> False | Some v \<Rightarrow> P v) (map fst m)
      = filter (\<lambda>k. case map_of m k of None \<Rightarrow> False | Some v \<Rightarrow> P v) (map fst m)"
    using Cons.prems by (intro filter_cong) (auto simp: image_iff split: option.splits)
  with Cons show ?case by (cases p) simp
qed

lemma reach_no_requests:
  assumes "reach NewJobRegistry job_op_ok job_step r" and "j \<in> set (Job_List r)"
  shows "j_CPU j = 0 \<and> j_MemoryMB j = 0"
proof -
  have inv: "job_inv r" using assms(1) by (rule job_machine.reach_inv)
  have "jobs_evolve NewJobRegistry r"
    by (rule job_progress.reach_rel [OF job_inv_New assms(1)])
  moreover have "map_of (jobs r) (j_ID j) = Some j"
    using inv assms(2) keyed_mem [of j_ID "jobs r" j] by (simp add: job_inv_def Job_List_def)
  ultimately show ?thesis
    unfolding jobs_evolve_def by (auto simp: NewJobRegistry_def)
qed

section \<open>Properties\<close>

text \<open>
  C18: in every state the registry can reach, by any sequence of creations, patches, claims,
  reports and recoveries, a job is stored under its own identifier, has been claimed at most
  \<open>MaxRetries + 1\<close> times, still has budget while it waits or is assigned, carries no node,
  start time or execution identity while \<open>PENDING\<close> and no execution identity while
  \<open>ASSIGNED\<close>.
\<close>

theorem job_retry_budget:
  assumes "reach NewJobRegistry job_op_ok job_step r" and "Job_Get r k = Inr j"
  shows "j_ID j = k \<and> 0 \<le> j_Attempts j \<and> j_Attempts j \<le> j_MaxRetries j + 1 \<and>
    (j_Status j \<in> {JobPending, JobAssigned} \<longrightarrow>
       j_Attempts j \<le> j_MaxRetries j \<and> j_ExecutionID j = '''') \<and>
    (j_Status j = JobPending \<longrightarrow> j_AssignedNodeID j = '''' \<and> j_StartedAt j = None)"
proof -
  from assms(1) have "job_inv r" by (rule job_machine.reach_inv)
  with assms(2) have "j_ID j = k \<and> job_ok j"
    by (auto simp: Job_Get_def split: option.splits dest: job_inv_lookup)
  then show ?thesis by (auto simp: job_ok_def)
qed

definition example_create :: job_op where
  "example_create = OpCreate ''a'' 1 2 ''n'' ''ls'' 0 1 64"

definition example_registry :: JobRegistry where
  "example_registry = job_step example_create NewJobRegistry"

lemma example_reach: "reach NewJobRegistry job_op_ok job_step example_registry"
  unfolding example_registry_def
  by (rule reach_step [OF reach_init]) (simp add: example_create_def NewJobRegistry_def)

lemma example_jobs:
  "map_of (jobs example_registry) ''job-a'' =
    Some \<lparr>j_ID = ''job-a'', j_Name = ''n'', j_Command = ''ls'', j_Status = JobPending,
      j_CreatedAt = 1, j_StartedAt = None, j_CompletedAt = None, j_AssignedNodeID = '''',
      j_ExecutionID = '''', j_CPU = 0, j_MemoryMB = 0, j_MaxRetries = 0, j_Attempts = 0,
      j_Result = None\<rparr>"
  by (simp add: example_registry_def example_create_def Job_Create_def NewJobRegistry_def Let_def)

theorem job_retry_budget_witness:
  "\<exists>j. Job_Get example_registry ''job-a'' = Inr j \<and> j_Attempts j \<le> j_MaxRetries j + 1"
  using job_retry_budget [OF example_reach, of "''job-a''"] example_jobs
  by (auto simp: Job_Get_def)



text \<open>
  Execution fencing. When a result is accepted, the job names the reporting node and
  execution; a report from any other node or execution is refused and changes nothing.
\<close>

lemma job_report_single_writer:
  assumes "snd (Job_ReportResult now nowE k node exec res r) = Inr w"
    and "(node', exec') \<noteq> (node, exec)"
  shows "\<exists>e. Job_ReportResult now' nowE' k node' exec' res' r = (r, Inl e)"
proof -
  let ?rep = "\<lambda>n x t s v. job_report (t, s, v) k n x r"
  have acc: "snd (?rep node exec now nowE res) = Inr w"
    using assms(1) by (simp add: job_report_def)
  obtain v where v: "map_of (jobs r) k = Some v" "j_AssignedNodeID v = node" "j_ExecutionID v = exec"
    by (rule job_fence.accepted_identity [OF acc])
  with assms(2) have "j_AssignedNodeID v \<noteq> node' \<or> j_ExecutionID v \<noteq> exec'" by auto
  from job_fence.fenced [OF v(1) this, of "(now', nowE', res')"] show ?thesis
    by (simp add: job_report_def)
qed

definition example_running :: JobRegistry where
  "example_running =
     job_step (OpClaim ''x'' 5 6 ''job-a'' ''node1'')
       (job_step (OpUpdate 4 ''job-a'' (assign_params ''node1'')) example_registry)"

lemma example_running_job:
  "map_of (jobs example_running) ''job-a'' =
    Some \<lparr>j_ID = ''job-a'', j_Name = ''n'', j_Command = ''ls'', j_Status = JobRunning,
      j_CreatedAt = 1, j_StartedAt = Some 5, j_CompletedAt = None, j_AssignedNodeID = ''node1'',
      j_ExecutionID = ''exec-x'', j_CPU = 0, j_MemoryMB = 0, j_MaxRetries = 0, j_Attempts = 1,
      j_Result = None\<rparr>"
  by (simp add: example_running_def example_jobs Job_Update_def Job_Update_status_def
      Job_Update_fields_def assign_params_def sets_execution_fields_def Job_Claim_def Let_def)

definition example_result :: JobResult where
  "example_result = \<lparr>r_ExitCode = 0, r_Stdout = ''ok'', r_Stderr = '''', r_Error = ''''\<rparr>"

lemma example_report:
  "snd (Job_ReportResult 7 8 ''job-a'' ''node1'' ''exec-x'' example_result example_running) =
    Inr (finish JobSucceeded 7 example_result (the (map_of (jobs example_running) ''job-a'')))"
  by (simp add: Job_ReportResult_def example_running_job example_result_def Let_def)

lemma job_report_single_writer_example:
  "\<exists>e. Job_ReportResult 9 9 ''job-a'' ''node1'' ''exec-old'' example_result example_running =
    (example_running, Inl e)"
  using job_report_single_writer [OF example_report, of "''node1''" "''exec-old''"] by simp

text \<open>
  A result takes effect at most once. After an accepted report, any further report for the
  job by the same execution, with whatever result, leaves the registry as it is.
\<close>

lemma job_report_at_most_once:
  assumes "Job_ReportResult now nowE k node exec res r = (r', Inr j)"
  shows "fst (Job_ReportResult now' nowE' k node' exec' res' r') = r'"
  using assms by (rule Report_settles) (auto intro: Report_settled_frame)

lemma job_report_at_most_once_example:
  "let r' = fst (Job_ReportResult 7 8 ''job-a'' ''node1'' ''exec-x'' example_result example_running)
   in fst (Job_ReportResult 9 9 ''job-a'' ''node1'' ''exec-x'' example_result r') = r'"
  unfolding Let_def
  by (rule job_report_at_most_once) (rule prod_eqI, simp, simp add: example_report)


lemma example_protocol_reach: "reach NewJobRegistry protocol_op job_step example_running"
  unfolding example_running_def example_registry_def
  by (intro reach_step reach_init) (auto simp: example_create_def NewJobRegistry_def)


text \<open>
  The recovery loops treat every job on its own, so their outcome does not depend on the
  order in which the job map is visited: exactly the \<open>RUNNING\<close> jobs past the timeout,
  respectively the jobs assigned to or running on the lost node, are re-queued when their
  budget allows it and failed with exit code -1 when it does not, all others are untouched,
  and the number returned is the number of jobs recovered.
\<close>

lemma job_recovery_pointwise:
  assumes "job_inv r"
  shows "map_of (jobs (fst (RecoverExecutionTimeouts now nowE timeout r))) k =
      map_option (\<lambda>j. if timed_out now timeout j
        then recovered now ''Execution timeout exceeded'' j else j) (map_of (jobs r) k) \<and>
    snd (RecoverExecutionTimeouts now nowE timeout r) =
      length (filter (timed_out now timeout) (Job_List r)) \<and>
    map_of (jobs (fst (RecoverNodeJobs nowC nowE node reason r))) k =
      map_option (\<lambda>j. if on_node node j then recovered (nowC k) reason j else j)
        (map_of (jobs r) k) \<and>
    snd (RecoverNodeJobs nowC nowE node reason r) = length (filter (on_node node) (Job_List r))"
proof -
  from assms have d: "distinct (map fst (jobs r))"
    by (auto simp: job_inv_def dest: keyed_distinct)
  have mem: "k \<in> fst ` set (jobs r)" if "map_of (jobs r) k = Some j" for j
    using that by (force dest: map_of_SomeD)
  show ?thesis
    using timeouts_loop_spec [OF d, of now nowE timeout r 0 k]
      node_jobs_loop_spec [OF d, of nowC nowE node reason r 0 k] filter_keys_vals [OF d] mem
    by (cases "map_of (jobs r) k")
      (auto simp: RecoverExecutionTimeouts_def RecoverNodeJobs_def Job_List_def)
qed

lemma job_recovery_pointwise_example:
  "snd (RecoverNodeJobs (\<lambda>_. 9) (\<lambda>_. 9) ''node1'' ''gone'' example_running) =
    length (filter (on_node ''node1'') (Job_List example_running))"
proof -
  have "job_inv example_running"
    using job_history.reach_inv [OF example_protocol_reach] by (simp add: history_inv_def)
  from job_recovery_pointwise [OF this] show ?thesis by blast
qed

text \<open>
  \<open>Update\<close> can refuse a patch and still have changed the job. A patch that moves a
  \<open>RUNNING\<close> job to \<open>SUCCEEDED\<close> or \<open>FAILED\<close> and also sets a result (or node, or start time)
  is answered with an error, but the terminal status is already stored, without result,
  completion time or event.
\<close>

lemma job_update_error_commits:
  assumes "map_of (jobs r) k = Some j" and "j_Status j = JobRunning"
    and "p_Status params = Some st" and "st = JobSucceeded \<or> st = JobFailed"
    and "sets_execution_fields params"
  shows "Job_Update nowE k params r = (put_job k (j\<lparr>j_Status := st\<rparr>) r, Inl ErrExecutionFields)"
  using assms by (auto simp: Job_Update_def Job_Update_status_def)

definition example_patch :: UpdateParams where
  "example_patch = \<lparr>p_Status = Some JobSucceeded, p_AssignedNodeID = None, p_StartedAt = None,
     p_CompletedAt = None, p_Result = Some example_result\<rparr>"

lemma job_update_error_commits_example:
  "snd (Job_Update 9 ''job-a'' example_patch example_running) = Inl ErrExecutionFields \<and>
   map_option j_Status (map_of (jobs (fst (Job_Update 9 ''job-a'' example_patch example_running))) ''job-a'')
     = Some JobSucceeded"
  using job_update_error_commits [OF example_running_job, of example_patch JobSucceeded 9]
  by (simp add: example_patch_def sets_execution_fields_def)

text \<open>
  No job ever carries a resource request. \<open>Create\<close> takes the requested CPU and memory and
  does not store them, and no other operation writes them, so in every reachable state every
  job asks for nothing.
\<close>

lemma job_requests_are_dropped:
  assumes "reach NewJobRegistry job_op_ok job_step r" and "j \<in> set (Job_List r)"
  shows "j_CPU j = 0 \<and> j_MemoryMB j = 0"
  using assms by (rule reach_no_requests)

lemma job_requests_are_dropped_example:
  "\<exists>j \<in> set (Job_List example_registry). j_CPU j = 0 \<and> j_MemoryMB j = 0"
  using job_requests_are_dropped [OF example_reach] example_jobs
  by (auto simp: Job_List_def intro: bexI dest: mvals_lookup)

end
