(* ===== verification/Scheduling.thy ===== *)
theory Scheduling
  imports Job Instance Deployment Node
begin

text \<open>
  Capacity and scheduling: \<open>internal/scheduler/node_capacity.go\<close>, \<open>scheduler.go\<close> (jobs) and
  \<open>instance_scheduler.go\<close> (instances).

  Available CPU is a \<open>float64\<close>; every result of float arithmetic goes through the rounding
  \<open>rnd\<close>, a parameter. Available memory is a 64-bit \<open>int\<close>; since requests come from clients,
  subtraction wraps around as in Go. The last assigned node of a scheduler is part of its
  state. Both schedulers share the choice of a node, as the code repeats it.
\<close>

section \<open>Capacity\<close>

record NodeCapacity =
  AvailableCPU :: float64
  AvailableMemoryMB :: int

type_synonym caps = "(string, NodeCapacity) gomap"

definition zero_capacity :: NodeCapacity where
  "zero_capacity = \<lparr>AvailableCPU = 0, AvailableMemoryMB = 0\<rparr>"

definition deduct :: "(rat \<Rightarrow> rat) \<Rightarrow> string \<Rightarrow> float64 \<Rightarrow> int \<Rightarrow> caps \<Rightarrow> caps" where
  "deduct rnd k cpu mem caps =
     (let c = mget_or zero_capacity caps k
      in mput k \<lparr>AvailableCPU = rnd (AvailableCPU c - cpu),
                 AvailableMemoryMB = wrap64 (AvailableMemoryMB c - mem)\<rparr> caps)"

definition isInstanceConsumingCapacity :: "InstanceStatus \<Rightarrow> bool" where
  "isInstanceConsumingCapacity st \<longleftrightarrow>
     st \<in> {StatusAssigned, StatusStarting, StatusRunning, StatusUnknown, StatusStopping}"

definition isJobConsumingCapacity :: "JobStatus \<Rightarrow> bool" where
  "isJobConsumingCapacity st \<longleftrightarrow> st \<in> {JobAssigned, JobRunning}"

definition total_memory :: "Node \<Rightarrow> int" where
  "total_memory n = int (unat (TotalMemoryBytes (n_Capabilities n)) div 1024 div 1024)"

definition node_capacities :: "(rat \<Rightarrow> rat) \<Rightarrow> Node list \<Rightarrow> caps" where
  "node_capacities rnd nodes =
     foldl (\<lambda>m n. mput (n_ID n) \<lparr>AvailableCPU = rnd (of_int (n_CPUCores n)),
                                  AvailableMemoryMB = total_memory n\<rparr> m) [] nodes"

definition deduct_instance :: "(rat \<Rightarrow> rat) \<Rightarrow> (string, Deployment) gomap \<Rightarrow> caps \<Rightarrow> Instance \<Rightarrow> caps" where
  "deduct_instance rnd depMap caps inst =
     (if \<not> isInstanceConsumingCapacity (i_Status inst) then caps
      else
        (case map_of depMap (i_DeploymentID inst) of
           None \<Rightarrow> caps
         | Some dep \<Rightarrow>
             (case s_Resources (d_SpecSnapshot dep) of
                None \<Rightarrow> caps
              | Some rr \<Rightarrow> deduct rnd (i_NodeID inst) (rr_CPU rr) (rr_MemoryMB rr) caps)))"

definition deduct_job :: "(rat \<Rightarrow> rat) \<Rightarrow> caps \<Rightarrow> Job \<Rightarrow> caps" where
  "deduct_job rnd caps j =
     (if \<not> isJobConsumingCapacity (j_Status j) then caps
      else if j_CPU j > 0 \<or> j_MemoryMB j > 0 then deduct rnd (j_AssignedNodeID j) (j_CPU j) (j_MemoryMB j) caps
      else caps)"

definition CalculateAll ::
  "(rat \<Rightarrow> rat) \<Rightarrow> Node list \<Rightarrow> InstRegistry \<Rightarrow> DepRegistry \<Rightarrow> JobRegistry \<Rightarrow> caps" where
  "CalculateAll rnd nodes instReg depReg jobReg =
     foldl (deduct_job rnd)
       (foldl (deduct_instance rnd (by_id d_ID (Dep_List depReg))) (node_capacities rnd nodes)
          (Inst_List instReg))
       (Job_List jobReg)"

section \<open>Choosing a node\<close>

definition online :: "Node \<Rightarrow> bool" where
  "online n \<longleftrightarrow> n_Status n = NodeOnline"

definition eligible :: "caps \<Rightarrow> float64 \<Rightarrow> int \<Rightarrow> Node list \<Rightarrow> Node list" where
  "eligible caps cpu mem nodes =
     filter (\<lambda>n. let c = mget_or zero_capacity caps (n_ID n)
                in AvailableCPU c \<ge> cpu \<and> AvailableMemoryMB c \<ge> mem) nodes"

definition by_node_id :: "Node list \<Rightarrow> Node list" where
  "by_node_id ns = go_sort (\<lambda>a b. n_ID a < n_ID b) ns"

text \<open>The first node after the last assigned one, or the first of all.\<close>

definition select_node :: "string \<Rightarrow> Node list \<Rightarrow> Node" where
  "select_node lastID ns =
     (if lastID = '''' then hd ns
      else case find (\<lambda>n. lastID < n_ID n) ns of Some n \<Rightarrow> n | None \<Rightarrow> hd ns)"

section \<open>The instance scheduler\<close>

record InstSched =
  is_insts :: InstRegistry
  is_deps :: DepRegistry
  is_last :: string
  is_caps :: caps

definition request_of :: "Deployment \<Rightarrow> float64 \<times> int" where
  "request_of dep =
     (case s_Resources (d_SpecSnapshot dep) of None \<Rightarrow> (0, 0) | Some rr \<Rightarrow> (rr_CPU rr, rr_MemoryMB rr))"

definition schedule_instance ::
  "(rat \<Rightarrow> rat) \<Rightarrow> (string \<Rightarrow> time) \<Rightarrow> Node list \<Rightarrow> Instance \<Rightarrow> InstSched \<Rightarrow> InstSched" where
  "schedule_instance rnd now onlineNodes inst s =
     (case Dep_Get (is_deps s) (i_DeploymentID inst) of
        Inl _ \<Rightarrow> s
      | Inr dep \<Rightarrow>
          (let (reqCPU, reqMem) = request_of dep;
               eligibleNodes = eligible (is_caps s) reqCPU reqMem onlineNodes
           in if eligibleNodes = [] then
                s\<lparr>is_deps := fst (Dep_UpdateRolloutStatusOnly (i_DeploymentID inst) (d_RolloutStatus dep)
                                   ''insufficient_capacity'' (is_deps s))\<rparr>
              else
                (let n = select_node (is_last s) (by_node_id eligibleNodes) in
                 case Inst_UpdateState (now (i_ID inst)) (i_ID inst) StatusAssigned (n_ID n) '''' (is_insts s) of
                   (insts, Inl _) \<Rightarrow> s\<lparr>is_insts := insts\<rparr>
                 | (insts, Inr _) \<Rightarrow>
                     s\<lparr>is_insts := insts,
                       is_deps := fst (Dep_UpdateRolloutStatusOnly (i_DeploymentID inst) (d_RolloutStatus dep)
                                        '''' (is_deps s)),
                       is_last := n_ID n,
                       is_caps := deduct rnd (n_ID n) reqCPU reqMem (is_caps s)\<rparr>)))"

definition pending_instances :: "InstRegistry \<Rightarrow> Instance list" where
  "pending_instances r =
     go_sort (\<lambda>a b. i_ID a < i_ID b) (filter (\<lambda>i. i_Status i = StatusPending) (Inst_List r))"

definition SchedulePendingInstances ::
  "(rat \<Rightarrow> rat) \<Rightarrow> (string \<Rightarrow> time) \<Rightarrow> NodeRegistry \<Rightarrow> JobRegistry \<Rightarrow> InstRegistry \<Rightarrow> DepRegistry \<Rightarrow> string
    \<Rightarrow> InstRegistry \<times> DepRegistry \<times> string" where
  "SchedulePendingInstances rnd now nodeReg jobReg instReg depReg lastID =
     (let onlineNodes = filter online (Node_List nodeReg) in
      if onlineNodes = [] then (instReg, depReg, lastID)
      else
        (let s0 = \<lparr>is_insts = instReg, is_deps = depReg, is_last = lastID,
                   is_caps = CalculateAll rnd onlineNodes instReg depReg jobReg\<rparr>;
             s = foldl (\<lambda>s inst. schedule_instance rnd now onlineNodes inst s) s0
                   (pending_instances instReg)
         in (is_insts s, is_deps s, is_last s)))"

section \<open>The job scheduler\<close>

record JobSched =
  js_jobs :: JobRegistry
  js_last :: string
  js_caps :: caps

definition schedule_job :: "(rat \<Rightarrow> rat) \<Rightarrow> (string \<Rightarrow> time) \<Rightarrow> Node list \<Rightarrow> Job \<Rightarrow> JobSched \<Rightarrow> JobSched" where
  "schedule_job rnd now onlineNodes j s =
     (let eligibleNodes = eligible (js_caps s) (j_CPU j) (j_MemoryMB j) onlineNodes in
      if eligibleNodes = [] then s
      else
        (let n = select_node (js_last s) (by_node_id eligibleNodes) in
         case Job_Update (now (j_ID j)) (j_ID j) (assign_params (n_ID n)) (js_jobs s) of
           (jobs', Inl _) \<Rightarrow> s\<lparr>js_jobs := jobs'\<rparr>
         | (jobs', Inr _) \<Rightarrow>
             s\<lparr>js_jobs := jobs', js_last := n_ID n,
               js_caps := deduct rnd (n_ID n) (j_CPU j) (j_MemoryMB j) (js_caps s)\<rparr>))"

definition offline_too_long :: "(string \<Rightarrow> time) \<Rightarrow> duration \<Rightarrow> Node \<Rightarrow> bool" where
  "offline_too_long nowN grace n \<longleftrightarrow>
     n_Status n = NodeOffline \<and>
     (case n_OfflineSince n of None \<Rightarrow> False | Some t \<Rightarrow> grace \<le> time_sub (nowN (n_ID n)) t)"

definition recover_offline ::
  "(string \<Rightarrow> time) \<Rightarrow> (string \<Rightarrow> string \<Rightarrow> time) \<Rightarrow> (string \<Rightarrow> string \<Rightarrow> time) \<Rightarrow> duration \<Rightarrow> Node list \<Rightarrow> JobRegistry
    \<Rightarrow> JobRegistry" where
  "recover_offline nowN nowC nowE grace nodes r =
     foldl (\<lambda>r n. if offline_too_long nowN grace n
                  then fst (RecoverNodeJobs (nowC (n_ID n)) (nowE (n_ID n)) (n_ID n)
                              ''Node offline grace period exceeded'' r)
                  else r) r nodes"

definition pending_jobs :: "JobRegistry \<Rightarrow> Job list" where
  "pending_jobs r =
     go_sort (\<lambda>a b. j_CreatedAt a < j_CreatedAt b) (filter (\<lambda>j. j_Status j = JobPending) (Job_List r))"

definition ExecutionTimeout :: duration where
  "ExecutionTimeout = 120 * minute"

definition NodeGracePeriod :: duration where
  "NodeGracePeriod = 30 * second"

text \<open>Steps 1 and 2 of a round: jobs over the timeout, then jobs of nodes offline too long.\<close>

definition recover_jobs ::
  "time \<Rightarrow> (string \<Rightarrow> time) \<Rightarrow> (string \<Rightarrow> time) \<Rightarrow> (string \<Rightarrow> string \<Rightarrow> time) \<Rightarrow> (string \<Rightarrow> string \<Rightarrow> time)
    \<Rightarrow> duration \<Rightarrow> duration \<Rightarrow> Node list \<Rightarrow> JobRegistry \<Rightarrow> JobRegistry" where
  "recover_jobs nowT nowTE nowN nowC nowE timeout grace nodes r =
     recover_offline nowN nowC nowE grace nodes
       (if timeout > 0 then fst (RecoverExecutionTimeouts nowT nowTE timeout r) else r)"

definition SchedulePendingJobs ::
  "(rat \<Rightarrow> rat) \<Rightarrow> time \<Rightarrow> (string \<Rightarrow> time) \<Rightarrow> (string \<Rightarrow> time) \<Rightarrow> (string \<Rightarrow> string \<Rightarrow> time)
    \<Rightarrow> (string \<Rightarrow> string \<Rightarrow> time) \<Rightarrow> (string \<Rightarrow> time) \<Rightarrow> duration \<Rightarrow> duration
    \<Rightarrow> NodeRegistry \<Rightarrow> InstRegistry \<Rightarrow> DepRegistry \<Rightarrow> JobRegistry \<Rightarrow> string \<Rightarrow> JobRegistry \<times> string" where
  "SchedulePendingJobs rnd nowT nowTE nowN nowC nowE nowA timeout grace nodeReg instReg depReg jobReg lastID =
     (let nodes = Node_List nodeReg;
          r2 = recover_jobs nowT nowTE nowN nowC nowE timeout grace nodes jobReg;
          onlineNodes = filter online nodes
      in if onlineNodes = [] then (r2, lastID)
         else
           (let s0 = \<lparr>js_jobs = r2, js_last = lastID,
                      js_caps = CalculateAll rnd onlineNodes instReg depReg r2\<rparr>;
                s = foldl (\<lambda>s j. schedule_job rnd nowA onlineNodes j s) s0 (pending_jobs r2)
            in (js_jobs s, js_last s)))"

section \<open>The choice of a node\<close>

interpretation node_order: slice_order "\<lambda>a b. n_ID a < n_ID b"
  by unfold_locales auto

interpretation inst_order: slice_order "\<lambda>a b. i_ID a < i_ID b"
  by unfold_locales auto

interpretation job_order: slice_order "\<lambda>a b. j_CreatedAt a < j_CreatedAt b"
  by unfold_locales auto

lemma select_node_mem: "ns \<noteq> [] \<Longrightarrow> select_node lastID ns \<in> set ns"
  by (auto simp: select_node_def split: option.splits dest: find_SomeD)

lemma selected_eligible:
  assumes "eligible caps cpu mem nodes \<noteq> []"
  shows "select_node lastID (by_node_id (eligible caps cpu mem nodes)) \<in> set (eligible caps cpu mem nodes)"
proof -
  have "by_node_id (eligible caps cpu mem nodes) \<noteq> []"
    using assms by (simp add: by_node_id_def node_order.go_sort_Nil_iff)
  from select_node_mem [OF this] show ?thesis by (simp add: by_node_id_def node_order.set_go_sort)
qed

section \<open>Memory accounting\<close>

abbreviation avail_mem :: "caps \<Rightarrow> string \<Rightarrow> int" where
  "avail_mem caps k \<equiv> AvailableMemoryMB (mget_or zero_capacity caps k)"

text \<open>The memory an instance holds on a node, and the memory held by all of them.\<close>

definition inst_memory :: "DepRegistry \<Rightarrow> string \<Rightarrow> Instance \<Rightarrow> int" where
  "inst_memory deps k i =
     (if isInstanceConsumingCapacity (i_Status i) \<and> i_NodeID i = k
      then (case Dep_Get deps (i_DeploymentID i) of Inl _ \<Rightarrow> 0 | Inr d \<Rightarrow> snd (request_of d)) else 0)"

definition used_memory :: "DepRegistry \<Rightarrow> InstRegistry \<Rightarrow> string \<Rightarrow> int" where
  "used_memory deps insts k = sum_list (map (inst_memory deps k) (Inst_List insts))"

definition job_memory :: "string \<Rightarrow> Job \<Rightarrow> int" where
  "job_memory k j =
     (if isJobConsumingCapacity (j_Status j) \<and> j_AssignedNodeID j = k \<and> (j_CPU j > 0 \<or> j_MemoryMB j > 0)
      then j_MemoryMB j else 0)"

definition used_job_memory :: "JobRegistry \<Rightarrow> string \<Rightarrow> int" where
  "used_job_memory jreg k = sum_list (map (job_memory k) (Job_List jreg))"

lemma avail_deduct:
  "avail_mem (deduct rnd k cpu mem caps) k' = (if k' = k then wrap64 (avail_mem caps k - mem) else avail_mem caps k')"
  by (simp add: deduct_def Let_def)

lemma avail_in_range: "0 \<le> x \<Longrightarrow> x \<le> max_int64 \<Longrightarrow> wrap64 x = x"
  by (simp add: wrap64_small min_int64_def)

lemma Dep_by_id:
  assumes "keyed d_ID (deployments deps)"
  shows "map_of (by_id d_ID (Dep_List deps)) k = Some d \<longleftrightarrow> Dep_Get deps k = Inr d"
  using dep_table.Get_iff_Lst [OF assms] map_of_by_id [OF dep_table.Lst_distinct [OF assms]] by metis

lemma avail_deduct_instance:
  assumes "keyed d_ID (deployments deps)" and "avail_mem caps k \<le> max_int64"
    and "0 \<le> inst_memory deps k i" and "inst_memory deps k i \<le> avail_mem caps k"
  shows "avail_mem (deduct_instance rnd (by_id d_ID (Dep_List deps)) caps i) k =
    avail_mem caps k - inst_memory deps k i"
proof (cases "map_of (by_id d_ID (Dep_List deps)) (i_DeploymentID i)")
  case None
  then have "\<exists>e. Dep_Get deps (i_DeploymentID i) = Inl e"
    using Dep_by_id [OF assms(1)] by (metis option.distinct(1) sum.exhaust)
  with None show ?thesis by (auto simp: deduct_instance_def inst_memory_def)
next
  case (Some d)
  then have "Dep_Get deps (i_DeploymentID i) = Inr d" using Dep_by_id [OF assms(1)] by blast
  with Some assms show ?thesis
    by (auto simp: deduct_instance_def inst_memory_def request_of_def avail_deduct avail_in_range
        split: option.splits if_splits)
qed

text \<open>A loop of deductions that never goes below zero computes the difference.\<close>

lemma avail_fold:
  assumes "\<And>caps x. x \<in> set xs \<Longrightarrow> avail_mem caps k \<le> max_int64 \<Longrightarrow> w x \<le> avail_mem caps k \<Longrightarrow>
      avail_mem (f caps x) k = avail_mem caps k - w x"
    and "\<And>x. x \<in> set xs \<Longrightarrow> (0 :: int) \<le> w x"
    and "avail_mem caps k \<le> max_int64" and "sum_list (map w xs) \<le> avail_mem caps k"
  shows "avail_mem (foldl f caps xs) k = avail_mem caps k - sum_list (map w xs)"
  using assms
proof (induction xs arbitrary: caps)
  case (Cons x xs)
  have pos: "0 \<le> sum_list (map w xs)" using Cons.prems(2) by (intro sum_list_nonneg) auto
  then have "w x \<le> avail_mem caps k" using Cons.prems(4) by simp
  then have step: "avail_mem (f caps x) k = avail_mem caps k - w x"
    using Cons.prems(1,3) by simp
  have "0 \<le> w x" using Cons.prems(2) by simp
  then have "avail_mem (f caps x) k \<le> max_int64" "sum_list (map w xs) \<le> avail_mem (f caps x) k"
    using Cons.prems(3,4) step by auto
  then have "avail_mem (foldl f (f caps x) xs) k = avail_mem (f caps x) k - sum_list (map w xs)"
    using Cons.prems(1,2) by (intro Cons.IH) auto
  with step show ?case by simp
qed simp

lemma avail_node_capacities:
  assumes "n \<in> set nodes" and "distinct (map n_ID nodes)"
  shows "avail_mem (node_capacities rnd nodes) (n_ID n) = total_memory n"
proof -
  have "map_of (foldl (\<lambda>m n. mput (n_ID n) (c n) m) m ns) k =
      (case find (\<lambda>n. n_ID n = k) ns of Some n \<Rightarrow> Some (c n) | None \<Rightarrow> map_of m k)"
    if "distinct (map n_ID ns)" for c :: "Node \<Rightarrow> NodeCapacity" and m ns k
    using that
  proof (induction ns arbitrary: m)
    case (Cons a ns)
    have "find (\<lambda>n. n_ID n = n_ID a) ns = None" using Cons.prems by (force simp: find_None_iff image_iff)
    with Cons show ?case by (cases "n_ID a = k") (auto split: option.splits)
  qed simp
  moreover have "find (\<lambda>x. n_ID x = n_ID n) nodes = Some n"
    using assms by (induction nodes) (auto simp: image_iff)
  ultimately show ?thesis using assms(2) by (simp add: node_capacities_def mget_or_def)
qed

lemma total_memory_range: "0 \<le> total_memory n \<and> total_memory n \<le> max_int64"
proof -
  have "unat (TotalMemoryBytes (n_Capabilities n)) < 2 ^ 64"
    using unsigned_less [of "TotalMemoryBytes (n_Capabilities n)", where 'a = nat] by simp
  then have "unat (TotalMemoryBytes (n_Capabilities n)) div 1024 div 1024 < 2 ^ 63"
    by (simp add: div_mult2_eq [symmetric] less_mult_imp_div_less)
  then show ?thesis by (simp add: total_memory_def max_int64_def)
qed

lemma CalculateAll_memory:
  assumes "n \<in> set nodes" and "distinct (map n_ID nodes)" and "keyed d_ID (deployments deps)"
    and "\<forall>i \<in> set (Inst_List insts). 0 \<le> inst_memory deps (n_ID n) i"
    and "\<forall>j \<in> set (Job_List jreg). 0 \<le> job_memory (n_ID n) j"
    and "used_memory deps insts (n_ID n) + used_job_memory jreg (n_ID n) \<le> total_memory n"
  shows "avail_mem (CalculateAll rnd nodes insts deps jreg) (n_ID n) =
    total_memory n - used_memory deps insts (n_ID n) - used_job_memory jreg (n_ID n)"
proof -
  let ?k = "n_ID n"
  let ?c = "foldl (deduct_instance rnd (by_id d_ID (Dep_List deps))) (node_capacities rnd nodes) (Inst_List insts)"
  have nn: "0 \<le> used_memory deps insts ?k" "0 \<le> used_job_memory jreg ?k"
    using assms(4,5) by (auto simp: used_memory_def used_job_memory_def intro!: sum_list_nonneg)
  have base: "avail_mem (node_capacities rnd nodes) ?k = total_memory n"
    by (rule avail_node_capacities [OF assms(1,2)])
  have "avail_mem ?c ?k = total_memory n - used_memory deps insts ?k"
    unfolding used_memory_def base [symmetric]
    using assms(4,6) nn total_memory_range [of n] avail_deduct_instance [OF assms(3)]
    by (intro avail_fold) (auto simp: base used_memory_def)
  moreover have "avail_mem (foldl (deduct_job rnd) ?c (Job_List jreg)) ?k =
      avail_mem ?c ?k - used_job_memory jreg ?k"
    unfolding used_job_memory_def
  proof (rule avail_fold)
    fix caps j assume "j \<in> set (Job_List jreg)" "avail_mem caps ?k \<le> max_int64" "job_memory ?k j \<le> avail_mem caps ?k"
    then show "avail_mem (deduct_job rnd caps j) ?k = avail_mem caps ?k - job_memory ?k j"
      using assms(5) by (auto simp: deduct_job_def job_memory_def avail_deduct avail_in_range split: if_splits)
  qed (use assms(5,6) nn total_memory_range [of n] calculation in \<open>auto simp: used_job_memory_def\<close>)
  ultimately show ?thesis by (simp add: CalculateAll_def)
qed

section \<open>The loop of the instance scheduler\<close>

text \<open>What an instance becomes in a scheduling round.\<close>

definition placed :: "Node list \<Rightarrow> Instance \<Rightarrow> Instance \<Rightarrow> bool" where
  "placed nodes i i' \<longleftrightarrow> i' = i \<or>
     i_Status i = StatusPending \<and> (\<exists>n \<in> set nodes. \<exists>t. i' = Update_apply t StatusAssigned (n_ID n) '''' i)"

definition same_specs :: "DepRegistry \<Rightarrow> DepRegistry \<Rightarrow> bool" where
  "same_specs d d' \<longleftrightarrow> (\<forall>k. map_option d_SpecSnapshot (map_of (deployments d) k) =
     map_option d_SpecSnapshot (map_of (deployments d') k))"

lemma same_specs_RolloutOnly: "same_specs d d' \<Longrightarrow> same_specs d (fst (Dep_UpdateRolloutStatusOnly k st re d'))"
  by (auto simp: same_specs_def Dep_UpdateRolloutStatusOnly_def put_dep_def split: option.splits)

lemma inst_memory_same_specs: "same_specs d d' \<Longrightarrow> inst_memory d' k i = inst_memory d k i"
  unfolding same_specs_def inst_memory_def Dep_Get_def request_of_def
  by (drule spec [of _ "i_DeploymentID i"]) (auto split: option.splits)

lemma used_memory_same_specs:
  assumes "same_specs d d'"
  shows "used_memory d' insts k = used_memory d insts k"
proof -
  have "inst_memory d' k = inst_memory d k" by (rule ext) (rule inst_memory_same_specs [OF assms])
  then show ?thesis by (simp add: used_memory_def)
qed

text \<open>A step of the loop either leaves the instances alone or places the one it looks at.\<close>

lemma schedule_instance_cases:
  obtains (skip) "is_insts (schedule_instance rnd now nodes i s) = is_insts s"
      "is_caps (schedule_instance rnd now nodes i s) = is_caps s"
      "same_specs (is_deps s) (is_deps (schedule_instance rnd now nodes i s))"
  | (place) d n j where "Dep_Get (is_deps s) (i_DeploymentID i) = Inr d" "n \<in> set nodes"
      "snd (request_of d) \<le> avail_mem (is_caps s) (n_ID n)"
      "map_of (is_insts s) (i_ID i) = Some j" "\<not> stopped_or_crashed (i_Status j)"
      "is_insts (schedule_instance rnd now nodes i s) =
        mput (i_ID i) (Update_apply (now (i_ID i)) StatusAssigned (n_ID n) '''' j) (is_insts s)"
      "is_caps (schedule_instance rnd now nodes i s) =
        deduct rnd (n_ID n) (fst (request_of d)) (snd (request_of d)) (is_caps s)"
      "same_specs (is_deps s) (is_deps (schedule_instance rnd now nodes i s))"
proof -
  have refl: "same_specs d d" for d by (simp add: same_specs_def)
  show thesis
  proof (cases "Dep_Get (is_deps s) (i_DeploymentID i)")
    case (Inl e)
    then show thesis by (intro skip) (simp_all add: schedule_instance_def refl)
  next
    case (Inr d)
    let ?el = "eligible (is_caps s) (fst (request_of d)) (snd (request_of d)) nodes"
    show thesis
    proof (cases "?el = []")
      case True
      with Inr show thesis
        by (intro skip) (simp_all add: schedule_instance_def case_prod_unfold Let_def same_specs_RolloutOnly refl)
    next
      case False
      let ?n = "select_node (is_last s) (by_node_id ?el)"
      have n: "?n \<in> set ?el" using selected_eligible [OF False] .
      have eq: "schedule_instance rnd now nodes i s =
         (case Inst_UpdateState (now (i_ID i)) (i_ID i) StatusAssigned (n_ID ?n) '''' (is_insts s) of
            (insts, Inl _) \<Rightarrow> s\<lparr>is_insts := insts\<rparr>
          | (insts, Inr _) \<Rightarrow> s\<lparr>is_insts := insts,
              is_deps := fst (Dep_UpdateRolloutStatusOnly (i_DeploymentID i) (d_RolloutStatus d) '''' (is_deps s)),
              is_last := n_ID ?n, is_caps := deduct rnd (n_ID ?n) (fst (request_of d)) (snd (request_of d)) (is_caps s)\<rparr>)"
        using Inr False by (simp add: schedule_instance_def case_prod_unfold Let_def)
      show thesis
      proof (cases "\<exists>j. map_of (is_insts s) (i_ID i) = Some j \<and> \<not> stopped_or_crashed (i_Status j)")
        case True
        then obtain j where j: "map_of (is_insts s) (i_ID i) = Some j" "\<not> stopped_or_crashed (i_Status j)" by blast
        show thesis
        proof (rule place [OF Inr _ _ j])
          show "?n \<in> set nodes" using n by (simp add: eligible_def)
          show "snd (request_of d) \<le> avail_mem (is_caps s) (n_ID ?n)" using n by (simp add: eligible_def Let_def)
        qed (use j in \<open>simp_all add: eq Inst_UpdateState_def Let_def same_specs_RolloutOnly refl\<close>)
      next
        case False
        then have "fst (Inst_UpdateState (now (i_ID i)) (i_ID i) StatusAssigned (n_ID ?n) '''' (is_insts s)) = is_insts s"
          "\<exists>e. snd (Inst_UpdateState (now (i_ID i)) (i_ID i) StatusAssigned (n_ID ?n) '''' (is_insts s)) = Inl e"
          by (auto simp: Inst_UpdateState_def split: option.splits)
        then show thesis by (intro skip) (auto simp: eq refl split: prod.splits)
      qed
    qed
  qed
qed

lemma sum_list_mput:
  assumes "distinct (map fst m)" and "map_of m k = Some v"
  shows "sum_list (map f (mvals (mput k v' m))) = sum_list (map f (mvals m)) - f v + (f v' :: int)"
  using assms
proof (induction m)
  case (Cons p m)
  then show ?case by (cases p) (auto split: if_splits)
qed simp

text \<open>
  The loop invariant: the cached memory of an online node is what is left of it, the instances
  still to be looked at are untouched, and everything else was placed or left alone.
\<close>

definition sched_inv ::
  "Node list \<Rightarrow> DepRegistry \<Rightarrow> InstRegistry \<Rightarrow> (string \<Rightarrow> int) \<Rightarrow> Instance list \<Rightarrow> InstSched \<Rightarrow> bool" where
  "sched_inv nodes deps insts other todo s \<longleftrightarrow>
     keyed i_ID (is_insts s) \<and> same_specs deps (is_deps s) \<and>
     distinct (map i_ID todo) \<and>
     (\<forall>i \<in> set todo. map_of (is_insts s) (i_ID i) = Some i \<and> i_Status i = StatusPending) \<and>
     (\<forall>k i. map_of insts k = Some i \<longrightarrow> (\<exists>i'. map_of (is_insts s) k = Some i' \<and> placed nodes i i')) \<and>
     (\<forall>n \<in> set nodes. avail_mem (is_caps s) (n_ID n) =
        total_memory n - other (n_ID n) - used_memory deps (is_insts s) (n_ID n) \<and>
        0 \<le> avail_mem (is_caps s) (n_ID n) \<and> avail_mem (is_caps s) (n_ID n) \<le> max_int64)"

lemma used_memory_place:
  assumes "keyed i_ID insts" and "map_of insts (i_ID i) = Some i" and "i_Status i = StatusPending"
    and "n_ID n \<noteq> ''''" and "Dep_Get deps (i_DeploymentID i) = Inr d"
  shows "used_memory deps (mput (i_ID i) (Update_apply t StatusAssigned (n_ID n) '''' i) insts) k =
    used_memory deps insts k + (if k = n_ID n then snd (request_of d) else 0)"
  using assms sum_list_mput [OF keyed_distinct [OF assms(1)] assms(2)]
  by (simp add: used_memory_def Inst_List_def inst_memory_def isInstanceConsumingCapacity_def)

lemma Dep_Get_same_specs:
  assumes "same_specs deps deps'" and "Dep_Get deps' k = Inr d'"
  obtains d where "Dep_Get deps k = Inr d" "request_of d = request_of d'"
proof -
  have "map_option d_SpecSnapshot (map_of (deployments deps) k) = Some (d_SpecSnapshot d')"
    using assms by (auto simp: same_specs_def Dep_Get_def split: option.splits)
  then obtain d where "map_of (deployments deps) k = Some d" "d_SpecSnapshot d = d_SpecSnapshot d'" by auto
  then show thesis by (intro that [of d]) (simp_all add: Dep_Get_def request_of_def)
qed

lemma sched_inv_step:
  assumes inv: "sched_inv nodes deps insts other (i # todo) s"
    and nid: "\<forall>n \<in> set nodes. n_ID n \<noteq> ''''"
    and req: "\<forall>k d. Dep_Get deps k = Inr d \<longrightarrow> 0 \<le> snd (request_of d)"
  shows "sched_inv nodes deps insts other todo (schedule_instance rnd now nodes i s)"
proof (cases rule: schedule_instance_cases [of rnd now nodes i s])
  case skip
  then show ?thesis using inv by (auto simp: sched_inv_def same_specs_def)
next
  case (place d' n j)
  have ij: "j = i" and pend: "i_Status i = StatusPending" and look: "map_of (is_insts s) (i_ID i) = Some i"
    using inv place(4) by (auto simp: sched_inv_def)
  have keyed: "keyed i_ID (is_insts s)" using inv by (simp add: sched_inv_def)
  obtain d where d: "Dep_Get deps (i_DeploymentID i) = Inr d" "request_of d = request_of d'"
    using inv place(1) by (auto simp: sched_inv_def elim: Dep_Get_same_specs)
  let ?i' = "Update_apply (now (i_ID i)) StatusAssigned (n_ID n) '''' i"
  have caps: "avail_mem (is_caps s) (n_ID m) =
        total_memory m - other (n_ID m) - used_memory deps (is_insts s) (n_ID m)"
      "0 \<le> avail_mem (is_caps s) (n_ID m)" "avail_mem (is_caps s) (n_ID m) \<le> max_int64" if "m \<in> set nodes" for m
    using inv that by (auto simp: sched_inv_def)
  have used: "used_memory deps (mput (i_ID i) ?i' (is_insts s)) k =
      used_memory deps (is_insts s) k + (if k = n_ID n then snd (request_of d) else 0)" for k
    using place(2) nid by (intro used_memory_place [OF keyed look pend _ d(1)]) auto
  have mem: "avail_mem (is_caps (schedule_instance rnd now nodes i s)) k =
      avail_mem (is_caps s) k - (if k = n_ID n then snd (request_of d) else 0)" for k
  proof -
    have "0 \<le> snd (request_of d')" using req d by metis
    then show ?thesis
      using place(3,7) caps(3) [OF place(2)] d(2) by (simp add: avail_deduct avail_in_range)
  qed
  have "\<forall>m \<in> set nodes. avail_mem (is_caps (schedule_instance rnd now nodes i s)) (n_ID m) =
        total_memory m - other (n_ID m) - used_memory deps (mput (i_ID i) ?i' (is_insts s)) (n_ID m) \<and>
        0 \<le> avail_mem (is_caps (schedule_instance rnd now nodes i s)) (n_ID m) \<and>
        avail_mem (is_caps (schedule_instance rnd now nodes i s)) (n_ID m) \<le> max_int64"
  proof
    fix m assume m: "m \<in> set nodes"
    have "0 \<le> snd (request_of d)" using req d(1) by blast
    then have rd: "0 \<le> snd (request_of d)" "snd (request_of d) \<le> avail_mem (is_caps s) (n_ID n)"
      using d(2) place(3) by simp_all
    show "avail_mem (is_caps (schedule_instance rnd now nodes i s)) (n_ID m) =
        total_memory m - other (n_ID m) - used_memory deps (mput (i_ID i) ?i' (is_insts s)) (n_ID m) \<and>
        0 \<le> avail_mem (is_caps (schedule_instance rnd now nodes i s)) (n_ID m) \<and>
        avail_mem (is_caps (schedule_instance rnd now nodes i s)) (n_ID m) \<le> max_int64"
    proof -
      let ?x = "if n_ID m = n_ID n then snd (request_of d) else 0"
      have "0 \<le> ?x" "?x \<le> avail_mem (is_caps s) (n_ID m)" using rd caps(2) [OF m] by auto
      then show ?thesis
        unfolding mem used using caps(1) [OF m] caps(3) [OF m] by linarith
    qed
  qed
  moreover have "\<exists>i'. map_of (mput (i_ID i) ?i' (is_insts s)) k = Some i' \<and> placed nodes x i'"
    if "map_of insts k = Some x" for k x
  proof (cases "k = i_ID i")
    case True
    have "\<exists>i'. map_of (is_insts s) k = Some i' \<and> placed nodes x i'"
      using inv that unfolding sched_inv_def by blast
    then have "placed nodes x i" using True look by simp
    then have "x = i" using pend by (auto simp: placed_def)
    then show ?thesis using True pend place(2) by (auto simp: placed_def)
  next
    case False
    then show ?thesis using inv that by (auto simp: sched_inv_def)
  qed
  moreover have "same_specs deps (is_deps (schedule_instance rnd now nodes i s))"
    using inv place(8) by (simp add: sched_inv_def same_specs_def)
  moreover have "keyed i_ID (mput (i_ID i) ?i' (is_insts s))" using keyed by (intro keyed_mput) simp_all
  ultimately show ?thesis
    using inv place(6) ij unfolding sched_inv_def by (auto simp: image_iff)
qed

lemma sched_inv_fold:
  assumes "sched_inv nodes deps insts other todo s"
    and "\<forall>n \<in> set nodes. n_ID n \<noteq> ''''" and "\<forall>k d. Dep_Get deps k = Inr d \<longrightarrow> 0 \<le> snd (request_of d)"
  shows "sched_inv nodes deps insts other [] (foldl (\<lambda>s i. schedule_instance rnd now nodes i s) s todo)"
  using assms
proof (induction todo arbitrary: s)
  case (Cons i todo)
  then show ?case using sched_inv_step [OF Cons.prems(1)] by simp
qed simp

lemma pending_instances_facts:
  assumes "keyed i_ID insts"
  shows "distinct (map i_ID (pending_instances insts))"
    and "i \<in> set (pending_instances insts) \<Longrightarrow> map_of insts (i_ID i) = Some i \<and> i_Status i = StatusPending"
proof -
  let ?l = "filter (\<lambda>i. i_Status i = StatusPending) (Inst_List insts)"
  have "distinct (map i_ID ?l)"
    using inst_table.Lst_distinct [OF assms] by (simp add: distinct_map_filter)
  then show "distinct (map i_ID (pending_instances insts))"
    using inst_order.distinct_go_sort [of ?l] inst_order.set_go_sort [of ?l]
    by (simp add: pending_instances_def distinct_map)
  show "i \<in> set (pending_instances insts) \<Longrightarrow> map_of insts (i_ID i) = Some i \<and> i_Status i = StatusPending"
    using assms by (auto simp: pending_instances_def inst_order.set_go_sort Inst_List_def keyed_mem)
qed

abbreviation sched_start ::
  "(rat \<Rightarrow> rat) \<Rightarrow> NodeRegistry \<Rightarrow> JobRegistry \<Rightarrow> InstRegistry \<Rightarrow> DepRegistry \<Rightarrow> string \<Rightarrow> InstSched" where
  "sched_start rnd nodeReg jobReg instReg depReg lastID \<equiv>
     \<lparr>is_insts = instReg, is_deps = depReg, is_last = lastID,
      is_caps = CalculateAll rnd (filter online (Node_List nodeReg)) instReg depReg jobReg\<rparr>"

lemma sched_inv_start:
  assumes insts: "keyed i_ID instReg" and nodes: "keyed n_ID nodeReg"
    and deps: "keyed d_ID (deployments depReg)" "\<forall>k d. Dep_Get depReg k = Inr d \<longrightarrow> 0 \<le> snd (request_of d)"
    and jmem: "\<forall>j \<in> set (Job_List jobReg). 0 \<le> j_MemoryMB j"
    and fits: "\<forall>n \<in> set (filter online (Node_List nodeReg)).
      used_memory depReg instReg (n_ID n) + used_job_memory jobReg (n_ID n) \<le> total_memory n"
  shows "sched_inv (filter online (Node_List nodeReg)) depReg instReg (used_job_memory jobReg) (pending_instances instReg)
    (sched_start rnd nodeReg jobReg instReg depReg lastID)"
proof -
  let ?on = "filter online (Node_List nodeReg)"
  let ?s0 = "sched_start rnd nodeReg jobReg instReg depReg lastID"
  have don: "distinct (map n_ID ?on)"
    using node_table.Lst_distinct [OF nodes(1)] by (simp add: distinct_map_filter)
  have nn: "0 \<le> inst_memory depReg k i" "j \<in> set (Job_List jobReg) \<Longrightarrow> 0 \<le> job_memory k j" for k i j
    using deps(2) jmem by (auto simp: inst_memory_def job_memory_def split: sum.splits)
  have sums: "0 \<le> used_memory depReg instReg k" "0 \<le> used_job_memory jobReg k" for k
    using nn by (auto simp: used_memory_def used_job_memory_def intro!: sum_list_nonneg)
  have caps: "avail_mem (is_caps ?s0) (n_ID n) =
      total_memory n - used_memory depReg instReg (n_ID n) - used_job_memory jobReg (n_ID n)" if "n \<in> set ?on" for n
    using CalculateAll_memory [OF that don deps(1)] nn fits that by simp
  show ?thesis
    unfolding sched_inv_def
  proof (intro conjI ballI allI impI)
    fix n assume n: "n \<in> set ?on"
    then have f: "used_memory depReg instReg (n_ID n) + used_job_memory jobReg (n_ID n) \<le> total_memory n"
      using fits by blast
    show "avail_mem (is_caps ?s0) (n_ID n) =
        total_memory n - used_job_memory jobReg (n_ID n) - used_memory depReg (is_insts ?s0) (n_ID n)"
      unfolding caps [OF n] by simp
    show "0 \<le> avail_mem (is_caps ?s0) (n_ID n)" unfolding caps [OF n] using f by simp
    show "avail_mem (is_caps ?s0) (n_ID n) \<le> max_int64"
      unfolding caps [OF n] using sums [of "n_ID n"] total_memory_range [of n] by linarith
  qed (use insts pending_instances_facts [OF insts] in \<open>auto simp: same_specs_def placed_def\<close>)
qed

lemma schedule_run:
  assumes insts: "keyed i_ID instReg" and nodes: "keyed n_ID nodeReg" "\<forall>n \<in> set (Node_List nodeReg). n_ID n \<noteq> ''''"
    and deps: "keyed d_ID (deployments depReg)" "\<forall>k d. Dep_Get depReg k = Inr d \<longrightarrow> 0 \<le> snd (request_of d)"
    and jmem: "\<forall>j \<in> set (Job_List jobReg). 0 \<le> j_MemoryMB j"
    and fits: "\<forall>n \<in> set (filter online (Node_List nodeReg)).
      used_memory depReg instReg (n_ID n) + used_job_memory jobReg (n_ID n) \<le> total_memory n"
    and run: "SchedulePendingInstances rnd now nodeReg jobReg instReg depReg lastID = (insts', deps', last')"
  shows "\<exists>s. sched_inv (filter online (Node_List nodeReg)) depReg instReg (used_job_memory jobReg) [] s \<and>
    insts' = is_insts s \<and> deps' = is_deps s \<or>
    filter online (Node_List nodeReg) = [] \<and> insts' = instReg \<and> deps' = depReg"
proof (cases "filter online (Node_List nodeReg) = []")
  case True
  then show ?thesis using run by (simp add: SchedulePendingInstances_def Let_def)
next
  case False
  let ?on = "filter online (Node_List nodeReg)"
  have "sched_inv ?on depReg instReg (used_job_memory jobReg) []
      (foldl (\<lambda>s i. schedule_instance rnd now ?on i s) (sched_start rnd nodeReg jobReg instReg depReg lastID)
        (pending_instances instReg))"
    using nodes(2) deps(2) sched_inv_start [OF insts nodes(1) deps jmem fits] by (intro sched_inv_fold) auto
  then show ?thesis using run False by (auto simp: SchedulePendingInstances_def Let_def)
qed

section \<open>The loop of the job scheduler\<close>

lemma reach_recover_jobs:
  assumes "reach NewJobRegistry job_op_ok job_step r"
  shows "reach NewJobRegistry job_op_ok job_step (recover_jobs nowT nowTE nowN nowC nowE timeout grace nodes r)"
proof -
  have "reach NewJobRegistry job_op_ok job_step (recover_offline nowN nowC nowE grace ns r)"
    if "reach NewJobRegistry job_op_ok job_step r" for ns r
    using that
  proof (induction ns arbitrary: r)
    case (Cons n ns)
    have "reach NewJobRegistry job_op_ok job_step
        (job_step (OpNodeJobs (nowC (n_ID n)) (nowE (n_ID n)) (n_ID n) ''Node offline grace period exceeded'') r)"
      by (rule reach_step [OF Cons.prems]) simp
    with Cons show ?case by (simp add: recover_offline_def)
  qed (simp add: recover_offline_def)
  moreover have "reach NewJobRegistry job_op_ok job_step (fst (RecoverExecutionTimeouts nowT nowTE timeout r))"
    using reach_step [OF assms, of "OpTimeouts nowT nowTE timeout"] by simp
  ultimately show ?thesis using assms by (simp add: recover_jobs_def)
qed

lemma deduct_jobs_nothing:
  "\<forall>j \<in> set js. j_CPU j = 0 \<and> j_MemoryMB j = 0 \<Longrightarrow> foldl (deduct_job rnd) caps js = caps"
  by (induction js) (auto simp: deduct_job_def)

definition room :: "caps \<Rightarrow> string \<Rightarrow> bool" where
  "room caps k \<longleftrightarrow> 0 \<le> AvailableCPU (mget_or zero_capacity caps k) \<and> 0 \<le> avail_mem caps k \<and>
     avail_mem caps k \<le> max_int64"

lemma room_deduct_zero:
  assumes "mono rnd" and "rnd 0 = 0" and "room caps k"
  shows "room (deduct rnd k' 0 0 caps) k"
  using assms monoD [OF assms(1), of 0 "AvailableCPU (mget_or zero_capacity caps k)"]
  by (auto simp: room_def deduct_def Let_def avail_in_range)

lemma fold_keeps: "(\<And>c x. P c \<Longrightarrow> P (f c x)) \<Longrightarrow> P c \<Longrightarrow> P (foldl f c xs)"
  by (induction xs arbitrary: c) auto

lemma avail_CalculateAll_le:
  "avail_mem (CalculateAll rnd nodes insts deps jreg) k \<le> max_int64"
proof -
  let ?ok = "\<lambda>c. \<forall>k. avail_mem c k \<le> max_int64"
  have ded: "?ok (deduct rnd k cpu mem c)" if "?ok c" for k cpu mem c
    using that wrap64_bounds by (auto simp: avail_deduct)
  have "?ok (node_capacities rnd nodes)"
    unfolding node_capacities_def
  proof (induction nodes rule: rev_induct)
    case (snoc n ns)
    then show ?case using total_memory_range by simp
  qed (simp add: zero_capacity_def max_int64_def)
  then have "?ok (CalculateAll rnd nodes insts deps jreg)"
    unfolding CalculateAll_def
    by (intro fold_keeps [where P = ?ok])
      (use ded in \<open>auto simp: deduct_job_def deduct_instance_def split: option.splits\<close>)
  then show ?thesis by blast
qed

text \<open>Assigning a pending job succeeds.\<close>

lemma assign_pending:
  assumes "map_of (jobs r) k = Some j" and "j_Status j = JobPending"
  shows "\<exists>r' j'. Job_Update t k (assign_params node) r = (r', Inr j') \<and> jobs r' = mput k j' (jobs r) \<and>
    j_Status j' = JobAssigned \<and> j_AssignedNodeID j' = node \<and> j_ID j' = j_ID j"
  using assms
  by (simp add: Job_Update_def Job_Update_status_def assign_params_def Job_Update_fields_def Let_def)

definition jsched_inv :: "Node list \<Rightarrow> string \<Rightarrow> JobRegistry \<Rightarrow> Job list \<Rightarrow> JobSched \<Rightarrow> bool" where
  "jsched_inv nodes k0 r0 todo s \<longleftrightarrow>
     keyed j_ID (jobs (js_jobs s)) \<and> room (js_caps s) k0 \<and> distinct (map j_ID todo) \<and>
     (\<forall>j \<in> set todo. map_of (jobs (js_jobs s)) (j_ID j) = Some j \<and> j_Status j = JobPending \<and>
        j_CPU j = 0 \<and> j_MemoryMB j = 0) \<and>
     (\<forall>k j. map_of (jobs (js_jobs s)) k = Some j \<longrightarrow>
        (j_Status j = JobPending \<longrightarrow> j \<in> set todo) \<and>
        (map_of (jobs r0) k = Some j \<or>
         (\<exists>j0. map_of (jobs r0) k = Some j0 \<and> j_Status j0 = JobPending \<and> j_Status j = JobAssigned \<and>
            (\<exists>n \<in> set nodes. j_AssignedNodeID j = n_ID n))))"

lemma jsched_inv_step:
  assumes inv: "jsched_inv nodes (n_ID n0) r0 (j # todo) s" and n0: "n0 \<in> set nodes"
    and rnd: "mono rnd" "rnd 0 = 0"
  shows "jsched_inv nodes (n_ID n0) r0 todo (schedule_job rnd now nodes j s)"
proof -
  have look: "map_of (jobs (js_jobs s)) (j_ID j) = Some j" and pend: "j_Status j = JobPending"
    and zero: "j_CPU j = 0" "j_MemoryMB j = 0"
    using inv by (auto simp: jsched_inv_def)
  let ?el = "eligible (js_caps s) 0 0 nodes"
  have "n0 \<in> set ?el" using inv n0 by (auto simp: jsched_inv_def eligible_def room_def Let_def)
  then have ne: "?el \<noteq> []" by auto
  let ?n = "select_node (js_last s) (by_node_id ?el)"
  have n: "?n \<in> set nodes" using selected_eligible [OF ne, of "js_last s"] by (simp add: eligible_def)
  obtain r' j' where upd: "Job_Update (now (j_ID j)) (j_ID j) (assign_params (n_ID ?n)) (js_jobs s) = (r', Inr j')"
    and r': "jobs r' = mput (j_ID j) j' (jobs (js_jobs s))"
    and j': "j_Status j' = JobAssigned" "j_AssignedNodeID j' = n_ID ?n" "j_ID j' = j_ID j"
    using assign_pending [OF look pend] by blast
  have s': "schedule_job rnd now nodes j s =
      s\<lparr>js_jobs := r', js_last := n_ID ?n, js_caps := deduct rnd (n_ID ?n) 0 0 (js_caps s)\<rparr>"
    using ne upd zero by (simp add: schedule_job_def Let_def)
  have room: "room (deduct rnd (n_ID ?n) 0 0 (js_caps s)) (n_ID n0)"
    using inv by (intro room_deduct_zero [OF rnd]) (simp add: jsched_inv_def)
  have keyed: "keyed j_ID (jobs r')" using inv j'(3) by (auto simp: jsched_inv_def r' intro: keyed_mput)
  have "map_of (jobs r0) (j_ID j) = Some j \<or> j_Status j = JobAssigned"
    using inv look unfolding jsched_inv_def by blast
  then have old: "map_of (jobs r0) (j_ID j) = Some j" using pend by simp
  show ?thesis
    unfolding jsched_inv_def s'
  proof (intro conjI allI impI ballI)
    fix k x assume x: "map_of (jobs (js_jobs (s\<lparr>js_jobs := r', js_last := n_ID ?n,
        js_caps := deduct rnd (n_ID ?n) 0 0 (js_caps s)\<rparr>))) k = Some x"
    show "x \<in> set todo" if "j_Status x = JobPending"
    proof -
      have k: "k \<noteq> j_ID j" and xs: "map_of (jobs (js_jobs s)) k = Some x"
        using x that j'(1) by (auto simp: r' split: if_splits)
      have "j_ID x = k" using inv xs by (auto simp: jsched_inv_def dest: keyed_map_of)
      moreover have "x = j \<or> x \<in> set todo"
        using inv xs that unfolding jsched_inv_def by (metis set_ConsD)
      ultimately show ?thesis using k by auto
    qed
    show "map_of (jobs r0) k = Some x \<or>
         (\<exists>j0. map_of (jobs r0) k = Some j0 \<and> j_Status j0 = JobPending \<and> j_Status x = JobAssigned \<and>
            (\<exists>n \<in> set nodes. j_AssignedNodeID x = n_ID n))"
    proof (cases "k = j_ID j")
      case True
      with x old pend j' n show ?thesis by (auto simp: r')
    next
      case False
      with x inv show ?thesis by (auto simp: jsched_inv_def r')
    qed
  qed (use inv keyed room in \<open>auto simp: jsched_inv_def r' image_iff\<close>)
qed

lemma jsched_inv_fold:
  assumes "jsched_inv nodes (n_ID n0) r0 todo s" and "n0 \<in> set nodes" and "mono rnd" and "rnd 0 = 0"
  shows "jsched_inv nodes (n_ID n0) r0 [] (foldl (\<lambda>s j. schedule_job rnd now nodes j s) s todo)"
  using assms
proof (induction todo arbitrary: s)
  case (Cons j todo)
  then show ?case using jsched_inv_step by simp
qed simp

lemma pending_jobs_facts:
  assumes "keyed j_ID (jobs r)"
  shows "distinct (map j_ID (pending_jobs r))"
    and "j \<in> set (pending_jobs r) \<longleftrightarrow> map_of (jobs r) (j_ID j) = Some j \<and> j_Status j = JobPending"
proof -
  let ?l = "filter (\<lambda>j. j_Status j = JobPending) (Job_List r)"
  have "distinct (map j_ID ?l)"
    using job_table.Lst_distinct [OF assms] by (simp add: distinct_map_filter)
  then show "distinct (map j_ID (pending_jobs r))"
    using job_order.distinct_go_sort [of ?l] job_order.set_go_sort [of ?l]
    by (simp add: pending_jobs_def distinct_map)
  show "j \<in> set (pending_jobs r) \<longleftrightarrow> map_of (jobs r) (j_ID j) = Some j \<and> j_Status j = JobPending"
    using assms by (auto simp: pending_jobs_def job_order.set_go_sort Job_List_def keyed_mem)
qed

section \<open>Properties\<close>

text \<open>
  C12: scheduling never over-commits the memory of a node. If the consuming instances and jobs
  fit into every online node before a round, they fit after it, whatever the pending
  instances ask for, in whatever order the maps are visited and although several instances
  are placed on the strength of one capacity computation.
\<close>

theorem sched_never_overcommits:
  assumes "keyed i_ID instReg" and "keyed n_ID nodeReg" and "\<forall>n \<in> set (Node_List nodeReg). n_ID n \<noteq> ''''"
    and "keyed d_ID (deployments depReg)" and "\<forall>k d. Dep_Get depReg k = Inr d \<longrightarrow> 0 \<le> snd (request_of d)"
    and "\<forall>j \<in> set (Job_List jobReg). 0 \<le> j_MemoryMB j"
    and "\<forall>n \<in> set (filter online (Node_List nodeReg)).
      used_memory depReg instReg (n_ID n) + used_job_memory jobReg (n_ID n) \<le> total_memory n"
    and "SchedulePendingInstances rnd now nodeReg jobReg instReg depReg lastID = (insts', deps', last')"
    and "n \<in> set (filter online (Node_List nodeReg))"
  shows "used_memory deps' insts' (n_ID n) + used_job_memory jobReg (n_ID n) \<le> total_memory n"
proof -
  let ?on = "filter online (Node_List nodeReg)"
  from schedule_run [OF assms(1-8)] assms(9) obtain s where
    s: "sched_inv ?on depReg instReg (used_job_memory jobReg) [] s" "insts' = is_insts s" "deps' = is_deps s"
    by fastforce
  have "used_memory (is_deps s) (is_insts s) k = used_memory depReg (is_insts s) k" for k
    using s(1) by (intro used_memory_same_specs) (simp add: sched_inv_def)
  moreover have "avail_mem (is_caps s) (n_ID n) =
        total_memory n - used_job_memory jobReg (n_ID n) - used_memory depReg (is_insts s) (n_ID n)"
      "0 \<le> avail_mem (is_caps s) (n_ID n)"
    using s(1) assms(9) unfolding sched_inv_def by blast+
  ultimately show ?thesis using s(2,3) by simp
qed

text \<open>
  A scheduling round only places. Every instance is left as it is, or it was \<open>PENDING\<close> and
  is now \<open>ASSIGNED\<close> to a node that is online; specifications of deployments do not change.
\<close>

lemma sched_places_pending_online:
  assumes "keyed i_ID instReg" and "keyed n_ID nodeReg" and "\<forall>n \<in> set (Node_List nodeReg). n_ID n \<noteq> ''''"
    and "keyed d_ID (deployments depReg)" and "\<forall>k d. Dep_Get depReg k = Inr d \<longrightarrow> 0 \<le> snd (request_of d)"
    and "\<forall>j \<in> set (Job_List jobReg). 0 \<le> j_MemoryMB j"
    and "\<forall>n \<in> set (filter online (Node_List nodeReg)).
      used_memory depReg instReg (n_ID n) + used_job_memory jobReg (n_ID n) \<le> total_memory n"
    and "SchedulePendingInstances rnd now nodeReg jobReg instReg depReg lastID = (insts', deps', last')"
    and "Inst_Get instReg k = Inr i"
  shows "\<exists>i'. Inst_Get insts' k = Inr i' \<and> (i' = i \<or>
      i_Status i = StatusPending \<and> i_Status i' = StatusAssigned \<and> i_DeploymentID i' = i_DeploymentID i \<and>
      (\<exists>n \<in> set (Node_List nodeReg). n_Status n = NodeOnline \<and> i_NodeID i' = n_ID n)) \<and>
    same_specs depReg deps'"
proof -
  let ?on = "filter online (Node_List nodeReg)"
  have look: "map_of instReg k = Some i" using assms(9) by (auto simp: Inst_Get_def split: option.splits)
  from schedule_run [OF assms(1-8)] consider
      s where "sched_inv ?on depReg instReg (used_job_memory jobReg) [] s" "insts' = is_insts s" "deps' = is_deps s"
    | "insts' = instReg" "deps' = depReg"
    by blast
  then show ?thesis
  proof cases
    case 1
    then obtain i' where i': "map_of insts' k = Some i'" "placed ?on i i'" and "same_specs depReg deps'"
      using look unfolding sched_inv_def by blast
    moreover from i'(2) assms(3) have "i' = i \<or> i_Status i = StatusPending \<and> i_Status i' = StatusAssigned \<and>
        i_DeploymentID i' = i_DeploymentID i \<and>
        (\<exists>n \<in> set (Node_List nodeReg). n_Status n = NodeOnline \<and> i_NodeID i' = n_ID n)"
      by (auto simp: placed_def online_def)
    ultimately show ?thesis by (auto simp: Inst_Get_def)
  next
    case 2
    then show ?thesis using assms(9) by (auto simp: same_specs_def)
  qed
qed

definition ex_deps :: DepRegistry where
  "ex_deps = fst (Dep_Create (\<lambda>_. ''h'') ''dep'' 1 ''app'' example_spec NewDepRegistry)"

definition ex_pending :: InstRegistry where
  "ex_pending = fst (Inst_Create ''i1'' 1 ''app'' ''dep'' NewInstRegistry)"

lemma ex_sched_facts:
  "keyed i_ID ex_pending" "keyed n_ID example_nodes" "\<forall>n \<in> set (Node_List example_nodes). n_ID n \<noteq> ''''"
  "keyed d_ID (deployments ex_deps)" "\<forall>k d. Dep_Get ex_deps k = Inr d \<longrightarrow> 0 \<le> snd (request_of d)"
  "\<forall>j \<in> set (Job_List NewJobRegistry). 0 \<le> j_MemoryMB j"
  "\<forall>n \<in> set (filter online (Node_List example_nodes)).
      used_memory ex_deps ex_pending (n_ID n) + used_job_memory NewJobRegistry (n_ID n) \<le> total_memory n"
  by (auto simp: ex_pending_def ex_deps_def Inst_Create_def NewInstRegistry_def Dep_Create_def NewDepRegistry_def
      example_nodes_def Node_Register_def NewNodeRegistry_def example_node_def Node_List_def keyed_def Dep_Get_def
      request_of_def example_spec_def Job_List_def NewJobRegistry_def used_memory_def used_job_memory_def
      Inst_List_def inst_memory_def isInstanceConsumingCapacity_def total_memory_def Let_def split: if_splits)

theorem sched_never_overcommits_witness:
  "case SchedulePendingInstances (\<lambda>x. x) (\<lambda>_. 5) example_nodes NewJobRegistry ex_pending ex_deps '''' of
     (insts', deps', last') \<Rightarrow> used_memory deps' insts' ''n1'' + used_job_memory NewJobRegistry ''n1'' \<le> 4096"
proof -
  obtain n where n: "n \<in> set (filter online (Node_List example_nodes))" "n_ID n = ''n1''" "total_memory n = 4096"
    by (simp add: example_nodes_def Node_Register_def NewNodeRegistry_def Node_List_def example_node_def Let_def
        online_def total_memory_def)
  show ?thesis using sched_never_overcommits [OF ex_sched_facts _ n(1)] n(2,3) by (simp split: prod.splits)
qed

lemma sched_places_pending_online_example:
  "\<exists>insts' deps' last'. SchedulePendingInstances (\<lambda>x. x) (\<lambda>_. 5) example_nodes NewJobRegistry ex_pending ex_deps '''' =
      (insts', deps', last') \<and> (\<exists>i'. Inst_Get insts' ''i1'' = Inr i') \<and> same_specs ex_deps deps'"
proof -
  obtain insts' deps' last' where run: "SchedulePendingInstances (\<lambda>x. x) (\<lambda>_. 5) example_nodes NewJobRegistry
      ex_pending ex_deps '''' = (insts', deps', last')"
    by (cases "SchedulePendingInstances (\<lambda>x. x) (\<lambda>_. 5) example_nodes NewJobRegistry ex_pending ex_deps ''''") blast
  obtain i where "Inst_Get ex_pending ''i1'' = Inr i"
    by (simp add: ex_pending_def Inst_Create_def NewInstRegistry_def Inst_Get_def Let_def)
  from sched_places_pending_online [OF ex_sched_facts run this] run show ?thesis by blast
qed

text \<open>
  C13: no job waits while a node has room. In every state the job registry can reach, if some
  online node has non-negative free CPU and memory, then after a round of the job scheduler
  no job is \<open>PENDING\<close>: each one that was pending after the recovery steps is \<open>ASSIGNED\<close> to an
  online node and every other job is as recovery left it. This rests on jobs carrying no
  resource request.
\<close>

theorem sched_no_job_waits:
  assumes "reach NewJobRegistry job_op_ok job_step jobReg" and "mono rnd" and "rnd 0 = 0"
    and "n0 \<in> set (Node_List nodeReg)" and "n_Status n0 = NodeOnline"
    and "0 \<le> AvailableCPU (mget_or zero_capacity
      (CalculateAll rnd (filter online (Node_List nodeReg)) instReg depReg jobReg) (n_ID n0))"
    and "0 \<le> AvailableMemoryMB (mget_or zero_capacity
      (CalculateAll rnd (filter online (Node_List nodeReg)) instReg depReg jobReg) (n_ID n0))"
    and "SchedulePendingJobs rnd nowT nowTE nowN nowC nowE nowA timeout grace nodeReg instReg depReg jobReg lastID =
      (jobReg', last')"
    and "Job_Get jobReg' k = Inr j"
  shows "j_Status j \<noteq> JobPending \<and>
    (\<exists>j0. Job_Get (recover_jobs nowT nowTE nowN nowC nowE timeout grace (Node_List nodeReg) jobReg) k = Inr j0 \<and>
      (j = j0 \<or> j_Status j0 = JobPending \<and> j_Status j = JobAssigned \<and>
        (\<exists>n \<in> set (Node_List nodeReg). n_Status n = NodeOnline \<and> j_AssignedNodeID j = n_ID n)))"
proof -
  let ?on = "filter online (Node_List nodeReg)"
  let ?r2 = "recover_jobs nowT nowTE nowN nowC nowE timeout grace (Node_List nodeReg) jobReg"
  have r2: "reach NewJobRegistry job_op_ok job_step ?r2" by (rule reach_recover_jobs [OF assms(1)])
  have keyed: "keyed j_ID (jobs ?r2)" using job_machine.reach_inv [OF r2] by (simp add: job_inv_def)
  have caps: "CalculateAll rnd ?on instReg depReg ?r2 = CalculateAll rnd ?on instReg depReg jobReg"
    using reach_no_requests [OF assms(1)] reach_no_requests [OF r2]
    by (simp add: CalculateAll_def deduct_jobs_nothing)
  let ?s0 = "\<lparr>js_jobs = ?r2, js_last = lastID, js_caps = CalculateAll rnd ?on instReg depReg ?r2\<rparr>"
  have n0: "n0 \<in> set ?on" using assms(4,5) by (simp add: online_def)
  have room: "room (js_caps ?s0) (n_ID n0)"
    using assms(6,7) avail_CalculateAll_le by (simp add: room_def caps)
  have "jsched_inv ?on (n_ID n0) ?r2 (pending_jobs ?r2) ?s0"
    unfolding jsched_inv_def
    using keyed room pending_jobs_facts [OF keyed] reach_no_requests [OF r2] keyed_map_of [OF keyed]
    by (auto simp: Job_List_def intro: mvals_lookup)
  then have fin: "jsched_inv ?on (n_ID n0) ?r2 []
      (foldl (\<lambda>s j. schedule_job rnd nowA ?on j s) ?s0 (pending_jobs ?r2))"
    by (rule jsched_inv_fold [OF _ n0 assms(2,3)])
  have ne: "?on \<noteq> []" using n0 by (metis empty_iff list.set(1))
  have "jobReg' = js_jobs (foldl (\<lambda>s j. schedule_job rnd nowA ?on j s) ?s0 (pending_jobs ?r2))"
    using assms(8) ne by (auto simp: SchedulePendingJobs_def Let_def)
  moreover have "map_of (jobs jobReg') k = Some j" using assms(9) by (auto simp: Job_Get_def split: option.splits)
  ultimately have "(j_Status j = JobPending \<longrightarrow> j \<in> set []) \<and> (map_of (jobs ?r2) k = Some j \<or>
      (\<exists>j0. map_of (jobs ?r2) k = Some j0 \<and> j_Status j0 = JobPending \<and> j_Status j = JobAssigned \<and>
        (\<exists>n \<in> set ?on. j_AssignedNodeID j = n_ID n)))"
    using fin unfolding jsched_inv_def by blast
  then show ?thesis by (auto simp: Job_Get_def online_def)
qed

theorem sched_no_job_waits_witness:
  "\<exists>jobReg' last'. SchedulePendingJobs (\<lambda>x. x) 9 (\<lambda>_. 9) (\<lambda>_. 9) (\<lambda>_ _. 9) (\<lambda>_ _. 9) (\<lambda>_. 9) ExecutionTimeout
      NodeGracePeriod example_nodes NewInstRegistry NewDepRegistry example_registry '''' = (jobReg', last') \<and>
    \<not> (\<exists>k j. Job_Get jobReg' k = Inr j \<and> j_Status j = JobPending)"
proof -
  obtain jobReg' last' where run: "SchedulePendingJobs (\<lambda>x. x) 9 (\<lambda>_. 9) (\<lambda>_. 9) (\<lambda>_ _. 9) (\<lambda>_ _. 9) (\<lambda>_. 9)
      ExecutionTimeout NodeGracePeriod example_nodes NewInstRegistry NewDepRegistry example_registry '''' = (jobReg', last')"
    by (metis surj_pair)
  obtain n0 where n0: "n0 \<in> set (Node_List example_nodes)" "n_Status n0 = NodeOnline" "n_ID n0 = ''n1''"
    "Node_List example_nodes = [n0]" "n_CPUCores n0 = 4"
    by (simp add: example_nodes_def Node_Register_def NewNodeRegistry_def Node_List_def example_node_def Let_def)
  have caps: "CalculateAll (\<lambda>x. x) (filter online (Node_List example_nodes)) NewInstRegistry NewDepRegistry
      example_registry = [(''n1'', \<lparr>AvailableCPU = 4, AvailableMemoryMB = total_memory n0\<rparr>)]"
    using n0(2,3,5) reach_no_requests [OF example_reach]
    by (simp add: CalculateAll_def n0(4) online_def node_capacities_def Inst_List_def NewInstRegistry_def
        deduct_jobs_nothing)
  have "j_Status j \<noteq> JobPending" if "Job_Get jobReg' k = Inr j" for k j
    using sched_no_job_waits [OF example_reach _ _ n0(1,2) _ _ run that] total_memory_range [of n0]
    by (simp add: caps n0(3) mget_or_def mono_def)
  with run show ?thesis by blast
qed

end
