(* ===== verification/Ingress.thy ===== *)
theory Ingress
  imports Prelude
begin

text \<open>
  Domains and ingresses: \<open>internal/ingress/domain.go\<close> and \<open>internal/ingress/ingress.go\<close>.

  A domain belongs to one application and has one normalised name; an ingress sends a path of
  a domain to a service. The domain registry keeps an index from name to identifier beside
  its table.
\<close>

section \<open>Domains\<close>

datatype DomainStatus = DomainPending | DomainActive | DomainTLSFailed | DomainStatusOther string

record Domain =
  dm_ID :: string
  dm_Name :: string
  dm_ApplicationID :: string
  dm_TLS :: bool
  dm_Status :: DomainStatus

datatype DomainError = DomainAlreadyExists | DomainNotFound | InvalidDomain | DomainHijack

record DomainRegistry =
  domains :: "(string, Domain) gomap"
  domain_names :: "(string, string) gomap"

definition NewDomainRegistry :: DomainRegistry where
  "NewDomainRegistry = \<lparr>domains = [], domain_names = []\<rparr>"

definition NormalizeDomain :: "string \<Rightarrow> string" where
  "NormalizeDomain name = trim_suffix (to_lower (trim_space name)) ''.''"

text \<open>
  A missing owner reads as the zero value of \<open>Domain\<close>, whose application is the empty string.
\<close>

definition Domain_Create ::
  "string \<Rightarrow> string \<Rightarrow> string \<Rightarrow> bool \<Rightarrow> DomainRegistry \<Rightarrow> DomainRegistry \<times> (DomainError + Domain)" where
  "Domain_Create rid name0 appID tls r =
     (let name = NormalizeDomain name0 in
      if name = '''' then (r, Inl InvalidDomain)
      else
        (case map_of (domain_names r) name of
           Some ownerID \<Rightarrow>
             (let owner = (case map_of (domains r) ownerID of Some d \<Rightarrow> dm_ApplicationID d | None \<Rightarrow> '''')
              in if owner \<noteq> appID then (r, Inl DomainHijack) else (r, Inl DomainAlreadyExists))
         | None \<Rightarrow>
             (let d = \<lparr>dm_ID = rid, dm_Name = name, dm_ApplicationID = appID, dm_TLS = tls,
                       dm_Status = DomainPending\<rparr>
              in (r\<lparr>domains := mput rid d (domains r), domain_names := mput name rid (domain_names r)\<rparr>,
                  Inr d))))"

definition Domain_Get :: "DomainRegistry \<Rightarrow> string \<Rightarrow> DomainError + Domain" where
  "Domain_Get r k = (case map_of (domains r) k of None \<Rightarrow> Inl DomainNotFound | Some d \<Rightarrow> Inr d)"

definition Domain_GetByName :: "DomainRegistry \<Rightarrow> string \<Rightarrow> DomainError + Domain" where
  "Domain_GetByName r name0 =
     (let name = NormalizeDomain name0 in
      case map_of (domain_names r) name of
        None \<Rightarrow> Inl DomainNotFound
      | Some k \<Rightarrow> (case map_of (domains r) k of None \<Rightarrow> Inl DomainNotFound | Some d \<Rightarrow> Inr d))"

definition Domain_List :: "DomainRegistry \<Rightarrow> Domain list" where
  "Domain_List r = mvals (domains r)"

definition Domain_UpdateStatus :: "string \<Rightarrow> DomainStatus \<Rightarrow> DomainRegistry \<Rightarrow> DomainRegistry \<times> DomainError option" where
  "Domain_UpdateStatus k st r =
     (case map_of (domains r) k of
        None \<Rightarrow> (r, Some DomainNotFound)
      | Some d \<Rightarrow> (r\<lparr>domains := mput k (d\<lparr>dm_Status := st\<rparr>) (domains r)\<rparr>, None))"

definition Domain_Delete :: "string \<Rightarrow> DomainRegistry \<Rightarrow> DomainRegistry \<times> DomainError option" where
  "Domain_Delete k r =
     (case map_of (domains r) k of
        None \<Rightarrow> (r, Some DomainNotFound)
      | Some d \<Rightarrow>
          (r\<lparr>domain_names := mdel (dm_Name d) (domain_names r), domains := mdel k (domains r)\<rparr>, None))"

definition Domain_EnableTLS :: "string \<Rightarrow> DomainRegistry \<Rightarrow> DomainRegistry \<times> DomainError option" where
  "Domain_EnableTLS k r =
     (case map_of (domains r) k of
        None \<Rightarrow> (r, Some DomainNotFound)
      | Some d \<Rightarrow> (r\<lparr>domains := mput k (d\<lparr>dm_TLS := True\<rparr>) (domains r)\<rparr>, None))"

definition Domain_UpdateTLS :: "string \<Rightarrow> bool \<Rightarrow> DomainRegistry \<Rightarrow> DomainRegistry \<times> DomainError option" where
  "Domain_UpdateTLS k tls r =
     (case map_of (domains r) k of
        None \<Rightarrow> (r, Some DomainNotFound)
      | Some d \<Rightarrow> (r\<lparr>domains := mput k (d\<lparr>dm_TLS := tls\<rparr>) (domains r)\<rparr>, None))"

datatype domain_op =
    DmCreate string string string bool
  | DmStatus string DomainStatus
  | DmDelete string
  | DmEnableTLS string
  | DmUpdateTLS string bool

fun domain_step :: "domain_op \<Rightarrow> DomainRegistry \<Rightarrow> DomainRegistry" where
  "domain_step (DmCreate rid name app tls) r = fst (Domain_Create rid name app tls r)"
| "domain_step (DmStatus k st) r = fst (Domain_UpdateStatus k st r)"
| "domain_step (DmDelete k) r = fst (Domain_Delete k r)"
| "domain_step (DmEnableTLS k) r = fst (Domain_EnableTLS k r)"
| "domain_step (DmUpdateTLS k tls) r = fst (Domain_UpdateTLS k tls r)"

fun domain_op_ok :: "domain_op \<Rightarrow> DomainRegistry \<Rightarrow> bool" where
  "domain_op_ok (DmCreate rid name app tls) r \<longleftrightarrow> map_of (domains r) rid = None"
| "domain_op_ok _ r \<longleftrightarrow> True"

definition domain_inv :: "DomainRegistry \<Rightarrow> bool" where
  "domain_inv r \<longleftrightarrow> keyed dm_ID (domains r) \<and> indexed dm_Name (domains r) (domain_names r) \<and>
     (\<forall>d \<in> set (mvals (domains r)). dm_Name d \<noteq> '''')"

lemma domain_inv_put:
  assumes "domain_inv r" and "map_of (domains r) k = Some d" and "dm_ID d' = dm_ID d" and "dm_Name d' = dm_Name d"
  shows "domain_inv (r\<lparr>domains := mput k d' (domains r)\<rparr>)"
proof -
  have k: "keyed dm_ID (domains r)" using assms(1) by (simp add: domain_inv_def)
  have "dm_ID d' = k" using keyed_map_of [OF k assms(2)] assms(3) by simp
  moreover have "dm_Name d' \<noteq> ''''"
    using assms mvals_lookup [OF assms(2)] by (auto simp: domain_inv_def)
  ultimately show ?thesis
    using assms k
    by (auto simp: domain_inv_def set_mvals in_mput_cases keyed_distinct
        intro!: keyed_mput indexed_rewrite split: if_splits)
qed

lemma domain_inv_Create:
  assumes "domain_inv r" and "map_of (domains r) rid = None"
  shows "domain_inv (fst (Domain_Create rid name app tls r))"
  using assms
  by (auto simp: domain_inv_def Domain_Create_def Let_def set_mvals in_mput_cases keyed_distinct
      intro!: keyed_mput indexed_new split: option.splits if_splits)

lemma domain_inv_Delete: "domain_inv r \<Longrightarrow> domain_inv (fst (Domain_Delete k r))"
  by (auto simp: domain_inv_def Domain_Delete_def intro!: keyed_mdel indexed_del
      dest: in_mvals_mdel split: option.splits)

lemmas domain_rewrite_defs = Domain_UpdateStatus_def Domain_EnableTLS_def Domain_UpdateTLS_def

interpretation domain_machine: invariant_machine NewDomainRegistry domain_op_ok domain_step domain_inv
proof
  show "domain_inv NewDomainRegistry" by (simp add: domain_inv_def NewDomainRegistry_def)
next
  fix s op assume "domain_inv s" and "domain_op_ok op s"
  then show "domain_inv (domain_step op s)"
    by (cases op)
      (auto intro: domain_inv_Create domain_inv_Delete domain_inv_put simp: domain_rewrite_defs
        split: option.splits)
qed

interpretation domain_table: id_registry domains dm_ID Domain_Get Domain_List DomainNotFound
  by unfold_locales (auto simp: Domain_Get_def Domain_List_def split: option.splits)

lemma Domain_GetByName_iff:
  assumes "domain_inv r"
  shows "Domain_GetByName r name = Inr d \<longleftrightarrow> d \<in> set (Domain_List r) \<and> dm_Name d = NormalizeDomain name"
proof
  have kd: "keyed dm_ID (domains r)" and ix: "indexed dm_Name (domains r) (domain_names r)"
    using assms by (simp_all add: domain_inv_def)
  {
    assume "Domain_GetByName r name = Inr d"
    then obtain k where k: "map_of (domain_names r) (NormalizeDomain name) = Some k" "map_of (domains r) k = Some d"
      by (auto simp: Domain_GetByName_def Let_def split: option.splits)
    then show "d \<in> set (Domain_List r) \<and> dm_Name d = NormalizeDomain name"
      using indexed_SomeD [OF ix k(1)] mvals_lookup [OF k(2)] by (auto simp: Domain_List_def)
  next
    assume "d \<in> set (Domain_List r) \<and> dm_Name d = NormalizeDomain name"
    then show "Domain_GetByName r name = Inr d"
      using keyed_mem [OF kd] indexed_lookup [OF ix, of "dm_ID d" d]
      by (simp add: Domain_GetByName_def Domain_List_def Let_def)
  }
qed

section \<open>Ingresses\<close>

record Ingress =
  ing_ID :: string
  ing_DomainID :: string
  ing_ServiceID :: string
  ing_Path :: string

datatype IngressError = IngressAlreadyExists | IngressNotFound

type_synonym IngressRegistry = "(string, Ingress) gomap"

definition NewIngressRegistry :: IngressRegistry where
  "NewIngressRegistry = []"

definition Ingress_Create ::
  "string \<Rightarrow> string \<Rightarrow> string \<Rightarrow> string \<Rightarrow> IngressRegistry \<Rightarrow> IngressRegistry \<times> (IngressError + Ingress)" where
  "Ingress_Create rid domainID serviceID path0 r =
     (let path = (if path0 = '''' then ''/'' else path0) in
      if list_ex (\<lambda>ing. ing_DomainID ing = domainID \<and> ing_Path ing = path) (mvals r)
        then (r, Inl IngressAlreadyExists)
      else
        (let ing = \<lparr>ing_ID = rid, ing_DomainID = domainID, ing_ServiceID = serviceID, ing_Path = path\<rparr>
         in (mput rid ing r, Inr ing)))"

definition Ingress_Get :: "IngressRegistry \<Rightarrow> string \<Rightarrow> IngressError + Ingress" where
  "Ingress_Get r k = (case map_of r k of None \<Rightarrow> Inl IngressNotFound | Some i \<Rightarrow> Inr i)"

definition Ingress_List :: "IngressRegistry \<Rightarrow> Ingress list" where
  "Ingress_List r = mvals r"

definition Ingress_Delete :: "string \<Rightarrow> IngressRegistry \<Rightarrow> IngressRegistry \<times> IngressError option" where
  "Ingress_Delete k r =
     (case map_of r k of None \<Rightarrow> (r, Some IngressNotFound) | Some _ \<Rightarrow> (mdel k r, None))"

datatype ingress_op = InCreate string string string string | InDelete string

fun ingress_step :: "ingress_op \<Rightarrow> IngressRegistry \<Rightarrow> IngressRegistry" where
  "ingress_step (InCreate rid dm srv path) r = fst (Ingress_Create rid dm srv path r)"
| "ingress_step (InDelete k) r = fst (Ingress_Delete k r)"

fun ingress_op_ok :: "ingress_op \<Rightarrow> IngressRegistry \<Rightarrow> bool" where
  "ingress_op_ok (InCreate rid dm srv path) r \<longleftrightarrow> map_of r rid = None"
| "ingress_op_ok (InDelete k) r \<longleftrightarrow> True"

definition ingress_inv :: "IngressRegistry \<Rightarrow> bool" where
  "ingress_inv r \<longleftrightarrow> keyed ing_ID r \<and> distinct (map (\<lambda>i. (ing_DomainID i, ing_Path i)) (mvals r)) \<and>
     (\<forall>i \<in> set (mvals r). ing_Path i \<noteq> '''')"

lemma distinct_map_mdel:
  "distinct (map f (mvals m)) \<Longrightarrow> distinct (map f (mvals (mdel k m)))"
  by (simp add: mvals_def AList.delete_eq distinct_map_filter)

lemma ingress_inv_Create:
  assumes "ingress_inv r" and "map_of r rid = None"
  shows "ingress_inv (fst (Ingress_Create rid dm srv path r))"
proof (cases "list_ex (\<lambda>ing. ing_DomainID ing = dm \<and> ing_Path ing = (if path = '''' then ''/'' else path)) (mvals r)")
  case True
  then show ?thesis using assms(1) by (simp add: Ingress_Create_def Let_def)
next
  case False
  then have "(dm, if path = '''' then ''/'' else path) \<notin> (\<lambda>i. (ing_DomainID i, ing_Path i)) ` set (mvals r)"
    by (auto simp: list_ex_iff)
  moreover have "keyed ing_ID (mput rid i r)" if "ing_ID i = rid" for i
    using assms(1) that by (auto simp: ingress_inv_def intro: keyed_mput)
  ultimately show ?thesis
    using False assms unfolding ingress_inv_def Ingress_Create_def Let_def
    by (auto simp: mput_new [OF assms(2)])
qed

lemma ingress_inv_Delete: "ingress_inv r \<Longrightarrow> ingress_inv (fst (Ingress_Delete k r))"
  by (auto simp: ingress_inv_def Ingress_Delete_def keyed_mdel distinct_map_mdel dest: in_mvals_mdel
      split: option.splits)

interpretation ingress_machine: invariant_machine NewIngressRegistry ingress_op_ok ingress_step ingress_inv
proof
  show "ingress_inv NewIngressRegistry" by (simp add: ingress_inv_def NewIngressRegistry_def)
next
  fix s op assume "ingress_inv s" and "ingress_op_ok op s"
  then show "ingress_inv (ingress_step op s)"
    by (cases op) (auto intro: ingress_inv_Create ingress_inv_Delete)
qed

interpretation ingress_table: id_registry "\<lambda>r. r" ing_ID Ingress_Get Ingress_List IngressNotFound
  by unfold_locales (auto simp: Ingress_Get_def Ingress_List_def split: option.splits)

section \<open>Properties\<close>

text \<open>
  A domain name has one owner. In every reachable state each name is held by at most one
  domain; \<open>GetByName\<close> finds the domain whose stored name is the normalised request; creating
  a name that is held is refused without effect, as a hijack when another application asks;
  and a created domain is found again under the very name it was created with.
\<close>

lemma domain_single_owner:
  assumes "reach NewDomainRegistry domain_op_ok domain_step r"
  shows "distinct (map dm_Name (Domain_List r)) \<and>
    (Domain_GetByName r name = Inr d \<longleftrightarrow> d \<in> set (Domain_List r) \<and> dm_Name d = NormalizeDomain name) \<and>
    (d \<in> set (Domain_List r) \<and> dm_Name d = NormalizeDomain name \<longrightarrow>
       Domain_Create rid name app tls r =
         (r, Inl (if dm_ApplicationID d = app then DomainAlreadyExists else DomainHijack))) \<and>
    (\<forall>r' d'. map_of (domains r) rid = None \<and> Domain_Create rid name app tls r = (r', Inr d') \<longrightarrow>
       Domain_GetByName r' name = Inr d' \<and> dm_ApplicationID d' = app)"
proof -
  have inv: "domain_inv r" using assms by (rule domain_machine.reach_inv)
  then have kd: "keyed dm_ID (domains r)" and ix: "indexed dm_Name (domains r) (domain_names r)"
    and ne: "\<forall>d \<in> set (mvals (domains r)). dm_Name d \<noteq> ''''"
    by (auto simp: domain_inv_def)
  have mem: "v \<in> set (Domain_List r) \<longleftrightarrow> map_of (domains r) (dm_ID v) = Some v" for v
    using kd by (simp add: Domain_List_def keyed_mem)
  note byname = Domain_GetByName_iff [OF inv]
  have "inj_on dm_Name (set (Domain_List r))"
    using indexed_unique [OF ix] mem by (intro inj_onI) (metis option.inject)
  then have "distinct (map dm_Name (Domain_List r))"
    using domain_table.Lst_distinct [OF kd] by (auto simp: distinct_map)
  moreover have "Domain_Create rid name app tls r =
      (r, Inl (if dm_ApplicationID d = app then DomainAlreadyExists else DomainHijack))"
    if "d \<in> set (Domain_List r) \<and> dm_Name d = NormalizeDomain name"
  proof -
    have "map_of (domain_names r) (NormalizeDomain name) = Some (dm_ID d)"
      using that mem indexed_lookup [OF ix, of "dm_ID d" d] by simp
    moreover have "NormalizeDomain name \<noteq> ''''" using that ne by (auto simp: Domain_List_def)
    ultimately show ?thesis using that mem by (simp add: Domain_Create_def Let_def)
  qed
  moreover have "Domain_GetByName r' name = Inr d' \<and> dm_ApplicationID d' = app"
    if "Domain_Create rid name app tls r = (r', Inr d')" for r' d'
    using that by (auto simp: Domain_Create_def Domain_GetByName_def Let_def split: option.splits if_splits)
  ultimately show ?thesis using byname by blast
qed

definition example_domains :: DomainRegistry where
  "example_domains = domain_step (DmCreate ''m1'' '' API.Example.Com.'' ''a1'' False) NewDomainRegistry"

lemma example_domains_reach: "reach NewDomainRegistry domain_op_ok domain_step example_domains"
  unfolding example_domains_def by (intro reach_step reach_init) (simp add: NewDomainRegistry_def)

lemma example_normalize: "NormalizeDomain '' API.Example.Com.'' = ''api.example.com''"
  "NormalizeDomain ''api.example.com'' = ''api.example.com''"
  by (simp_all add: NormalizeDomain_def trim_suffix_def to_lower_def trim_space_def is_space_def
      lower_char_def Let_def char_of_def bit_simps)

lemma domain_single_owner_example:
  "Domain_Create ''m2'' ''api.example.com'' ''a2'' True example_domains = (example_domains, Inl DomainHijack)"
  using domain_single_owner [OF example_domains_reach, of "''api.example.com''"
      "\<lparr>dm_ID = ''m1'', dm_Name = ''api.example.com'', dm_ApplicationID = ''a1'', dm_TLS = False,
        dm_Status = DomainPending\<rparr>" "''m2''" "''a2''" True]
  by (simp add: example_domains_def NewDomainRegistry_def Domain_Create_def Let_def example_normalize
      Domain_List_def)

text \<open>
  At most one ingress serves a path of a domain. In every reachable state the pairs of
  domain and path are distinct and no path is empty, so a request cannot be sent to two
  services by two ingresses with the same domain and path.
\<close>

lemma ingress_path_unique:
  assumes "reach NewIngressRegistry ingress_op_ok ingress_step r"
    and "i \<in> set (Ingress_List r)" and "j \<in> set (Ingress_List r)"
    and "ing_DomainID i = ing_DomainID j" and "ing_Path i = ing_Path j"
  shows "i = j \<and> ing_Path i \<noteq> '''' \<and> Ingress_Get r (ing_ID i) = Inr i \<and>
    Ingress_Create rid (ing_DomainID i) srv (ing_Path i) r = (r, Inl IngressAlreadyExists)"
proof -
  have inv: "ingress_inv r" using assms(1) by (rule ingress_machine.reach_inv)
  then have "inj_on (\<lambda>i. (ing_DomainID i, ing_Path i)) (set (Ingress_List r))"
    by (simp add: ingress_inv_def Ingress_List_def distinct_map)
  with assms have "i = j" by (auto dest: inj_onD)
  moreover have "ing_Path i \<noteq> ''''" using inv assms(2) by (simp add: ingress_inv_def Ingress_List_def)
  moreover have "Ingress_Get r (ing_ID i) = Inr i"
    using inv assms(2) ingress_table.Get_iff_Lst by (auto simp: ingress_inv_def)
  ultimately show ?thesis
    using assms(2) by (auto simp: Ingress_Create_def Let_def list_ex_iff Ingress_List_def)
qed

lemma ingress_path_unique_example:
  "Ingress_Create ''g2'' ''m1'' ''s9'' ''/'' (ingress_step (InCreate ''g1'' ''m1'' ''s1'' '''') NewIngressRegistry) =
    (ingress_step (InCreate ''g1'' ''m1'' ''s1'' '''') NewIngressRegistry, Inl IngressAlreadyExists)"
proof -
  let ?i = "\<lparr>ing_ID = ''g1'', ing_DomainID = ''m1'', ing_ServiceID = ''s1'', ing_Path = ''/''\<rparr>"
  let ?r = "ingress_step (InCreate ''g1'' ''m1'' ''s1'' '''') NewIngressRegistry"
  have "reach NewIngressRegistry ingress_op_ok ingress_step ?r"
    by (intro reach_step reach_init) (simp add: NewIngressRegistry_def)
  moreover have "?i \<in> set (Ingress_List ?r)"
    by (simp add: NewIngressRegistry_def Ingress_Create_def Ingress_List_def Let_def)
  ultimately show ?thesis using ingress_path_unique [of ?r ?i ?i "''g2''" "''s9''"] by simp
qed

text \<open>
  Normalisation strips one trailing dot only. A domain created as a name with two trailing
  dots is stored with one, and looking that stored name up strips it again and does not find
  the domain.
\<close>

lemma domain_stored_name_unreachable:
  "\<exists>r d. Domain_Create rid ''example.com..'' app tls NewDomainRegistry = (r, Inr d) \<and>
     dm_Name d = ''example.com.'' \<and> Domain_GetByName r (dm_Name d) = Inl DomainNotFound"
  by (simp add: Domain_Create_def Domain_GetByName_def NewDomainRegistry_def NormalizeDomain_def
      trim_suffix_def to_lower_def trim_space_def is_space_def lower_char_def Let_def)

end
