(* ===== verification/Route.thy ===== *)
theory Route
  imports Prelude
begin

text \<open>
  Services and the HTTP proxy: \<open>internal/route/service.go\<close>, \<open>registry.go\<close>, \<open>proxy.go\<close> and
  \<open>proxy_impl.go\<close>.

  The proxy holds a routing table whose entries point to request counters. The counters are
  64-bit words in an explicit store, because a new routing table shares the counters of the
  old one. The TLS redirect predicate is an optional function, nil when it is not configured.
  Listening, TLS configuration and the reverse proxy of the Go library are not modelled: a
  request is answered by the endpoint it is forwarded to, a redirect or an error status.
\<close>

section \<open>Services\<close>

record Service =
  sv_ID :: string
  sv_ApplicationID :: string
  sv_TargetPort :: int
  sv_Protocol :: string
  sv_CreatedAt :: time

datatype ServiceError = ServiceNotFound

type_synonym ServiceRegistry = "(string, Service) gomap"

definition NewServiceRegistry :: ServiceRegistry where
  "NewServiceRegistry = []"

definition Service_Create ::
  "string \<Rightarrow> time \<Rightarrow> string \<Rightarrow> int \<Rightarrow> string \<Rightarrow> ServiceRegistry \<Rightarrow> ServiceRegistry \<times> Service" where
  "Service_Create rid now appID targetPort protocol r =
     (let srv = \<lparr>sv_ID = rid, sv_ApplicationID = appID, sv_TargetPort = targetPort,
                 sv_Protocol = protocol, sv_CreatedAt = now\<rparr>
      in (mput rid srv r, srv))"

definition Service_Get :: "ServiceRegistry \<Rightarrow> string \<Rightarrow> ServiceError + Service" where
  "Service_Get r k = (case map_of r k of None \<Rightarrow> Inl ServiceNotFound | Some s \<Rightarrow> Inr s)"

definition Service_List :: "ServiceRegistry \<Rightarrow> Service list" where
  "Service_List r = mvals r"

definition Service_Update ::
  "string \<Rightarrow> int \<Rightarrow> string \<Rightarrow> ServiceRegistry \<Rightarrow> ServiceRegistry \<times> (ServiceError + Service)" where
  "Service_Update k targetPort protocol r =
     (case map_of r k of
        None \<Rightarrow> (r, Inl ServiceNotFound)
      | Some srv \<Rightarrow>
          (let srv1 = srv\<lparr>sv_TargetPort := targetPort, sv_Protocol := protocol\<rparr>
           in (mput k srv1 r, Inr srv1)))"

definition Service_Delete :: "string \<Rightarrow> ServiceRegistry \<Rightarrow> ServiceRegistry \<times> ServiceError option" where
  "Service_Delete k r =
     (case map_of r k of None \<Rightarrow> (r, Some ServiceNotFound) | Some _ \<Rightarrow> (mdel k r, None))"

datatype service_op =
    SvCreate string time string int string
  | SvUpdate string int string
  | SvDelete string

fun service_step :: "service_op \<Rightarrow> ServiceRegistry \<Rightarrow> ServiceRegistry" where
  "service_step (SvCreate rid now app port proto) r = fst (Service_Create rid now app port proto r)"
| "service_step (SvUpdate k port proto) r = fst (Service_Update k port proto r)"
| "service_step (SvDelete k) r = fst (Service_Delete k r)"

lemma service_step_keyed: "keyed sv_ID r \<Longrightarrow> keyed sv_ID (service_step op r)"
  by (cases op)
    (auto simp: Service_Create_def Service_Update_def Service_Delete_def Let_def
      intro!: keyed_mput keyed_mdel split: option.splits dest: keyed_map_of)

interpretation service_machine:
  invariant_machine NewServiceRegistry "\<lambda>_ _. True" service_step "keyed sv_ID"
  by unfold_locales (simp add: NewServiceRegistry_def, simp add: service_step_keyed)

interpretation service_table: id_registry "\<lambda>r. r" sv_ID Service_Get Service_List ServiceNotFound
  by unfold_locales (auto simp: Service_Get_def Service_List_def split: option.splits)

section \<open>The proxy\<close>

record Endpoint =
  ep_IP :: string
  ep_Port :: int

record RouteRule =
  rl_Host :: string
  rl_Path :: string
  rl_Endpoints :: "Endpoint list"

text \<open>A route entry is a rule and the address of its counter.\<close>

type_synonym RouteEntry = "RouteRule \<times> nat"

record HTTPProxy =
  px_routes :: "RouteEntry list"
  px_counters :: "64 word list"

record Request =
  rq_Host :: string
  rq_Path :: string
  rq_URI :: string

datatype Response = Redirect string | NotFound404 | NoEndpoints503 | Forward Endpoint

definition NewHTTPProxy :: HTTPProxy where
  "NewHTTPProxy = \<lparr>px_routes = [], px_counters = []\<rparr>"

definition old_counter :: "RouteEntry list \<Rightarrow> RouteRule \<Rightarrow> nat option" where
  "old_counter old rule =
     map_option snd (find (\<lambda>e. rl_Host (fst e) = rl_Host rule \<and> rl_Path (fst e) = rl_Path rule) old)"

fun build_routes :: "RouteEntry list \<Rightarrow> RouteRule list \<Rightarrow> 64 word list \<Rightarrow> RouteEntry list \<times> 64 word list" where
  "build_routes old [] cs = ([], cs)"
| "build_routes old (rule # rules) cs =
     (case old_counter old rule of
        Some a \<Rightarrow> (let (es, cs') = build_routes old rules cs in ((rule, a) # es, cs'))
      | None \<Rightarrow> (let (es, cs') = build_routes old rules (cs @ [0]) in ((rule, length cs) # es, cs')))"

definition UpdateRoutes :: "RouteRule list \<Rightarrow> HTTPProxy \<Rightarrow> HTTPProxy" where
  "UpdateRoutes rules p =
     (let (es, cs) = build_routes (px_routes p) rules (px_counters p)
      in p\<lparr>px_routes := es, px_counters := cs\<rparr>)"

definition request_host :: "string \<Rightarrow> string" where
  "request_host h = trim_suffix (to_lower (takeWhile (\<lambda>c. c \<noteq> CHR '':'') h)) ''.''"

definition rule_matches :: "string \<Rightarrow> string \<Rightarrow> RouteRule \<Rightarrow> bool" where
  "rule_matches host path rule \<longleftrightarrow>
     (rl_Host rule = '''' \<or> rl_Host rule = host) \<and> (rl_Path rule = '''' \<or> has_prefix path (rl_Path rule))"

definition handleRequestInternal ::
  "(string \<Rightarrow> bool) option \<Rightarrow> bool \<Rightarrow> Request \<Rightarrow> HTTPProxy \<Rightarrow> HTTPProxy \<times> Response" where
  "handleRequestInternal isTLSEnabled isTLS rq p =
     (let host = request_host (rq_Host rq) in
      if \<not> isTLS \<and> (case isTLSEnabled of None \<Rightarrow> False | Some f \<Rightarrow> f host)
        then (p, Redirect (''https://'' @ rq_Host rq @ rq_URI rq))
      else
        (case find (\<lambda>e. rule_matches host (rq_Path rq) (fst e)) (px_routes p) of
           None \<Rightarrow> (p, NotFound404)
         | Some (rule, a) \<Rightarrow>
             if rl_Endpoints rule = [] then (p, NoEndpoints503)
             else
               (let c = px_counters p ! a + 1;
                    idx = unat c mod length (rl_Endpoints rule)
                in (p\<lparr>px_counters := (px_counters p)[a := c]\<rparr>, Forward (rl_Endpoints rule ! idx)))))"

section \<open>Counters stay allocated\<close>

definition proxy_inv :: "HTTPProxy \<Rightarrow> bool" where
  "proxy_inv p \<longleftrightarrow> (\<forall>e \<in> set (px_routes p). snd e < length (px_counters p))"

datatype proxy_op = PxUpdate "RouteRule list" | PxRequest "(string \<Rightarrow> bool) option" bool Request

fun proxy_step :: "proxy_op \<Rightarrow> HTTPProxy \<Rightarrow> HTTPProxy" where
  "proxy_step (PxUpdate rules) p = UpdateRoutes rules p"
| "proxy_step (PxRequest f tls rq) p = fst (handleRequestInternal f tls rq p)"

lemma build_routes_rules: "build_routes old rules cs = (es, cs') \<Longrightarrow> map fst es = rules"
  by (induction rules arbitrary: cs es) (auto split: option.splits prod.splits)

lemma build_routes_heap: "build_routes old rules cs = (es, cs') \<Longrightarrow> \<exists>new. cs' = cs @ new"
proof (induction rules arbitrary: cs es)
  case (Cons rule rules)
  then show ?case by (cases "old_counter old rule") (fastforce split: prod.splits)+
qed simp

lemma build_routes_alloc:
  assumes "build_routes old rules cs = (es, cs')" and "\<forall>e \<in> set old. snd e < length cs"
  shows "\<forall>e \<in> set es. snd e < length cs'"
  using assms
proof (induction rules arbitrary: cs es)
  case (Cons rule rules)
  show ?case
  proof (cases "old_counter old rule")
    case None
    obtain es1 where b: "build_routes old rules (cs @ [0]) = (es1, cs')" and es: "es = (rule, length cs) # es1"
      using Cons.prems(1) None by (auto split: prod.splits)
    obtain new where "cs' = (cs @ [0]) @ new" using build_routes_heap [OF b] by blast
    moreover have "\<forall>e \<in> set es1. snd e < length cs'"
      using Cons.prems(2) by (intro Cons.IH [OF b]) fastforce
    ultimately show ?thesis using es by auto
  next
    case (Some a)
    obtain es1 where b: "build_routes old rules cs = (es1, cs')" and es: "es = (rule, a) # es1"
      using Cons.prems(1) Some by (auto split: prod.splits)
    obtain new where "cs' = cs @ new" using build_routes_heap [OF b] by blast
    moreover have "a < length cs"
      using Some Cons.prems(2) by (auto simp: old_counter_def dest!: find_SomeD)
    ultimately show ?thesis using Cons.IH [OF b Cons.prems(2)] es by auto
  qed
qed simp

interpretation proxy_machine: invariant_machine NewHTTPProxy "\<lambda>_ _. True" proxy_step proxy_inv
proof
  show "proxy_inv NewHTTPProxy" by (simp add: proxy_inv_def NewHTTPProxy_def)
next
  fix s op assume inv: "proxy_inv s"
  show "proxy_inv (proxy_step op s)"
  proof (cases op)
    case (PxUpdate rules)
    with inv show ?thesis
      using build_routes_alloc [of "px_routes s" rules "px_counters s"]
      by (auto simp: proxy_inv_def UpdateRoutes_def split: prod.splits)
  next
    case (PxRequest f tls rq)
    with inv show ?thesis
      by (auto simp: proxy_inv_def handleRequestInternal_def Let_def split: option.splits)
  qed
qed

lemma UpdateRoutes_rules: "map fst (px_routes (UpdateRoutes rules p)) = rules"
  using build_routes_rules [of "px_routes p" rules "px_counters p"]
  by (simp add: UpdateRoutes_def split: prod.splits)

lemma UpdateRoutes_find:
  "map_option fst (find (\<lambda>e. P (fst e)) (px_routes (UpdateRoutes rules p))) = find P rules"
  using find_map [of P fst "px_routes (UpdateRoutes rules p)"] by (simp add: UpdateRoutes_rules comp_def)

section \<open>Properties\<close>

text \<open>
  The answer of the proxy, on every branch. After a routing table is installed, a request
  that has to use TLS and does not is redirected; otherwise the first rule of the table that
  matches the normalised host and the path decides: no such rule gives 404, a rule without
  endpoints 503, and any other rule forwards to one of its own endpoints.
\<close>

lemma proxy_first_match_decides:
  assumes "reach NewHTTPProxy (\<lambda>_ _. True) proxy_step p"
  shows "case handleRequestInternal isTLSEnabled isTLS rq (UpdateRoutes rules p) of (p', resp) \<Rightarrow>
    let host = request_host (rq_Host rq);
        must_redirect = (\<not> isTLS \<and> (\<exists>f. isTLSEnabled = Some f \<and> f host))
    in proxy_inv p' \<and> map fst (px_routes p') = rules \<and>
       (must_redirect \<longrightarrow> resp = Redirect (''https://'' @ rq_Host rq @ rq_URI rq)) \<and>
       (\<not> must_redirect \<longrightarrow>
          (case find (rule_matches host (rq_Path rq)) rules of
             None \<Rightarrow> resp = NotFound404
           | Some rule \<Rightarrow>
               if rl_Endpoints rule = [] then resp = NoEndpoints503
               else \<exists>ep \<in> set (rl_Endpoints rule). resp = Forward ep))"
proof -
  have inv: "proxy_inv (fst (handleRequestInternal isTLSEnabled isTLS rq (UpdateRoutes rules p)))"
    using proxy_machine.reach_inv [OF reach_step [OF reach_step [OF assms, of "PxUpdate rules"],
          of "PxRequest isTLSEnabled isTLS rq"]] by simp
  have f: "map_option fst (find (\<lambda>e. rule_matches (request_host (rq_Host rq)) (rq_Path rq) (fst e))
      (px_routes (UpdateRoutes rules p))) = find (rule_matches (request_host (rq_Host rq)) (rq_Path rq)) rules"
    by (rule UpdateRoutes_find)
  show ?thesis
    using inv UpdateRoutes_rules [of rules p]
    by (auto simp: handleRequestInternal_def Let_def f [symmetric] split: option.splits)
qed

definition example_rule :: RouteRule where
  "example_rule = \<lparr>rl_Host = ''a.com'', rl_Path = ''/'',
     rl_Endpoints = [\<lparr>ep_IP = ''10.0.0.1'', ep_Port = 30000\<rparr>, \<lparr>ep_IP = ''10.0.0.2'', ep_Port = 30000\<rparr>]\<rparr>"

definition example_request :: Request where
  "example_request = \<lparr>rq_Host = ''A.com:80'', rq_Path = ''/x'', rq_URI = ''/x''\<rparr>"

lemma example_matches: "rule_matches (request_host (rq_Host example_request)) (rq_Path example_request) example_rule"
  by (simp add: rule_matches_def request_host_def example_request_def example_rule_def trim_suffix_def
      to_lower_def lower_char_def has_prefix_def char_of_def bit_simps Let_def)

lemma proxy_first_match_decides_example:
  "\<exists>p' ep. handleRequestInternal None False example_request (UpdateRoutes [example_rule] NewHTTPProxy) =
     (p', Forward ep) \<and> ep \<in> set (rl_Endpoints example_rule)"
proof -
  have "rl_Endpoints example_rule \<noteq> []" by (simp add: example_rule_def)
  then show ?thesis
    using example_matches
      proxy_first_match_decides [OF reach_init, where isTLSEnabled = None and isTLS = False
        and rq = example_request and rules = "[example_rule]"]
    by (cases "handleRequestInternal None False example_request (UpdateRoutes [example_rule] NewHTTPProxy)")
      (auto simp: Let_def)
qed

text \<open>A burst of requests, answered one after the other.\<close>

fun serve :: "bool \<Rightarrow> Request \<Rightarrow> nat \<Rightarrow> HTTPProxy \<Rightarrow> Response list" where
  "serve isTLS rq 0 p = []"
| "serve isTLS rq (Suc n) p =
     (let (p', resp) = handleRequestInternal None isTLS rq p in resp # serve isTLS rq n p')"

lemma serve_round_robin:
  assumes "find (\<lambda>e. rule_matches (request_host (rq_Host rq)) (rq_Path rq) (fst e)) (px_routes p) = Some (rule, a)"
    and "rl_Endpoints rule \<noteq> []" and "a < length (px_counters p)"
    and "unat (px_counters p ! a) + n < 2 ^ 64"
  shows "serve isTLS rq n p =
    map (\<lambda>t. Forward (rl_Endpoints rule ! ((Suc (unat (px_counters p ! a)) + t) mod length (rl_Endpoints rule)))) [0..<n]"
  using assms
proof (induction n arbitrary: p)
  case (Suc n)
  let ?p = "p\<lparr>px_counters := (px_counters p)[a := px_counters p ! a + 1]\<rparr>"
  have un: "unat (px_counters p ! a + 1) = Suc (unat (px_counters p ! a))"
    using Suc.prems(4) by (simp add: unat_word_ariths)
  have "serve isTLS rq n ?p =
      map (\<lambda>t. Forward (rl_Endpoints rule ! ((Suc (Suc (unat (px_counters p ! a))) + t) mod length (rl_Endpoints rule)))) [0..<n]"
    using Suc.IH [of ?p] Suc.prems un by simp
  moreover have "serve isTLS rq (Suc n) p =
      Forward (rl_Endpoints rule ! (Suc (unat (px_counters p ! a)) mod length (rl_Endpoints rule))) # serve isTLS rq n ?p"
    using Suc.prems un by (simp add: handleRequestInternal_def Let_def)
  ultimately show ?case
    by (simp add: upt_rec [of 0 "Suc n"] map_Suc_upt [symmetric] comp_def del: upt_Suc)
qed simp

lemma rotate_as_map: "rotate k xs = map (\<lambda>t. xs ! ((k + t) mod length xs)) [0..<length xs]"
  by (rule nth_equalityI) (auto simp: nth_rotate)

text \<open>
  Load balancing is round robin. As long as the 64-bit counter of a rule does not wrap, a
  burst of as many requests as the rule has endpoints visits every endpoint exactly once, in
  the order of the rule rotated by the counter; two instances never share a burst unevenly.
\<close>

lemma proxy_round_robin:
  assumes "find (\<lambda>e. rule_matches (request_host (rq_Host rq)) (rq_Path rq) (fst e)) (px_routes p) = Some (rule, a)"
    and "rl_Endpoints rule \<noteq> []" and "proxy_inv p"
    and "unat (px_counters p ! a) + length (rl_Endpoints rule) < 2 ^ 64"
  shows "serve isTLS rq (length (rl_Endpoints rule)) p =
      map Forward (rotate (Suc (unat (px_counters p ! a))) (rl_Endpoints rule)) \<and>
    mset (serve isTLS rq (length (rl_Endpoints rule)) p) = mset (map Forward (rl_Endpoints rule))"
proof -
  have "a < length (px_counters p)"
    using find_SomeD [OF assms(1)] assms(3) by (auto simp: proxy_inv_def)
  then have eq: "serve isTLS rq (length (rl_Endpoints rule)) p =
      map Forward (rotate (Suc (unat (px_counters p ! a))) (rl_Endpoints rule))"
    using serve_round_robin [OF assms(1,2) _ assms(4)]
    unfolding rotate_as_map [of "Suc (unat (px_counters p ! a))" "rl_Endpoints rule"] by (simp add: comp_def)
  have "mset (rotate k xs) = mset xs" for k and xs :: "Endpoint list"
    by (simp add: rotate_drop_take union_code [symmetric])
      (metis add.commute append_take_drop_id mset_append)
  then show ?thesis unfolding eq mset_map by (simp del: rotate_Suc)
qed

lemma proxy_round_robin_example:
  "serve False example_request 2 (UpdateRoutes [example_rule] NewHTTPProxy) =
    [Forward \<lparr>ep_IP = ''10.0.0.2'', ep_Port = 30000\<rparr>, Forward \<lparr>ep_IP = ''10.0.0.1'', ep_Port = 30000\<rparr>]"
proof -
  let ?p = "UpdateRoutes [example_rule] NewHTTPProxy"
  have p: "?p = \<lparr>px_routes = [(example_rule, 0)], px_counters = [0]\<rparr>"
    by (simp add: UpdateRoutes_def NewHTTPProxy_def old_counter_def)
  have "serve False example_request (length (rl_Endpoints example_rule)) ?p =
      map Forward (rotate (Suc (unat (px_counters ?p ! 0))) (rl_Endpoints example_rule))"
  proof (rule conjunct1 [OF proxy_round_robin])
    show "find (\<lambda>e. rule_matches (request_host (rq_Host example_request)) (rq_Path example_request) (fst e))
        (px_routes ?p) = Some (example_rule, 0)"
      using example_matches by (simp add: p)
  qed (simp_all add: p proxy_inv_def, simp_all add: example_rule_def)
  moreover have "length (rl_Endpoints example_rule) = 2" by (simp add: example_rule_def)
  moreover have "map Forward (rotate (Suc (unat (px_counters ?p ! 0))) (rl_Endpoints example_rule)) =
      [Forward \<lparr>ep_IP = ''10.0.0.2'', ep_Port = 30000\<rparr>, Forward \<lparr>ep_IP = ''10.0.0.1'', ep_Port = 30000\<rparr>]"
    unfolding p by (simp add: example_rule_def)
  ultimately show ?thesis by simp
qed

text \<open>
  Installing a new routing table does not restart the rotation: a rule whose host and path
  were routed before keeps the counter, with its value, of the first old rule for them.
\<close>

lemma proxy_update_keeps_rotation:
  assumes "old_counter (px_routes p) rule = Some a" and "proxy_inv p" and "i < length rules" and "rules ! i = rule"
  shows "px_routes (UpdateRoutes rules p) ! i = (rule, a) \<and>
    px_counters (UpdateRoutes rules p) ! a = px_counters p ! a"
proof -
  obtain es cs where b: "build_routes (px_routes p) rules (px_counters p) = (es, cs)" by fastforce
  have "build_routes old rs ds = (fs, ds') \<Longrightarrow> old_counter old rule = Some a \<Longrightarrow> k < length rs \<Longrightarrow> rs ! k = rule \<Longrightarrow>
      fs ! k = (rule, a)" for old rs ds fs ds' k
  proof (induction rs arbitrary: ds fs k)
    case (Cons x rs)
    then show ?case by (cases k) (auto split: option.splits prod.splits)
  qed simp
  from this [OF b assms(1,3,4)] have "es ! i = (rule, a)" .
  moreover have "a < length (px_counters p)"
    using assms(1,2) by (auto simp: old_counter_def proxy_inv_def dest!: find_SomeD)
  moreover obtain new where "cs = px_counters p @ new" using build_routes_heap [OF b] by blast
  ultimately show ?thesis by (simp add: UpdateRoutes_def b nth_append)
qed

lemma proxy_update_keeps_rotation_example:
  "let p = fst (handleRequestInternal None False example_request (UpdateRoutes [example_rule] NewHTTPProxy))
   in px_counters (UpdateRoutes [example_rule] p) ! 0 = 1"
proof -
  let ?p = "fst (handleRequestInternal None False example_request (UpdateRoutes [example_rule] NewHTTPProxy))"
  have p: "?p = \<lparr>px_routes = [(example_rule, 0)], px_counters = [1]\<rparr>"
    using example_matches
    by (simp add: UpdateRoutes_def NewHTTPProxy_def old_counter_def handleRequestInternal_def Let_def
        example_rule_def)
  have "old_counter (px_routes ?p) example_rule = Some 0" "proxy_inv ?p"
    by (simp_all add: p old_counter_def proxy_inv_def)
  from proxy_update_keeps_rotation [OF this, of 0 "[example_rule]"] show ?thesis by (simp add: p)
qed

end
