(* ===== verification/Routing.thy ===== *)
theory Routing
  imports Application Instance Node Ingress Route
begin

text \<open>
  The routing reconciler, \<open>internal/scheduler/routing_reconciler.go\<close>: it computes the routing
  table of the proxy from the ingresses, domains, services, applications, instances and nodes
  and installs it. Its lemmas connect the registries with the answers of the proxy: a request
  is only ever forwarded to a healthy instance of the application that owns the host.
\<close>

section \<open>The reconciler\<close>

definition target_host_port :: "int \<Rightarrow> PortMapping list \<Rightarrow> int" where
  "target_host_port targetPort ports =
     (case find (\<lambda>p. pm_Internal p = targetPort) ports of None \<Rightarrow> 0 | Some p \<Rightarrow> pm_External p)"

text \<open>One round of the loop over the instances: the endpoint it appends, if any.\<close>

definition instance_endpoint :: "(string, Node) gomap \<Rightarrow> Service \<Rightarrow> Instance \<Rightarrow> Endpoint option" where
  "instance_endpoint nodeMap srv inst =
     (if i_ApplicationID inst \<noteq> sv_ApplicationID srv then None
      else if i_Draining inst \<or> i_Status inst \<noteq> StatusRunning \<or> i_Health inst \<noteq> HealthHealthy then None
      else if i_ExecutionID inst = '''' \<or> i_NodeID inst = '''' then None
      else
        (case map_of nodeMap (i_NodeID inst) of
           None \<Rightarrow> None
         | Some n \<Rightarrow>
             if n_IPAddress n = '''' then None
             else
               (let port = target_host_port (sv_TargetPort srv) (i_Ports inst)
                in if port > 0 then Some \<lparr>ep_IP = n_IPAddress n, ep_Port = port\<rparr> else None)))"

text \<open>One round of the loop over the ingresses: the rule it appends, if any.\<close>

definition ingress_rule ::
  "(string, Node) gomap \<Rightarrow> (string, Application) gomap \<Rightarrow> (string, Service) gomap \<Rightarrow> (string, Domain) gomap
    \<Rightarrow> Instance list \<Rightarrow> Ingress \<Rightarrow> RouteRule option" where
  "ingress_rule nodeMap appMap serviceMap domainMap insts ing =
     (case map_of domainMap (ing_DomainID ing) of
        None \<Rightarrow> None
      | Some domain \<Rightarrow>
          if map_of appMap (dm_ApplicationID domain) = None then None
          else
            (case map_of serviceMap (ing_ServiceID ing) of
               None \<Rightarrow> None
             | Some srv \<Rightarrow>
                 if sv_ApplicationID srv \<noteq> dm_ApplicationID domain then None
                 else Some \<lparr>rl_Host = dm_Name domain, rl_Path = ing_Path ing,
                            rl_Endpoints = List.map_filter (instance_endpoint nodeMap srv) insts\<rparr>))"

definition route_rules ::
  "AppRegistry \<Rightarrow> InstRegistry \<Rightarrow> NodeRegistry \<Rightarrow> ServiceRegistry \<Rightarrow> DomainRegistry \<Rightarrow> IngressRegistry
    \<Rightarrow> RouteRule list" where
  "route_rules appReg instReg nodeReg routeReg domainReg ingressReg =
     List.map_filter
       (ingress_rule (by_id n_ID (Node_List nodeReg)) (by_id a_ID (App_List appReg))
          (by_id sv_ID (Service_List routeReg)) (by_id dm_ID (Domain_List domainReg))
          (Inst_List instReg))
       (Ingress_List ingressReg)"

definition Routing_Reconcile ::
  "AppRegistry \<Rightarrow> InstRegistry \<Rightarrow> NodeRegistry \<Rightarrow> ServiceRegistry \<Rightarrow> DomainRegistry \<Rightarrow> IngressRegistry
    \<Rightarrow> HTTPProxy \<Rightarrow> HTTPProxy" where
  "Routing_Reconcile appReg instReg nodeReg routeReg domainReg ingressReg proxy =
     UpdateRoutes (route_rules appReg instReg nodeReg routeReg domainReg ingressReg) proxy"

section \<open>What the rules contain\<close>

text \<open>The instances a service may send traffic to, and the endpoint of such an instance.\<close>

definition serving :: "NodeRegistry \<Rightarrow> string \<Rightarrow> int \<Rightarrow> Instance \<Rightarrow> Endpoint \<Rightarrow> bool" where
  "serving nodeReg app port inst ep \<longleftrightarrow>
     i_ApplicationID inst = app \<and> \<not> i_Draining inst \<and> i_Status inst = StatusRunning \<and>
     i_Health inst = HealthHealthy \<and> i_ExecutionID inst \<noteq> '''' \<and>
     (\<exists>n. Node_Get nodeReg (i_NodeID inst) = Inr n \<and> i_NodeID inst \<noteq> '''' \<and> n_IPAddress n \<noteq> '''' \<and>
        target_host_port port (i_Ports inst) > 0 \<and>
        ep = \<lparr>ep_IP = n_IPAddress n, ep_Port = target_host_port port (i_Ports inst)\<rparr>)"

lemma set_map_filter: "y \<in> set (List.map_filter f xs) \<longleftrightarrow> (\<exists>x \<in> set xs. f x = Some y)"
  by (force simp: map_filter_def)

lemma Node_by_id:
  assumes "keyed n_ID r"
  shows "map_of (by_id n_ID (Node_List r)) k = Some n \<longleftrightarrow> Node_Get r k = Inr n"
  using node_table.Get_iff_Lst [OF assms] map_of_by_id [OF node_table.Lst_distinct [OF assms]] by metis

lemma instance_endpoint_serving:
  assumes "keyed n_ID nodeReg"
  shows "instance_endpoint (by_id n_ID (Node_List nodeReg)) srv inst = Some ep \<longleftrightarrow>
    serving nodeReg (sv_ApplicationID srv) (sv_TargetPort srv) inst ep"
proof (cases "map_of (by_id n_ID (Node_List nodeReg)) (i_NodeID inst)")
  case None
  then have "Node_Get nodeReg (i_NodeID inst) \<noteq> Inr n" for n
    using Node_by_id [OF assms] by (metis option.distinct(1))
  with None show ?thesis by (auto simp: instance_endpoint_def serving_def)
next
  case (Some n)
  then have "Node_Get nodeReg (i_NodeID inst) = Inr n" using Node_by_id [OF assms] by blast
  with Some show ?thesis by (auto simp: instance_endpoint_def serving_def Let_def)
qed

lemma ingress_rule_Some:
  "ingress_rule nodeMap appMap serviceMap domainMap insts ing = Some rule \<longleftrightarrow>
    (\<exists>dm srv app. map_of domainMap (ing_DomainID ing) = Some dm \<and>
       map_of appMap (dm_ApplicationID dm) = Some app \<and> map_of serviceMap (ing_ServiceID ing) = Some srv \<and>
       sv_ApplicationID srv = dm_ApplicationID dm \<and>
       rule = \<lparr>rl_Host = dm_Name dm, rl_Path = ing_Path ing,
         rl_Endpoints = List.map_filter (instance_endpoint nodeMap srv) insts\<rparr>)"
  by (cases "map_of domainMap (ing_DomainID ing)"; cases "map_of serviceMap (ing_ServiceID ing)")
    (auto simp: ingress_rule_def)

lemma route_rules_iff:
  assumes "keyed n_ID nodeReg" and "keyed a_ID (apps appReg)" and "keyed sv_ID routeReg"
    and "keyed dm_ID (domains domainReg)"
  shows "rule \<in> set (route_rules appReg instReg nodeReg routeReg domainReg ingressReg) \<longleftrightarrow>
    (\<exists>ing dm srv app. ing \<in> set (Ingress_List ingressReg) \<and> Domain_Get domainReg (ing_DomainID ing) = Inr dm \<and>
       App_Get appReg (dm_ApplicationID dm) = Inr app \<and> Service_Get routeReg (ing_ServiceID ing) = Inr srv \<and>
       sv_ApplicationID srv = dm_ApplicationID dm \<and>
       rule = \<lparr>rl_Host = dm_Name dm, rl_Path = ing_Path ing,
         rl_Endpoints = List.map_filter (instance_endpoint (by_id n_ID (Node_List nodeReg)) srv) (Inst_List instReg)\<rparr>)"
proof -
  have d: "map_of (by_id dm_ID (Domain_List domainReg)) k = Some dm \<longleftrightarrow> Domain_Get domainReg k = Inr dm" for k dm
    using domain_table.Get_iff_Lst [OF assms(4)] map_of_by_id [OF domain_table.Lst_distinct [OF assms(4)]] by metis
  have s: "map_of (by_id sv_ID (Service_List routeReg)) k = Some srv \<longleftrightarrow> Service_Get routeReg k = Inr srv" for k srv
    using service_table.Get_iff_Lst [OF assms(3)] map_of_by_id [OF service_table.Lst_distinct [OF assms(3)]] by metis
  have a: "map_of (by_id a_ID (App_List appReg)) k = Some app \<longleftrightarrow> App_Get appReg k = Inr app" for k app
    using app_table.Get_iff_Lst [OF assms(2)] map_of_by_id [OF app_table.Lst_distinct [OF assms(2)]] by metis
  show ?thesis
    unfolding route_rules_def set_map_filter ingress_rule_Some d s a by blast
qed

lemma route_ruleE:
  assumes "rule \<in> set (route_rules appReg instReg nodeReg routeReg domainReg ingressReg)"
    and "keyed n_ID nodeReg" and "keyed a_ID (apps appReg)" and "keyed sv_ID routeReg"
    and "keyed dm_ID (domains domainReg)"
  obtains ing dm srv app where "ing \<in> set (Ingress_List ingressReg)"
    "Domain_Get domainReg (ing_DomainID ing) = Inr dm" "App_Get appReg (dm_ApplicationID dm) = Inr app"
    "Service_Get routeReg (ing_ServiceID ing) = Inr srv" "sv_ApplicationID srv = dm_ApplicationID dm"
    "rl_Host rule = dm_Name dm" "rl_Path rule = ing_Path ing"
    "rl_Endpoints rule =
       List.map_filter (instance_endpoint (by_id n_ID (Node_List nodeReg)) srv) (Inst_List instReg)"
proof -
  from assms(1) obtain ing dm srv app where "ing \<in> set (Ingress_List ingressReg)"
    "Domain_Get domainReg (ing_DomainID ing) = Inr dm" "App_Get appReg (dm_ApplicationID dm) = Inr app"
    "Service_Get routeReg (ing_ServiceID ing) = Inr srv" "sv_ApplicationID srv = dm_ApplicationID dm"
    and rule: "rule = \<lparr>rl_Host = dm_Name dm, rl_Path = ing_Path ing,
      rl_Endpoints = List.map_filter (instance_endpoint (by_id n_ID (Node_List nodeReg)) srv) (Inst_List instReg)\<rparr>"
    unfolding route_rules_iff [OF assms(2-5)] by blast
  then show thesis by (intro that [of ing dm app srv]) (simp_all add: rule)
qed

text \<open>
  The registries as the rest of the program keeps them; every hypothesis is an invariant of
  the registry's own theory.
\<close>

definition routing_ok :: "AppRegistry \<Rightarrow> InstRegistry \<Rightarrow> NodeRegistry \<Rightarrow> ServiceRegistry \<Rightarrow> DomainRegistry \<Rightarrow> bool" where
  "routing_ok appReg instReg nodeReg routeReg domainReg \<longleftrightarrow> app_inv appReg \<and> inst_inv instReg \<and>
     node_inv nodeReg \<and> keyed sv_ID routeReg \<and> domain_inv domainReg"

lemma routing_okD:
  assumes "routing_ok appReg instReg nodeReg routeReg domainReg"
  shows "keyed n_ID nodeReg" "keyed a_ID (apps appReg)" "keyed sv_ID routeReg" "keyed dm_ID (domains domainReg)"
  using assms by (auto simp: routing_ok_def app_inv_def node_inv_def domain_inv_def)

section \<open>Properties\<close>

text \<open>
  C14: isolation and health of the data path, end to end. When the reconciler has installed its
  table and the proxy forwards a request to an endpoint, then the requested host is the name
  of a domain, and the endpoint is the node address and the published port of a running,
  healthy, claimed instance that is not draining and belongs to the very application that
  owns the domain. No request for a host reaches an instance of another application.
\<close>

theorem routing_isolation:
  assumes "routing_ok appReg instReg nodeReg routeReg domainReg"
    and "handleRequestInternal isTLSEnabled isTLS rq
      (Routing_Reconcile appReg instReg nodeReg routeReg domainReg ingressReg proxy) = (proxy', Forward ep)"
  shows "\<exists>dm srv inst. dm \<in> set (Domain_List domainReg) \<and> dm_Name dm = request_host (rq_Host rq) \<and>
    srv \<in> set (Service_List routeReg) \<and> sv_ApplicationID srv = dm_ApplicationID dm \<and>
    inst \<in> set (Inst_List instReg) \<and>
    serving nodeReg (dm_ApplicationID dm) (sv_TargetPort srv) inst ep"
proof -
  note k = routing_okD [OF assms(1)]
  let ?rules = "route_rules appReg instReg nodeReg routeReg domainReg ingressReg"
  let ?m = "rule_matches (request_host (rq_Host rq)) (rq_Path rq)"
  have "\<exists>rule. map_option fst (find (\<lambda>e. ?m (fst e)) (px_routes (UpdateRoutes ?rules proxy))) = Some rule \<and>
      ep \<in> set (rl_Endpoints rule)"
    using assms(2)
    by (auto simp: Routing_Reconcile_def handleRequestInternal_def Let_def split: if_splits option.splits)
  then obtain rule where "find ?m ?rules = Some rule" and ep: "ep \<in> set (rl_Endpoints rule)"
    unfolding UpdateRoutes_find by blast
  then have mem: "rule \<in> set ?rules" and match: "?m rule" by (auto dest: find_SomeD)
  obtain ing dm srv app where "ing \<in> set (Ingress_List ingressReg)"
    and r: "Domain_Get domainReg (ing_DomainID ing) = Inr dm"
    and "App_Get appReg (dm_ApplicationID dm) = Inr app"
    and s: "Service_Get routeReg (ing_ServiceID ing) = Inr srv" "sv_ApplicationID srv = dm_ApplicationID dm"
    and h: "rl_Host rule = dm_Name dm" "rl_Path rule = ing_Path ing"
      "rl_Endpoints rule = List.map_filter (instance_endpoint (by_id n_ID (Node_List nodeReg)) srv) (Inst_List instReg)"
    by (rule route_ruleE [OF mem k])
  have dm: "dm \<in> set (Domain_List domainReg)" using r domain_table.Get_iff_Lst [OF k(4)] by blast
  then have "dm_Name dm \<noteq> ''''" using assms(1) by (auto simp: routing_ok_def domain_inv_def Domain_List_def)
  then have "dm_Name dm = request_host (rq_Host rq)" using match h(1) by (simp add: rule_matches_def)
  moreover obtain inst where "inst \<in> set (Inst_List instReg)"
      "serving nodeReg (sv_ApplicationID srv) (sv_TargetPort srv) inst ep"
    using ep h(3) instance_endpoint_serving [OF k(1)] by (auto simp: set_map_filter)
  moreover have "srv \<in> set (Service_List routeReg)" using s(1) service_table.Get_iff_Lst [OF k(3)] by blast
  ultimately show ?thesis using dm s(2) by metis
qed

text \<open>
  Completeness of the routing table. For every ingress whose domain, application and service
  exist and belong together there is a rule for the domain and path, and its endpoints are
  exactly those of the instances of the application that can serve; there are no other rules.
\<close>

lemma routing_table_complete:
  assumes "routing_ok appReg instReg nodeReg routeReg domainReg"
  shows "(\<exists>rule \<in> set (route_rules appReg instReg nodeReg routeReg domainReg ingressReg).
      rl_Host rule = host \<and> rl_Path rule = path \<and> set (rl_Endpoints rule) = eps) \<longleftrightarrow>
    (\<exists>ing \<in> set (Ingress_List ingressReg). \<exists>dm srv app. ing_Path ing = path \<and>
      Domain_Get domainReg (ing_DomainID ing) = Inr dm \<and> dm_Name dm = host \<and>
      App_Get appReg (dm_ApplicationID dm) = Inr app \<and>
      Service_Get routeReg (ing_ServiceID ing) = Inr srv \<and> sv_ApplicationID srv = dm_ApplicationID dm \<and>
      eps = {ep. \<exists>inst \<in> set (Inst_List instReg).
        serving nodeReg (dm_ApplicationID dm) (sv_TargetPort srv) inst ep})"
proof -
  note k = routing_okD [OF assms]
  have eps: "set (List.map_filter (instance_endpoint (by_id n_ID (Node_List nodeReg)) srv) (Inst_List instReg)) =
      {ep. \<exists>inst \<in> set (Inst_List instReg). serving nodeReg (sv_ApplicationID srv) (sv_TargetPort srv) inst ep}" for srv
    by (auto simp: set_map_filter instance_endpoint_serving [OF k(1)])
  show ?thesis (is "?L \<longleftrightarrow> ?R")
  proof
    assume ?L
    then obtain rule where mem: "rule \<in> set (route_rules appReg instReg nodeReg routeReg domainReg ingressReg)"
      and rule: "rl_Host rule = host" "rl_Path rule = path" "set (rl_Endpoints rule) = eps" by blast
    obtain ing dm srv app where r: "ing \<in> set (Ingress_List ingressReg)"
      "Domain_Get domainReg (ing_DomainID ing) = Inr dm" "App_Get appReg (dm_ApplicationID dm) = Inr app"
      "Service_Get routeReg (ing_ServiceID ing) = Inr srv" "sv_ApplicationID srv = dm_ApplicationID dm"
      "rl_Host rule = dm_Name dm" "rl_Path rule = ing_Path ing"
      "rl_Endpoints rule = List.map_filter (instance_endpoint (by_id n_ID (Node_List nodeReg)) srv) (Inst_List instReg)"
      by (rule route_ruleE [OF mem k])
    with rule eps [of srv] show ?R
      by (intro bexI [of _ ing] exI [of _ dm] exI [of _ srv] exI [of _ app] conjI)
        (simp_all add: eps)
  next
    assume ?R
    then obtain ing dm srv app where r: "ing \<in> set (Ingress_List ingressReg)" "ing_Path ing = path"
      "Domain_Get domainReg (ing_DomainID ing) = Inr dm" "dm_Name dm = host"
      "App_Get appReg (dm_ApplicationID dm) = Inr app" "Service_Get routeReg (ing_ServiceID ing) = Inr srv"
      "sv_ApplicationID srv = dm_ApplicationID dm"
      "eps = {ep. \<exists>inst \<in> set (Inst_List instReg). serving nodeReg (dm_ApplicationID dm) (sv_TargetPort srv) inst ep}"
      by blast
    let ?rule = "\<lparr>rl_Host = dm_Name dm, rl_Path = ing_Path ing, rl_Endpoints =
      List.map_filter (instance_endpoint (by_id n_ID (Node_List nodeReg)) srv) (Inst_List instReg)\<rparr>"
    have "?rule \<in> set (route_rules appReg instReg nodeReg routeReg domainReg ingressReg)"
      using r(1,3,5-7) route_rules_iff [OF k] by blast
    then show ?L by (rule bexI [rotated]) (simp add: r(2,4,7,8) eps)
  qed
qed

section \<open>Examples and the order of the rules\<close>

text \<open>Two services of one application on one domain, at the paths \<open>/\<close> and \<open>/api\<close>.\<close>

definition ex_inst :: "string \<Rightarrow> int \<Rightarrow> int \<Rightarrow> Instance" where
  "ex_inst k internal external = \<lparr>i_ID = k, i_ApplicationID = ''a1'', i_DeploymentID = ''d'', i_NodeID = ''n1'',
     i_ExecutionID = ''x'', i_Status = StatusRunning, i_Health = HealthHealthy, i_Draining = False,
     i_DrainStartedAt = None, i_ContainerID = ''c'', i_Ports = [\<lparr>pm_Internal = internal, pm_External = external\<rparr>],
     i_CreatedAt = 0, i_StartedAt = Some 1, i_StoppedAt = None, i_UnknownSince = None\<rparr>"

definition ex_insts :: InstRegistry where
  "ex_insts = [(''i1'', ex_inst ''i1'' 80 30000), (''i2'', ex_inst ''i2'' 8080 30001)]"

definition ex_services :: ServiceRegistry where
  "ex_services = [(''s1'', \<lparr>sv_ID = ''s1'', sv_ApplicationID = ''a1'', sv_TargetPort = 80, sv_Protocol = ''http'', sv_CreatedAt = 0\<rparr>),
     (''s2'', \<lparr>sv_ID = ''s2'', sv_ApplicationID = ''a1'', sv_TargetPort = 8080, sv_Protocol = ''http'', sv_CreatedAt = 0\<rparr>)]"

definition ex_domains :: DomainRegistry where
  "ex_domains = \<lparr>domains = [(''m1'', \<lparr>dm_ID = ''m1'', dm_Name = ''a.com'', dm_ApplicationID = ''a1'', dm_TLS = False,
     dm_Status = DomainActive\<rparr>)], domain_names = [(''a.com'', ''m1'')]\<rparr>"

definition ex_nodes :: NodeRegistry where
  "ex_nodes = [(''n1'', example_node\<lparr>n_Status := NodeOnline\<rparr>)]"

definition ex_root :: "string \<times> Ingress" where
  "ex_root = (''g1'', \<lparr>ing_ID = ''g1'', ing_DomainID = ''m1'', ing_ServiceID = ''s1'', ing_Path = ''/''\<rparr>)"

definition ex_api :: "string \<times> Ingress" where
  "ex_api = (''g2'', \<lparr>ing_ID = ''g2'', ing_DomainID = ''m1'', ing_ServiceID = ''s2'', ing_Path = ''/api''\<rparr>)"

definition ex_request :: Request where
  "ex_request = \<lparr>rq_Host = ''a.com'', rq_Path = ''/api/v1'', rq_URI = ''/api/v1''\<rparr>"

lemmas ex_defs = ex_insts_def ex_inst_def ex_services_def ex_domains_def ex_nodes_def ex_root_def ex_api_def
  ex_request_def example_apps_value example_node_def

lemma indexed_one: "indexed nm [(k, v)] [(nm v, k)]"
  by (auto simp: indexed_def)

lemma ex_routing_ok: "routing_ok example_apps ex_insts ex_nodes ex_services ex_domains"
  using app_machine.reach_inv [OF example_apps_reach]
    indexed_one [of dm_Name "''m1''" "snd (hd (domains ex_domains))"]
  by (simp add: routing_ok_def inst_inv_def node_inv_def domain_inv_def keyed_def inst_ok_def
      ex_insts_def ex_inst_def ex_services_def ex_domains_def ex_nodes_def example_node_def)

lemmas routing_eval =
  route_rules_def ingress_rule_def instance_endpoint_def target_host_port_def by_id_def map_filter_def
  Node_List_def App_List_def Service_List_def Domain_List_def Inst_List_def Ingress_List_def Let_def

definition ex_rule :: "string \<Rightarrow> int \<Rightarrow> RouteRule" where
  "ex_rule path port = \<lparr>rl_Host = ''a.com'', rl_Path = path, rl_Endpoints = [\<lparr>ep_IP = ''10.0.0.1'', ep_Port = port\<rparr>]\<rparr>"

lemma ex_rules:
  "route_rules example_apps ex_insts ex_nodes ex_services ex_domains [ex_root, ex_api] =
     [ex_rule ''/'' 30000, ex_rule ''/api'' 30001]"
  "route_rules example_apps ex_insts ex_nodes ex_services ex_domains [ex_api, ex_root] =
     [ex_rule ''/api'' 30001, ex_rule ''/'' 30000]"
  by (simp_all add: routing_eval ex_defs ex_rule_def)

lemma ex_match: "rule_matches (request_host (rq_Host ex_request)) (rq_Path ex_request) (ex_rule path port) \<longleftrightarrow>
    path = '''' \<or> has_prefix ''/api/v1'' path"
  by (simp add: rule_matches_def ex_request_def request_host_def trim_suffix_def to_lower_def lower_char_def
      ex_rule_def Let_def)

lemma ex_prefixes: "has_prefix ''/api/v1'' ''/''" "has_prefix ''/api/v1'' ''/api''"
  by (simp_all add: has_prefix_def)

lemma ex_answer:
  "snd (handleRequestInternal None False ex_request
     (Routing_Reconcile example_apps ex_insts ex_nodes ex_services ex_domains [ex_root, ex_api] NewHTTPProxy)) =
     Forward \<lparr>ep_IP = ''10.0.0.1'', ep_Port = 30000\<rparr>"
  "snd (handleRequestInternal None False ex_request
     (Routing_Reconcile example_apps ex_insts ex_nodes ex_services ex_domains [ex_api, ex_root] NewHTTPProxy)) =
     Forward \<lparr>ep_IP = ''10.0.0.1'', ep_Port = 30001\<rparr>"
  unfolding Routing_Reconcile_def ex_rules
  by (simp_all add: UpdateRoutes_def NewHTTPProxy_def old_counter_def handleRequestInternal_def Let_def
      ex_match ex_prefixes) (simp_all add: ex_rule_def)

theorem routing_isolation_witness:
  "\<exists>dm inst. dm \<in> set (Domain_List ex_domains) \<and> dm_Name dm = request_host (rq_Host ex_request) \<and>
    inst \<in> set (Inst_List ex_insts) \<and> i_ApplicationID inst = dm_ApplicationID dm"
proof -
  obtain p' where "handleRequestInternal None False ex_request
     (Routing_Reconcile example_apps ex_insts ex_nodes ex_services ex_domains [ex_root, ex_api] NewHTTPProxy) =
     (p', Forward \<lparr>ep_IP = ''10.0.0.1'', ep_Port = 30000\<rparr>)"
    using ex_answer(1) by (metis prod.collapse)
  from routing_isolation [OF ex_routing_ok this] show ?thesis unfolding serving_def by blast
qed

lemma routing_table_complete_example:
  "\<exists>dm srv app. Domain_Get ex_domains ''m1'' = Inr dm \<and> dm_Name dm = ''a.com'' \<and>
    App_Get example_apps (dm_ApplicationID dm) = Inr app \<and> Service_Get ex_services ''s1'' = Inr srv \<and>
    sv_ApplicationID srv = dm_ApplicationID dm"
proof -
  have "ex_rule ''/'' 30000 \<in> set (route_rules example_apps ex_insts ex_nodes ex_services ex_domains [ex_root])"
    by (simp add: routing_eval ex_defs ex_rule_def)
  then have "\<exists>rule \<in> set (route_rules example_apps ex_insts ex_nodes ex_services ex_domains [ex_root]).
      rl_Host rule = ''a.com'' \<and> rl_Path rule = ''/'' \<and> set (rl_Endpoints rule) = {\<lparr>ep_IP = ''10.0.0.1'', ep_Port = 30000\<rparr>}"
    by (rule bexI [rotated]) (simp add: ex_rule_def)
  then show ?thesis
    unfolding routing_table_complete [OF ex_routing_ok] Ingress_List_def ex_root_def
    by (simp del: ex_simps) (elim exE conjE, intro exI conjI, assumption+)
qed

text \<open>
  Which service answers can depend on the visiting order of a Go map. The rules follow the
  order in which the ingress map is ranged over and the proxy takes the first match by path
  prefix, so with an ingress for \<open>/\<close> and one for \<open>/api\<close> on the same domain the same request
  is sent to different services although the registries hold the same entries.
\<close>

lemma routing_depends_on_map_order:
  "\<exists>g g' rq. ingress_inv g \<and> ingress_inv g' \<and> mset g = mset g' \<and>
    snd (handleRequestInternal None False rq
      (Routing_Reconcile example_apps ex_insts ex_nodes ex_services ex_domains g NewHTTPProxy)) \<noteq>
    snd (handleRequestInternal None False rq
      (Routing_Reconcile example_apps ex_insts ex_nodes ex_services ex_domains g' NewHTTPProxy))"
  by (rule exI [of _ "[ex_root, ex_api]"], rule exI [of _ "[ex_api, ex_root]"], rule exI [of _ ex_request])
    (simp add: ex_answer, simp add: ingress_inv_def keyed_def ex_root_def ex_api_def)

end
