(* ===== verification/ControlPlane.thy ===== *)
theory ControlPlane
  imports Reconciler Scheduling Routing
begin

text \<open>
  The control plane put together: \<open>runControlPlane\<close> of \<open>cmd/runstack/cp.go\<close>. Its state is the
  registries it creates, the proxy, and what the two schedulers remember between rounds. Two
  timers drive it: one marks nodes offline, the other runs a round of the job scheduler, the
  instance reconciler, the instance scheduler and the routing reconciler, in this order.

  A round is one step: requests of the API that arrive during a round act on the registries
  between two of its operations, each of which holds the lock of its registry. All readings of
  the clock in a round are the record \<open>TickClock\<close>; a panic of the reconciler is \<open>Inl\<close>.
\<close>

section \<open>Definitions\<close>

record ControlPlane =
  cp_nodes :: NodeRegistry
  cp_jobs :: JobRegistry
  cp_apps :: AppRegistry
  cp_deps :: DepRegistry
  cp_insts :: InstRegistry
  cp_routes :: ServiceRegistry
  cp_domains :: DomainRegistry
  cp_ingresses :: IngressRegistry
  cp_proxy :: HTTPProxy
  cp_lastJobNode :: string
  cp_lastInstNode :: string
  cp_drawn :: nat

record TickClock =
  tk_timeouts :: time
  tk_timeoutEvent :: "string \<Rightarrow> time"
  tk_offline :: "string \<Rightarrow> time"
  tk_lostJob :: "string \<Rightarrow> string \<Rightarrow> time"
  tk_lostEvent :: "string \<Rightarrow> string \<Rightarrow> time"
  tk_assignJob :: "string \<Rightarrow> time"
  tk_reconcile :: RecClock
  tk_assignInst :: "string \<Rightarrow> time"

definition offline_tick :: "time \<Rightarrow> ControlPlane \<Rightarrow> ControlPlane" where
  "offline_tick now s = s\<lparr>cp_nodes := MarkOfflineNodes now (30 * second) (cp_nodes s)\<rparr>"

definition job_round :: "(rat \<Rightarrow> rat) \<Rightarrow> TickClock \<Rightarrow> ControlPlane \<Rightarrow> ControlPlane" where
  "job_round rnd tk s =
     (case SchedulePendingJobs rnd (tk_timeouts tk) (tk_timeoutEvent tk) (tk_offline tk) (tk_lostJob tk)
             (tk_lostEvent tk) (tk_assignJob tk) ExecutionTimeout NodeGracePeriod
             (cp_nodes s) (cp_insts s) (cp_deps s) (cp_jobs s) (cp_lastJobNode s) of
        (jobReg, lastID) \<Rightarrow> s\<lparr>cp_jobs := jobReg, cp_lastJobNode := lastID\<rparr>)"

definition reconcile_round :: "(nat \<Rightarrow> string) \<Rightarrow> TickClock \<Rightarrow> ControlPlane \<Rightarrow> RecError + ControlPlane" where
  "reconcile_round gen tk s =
     (case Reconcile gen DrainTimeout (cp_apps s) (cp_nodes s) (tk_reconcile tk)
             \<lparr>rc_insts = cp_insts s, rc_deps = cp_deps s, rc_drawn = cp_drawn s\<rparr> of
        Inl e \<Rightarrow> Inl e
      | Inr t \<Rightarrow> Inr (s\<lparr>cp_insts := rc_insts t, cp_deps := rc_deps t, cp_drawn := rc_drawn t\<rparr>))"

definition instance_round :: "(rat \<Rightarrow> rat) \<Rightarrow> TickClock \<Rightarrow> ControlPlane \<Rightarrow> ControlPlane" where
  "instance_round rnd tk s =
     (case SchedulePendingInstances rnd (tk_assignInst tk) (cp_nodes s) (cp_jobs s) (cp_insts s) (cp_deps s)
             (cp_lastInstNode s) of
        (insts, deps, lastID) \<Rightarrow> s\<lparr>cp_insts := insts, cp_deps := deps, cp_lastInstNode := lastID\<rparr>)"

definition routing_round :: "ControlPlane \<Rightarrow> ControlPlane" where
  "routing_round s =
     s\<lparr>cp_proxy := Routing_Reconcile (cp_apps s) (cp_insts s) (cp_nodes s) (cp_routes s) (cp_domains s)
                     (cp_ingresses s) (cp_proxy s)\<rparr>"

definition control_tick ::
  "(rat \<Rightarrow> rat) \<Rightarrow> (nat \<Rightarrow> string) \<Rightarrow> TickClock \<Rightarrow> ControlPlane \<Rightarrow> RecError + ControlPlane" where
  "control_tick rnd gen tk s =
     (case reconcile_round gen tk (job_round rnd tk s) of
        Inl e \<Rightarrow> Inl e
      | Inr s1 \<Rightarrow> Inr (routing_round (instance_round rnd tk s1)))"

section \<open>Jobs\<close>

lemma job_round_reach:
  assumes "reach NewJobRegistry job_op_ok job_step (cp_jobs s)"
  shows "reach NewJobRegistry job_op_ok job_step (cp_jobs (job_round rnd tk s))"
proof -
  have fold: "reach NewJobRegistry job_op_ok job_step (js_jobs (foldl (\<lambda>s j. schedule_job rnd now nodes j s) t js))"
    if "reach NewJobRegistry job_op_ok job_step (js_jobs t)" for now nodes js t
    using that
  proof (induction js arbitrary: t)
    case (Cons j js)
    have "reach NewJobRegistry job_op_ok job_step (fst (Job_Update (now (j_ID j)) (j_ID j) p (js_jobs t)))" for p
      using reach_step [OF Cons.prems, of "OpUpdate (now (j_ID j)) (j_ID j) p"] by simp
    then have "reach NewJobRegistry job_op_ok job_step (js_jobs (schedule_job rnd now nodes j t))"
      using Cons.prems by (auto simp: schedule_job_def Let_def split: prod.splits sum.splits) (metis fst_conv)+
    with Cons.IH show ?case by simp
  qed simp
  show ?thesis
    using reach_recover_jobs [OF assms] fold
    by (simp add: job_round_def SchedulePendingJobs_def Let_def)
qed

lemma used_job_memory_zero:
  "reach NewJobRegistry job_op_ok job_step r \<Longrightarrow> used_job_memory r k = 0"
proof -
  have "sum_list (map (job_memory k) js) = 0" if "\<forall>j \<in> set js. j_CPU j = 0 \<and> j_MemoryMB j = 0" for js
    using that by (induction js) (simp_all add: job_memory_def)
  then show "reach NewJobRegistry job_op_ok job_step r \<Longrightarrow> used_job_memory r k = 0"
    using reach_no_requests by (simp add: used_job_memory_def)
qed

section \<open>Memory held on a node\<close>

text \<open>An instance that waits for a node has none, so what is marked \<open>UNKNOWN\<close> holds no memory anew.\<close>

abbreviation unplaced :: "Instance \<Rightarrow> bool" where
  "unplaced i \<equiv> i_Status i = StatusPending \<longrightarrow> i_NodeID i = ''''"

definition all_unplaced :: "InstRegistry \<Rightarrow> bool" where
  "all_unplaced r \<longleftrightarrow> (\<forall>i \<in> set (mvals r). unplaced i)"

definition placement_inv :: "InstRegistry \<Rightarrow> bool" where
  "placement_inv r \<longleftrightarrow> inst_inv r \<and> all_unplaced r"

lemma all_unplaced_mput:
  "keyed i_ID r \<Longrightarrow> all_unplaced r \<Longrightarrow> unplaced v \<Longrightarrow> all_unplaced (mput k v r)"
  by (auto simp: all_unplaced_def set_mvals in_mput_cases keyed_distinct split: if_splits)

lemma placement_step:
  assumes "placement_inv r" and "inst_protocol op r"
  shows "placement_inv (inst_step op r)"
proof -
  have inv: "inst_inv r" and k: "keyed i_ID r" and u: "all_unplaced r"
    using assms(1) by (auto simp: placement_inv_def inst_inv_def)
  note put = all_unplaced_mput [OF k u]
  have look: "unplaced i" if "map_of r x = Some i" for x i
    using mvals_lookup [OF that] u unfolding all_unplaced_def by blast
  have "all_unplaced (inst_step op r)"
  proof (cases op)
    case (ICreate rid now app dep)
    then show ?thesis by (simp add: Inst_Create_def Let_def put)
  next
    case (IUpdate now x st nd ct)
    show ?thesis
    proof (cases "map_of r x")
      case (Some i)
      with assms(2) IUpdate have "st \<noteq> StatusPending" by auto
      then show ?thesis by (simp add: IUpdate Inst_UpdateState_def Some u put Update_apply_def Let_def)
    qed (simp add: IUpdate Inst_UpdateState_def u)
  next
    case (IClaim rid x nd)
    then show ?thesis by (simp add: Inst_Claim_def Let_def put u split: option.split)
  next
    case (IReport now x nd ex st hl ct ps)
    have "all_unplaced (fst (Report_same x ct ps i r))" if "map_of r x = Some i" for i
      using look [OF that] u by (simp add: Report_same_def Let_def put)
    then show ?thesis
      using u by (simp add: IReport Inst_ReportStatus_def Report_apply_def Let_def put split: option.split)
  next
    case (IUnknown now x)
    then show ?thesis by (simp add: Inst_MarkUnknown_def Let_def put u split: option.split)
  next
    case (IDrain now x)
    then show ?thesis using look by (simp add: Inst_MarkDraining_def Let_def put u split: option.split)
  qed
  then show ?thesis using inst_step_keeps [OF inv assms(2)] by (simp add: placement_inv_def)
qed

interpretation placement_machine: invariant_machine NewInstRegistry inst_protocol inst_step placement_inv
proof unfold_locales
  show "placement_inv NewInstRegistry"
    using inst_machine.inv_init by (simp add: placement_inv_def all_unplaced_def NewInstRegistry_def)
qed (rule placement_step)

abbreviation requests_ok :: "DepRegistry \<Rightarrow> bool" where
  "requests_ok deps \<equiv> \<forall>k d. Dep_Get deps k = Inr d \<longrightarrow> 0 \<le> snd (request_of d)"

lemma inst_memory_le:
  assumes "requests_ok deps" and "n \<noteq> ''''" and "i_NodeID v' = i_NodeID v" and "i_DeploymentID v' = i_DeploymentID v"
    and "isInstanceConsumingCapacity (i_Status v') \<Longrightarrow> isInstanceConsumingCapacity (i_Status v) \<or> i_NodeID v = ''''"
  shows "inst_memory deps n v' \<le> inst_memory deps n v"
proof -
  have "0 \<le> (case Dep_Get deps (i_DeploymentID v) of Inl e \<Rightarrow> 0 | Inr d \<Rightarrow> snd (request_of d))"
    using assms(1) by (simp split: sum.split)
  with assms(2-5) show ?thesis by (auto simp: inst_memory_def)
qed

lemma used_memory_le:
  assumes "keyed i_ID r" and "map_of r k = Some v" and "inst_memory deps n v' \<le> inst_memory deps n v"
  shows "used_memory deps (mput k v' r) n \<le> used_memory deps r n"
  using assms(3) sum_list_mput [OF keyed_distinct [OF assms(1)] assms(2)] by (simp add: used_memory_def Inst_List_def)

lemma Update_apply_fields:
  "i_Status (Update_apply now st nd ct i) = st" "i_DeploymentID (Update_apply now st nd ct i) = i_DeploymentID i"
  "i_NodeID (Update_apply now st nd ct i) = (if nd = '''' then i_NodeID i else nd)"
  by (simp_all add: Update_apply_def Let_def)

lemma reconciler_op_memory:
  assumes "placement_inv r" and "reconciler_op op r" and "requests_ok deps" and "n \<noteq> ''''"
  shows "used_memory deps (inst_step op r) n \<le> used_memory deps r n"
proof -
  have k: "keyed i_ID r" and u: "all_unplaced r" using assms(1) by (auto simp: placement_inv_def inst_inv_def)
  have put: "used_memory deps (mput x v' r) n \<le> used_memory deps r n"
    if "map_of r x = Some v" "i_NodeID v' = i_NodeID v" "i_DeploymentID v' = i_DeploymentID v"
      "isInstanceConsumingCapacity (i_Status v') \<Longrightarrow> isInstanceConsumingCapacity (i_Status v) \<or> i_NodeID v = ''''" for x v v'
    using that by (intro used_memory_le [OF k that(1)] inst_memory_le [OF assms(3,4)]) auto
  have live: "isInstanceConsumingCapacity (i_Status i) \<or> i_NodeID i = ''''"
    if "map_of r x = Some i" "isViable (i_Status i)" for x i
    using mvals_lookup [OF that(1)] that(2) u
    by (auto simp: all_unplaced_def isViable_def isInstanceConsumingCapacity_def)
  show ?thesis
  proof (cases op)
    case (ICreate rid now app dep)
    then have "map_of r rid = None" using assms(2) by simp
    then show ?thesis
      by (simp add: ICreate Inst_Create_def Let_def mput_new used_memory_def Inst_List_def inst_memory_def isInstanceConsumingCapacity_def)
  next
    case (IUpdate now x st nd ct)
    show ?thesis
    proof (cases "map_of r x")
      case (Some i)
      have st: "st \<in> {StatusStopping, StatusStopped, StatusCrashed}" "nd = '''' \<or> nd = i_NodeID i"
        "st = StatusStopping \<Longrightarrow> isViable (i_Status i)" using assms(2) Some by (auto simp: IUpdate)
      have "used_memory deps (mput x (Update_apply now st nd ct i) r) n \<le> used_memory deps r n"
        using st live [OF Some] by (intro put [OF Some]) (auto simp: Update_apply_fields isInstanceConsumingCapacity_def)
      then show ?thesis by (simp add: IUpdate Inst_UpdateState_def Some Let_def)
    qed (simp add: IUpdate Inst_UpdateState_def)
  next
    case (IUnknown now x)
    show ?thesis
    proof (cases "map_of r x")
      case (Some i)
      have "used_memory deps (mput x v' r) n \<le> used_memory deps r n"
        if "i_NodeID v' = i_NodeID i" "i_DeploymentID v' = i_DeploymentID i" for v'
        using that live [OF Some] assms(2) Some by (intro put [OF Some]) (auto simp: IUnknown)
      then show ?thesis by (simp add: IUnknown Inst_MarkUnknown_def Some Let_def)
    qed (simp add: IUnknown Inst_MarkUnknown_def)
  next
    case (IDrain now x)
    show ?thesis
    proof (cases "map_of r x")
      case (Some i)
      then show ?thesis by (auto simp: IDrain Inst_MarkDraining_def Let_def intro!: put)
    qed (simp add: IDrain Inst_MarkDraining_def)
  qed (use assms(2) in auto)
qed

lemma inst_run_memory:
  assumes "inst_run r r'" and "placement_inv r" and "requests_ok deps" and "n \<noteq> ''''"
  shows "placement_inv r' \<and> used_memory deps r' n \<le> used_memory deps r n"
  using assms(1,2)
proof (induction rule: reach.induct)
  case (reach_step t op)
  then show ?case
    using placement_step [OF _ reconciler_op_protocol] reconciler_op_memory [OF _ _ assms(3,4)] order_trans by blast
qed simp

lemma dep_run_same_specs: "dep_run hash r r' \<Longrightarrow> same_specs r r'"
proof (induction rule: reach.induct)
  case (reach_step t op)
  have w: "one_write dep_evolves (deployments t) (deployments (dep_step hash op t))"
    using dep_step_writes reach_step(2) by (metis no_create_def)
  have "map_option d_SpecSnapshot (map_of (deployments (dep_step hash op t)) k) =
      map_option d_SpecSnapshot (map_of (deployments t) k)" for k
    using w by (auto simp: one_write_def dep_evolves_def)
  with reach_step.IH show ?case by (simp add: same_specs_def)
qed (simp add: same_specs_def)

section \<open>The instance scheduler as a run\<close>

lemma viable_mput:
  assumes "keyed i_ID r" and "map_of r k = Some v" and "i_ApplicationID v' = i_ApplicationID v"
    and "i_DeploymentID v' = i_DeploymentID v" and "isViable (i_Status v') = isViable (i_Status v)"
  shows "length (viableInstances a d (mput k v' r)) = length (viableInstances a d r)"
proof -
  let ?P = "\<lambda>i. i_ApplicationID i = a \<and> i_DeploymentID i = d \<and> isViable (i_Status i)"
  have count: "int (length (filter ?P xs)) = sum_list (map (\<lambda>i. if ?P i then 1 else 0) xs)" for xs :: "Instance list"
    by (induction xs) auto
  have "int (length (filter ?P (mvals (mput k v' r)))) = int (length (filter ?P (mvals r)))"
    unfolding count sum_list_mput [OF keyed_distinct [OF assms(1)] assms(2)] by (simp add: assms(3-5))
  then show ?thesis by (simp add: viableInstances_def Inst_List_def)
qed

lemma schedule_instance_deps:
  "dep_run hash (is_deps s) (is_deps (schedule_instance rnd now nodes i s))"
  by (auto simp: schedule_instance_def Let_def reach_init RolloutOnly_run split: sum.split prod.split)

text \<open>What the controllers do to instances: their whole protocol without the reports of agents.\<close>

fun controller_op :: "inst_op \<Rightarrow> InstRegistry \<Rightarrow> bool" where
  "controller_op (IReport now k nd ex st hl ct ps) r \<longleftrightarrow> False"
| "controller_op op r \<longleftrightarrow> inst_protocol op r"

lemma controller_op_protocol: "controller_op op r \<Longrightarrow> inst_protocol op r"
  by (cases op) simp_all

lemma reconciler_op_controller: "reconciler_op op r \<Longrightarrow> controller_op op r"
  using reconciler_op_protocol [of op r] by (cases op) simp_all

lemma schedule_instance_run:
  assumes "sched_inv nodes deps insts other (i # todo) s" and "\<forall>n \<in> set nodes. n_ID n \<noteq> ''''"
  shows "reach (is_insts s) controller_op inst_step (is_insts (schedule_instance rnd now nodes i s)) \<and>
    (\<forall>k. k \<notin> n_ID ` set nodes \<longrightarrow>
       used_memory deps (is_insts (schedule_instance rnd now nodes i s)) k = used_memory deps (is_insts s) k) \<and>
    (\<forall>a d. length (viableInstances a d (is_insts (schedule_instance rnd now nodes i s))) = length (viableInstances a d (is_insts s))) \<and>
    (\<forall>k. map_of (is_insts (schedule_instance rnd now nodes i s)) k = None \<longleftrightarrow> map_of (is_insts s) k = None)"
proof (cases rule: schedule_instance_cases [of rnd now nodes i s])
  case skip
  then show ?thesis by (simp add: reach_init)
next
  case (place d' n j)
  have s: "keyed i_ID (is_insts s)" "map_of (is_insts s) (i_ID i) = Some i" "i_Status i = StatusPending"
    "same_specs deps (is_deps s)" using assms(1) by (auto simp: sched_inv_def)
  have ij: "j = i" using place(4) s(2) by simp
  obtain d where d: "Dep_Get deps (i_DeploymentID i) = Inr d" using Dep_Get_same_specs [OF s(4) place(1)] .
  let ?i' = "Update_apply (now (i_ID i)) StatusAssigned (n_ID n) '''' i"
  have m: "is_insts (schedule_instance rnd now nodes i s) = mput (i_ID i) ?i' (is_insts s)" using place(6) ij by simp
  have "inst_step (IUpdate (now (i_ID i)) (i_ID i) StatusAssigned (n_ID n) '''') (is_insts s) = mput (i_ID i) ?i' (is_insts s)"
    using s(2,3) by (simp add: Inst_UpdateState_def Let_def)
  moreover have "controller_op (IUpdate (now (i_ID i)) (i_ID i) StatusAssigned (n_ID n) '''') (is_insts s)"
    using s(2,3) by simp
  ultimately have "reach (is_insts s) controller_op inst_step (mput (i_ID i) ?i' (is_insts s))"
    by (metis reach_one)
  moreover have "used_memory deps (mput (i_ID i) ?i' (is_insts s)) k = used_memory deps (is_insts s) k"
    if "k \<notin> n_ID ` set nodes" for k
    using used_memory_place [OF s(1-3) _ d, of n "now (i_ID i)" k] that place(2) assms(2) by auto
  moreover have "length (viableInstances a d (mput (i_ID i) ?i' (is_insts s))) = length (viableInstances a d (is_insts s))" for a d
    by (rule viable_mput [OF s(1,2)]) (simp_all add: Update_apply_fields s(3) isViable_def Update_apply_def Let_def)
  moreover have "map_of (mput (i_ID i) ?i' (is_insts s)) k = None \<longleftrightarrow> map_of (is_insts s) k = None" for k
    using s(2) by auto
  ultimately show ?thesis unfolding m by blast
qed

lemma schedule_fold_run:
  assumes "sched_inv nodes deps insts other todo s" and "\<forall>n \<in> set nodes. n_ID n \<noteq> ''''" and "requests_ok deps"
  shows "let t = foldl (\<lambda>s i. schedule_instance rnd now nodes i s) s todo in
    reach (is_insts s) controller_op inst_step (is_insts t) \<and> dep_run hash (is_deps s) (is_deps t) \<and>
    (\<forall>k. k \<notin> n_ID ` set nodes \<longrightarrow> used_memory deps (is_insts t) k = used_memory deps (is_insts s) k) \<and>
    (\<forall>a d. length (viableInstances a d (is_insts t)) = length (viableInstances a d (is_insts s))) \<and>
    (\<forall>k. map_of (is_insts t) k = None \<longleftrightarrow> map_of (is_insts s) k = None)"
  using assms(1)
proof (induction todo arbitrary: s)
  case (Cons i todo)
  let ?s = "schedule_instance rnd now nodes i s"
  note step = schedule_instance_run [OF Cons.prems assms(2), of rnd now]
  note rest = Cons.IH [OF sched_inv_step [OF Cons.prems assms(2,3), of rnd now], unfolded Let_def]
  show ?case
    unfolding Let_def foldl.simps
    using reach_trans [OF conjunct1 [OF step] conjunct1 [OF rest]]
      reach_trans [OF schedule_instance_deps [where hash = hash] conjunct1 [OF conjunct2 [OF rest]]] step rest by simp
qed (simp add: Let_def reach_init)

section \<open>The invariant of the control plane\<close>

text \<open>
  Every registry is in a state its operations can produce; identifiers still to be drawn are
  new; deployments ask for no negative memory and their sizes fit 32 bits; and no node,
  online or not, holds more memory than it has.
\<close>

abbreviation rec_state :: "ControlPlane \<Rightarrow> RecState" where
  "rec_state s \<equiv> \<lparr>rc_insts = cp_insts s, rc_deps = cp_deps s, rc_drawn = cp_drawn s\<rparr>"

definition specs_ok :: "DepRegistry \<Rightarrow> bool" where
  "specs_ok deps \<longleftrightarrow> (\<forall>d \<in> set (Dep_List deps). spec_sizes (d_SpecSnapshot d) \<and> 0 \<le> snd (request_of d))"

definition no_overcommit :: "NodeRegistry \<Rightarrow> DepRegistry \<Rightarrow> InstRegistry \<Rightarrow> bool" where
  "no_overcommit nodes deps insts \<longleftrightarrow>
     (\<forall>n \<in> set (Node_List nodes). n_ID n \<noteq> '''' \<and> used_memory deps insts (n_ID n) \<le> total_memory n)"

definition cp_inv :: "(nat \<Rightarrow> string) \<Rightarrow> ControlPlane \<Rightarrow> bool" where
  "cp_inv gen s \<longleftrightarrow>
     reach NewJobRegistry job_op_ok job_step (cp_jobs s) \<and> placement_inv (cp_insts s) \<and> dep_inv (cp_deps s) \<and>
     routing_ok (cp_apps s) (cp_insts s) (cp_nodes s) (cp_routes s) (cp_domains s) \<and>
     specs_ok (cp_deps s) \<and> fresh_ids gen (rec_state s) \<and> no_overcommit (cp_nodes s) (cp_deps s) (cp_insts s)"

lemma specs_ok_requests: "dep_inv deps \<Longrightarrow> specs_ok deps \<Longrightarrow> requests_ok deps"
  by (auto simp: specs_ok_def dep_inv_def dep_table.Get_iff_Lst)

lemma dep_run_specs:
  assumes "dep_run hash r r'" and "dep_inv r" and "specs_ok r"
  shows "dep_inv r' \<and> specs_ok r' \<and> same_specs r r' \<and> reach r dep_op_ok (dep_step hash) r'"
proof -
  let ?P = "\<lambda>sp. spec_sizes sp \<and> 0 \<le> (case s_Resources sp of None \<Rightarrow> 0 | Some rr \<Rightarrow> rr_MemoryMB rr)"
  have "specs_ok x \<longleftrightarrow> (\<forall>d \<in> set (Dep_List x). ?P (d_SpecSnapshot d))" for x
    unfolding specs_ok_def request_of_def by (intro ball_cong refl) (auto split: option.splits)
  then show ?thesis
    using dep_run_keeps [OF assms(1,2), where P = ?P] assms(3) dep_run_same_specs [OF assms(1)] by blast
qed

lemma targets_fresh:
  "keyed i_ID (rc_insts s) \<Longrightarrow> fresh_ids gen s \<Longrightarrow> reconcile_targets gen timeout ck ts s = Inr s' \<Longrightarrow> fresh_ids gen s'"
proof (induction ts arbitrary: s)
  case (Cons p ts)
  obtain a t where p: "p = (a, t)" by fastforce
  from Cons.prems(3) obtain s1 where s1: "reconcile_target gen timeout ck a t s = Inr s1"
    "reconcile_targets gen timeout ck ts s1 = Inr s'" by (auto simp: p split: sum.splits)
  with target_rel [OF Cons.prems(1,2), where R = "\<lambda>_ _. True"] Cons.IH show ?case by blast
qed simp

lemma Reconcile_fresh:
  assumes "keyed i_ID (rc_insts s)" and "fresh_ids gen s" and "Reconcile gen timeout appReg nodeReg ck s = Inr s'"
  shows "fresh_ids gen s'"
proof -
  let ?o = "observed nodeReg ck s"
  note o = observed_state [OF assms(1), where nodeReg = nodeReg and ck = ck]
  obtain deps' ats where t: "ComputeTargets appReg (rc_insts ?o) (rc_deps ?o) = (deps', ats)" by fastforce
  have r: "reconcile_targets gen timeout ck (flat_targets ats) (?o\<lparr>rc_deps := deps'\<rparr>) = Inr s'"
    using assms(3) t by (simp add: Reconcile_def observed_def Let_def)
  show ?thesis
  proof (rule targets_fresh [OF _ _ r])
    show "keyed i_ID (rc_insts (?o\<lparr>rc_deps := deps'\<rparr>))" using o(1) keyed_map_val [OF assms(1)] by simp
    show "fresh_ids gen (?o\<lparr>rc_deps := deps'\<rparr>)" using o(4) [OF assms(2)] by (simp add: fresh_ids_def)
  qed
qed

section \<open>One round\<close>

lemma reconcile_round_step:
  assumes "cp_inv gen s" and "length (cp_insts s) \<le> 2147483648"
    and "o1 = observed (cp_nodes s) (tk_reconcile tk) (rec_state s)"
    and "ats = snd (ComputeTargets (cp_apps s) (rc_insts o1) (rc_deps o1))"
  shows "\<exists>insts deps drawn. reconcile_round gen tk s = Inr (s\<lparr>cp_insts := insts, cp_deps := deps, cp_drawn := drawn\<rparr>) \<and>
    cp_inv gen (s\<lparr>cp_insts := insts, cp_deps := deps, cp_drawn := drawn\<rparr>) \<and>
    reach (cp_insts s) controller_op inst_step insts \<and> reach (cp_deps s) dep_op_ok (dep_step hash) deps \<and>
    (\<forall>T \<in> set ats. \<forall>t \<in> set (at_Targets T).
       dt_DesiredCount t \<le> int (length (viableInstances (at_AppID T) (dt_DeploymentID t) insts)))"
proof -
  let ?s = "rec_state s"
  have pl: "placement_inv (cp_insts s)" and ii: "inst_inv (cp_insts s)" and di: "dep_inv (cp_deps s)"
    and sp: "specs_ok (cp_deps s)" and f: "fresh_ids gen ?s"
    and rt: "routing_ok (cp_apps s) (cp_insts s) (cp_nodes s) (cp_routes s) (cp_domains s)"
    and mem: "no_overcommit (cp_nodes s) (cp_deps s) (cp_insts s)"
    using assms(1) by (auto simp: cp_inv_def placement_inv_def)
  have env: "pass_env gen (cp_apps s) ?s"
    using ii di f assms(2) sp rt by (simp add: pass_env_def specs_ok_def routing_ok_def app_inv_def)
  obtain deps0 where "ComputeTargets (cp_apps s) (rc_insts o1) (rc_deps o1) = (deps0, ats)"
    using assms(4) by (metis prod.collapse)
  from pass_runs [OF env this [unfolded assms(3)], where timeout = DrainTimeout and hash = hash]
  obtain t where t: "Reconcile gen DrainTimeout (cp_apps s) (cp_nodes s) (tk_reconcile tk) ?s = Inr t"
    and ir: "inst_run (cp_insts s) (rc_insts t)" and dr: "dep_run hash (cp_deps s) (rc_deps t)"
    and sc: "\<forall>T \<in> set ats. \<forall>x \<in> set (at_Targets T). scaled (at_AppID T) x o1 t"
    unfolding assms(3) by auto
  note d = dep_run_specs [OF dr di sp]
  have p: "reach (cp_insts s) controller_op inst_step (rc_insts t)"
    using reach_mono [OF ir] reconciler_op_controller by blast
  note m = inst_run_memory [OF ir pl specs_ok_requests [OF di sp]]
  have "fresh_ids gen t"
    using Reconcile_fresh [OF _ f t] ii by (simp add: inst_inv_def)
  then have "fresh_ids gen \<lparr>rc_insts = rc_insts t, rc_deps = rc_deps t, rc_drawn = rc_drawn t\<rparr>" by (simp add: fresh_ids_def)
  moreover have "no_overcommit (cp_nodes s) (rc_deps t) (rc_insts t)"
    using mem m used_memory_same_specs [of "cp_deps s" "rc_deps t"] d
    unfolding no_overcommit_def by (metis order_trans)
  moreover have "placement_inv (rc_insts t)" using m [of "''n''"] by simp
  ultimately have "cp_inv gen (s\<lparr>cp_insts := rc_insts t, cp_deps := rc_deps t, cp_drawn := rc_drawn t\<rparr>)"
    using assms(1) d by (simp add: cp_inv_def routing_ok_def placement_inv_def)
  moreover have "reconcile_round gen tk s = Inr (s\<lparr>cp_insts := rc_insts t, cp_deps := rc_deps t, cp_drawn := rc_drawn t\<rparr>)"
    by (simp add: reconcile_round_def t)
  ultimately show ?thesis using p d sc unfolding scaled_def by blast
qed

lemma instance_round_step:
  assumes "cp_inv gen s"
  shows "\<exists>insts deps lastID. instance_round rnd tk s = s\<lparr>cp_insts := insts, cp_deps := deps, cp_lastInstNode := lastID\<rparr> \<and>
    cp_inv gen (s\<lparr>cp_insts := insts, cp_deps := deps, cp_lastInstNode := lastID\<rparr>) \<and>
    reach (cp_insts s) controller_op inst_step insts \<and> reach (cp_deps s) dep_op_ok (dep_step hash) deps \<and>
    (\<forall>a d. length (viableInstances a d insts) = length (viableInstances a d (cp_insts s)))"
proof (cases "filter online (Node_List (cp_nodes s)) = []")
  case True
  then have "instance_round rnd tk s = s" by (simp add: instance_round_def SchedulePendingInstances_def Let_def)
  with assms show ?thesis
    by (intro exI [of _ "cp_insts s"] exI [of _ "cp_deps s"] exI [of _ "cp_lastInstNode s"]) (simp add: reach_init)
next
  case False
  let ?on = "filter online (Node_List (cp_nodes s))" and ?now = "tk_assignInst tk"
  define start where "start = sched_start rnd (cp_nodes s) (cp_jobs s) (cp_insts s) (cp_deps s) (cp_lastInstNode s)"
  define t where "t = foldl (\<lambda>s i. schedule_instance rnd ?now ?on i s) start (pending_instances (cp_insts s))"
  have jr: "reach NewJobRegistry job_op_ok job_step (cp_jobs s)" and pl: "placement_inv (cp_insts s)"
    and di: "dep_inv (cp_deps s)" and sp: "specs_ok (cp_deps s)" and f: "fresh_ids gen (rec_state s)"
    and rt: "routing_ok (cp_apps s) (cp_insts s) (cp_nodes s) (cp_routes s) (cp_domains s)"
    and mem: "no_overcommit (cp_nodes s) (cp_deps s) (cp_insts s)"
    using assms by (auto simp: cp_inv_def)
  have inv0: "sched_inv ?on (cp_deps s) (cp_insts s) (used_job_memory (cp_jobs s)) (pending_instances (cp_insts s)) start"
    unfolding start_def
  proof (rule sched_inv_start)
    show "requests_ok (cp_deps s)" by (rule specs_ok_requests [OF di sp])
    show "\<forall>n \<in> set ?on. used_memory (cp_deps s) (cp_insts s) (n_ID n) + used_job_memory (cp_jobs s) (n_ID n) \<le> total_memory n"
      using mem used_job_memory_zero [OF jr] by (simp add: no_overcommit_def)
  qed (use pl di rt reach_no_requests [OF jr] in \<open>auto simp: placement_inv_def inst_inv_def dep_inv_def routing_ok_def node_inv_def\<close>)
  have ids: "\<forall>n \<in> set ?on. n_ID n \<noteq> ''''" using mem by (simp add: no_overcommit_def)
  note run = schedule_fold_run [OF inv0 ids specs_ok_requests [OF di sp], where hash = hash and rnd = rnd and now = ?now,
      folded t_def, unfolded Let_def]
  have fin: "sched_inv ?on (cp_deps s) (cp_insts s) (used_job_memory (cp_jobs s)) [] t"
    unfolding t_def by (rule sched_inv_fold [OF inv0 ids specs_ok_requests [OF di sp]])
  have st: "is_insts start = cp_insts s" "is_deps start = cp_deps s" by (simp_all add: start_def)
  have ir: "reach (cp_insts s) controller_op inst_step (is_insts t)" and dr: "dep_run hash (cp_deps s) (is_deps t)"
    using run st by simp_all
  note d = dep_run_specs [OF dr di sp]
  have "placement_inv (is_insts t)"
    using ir pl by (induction rule: reach.induct) (auto intro: placement_step controller_op_protocol)
  moreover have "fresh_ids gen \<lparr>rc_insts = is_insts t, rc_deps = is_deps t, rc_drawn = cp_drawn s\<rparr>"
    using f run st by (simp add: fresh_ids_def)
  moreover have "no_overcommit (cp_nodes s) (is_deps t) (is_insts t)"
    unfolding no_overcommit_def
  proof
    fix n assume n: "n \<in> set (Node_List (cp_nodes s))"
    have s: "used_memory (is_deps t) (is_insts t) k = used_memory (cp_deps s) (is_insts t) k" for k
      using used_memory_same_specs d by blast
    have "used_memory (cp_deps s) (is_insts t) (n_ID n) \<le> total_memory n"
    proof (cases "n \<in> set ?on")
      case True
      then show ?thesis using fin used_job_memory_zero [OF jr] by (auto simp: sched_inv_def)
    next
      case False
      have "distinct (map n_ID (Node_List (cp_nodes s)))"
        using rt by (intro node_table.Lst_distinct) (simp add: routing_ok_def node_inv_def)
      with False n have "n_ID n \<notin> n_ID ` set ?on" by (auto simp: distinct_map dest: inj_onD)
      with run n mem st show ?thesis by (simp add: no_overcommit_def)
    qed
    with n mem show "n_ID n \<noteq> '''' \<and> used_memory (is_deps t) (is_insts t) (n_ID n) \<le> total_memory n"
      by (simp add: s no_overcommit_def)
  qed
  ultimately have "cp_inv gen (s\<lparr>cp_insts := is_insts t, cp_deps := is_deps t, cp_lastInstNode := is_last t\<rparr>)"
    using assms d by (simp add: cp_inv_def routing_ok_def placement_inv_def)
  moreover have "instance_round rnd tk s = s\<lparr>cp_insts := is_insts t, cp_deps := is_deps t, cp_lastInstNode := is_last t\<rparr>"
    using False by (simp add: instance_round_def SchedulePendingInstances_def Let_def t_def start_def)
  ultimately show ?thesis using ir d run st by auto
qed

lemma job_round_keeps: "cp_inv gen s \<Longrightarrow> \<exists>jobReg lastID. job_round rnd tk s = s\<lparr>cp_jobs := jobReg, cp_lastJobNode := lastID\<rparr> \<and> cp_inv gen (job_round rnd tk s)"
proof -
  assume inv: "cp_inv gen s"
  obtain jobReg lastID where j: "job_round rnd tk s = s\<lparr>cp_jobs := jobReg, cp_lastJobNode := lastID\<rparr>"
    by (metis (no_types, lifting) job_round_def case_prod_conv surj_pair)
  have "reach NewJobRegistry job_op_ok job_step (cp_jobs (job_round rnd tk s))"
    using inv job_round_reach by (simp add: cp_inv_def)
  with inv show ?thesis unfolding j by (auto simp: cp_inv_def)
qed

lemma offline_tick_keeps: "cp_inv gen s \<Longrightarrow> cp_inv gen (offline_tick now s)"
proof -
  assume inv: "cp_inv gen s"
  let ?nodes = "MarkOfflineNodes now (30 * second) (cp_nodes s)"
  have "node_inv ?nodes"
    using inv node_step_inv [of "cp_nodes s" "NMarkOffline now (30 * second)"] by (simp add: cp_inv_def routing_ok_def)
  moreover have "no_overcommit ?nodes (cp_deps s) (cp_insts s)"
    using inv by (auto simp: cp_inv_def no_overcommit_def MarkOfflineNodes_def Node_List_def mvals_map_val mark_offline_def total_memory_def)
  ultimately show ?thesis using inv by (simp add: cp_inv_def offline_tick_def routing_ok_def)
qed

lemma control_tick_steps:
  assumes "cp_inv gen s" and "length (cp_insts s) \<le> 2147483648"
    and "o1 = observed (cp_nodes s) (tk_reconcile tk) (rec_state s)"
    and "ats = snd (ComputeTargets (cp_apps s) (rc_insts o1) (rc_deps o1))"
  shows "\<exists>s'. control_tick rnd gen tk s = Inr s' \<and> cp_inv gen s' \<and>
    reach (cp_insts s) controller_op inst_step (cp_insts s') \<and> reach (cp_deps s) dep_op_ok (dep_step hash) (cp_deps s') \<and>
    (\<forall>T \<in> set ats. \<forall>t \<in> set (at_Targets T).
       dt_DesiredCount t \<le> int (length (viableInstances (at_AppID T) (dt_DeploymentID t) (cp_insts s'))))"
proof -
  let ?j = "job_round rnd tk s"
  obtain jobReg lastID where j: "?j = s\<lparr>cp_jobs := jobReg, cp_lastJobNode := lastID\<rparr>" and inv: "cp_inv gen ?j"
    using job_round_keeps [OF assms(1)] by blast
  have "length (cp_insts ?j) \<le> 2147483648" "o1 = observed (cp_nodes ?j) (tk_reconcile tk) (rec_state ?j)"
    "ats = snd (ComputeTargets (cp_apps ?j) (rc_insts o1) (rc_deps o1))" using assms(2-4) by (simp_all add: j)
  from reconcile_round_step [OF inv this, where hash = hash] obtain s1 where s1:
    "reconcile_round gen tk ?j = Inr s1" "cp_inv gen s1" "reach (cp_insts s) controller_op inst_step (cp_insts s1)"
    "reach (cp_deps s) dep_op_ok (dep_step hash) (cp_deps s1)"
    "\<forall>T \<in> set ats. \<forall>t \<in> set (at_Targets T). dt_DesiredCount t \<le> int (length (viableInstances (at_AppID T) (dt_DeploymentID t) (cp_insts s1)))"
    by (auto simp: j)
  from instance_round_step [OF s1(2), where rnd = rnd and tk = tk and hash = hash] obtain s2 where s2:
    "instance_round rnd tk s1 = s2" "cp_inv gen s2" "reach (cp_insts s1) controller_op inst_step (cp_insts s2)"
    "reach (cp_deps s1) dep_op_ok (dep_step hash) (cp_deps s2)"
    "\<forall>a d. length (viableInstances a d (cp_insts s2)) = length (viableInstances a d (cp_insts s1))"
    by auto
  have "control_tick rnd gen tk s = Inr (routing_round s2)" by (simp add: control_tick_def s1(1) s2(1))
  moreover have "cp_inv gen (routing_round s2)" using s2(2) by (simp add: cp_inv_def routing_round_def)
  moreover have "cp_insts (routing_round s2) = cp_insts s2" "cp_deps (routing_round s2) = cp_deps s2"
    by (simp_all add: routing_round_def)
  ultimately show ?thesis
    using reach_trans [OF s1(3) s2(3)] reach_trans [OF s1(4) s2(4)] s1(5) s2(5) by simp
qed

section \<open>Properties\<close>

text \<open>
  C3: a round of the control plane is safe. From any state in which every registry is in a state
  of its protocol and no node, online or not, holds more memory than it has, the round
  completes without a panic and ends in such a state; on the way it uses the instance and the
  deployment registry only as their protocols allow. So no sequence of rounds ever
  overcommits a node, even one that goes offline and returns.
\<close>

theorem control_tick_safe:
  assumes "cp_inv gen s" and "length (cp_insts s) \<le> 2147483648"
  shows "\<exists>s'. control_tick rnd gen tk s = Inr s' \<and> cp_inv gen s' \<and>
    reach (cp_insts s) inst_protocol inst_step (cp_insts s') \<and> reach (cp_deps s) dep_op_ok (dep_step hash) (cp_deps s') \<and>
    (\<forall>n \<in> set (Node_List (cp_nodes s')). used_memory (cp_deps s') (cp_insts s') (n_ID n) \<le> total_memory n)"
  using control_tick_steps [OF assms refl refl, where rnd = rnd and tk = tk and hash = hash]
    reach_mono [where ok = controller_op and ok' = inst_protocol, OF _ controller_op_protocol]
  by (auto simp: cp_inv_def no_overcommit_def)

definition example_cp_apps :: AppRegistry where
  "example_cp_apps = app_step (AUpdate 3 ''a1'' example_spec ''d1'' AppDeploying) example_apps"

definition example_cp :: ControlPlane where
  "example_cp = \<lparr>cp_nodes = ex_nodes, cp_jobs = NewJobRegistry, cp_apps = example_cp_apps, cp_deps = rc_deps example_pass,
     cp_insts = [], cp_routes = [], cp_domains = NewDomainRegistry, cp_ingresses = [], cp_proxy = NewHTTPProxy,
     cp_lastJobNode = '''', cp_lastInstNode = '''', cp_drawn = 0\<rparr>"

lemma example_cp_inv: "cp_inv example_gen example_cp"
proof -
  have "app_inv example_cp_apps"
    unfolding example_cp_apps_def by (intro app_machine.inv_step app_machine.reach_inv [OF example_apps_reach]) simp
  moreover have "inst_inv []" using inst_machine.inv_init by (simp add: NewInstRegistry_def)
  ultimately have "routing_ok example_cp_apps [] ex_nodes [] NewDomainRegistry"
    using domain_machine.inv_init ex_routing_ok by (simp add: routing_ok_def)
  moreover have "placement_inv []" using placement_machine.inv_init by (simp add: NewInstRegistry_def)
  moreover have "specs_ok (rc_deps example_pass)"
    by (simp add: specs_ok_def example_pass_def Dep_List_def Dep_Create_def NewDepRegistry_def Let_def example_spec_def
        spec_sizes_def small_def request_of_def)
  moreover have "no_overcommit ex_nodes (rc_deps example_pass) []"
    using total_memory_range by (simp add: no_overcommit_def used_memory_def Inst_List_def ex_nodes_def Node_List_def example_node_def)
  ultimately show ?thesis
    using example_pass_env
    by (simp add: cp_inv_def example_cp_def reach_init pass_env_def fresh_ids_def example_pass_def)
qed

definition example_tick :: TickClock where
  "example_tick = \<lparr>tk_timeouts = 0, tk_timeoutEvent = (\<lambda>_. 0), tk_offline = (\<lambda>_. 0), tk_lostJob = (\<lambda>_ _. 0),
     tk_lostEvent = (\<lambda>_ _. 0), tk_assignJob = (\<lambda>_. 0), tk_reconcile = example_clock, tk_assignInst = (\<lambda>_. 0)\<rparr>"

theorem control_tick_safe_witness:
  "\<exists>s'. control_tick (\<lambda>x. x) example_gen example_tick example_cp = Inr s' \<and>
     (\<exists>n \<in> set (Node_List (cp_nodes s')). used_memory (cp_deps s') (cp_insts s') (n_ID n) \<le> total_memory n)"
proof -
  obtain s' where s': "control_tick (\<lambda>x. x) example_gen example_tick example_cp = Inr s'"
    "\<forall>n \<in> set (Node_List (cp_nodes s')). used_memory (cp_deps s') (cp_insts s') (n_ID n) \<le> total_memory n"
    using control_tick_safe [OF example_cp_inv, where rnd = "\<lambda>x. x" and tk = example_tick and hash = "\<lambda>_. ''h''"]
    by (auto simp: example_cp_def)
  have "cp_nodes s' = ex_nodes"
    using s'(1) by (auto simp: control_tick_def routing_round_def instance_round_def reconcile_round_def job_round_def
        example_cp_def split: sum.splits prod.splits)
  with s' show ?thesis by (simp add: ex_nodes_def Node_List_def)
qed

text \<open>
  C4: one round starts what is missing. For every target that the rollout controller computes
  from the state the reconciler observes, the deployment has at the end of the round at least
  the desired number of viable instances: the reconciler creates them, and neither the job
  scheduler before nor the instance scheduler behind it takes one away.
\<close>

theorem control_tick_meets_targets:
  assumes "cp_inv gen s" and "length (cp_insts s) \<le> 2147483648"
    and "o1 = observed (cp_nodes s) (tk_reconcile tk) (rec_state s)"
    and "T \<in> set (snd (ComputeTargets (cp_apps s) (rc_insts o1) (rc_deps o1)))" and "t \<in> set (at_Targets T)"
  shows "\<exists>s'. control_tick rnd gen tk s = Inr s' \<and>
    dt_DesiredCount t \<le> int (length (viableInstances (at_AppID T) (dt_DeploymentID t) (cp_insts s')))"
  using control_tick_steps [OF assms(1-3) refl, where rnd = rnd] assms(4,5) by blast

lemma example_cp_targets:
  "snd (ComputeTargets (cp_apps example_cp) (rc_insts (observed (cp_nodes example_cp) (tk_reconcile example_tick) (rec_state example_cp)))
     (rc_deps (observed (cp_nodes example_cp) (tk_reconcile example_tick) (rec_state example_cp)))) =
   [\<lparr>at_AppID = ''a1'', at_ActiveDeploymentID = ''d1'', at_Targets = [target ''d1'' 3]\<rparr>]"
  by (simp add: ComputeTargets_def observed_def recoverOrphanedInstances_def evaluateHealthAndCrashes_def example_tick_def
      Inst_List_def example_pass_def example_cp_def example_cp_apps_def App_Update_def example_apps_def App_Create_def NewAppRegistry_def
      App_List_def Dep_List_def Dep_Create_def NewDepRegistry_def ValidateAppSpec_def validateResources_def EnsureDefaultStrategy_def
      validateProbe_def rolling_deadlock_def Let_def computeAppTarget_def computeImmediateTarget_def example_spec_def)

theorem control_tick_meets_targets_witness:
  "\<exists>s'. control_tick (\<lambda>x. x) example_gen example_tick example_cp = Inr s' \<and>
     3 \<le> length (viableInstances ''a1'' ''d1'' (cp_insts s'))"
proof -
  let ?T = "\<lparr>at_AppID = ''a1'', at_ActiveDeploymentID = ''d1'', at_Targets = [target ''d1'' 3]\<rparr>"
  have "?T \<in> set (snd (ComputeTargets (cp_apps example_cp)
      (rc_insts (observed (cp_nodes example_cp) (tk_reconcile example_tick) (rec_state example_cp)))
      (rc_deps (observed (cp_nodes example_cp) (tk_reconcile example_tick) (rec_state example_cp)))))"
    unfolding example_cp_targets by simp
  from control_tick_meets_targets [OF example_cp_inv _ refl this, of "target ''d1'' 3" "\<lambda>x. x"]
  show ?thesis by (auto simp: example_cp_def target_def)
qed

end
