(* ===== verification/Secret.thy ===== *)
theory Secret
  imports Prelude
begin

text \<open>
  Application secrets: \<open>internal/application/secret.go\<close>.

  The registry keeps the entries by identifier and an index from \<open>AppID:Name\<close> to the
  identifier. A read of a missing entry through the index is a nil dereference in Go; it is
  the error \<open>SecretPanic\<close> here. The identifier of a new secret is made from the nanosecond
  clock, an argument of \<open>Set\<close>. The registry is shown to implement a partial function from
  (application, name) to value.
\<close>

section \<open>Data and operations\<close>

record Secret =
  sec_ID :: string
  sec_Name :: string
  sec_ApplicationID :: string
  sec_CreatedAt :: time
  sec_UpdatedAt :: time

record SecretEntry =
  se_Secret :: Secret
  se_Value :: string

record SecretRegistry =
  secrets :: "(string, SecretEntry) gomap"
  nameMap :: "(string, string) gomap"

datatype SecretError =
    SecretNotFound | SecretNameEmpty | SecretNameTooLong | SecretNameChars | SecretAppEmpty
  | SecretPanic

definition NewSecretRegistry :: SecretRegistry where
  "NewSecretRegistry = \<lparr>secrets = [], nameMap = []\<rparr>"

text \<open>The regular expression of letters, digits, underscore and hyphen.\<close>

definition name_char :: "char \<Rightarrow> bool" where
  "name_char c \<longleftrightarrow> c \<in> set ''abcdefghijklmnopqrstuvwxyzABCDEFGHIJKLMNOPQRSTUVWXYZ0123456789_-''"

definition nameRegex :: "string \<Rightarrow> bool" where
  "nameRegex s \<longleftrightarrow> s \<noteq> [] \<and> list_all name_char s"

definition ValidateSecretName :: "string \<Rightarrow> SecretError option" where
  "ValidateSecretName name =
     (if name = '''' then Some SecretNameEmpty
      else if length name > 255 then Some SecretNameTooLong
      else if \<not> nameRegex name then Some SecretNameChars
      else None)"

definition secret_key :: "string \<Rightarrow> string \<Rightarrow> string" where
  "secret_key appID name = appID @ '':'' @ name"

definition Secret_Set ::
  "time \<Rightarrow> int \<Rightarrow> time \<Rightarrow> string \<Rightarrow> string \<Rightarrow> string \<Rightarrow> SecretRegistry
    \<Rightarrow> SecretRegistry \<times> (SecretError + Secret)" where
  "Secret_Set nowU nano now appID name val r =
     (case ValidateSecretName name of
        Some e \<Rightarrow> (r, Inl e)
      | None \<Rightarrow>
          if appID = '''' then (r, Inl SecretAppEmpty)
          else
            (let k = secret_key appID name in
             case map_of (nameMap r) k of
               Some sid \<Rightarrow>
                 (case map_of (secrets r) sid of
                    None \<Rightarrow> (r, Inl SecretPanic)
                  | Some entry \<Rightarrow>
                      (let entry1 = entry\<lparr>se_Value := val,
                             se_Secret := (se_Secret entry)\<lparr>sec_UpdatedAt := nowU\<rparr>\<rparr>
                       in (r\<lparr>secrets := mput sid entry1 (secrets r)\<rparr>, Inr (se_Secret entry1))))
             | None \<Rightarrow>
                 (let sid = ''sec-'' @ show_int nano;
                      sec = \<lparr>sec_ID = sid, sec_Name = name, sec_ApplicationID = appID,
                             sec_CreatedAt = now, sec_UpdatedAt = now\<rparr>
                  in (r\<lparr>secrets := mput sid \<lparr>se_Secret = sec, se_Value = val\<rparr> (secrets r),
                        nameMap := mput k sid (nameMap r)\<rparr>, Inr sec))))"

definition Secret_Get :: "SecretRegistry \<Rightarrow> string \<Rightarrow> SecretError + Secret" where
  "Secret_Get r sid =
     (case map_of (secrets r) sid of Some entry \<Rightarrow> Inr (se_Secret entry) | None \<Rightarrow> Inl SecretNotFound)"

definition Secret_Resolve :: "SecretRegistry \<Rightarrow> string \<Rightarrow> string \<Rightarrow> SecretError + string" where
  "Secret_Resolve r appID name =
     (case map_of (nameMap r) (secret_key appID name) of
        None \<Rightarrow> Inl SecretNotFound
      | Some sid \<Rightarrow>
          (case map_of (secrets r) sid of
             None \<Rightarrow> Inl SecretPanic
           | Some entry \<Rightarrow> Inr (se_Value entry)))"

definition Secret_Delete :: "string \<Rightarrow> SecretRegistry \<Rightarrow> SecretRegistry \<times> SecretError option" where
  "Secret_Delete sid r =
     (case map_of (secrets r) sid of
        None \<Rightarrow> (r, Some SecretNotFound)
      | Some entry \<Rightarrow>
          (r\<lparr>nameMap := mdel (secret_key (sec_ApplicationID (se_Secret entry))
                           (sec_Name (se_Secret entry))) (nameMap r),
             secrets := mdel sid (secrets r)\<rparr>, None))"

definition Secret_DeleteByName ::
  "string \<Rightarrow> string \<Rightarrow> SecretRegistry \<Rightarrow> SecretRegistry \<times> SecretError option" where
  "Secret_DeleteByName appID name r =
     (let k = secret_key appID name in
      case map_of (nameMap r) k of
        None \<Rightarrow> (r, Some SecretNotFound)
      | Some sid \<Rightarrow> (r\<lparr>nameMap := mdel k (nameMap r), secrets := mdel sid (secrets r)\<rparr>, None))"

definition Secret_ListByApp :: "SecretRegistry \<Rightarrow> string \<Rightarrow> Secret list" where
  "Secret_ListByApp r appID =
     map se_Secret (filter (\<lambda>e. sec_ApplicationID (se_Secret e) = appID) (mvals (secrets r)))"

definition Secret_GetByName :: "SecretRegistry \<Rightarrow> string \<Rightarrow> string \<Rightarrow> SecretError + Secret" where
  "Secret_GetByName r appID name =
     (case map_of (nameMap r) (secret_key appID name) of
        None \<Rightarrow> Inl SecretNotFound
      | Some sid \<Rightarrow>
          (case map_of (secrets r) sid of
             None \<Rightarrow> Inl SecretPanic
           | Some entry \<Rightarrow> Inr (se_Secret entry)))"

section \<open>The contract: a partial function of (application, name)\<close>

text \<open>
  A store addressed by pairs: the laws of a partial function under set, delete and resolve.
  \<open>good\<close> are the pairs clients may name.
\<close>

locale pair_store =
  fixes inv :: "'r \<Rightarrow> bool"
    and good :: "string \<Rightarrow> string \<Rightarrow> bool"
    and content :: "'r \<Rightarrow> string \<times> string \<rightharpoonup> string"
    and put :: "'arg \<Rightarrow> string \<Rightarrow> string \<Rightarrow> string \<Rightarrow> 'r \<Rightarrow> 'r"
    and del :: "string \<Rightarrow> string \<Rightarrow> 'r \<Rightarrow> 'r"
    and fresh :: "'arg \<Rightarrow> 'r \<Rightarrow> bool"
  assumes put_inv: "inv r \<Longrightarrow> good a n \<Longrightarrow> fresh x r \<Longrightarrow> inv (put x a n v r)"
    and put_content: "inv r \<Longrightarrow> good a n \<Longrightarrow> good a' n' \<Longrightarrow> fresh x r \<Longrightarrow>
      content (put x a n v r) (a', n') = ((content r)((a, n) \<mapsto> v)) (a', n')"
    and del_inv: "inv r \<Longrightarrow> good a n \<Longrightarrow> inv (del a n r)"
    and del_content: "inv r \<Longrightarrow> good a n \<Longrightarrow> good a' n' \<Longrightarrow>
      content (del a n r) (a', n') = ((content r)((a, n) := None)) (a', n')"
begin

lemma put_put:
  "inv r \<Longrightarrow> good a n \<Longrightarrow> good a' n' \<Longrightarrow> fresh x r \<Longrightarrow> fresh y (put x a n v r) \<Longrightarrow>
    content (put y a n w (put x a n v r)) (a', n') = ((content r)((a, n) \<mapsto> w)) (a', n')"
  by (simp add: put_inv put_content)

lemma put_isolates:
  "inv r \<Longrightarrow> good a n \<Longrightarrow> good a' n' \<Longrightarrow> fresh x r \<Longrightarrow> a' \<noteq> a \<Longrightarrow>
    content (put x a n v r) (a', n') = content r (a', n')"
  by (simp add: put_content)

lemma put_del:
  "inv r \<Longrightarrow> good a n \<Longrightarrow> fresh x r \<Longrightarrow> content (del a n (put x a n v r)) (a, n) = None"
  by (simp add: put_inv del_content)

end

definition secret_nm :: "SecretEntry \<Rightarrow> string" where
  "secret_nm e = secret_key (sec_ApplicationID (se_Secret e)) (sec_Name (se_Secret e))"

definition good_pair :: "string \<Rightarrow> string \<Rightarrow> bool" where
  "good_pair a n \<longleftrightarrow> a \<noteq> '''' \<and> CHR '':'' \<notin> set a \<and> ValidateSecretName n = None"

definition secret_inv :: "SecretRegistry \<Rightarrow> bool" where
  "secret_inv r \<longleftrightarrow> keyed (\<lambda>e. sec_ID (se_Secret e)) (secrets r) \<and>
     indexed secret_nm (secrets r) (nameMap r) \<and>
     (\<forall>e \<in> set (mvals (secrets r)). good_pair (sec_ApplicationID (se_Secret e)) (sec_Name (se_Secret e)))"

definition secret_content :: "SecretRegistry \<Rightarrow> string \<times> string \<rightharpoonup> string" where
  "secret_content r = (\<lambda>(a, n). case Secret_Resolve r a n of Inr v \<Rightarrow> Some v | Inl _ \<Rightarrow> None)"

definition secret_put :: "time \<times> int \<times> time \<Rightarrow> string \<Rightarrow> string \<Rightarrow> string \<Rightarrow> SecretRegistry \<Rightarrow> SecretRegistry" where
  "secret_put x a n v r = (case x of (nowU, nano, now) \<Rightarrow> fst (Secret_Set nowU nano now a n v r))"

definition secret_fresh :: "time \<times> int \<times> time \<Rightarrow> SecretRegistry \<Rightarrow> bool" where
  "secret_fresh x r \<longleftrightarrow> map_of (secrets r) (''sec-'' @ show_int (fst (snd x))) = None"

lemma secret_key_inj:
  "CHR '':'' \<notin> set a \<Longrightarrow> CHR '':'' \<notin> set a' \<Longrightarrow> secret_key a n = secret_key a' n' \<longleftrightarrow> a = a' \<and> n = n'"
proof (induction a arbitrary: a')
  case Nil
  then show ?case by (cases a') (auto simp: secret_key_def)
next
  case (Cons c a)
  then show ?case by (cases a') (auto simp: secret_key_def)
qed

text \<open>Under the invariant the index never points to a missing entry.\<close>

lemma Resolve_cases:
  assumes "secret_inv r" and "CHR '':'' \<notin> set a"
  shows "Secret_Resolve r a n =
    (case map_of (nameMap r) (secret_key a n) of None \<Rightarrow> Inl SecretNotFound
     | Some sid \<Rightarrow> Inr (se_Value (the (map_of (secrets r) sid))))"
  using assms by (auto simp: Secret_Resolve_def secret_inv_def split: option.splits dest!: indexed_SomeD)

lemma secret_inv_entry:
  assumes "secret_inv r" and "map_of (nameMap r) (secret_key a n) = Some sid" and "CHR '':'' \<notin> set a"
  obtains e where "map_of (secrets r) sid = Some e" "sec_ApplicationID (se_Secret e) = a"
    "sec_Name (se_Secret e) = n" "sec_ID (se_Secret e) = sid"
proof -
  obtain e where e: "map_of (secrets r) sid = Some e" "secret_nm e = secret_key a n"
    using assms(1,2) by (auto simp: secret_inv_def dest: indexed_SomeD)
  have "good_pair (sec_ApplicationID (se_Secret e)) (sec_Name (se_Secret e))"
    using assms(1) mvals_lookup [OF e(1)] by (auto simp: secret_inv_def)
  then have "sec_ApplicationID (se_Secret e) = a \<and> sec_Name (se_Secret e) = n"
    using e(2) assms(3) secret_key_inj by (auto simp: secret_nm_def good_pair_def)
  moreover have "sec_ID (se_Secret e) = sid"
    using assms(1) e(1) keyed_map_of [of "\<lambda>e. sec_ID (se_Secret e)"] by (auto simp: secret_inv_def)
  ultimately show ?thesis using e(1) that by blast
qed

lemma secret_inv_rewrite:
  assumes "secret_inv r" and "map_of (secrets r) sid = Some e"
    and "sec_ID (se_Secret e') = sec_ID (se_Secret e)"
    and "sec_ApplicationID (se_Secret e') = sec_ApplicationID (se_Secret e)"
    and "sec_Name (se_Secret e') = sec_Name (se_Secret e)"
  shows "secret_inv (r\<lparr>secrets := mput sid e' (secrets r)\<rparr>)"
proof -
  have k: "keyed (\<lambda>e. sec_ID (se_Secret e)) (secrets r)" using assms(1) by (simp add: secret_inv_def)
  have "sec_ID (se_Secret e') = sid" using keyed_map_of [OF k assms(2)] assms(3) by simp
  moreover have "good_pair (sec_ApplicationID (se_Secret e')) (sec_Name (se_Secret e'))"
    using assms mvals_lookup [OF assms(2)] by (auto simp: secret_inv_def)
  ultimately show ?thesis
    using assms k
    by (auto simp: secret_inv_def secret_nm_def set_mvals in_mput_cases keyed_distinct
        intro!: keyed_mput indexed_rewrite split: if_splits)
qed

lemma secret_inv_new:
  assumes "secret_inv r" and "map_of (secrets r) (sec_ID (se_Secret e)) = None"
    and "map_of (nameMap r) (secret_nm e) = None"
    and "good_pair (sec_ApplicationID (se_Secret e)) (sec_Name (se_Secret e))"
  shows "secret_inv (r\<lparr>secrets := mput (sec_ID (se_Secret e)) e (secrets r),
    nameMap := mput (secret_nm e) (sec_ID (se_Secret e)) (nameMap r)\<rparr>)"
  using assms
  by (auto simp: secret_inv_def set_mvals in_mput_cases keyed_distinct
      intro!: keyed_mput indexed_new split: if_splits)

text \<open>The two ways \<open>Set\<close> can go for a good pair.\<close>

lemma Set_cases:
  assumes "secret_inv r" and "good_pair a n"
  shows "(\<exists>sid e e'. map_of (nameMap r) (secret_key a n) = Some sid \<and> map_of (secrets r) sid = Some e \<and>
      sec_ID (se_Secret e') = sec_ID (se_Secret e) \<and>
      sec_ApplicationID (se_Secret e') = sec_ApplicationID (se_Secret e) \<and>
      sec_Name (se_Secret e') = sec_Name (se_Secret e) \<and> se_Value e' = v \<and>
      fst (Secret_Set nowU nano now a n v r) = r\<lparr>secrets := mput sid e' (secrets r)\<rparr>) \<or>
    (\<exists>e. map_of (nameMap r) (secret_key a n) = None \<and> secret_nm e = secret_key a n \<and>
      sec_ID (se_Secret e) = ''sec-'' @ show_int nano \<and> sec_ApplicationID (se_Secret e) = a \<and>
      sec_Name (se_Secret e) = n \<and> se_Value e = v \<and>
      fst (Secret_Set nowU nano now a n v r) =
        r\<lparr>secrets := mput (sec_ID (se_Secret e)) e (secrets r),
          nameMap := mput (secret_nm e) (sec_ID (se_Secret e)) (nameMap r)\<rparr>)"
proof (cases "map_of (nameMap r) (secret_key a n)")
  case None
  then show ?thesis
    using assms(2)
    by (intro disjI2 exI [of _ "\<lparr>se_Secret = \<lparr>sec_ID = ''sec-'' @ show_int nano, sec_Name = n,
        sec_ApplicationID = a, sec_CreatedAt = now, sec_UpdatedAt = now\<rparr>, se_Value = v\<rparr>"])
      (simp add: Secret_Set_def good_pair_def secret_nm_def Let_def)
next
  case (Some sid)
  with assms obtain e where "map_of (secrets r) sid = Some e"
    using secret_inv_entry good_pair_def by metis
  with Some assms(2) show ?thesis
    by (intro disjI1 exI [of _ sid] exI [of _ e]
        exI [of _ "e\<lparr>se_Value := v, se_Secret := (se_Secret e)\<lparr>sec_UpdatedAt := nowU\<rparr>\<rparr>"])
      (simp add: Secret_Set_def good_pair_def Let_def)
qed

lemma secret_put_inv:
  assumes "secret_inv r" and "good_pair a n" and "secret_fresh x r"
  shows "secret_inv (secret_put x a n v r)"
proof -
  obtain nowU nano now where x: "x = (nowU, nano, now)" by (cases x) auto
  from Set_cases [OF assms(1,2), of v nowU nano now] show ?thesis
  proof (elim disjE exE conjE)
    fix sid e e' assume "fst (Secret_Set nowU nano now a n v r) = r\<lparr>secrets := mput sid e' (secrets r)\<rparr>"
      "map_of (secrets r) sid = Some e" "sec_ID (se_Secret e') = sec_ID (se_Secret e)"
      "sec_ApplicationID (se_Secret e') = sec_ApplicationID (se_Secret e)"
      "sec_Name (se_Secret e') = sec_Name (se_Secret e)"
    then show ?thesis using assms(1) x by (simp add: secret_put_def secret_inv_rewrite)
  next
    fix e assume "map_of (nameMap r) (secret_key a n) = None" "secret_nm e = secret_key a n"
      "sec_ID (se_Secret e) = ''sec-'' @ show_int nano" "sec_ApplicationID (se_Secret e) = a"
      "sec_Name (se_Secret e) = n"
      "fst (Secret_Set nowU nano now a n v r) =
        r\<lparr>secrets := mput (sec_ID (se_Secret e)) e (secrets r),
          nameMap := mput (secret_nm e) (sec_ID (se_Secret e)) (nameMap r)\<rparr>"
    then show ?thesis
      using assms x secret_inv_new [of r e] by (simp add: secret_put_def secret_fresh_def)
  qed
qed

lemma secret_ids_differ:
  assumes "secret_inv r" and "map_of (nameMap r) m = Some sid" and "map_of (nameMap r) m' = Some sid'"
    and "m' \<noteq> m"
  shows "sid' \<noteq> sid"
  using assms indexed_inj [of secret_nm "secrets r" "nameMap r" m sid m'] by (auto simp: secret_inv_def)

lemma secret_put_content:
  assumes "secret_inv r" and "good_pair a n" and "good_pair a' n'" and "secret_fresh x r"
  shows "secret_content (secret_put x a n v r) (a', n') = ((secret_content r)((a, n) \<mapsto> v)) (a', n')"
proof -
  obtain nowU nano now where x: "x = (nowU, nano, now)" by (cases x) auto
  have key: "secret_key a' n' = secret_key a n \<longleftrightarrow> a' = a \<and> n' = n"
    using assms(2,3) by (intro secret_key_inj) (auto simp: good_pair_def)
  from Set_cases [OF assms(1,2), of v nowU nano now] show ?thesis
  proof (elim disjE exE conjE)
    fix sid e e' assume "fst (Secret_Set nowU nano now a n v r) = r\<lparr>secrets := mput sid e' (secrets r)\<rparr>"
      "map_of (nameMap r) (secret_key a n) = Some sid" "se_Value e' = v"
    then show ?thesis using key x secret_ids_differ [OF assms(1)]
      by (auto simp: secret_content_def secret_put_def Secret_Resolve_def split: option.splits)
  next
    fix e assume new: "map_of (nameMap r) (secret_key a n) = None" "secret_nm e = secret_key a n"
      "sec_ID (se_Secret e) = ''sec-'' @ show_int nano" "se_Value e = v"
      "fst (Secret_Set nowU nano now a n v r) =
        r\<lparr>secrets := mput (sec_ID (se_Secret e)) e (secrets r),
          nameMap := mput (secret_nm e) (sec_ID (se_Secret e)) (nameMap r)\<rparr>"
    have "sid \<noteq> ''sec-'' @ show_int nano" if "map_of (nameMap r) m = Some sid" for m sid
      using that assms(1,4) x indexed_SomeD [of secret_nm "secrets r" "nameMap r" m sid]
      by (auto simp: secret_inv_def secret_fresh_def)
    with new key x show ?thesis
      by (auto simp: secret_content_def secret_put_def Secret_Resolve_def split: option.splits)
  qed
qed

lemma secret_inv_remove:
  assumes "secret_inv r" and "map_of (secrets r) sid = Some e"
  shows "secret_inv (r\<lparr>nameMap := mdel (secret_nm e) (nameMap r), secrets := mdel sid (secrets r)\<rparr>)"
  using assms by (auto simp: secret_inv_def intro!: keyed_mdel indexed_del dest: in_mvals_mdel)

lemma DeleteByName_eq:
  assumes "secret_inv r" and "good_pair a n"
  shows "fst (Secret_DeleteByName a n r) =
    (case map_of (nameMap r) (secret_key a n) of None \<Rightarrow> r
     | Some sid \<Rightarrow> r\<lparr>nameMap := mdel (secret_key a n) (nameMap r), secrets := mdel sid (secrets r)\<rparr>)"
  by (simp add: Secret_DeleteByName_def Let_def split: option.splits)

lemma secret_del_inv:
  assumes "secret_inv r" and "good_pair a n"
  shows "secret_inv (fst (Secret_DeleteByName a n r))"
proof (cases "map_of (nameMap r) (secret_key a n)")
  case None
  with assms show ?thesis by (simp add: DeleteByName_eq)
next
  case (Some sid)
  with assms obtain e where "map_of (secrets r) sid = Some e" "secret_nm e = secret_key a n"
    by (metis indexed_SomeD secret_inv_def)
  with assms Some secret_inv_remove [of r sid e] show ?thesis by (simp add: DeleteByName_eq)
qed

lemma secret_del_content:
  assumes "secret_inv r" and "good_pair a n" and "good_pair a' n'"
  shows "secret_content (fst (Secret_DeleteByName a n r)) (a', n') = ((secret_content r)((a, n) := None)) (a', n')"
proof -
  have key: "secret_key a' n' = secret_key a n \<longleftrightarrow> a' = a \<and> n' = n"
    using assms(2,3) by (intro secret_key_inj) (auto simp: good_pair_def)
  show ?thesis using assms(1,2) key secret_ids_differ [OF assms(1)]
    by (auto simp: secret_content_def DeleteByName_eq Secret_Resolve_def split: option.splits)
qed

interpretation secret_store: pair_store secret_inv good_pair secret_content secret_put
  "\<lambda>a n r. fst (Secret_DeleteByName a n r)" secret_fresh
  by unfold_locales (simp_all add: secret_put_inv secret_put_content secret_del_inv secret_del_content
      del: fun_upd_apply)

section \<open>Runs of the registry\<close>

datatype secret_op =
    SSet time int time string string string
  | SDelete string
  | SDeleteByName string string

fun secret_step :: "secret_op \<Rightarrow> SecretRegistry \<Rightarrow> SecretRegistry" where
  "secret_step (SSet t nano u a n v) r = fst (Secret_Set t nano u a n v r)"
| "secret_step (SDelete sid) r = fst (Secret_Delete sid r)"
| "secret_step (SDeleteByName a n) r = fst (Secret_DeleteByName a n r)"

text \<open>
  The environment: application identifiers are hexadecimal, hence without colon, and the clock
  gives no two secrets the same nanosecond.
\<close>

fun secret_op_ok :: "secret_op \<Rightarrow> SecretRegistry \<Rightarrow> bool" where
  "secret_op_ok (SSet t nano u a n v) r \<longleftrightarrow> CHR '':'' \<notin> set a \<and> secret_fresh (t, nano, u) r"
| "secret_op_ok (SDelete sid) r \<longleftrightarrow> True"
| "secret_op_ok (SDeleteByName a n) r \<longleftrightarrow> CHR '':'' \<notin> set a"

lemma Set_refused: "\<not> good_pair a n \<Longrightarrow> CHR '':'' \<notin> set a \<Longrightarrow> fst (Secret_Set t nano u a n v r) = r"
  by (auto simp: Secret_Set_def good_pair_def split: option.splits)

lemma DeleteByName_inv:
  assumes "secret_inv r" and "CHR '':'' \<notin> set a"
  shows "secret_inv (fst (Secret_DeleteByName a n r))"
proof (cases "good_pair a n")
  case True
  with assms(1) show ?thesis by (rule secret_del_inv)
next
  case False
  have "map_of (nameMap r) (secret_key a n) = None"
  proof (rule ccontr)
    assume "map_of (nameMap r) (secret_key a n) \<noteq> None"
    then obtain sid where s: "map_of (nameMap r) (secret_key a n) = Some sid" by auto
    obtain e where "map_of (secrets r) sid = Some e" "sec_ApplicationID (se_Secret e) = a"
      "sec_Name (se_Secret e) = n"
      by (rule secret_inv_entry [OF assms(1) s assms(2)])
    with False assms(1) show False by (auto simp: secret_inv_def dest: mvals_lookup)
  qed
  with assms(1) show ?thesis by (simp add: Secret_DeleteByName_def Let_def)
qed

lemma Delete_inv: "secret_inv r \<Longrightarrow> secret_inv (fst (Secret_Delete sid r))"
  using secret_inv_remove [of r sid]
  by (auto simp: Secret_Delete_def secret_nm_def split: option.splits)

interpretation secret_machine: invariant_machine NewSecretRegistry secret_op_ok secret_step secret_inv
proof
  show "secret_inv NewSecretRegistry" by (simp add: secret_inv_def NewSecretRegistry_def)
next
  fix s op assume inv: "secret_inv s" and ok: "secret_op_ok op s"
  show "secret_inv (secret_step op s)"
  proof (cases op)
    case (SSet t nano u a n v)
    with inv ok secret_put_inv [OF inv, of a n "(t, nano, u)" v] show ?thesis
      by (cases "good_pair a n") (auto simp: secret_put_def Set_refused)
  qed (use inv ok in \<open>auto intro: Delete_inv DeleteByName_inv\<close>)
qed

section \<open>Properties\<close>

text \<open>
  The secret registry implements a partial function from (application, name) to value. In
  every reachable state, resolving a name never hits a missing entry and finds only a secret
  of that application; setting a valid name updates the function at that pair and nowhere
  else, so no application sees or overwrites a secret of another; deleting removes that pair.
\<close>

lemma secret_refines_map:
  assumes "reach NewSecretRegistry secret_op_ok secret_step r"
    and "good_pair a n" and "good_pair a' n'"
    and "map_of (secrets r) (''sec-'' @ show_int nano) = None"
  shows "Secret_Resolve r a n \<noteq> Inl SecretPanic \<and>
    (\<forall>v. Secret_Resolve r a n = Inr v \<longrightarrow>
       (\<exists>e \<in> set (mvals (secrets r)). sec_ApplicationID (se_Secret e) = a \<and>
          sec_Name (se_Secret e) = n \<and> se_Value e = v)) \<and>
    secret_content (fst (Secret_Set t nano u a n v r)) (a', n') =
      ((secret_content r)((a, n) \<mapsto> v)) (a', n') \<and>
    secret_content (fst (Secret_DeleteByName a n r)) (a', n') =
      ((secret_content r)((a, n) := None)) (a', n')"
proof -
  have inv: "secret_inv r" using assms(1) by (rule secret_machine.reach_inv)
  have a: "CHR '':'' \<notin> set a" using assms(2) by (simp add: good_pair_def)
  have "\<exists>e \<in> set (mvals (secrets r)). sec_ApplicationID (se_Secret e) = a \<and>
      sec_Name (se_Secret e) = n \<and> se_Value e = v" if "Secret_Resolve r a n = Inr v" for v
  proof -
    from that obtain sid where s: "map_of (nameMap r) (secret_key a n) = Some sid"
      by (auto simp: Secret_Resolve_def split: option.splits)
    then obtain e where "map_of (secrets r) sid = Some e" "sec_ApplicationID (se_Secret e) = a"
      "sec_Name (se_Secret e) = n" by (rule secret_inv_entry [OF inv _ a])
    with s that show ?thesis by (auto simp: Secret_Resolve_def intro: mvals_lookup)
  qed
  moreover have "secret_fresh (t, nano, u) r" using assms(4) by (simp add: secret_fresh_def)
  ultimately show ?thesis
    using secret_store.put_content [OF inv assms(2,3), of "(t, nano, u)" v]
      secret_store.del_content [OF inv assms(2,3)] Resolve_cases [OF inv a]
    by (simp add: secret_put_def split: option.splits)
qed

lemma secret_refines_map_example:
  "secret_content (fst (Secret_Set 1 7 1 ''ab'' ''KEY'' ''v'' NewSecretRegistry)) (''cd'', ''KEY'') = None"
  using secret_refines_map [OF reach_init, of "''ab''" "''KEY''" "''cd''" "''KEY''" 7 1 1 "''v''"]
  by (simp add: good_pair_def ValidateSecretName_def nameRegex_def name_char_def NewSecretRegistry_def
      secret_content_def Secret_Resolve_def)

text \<open>
  Two secrets that are created in the same nanosecond get the same identifier. The second
  \<open>Set\<close> then replaces the entry the first name points to: resolving the first name, of another
  application even, yields the value of the second.
\<close>

lemma secret_id_collision_leaks:
  assumes "good_pair a n" and "good_pair b m" and "(a, n) \<noteq> (b, m)"
    and "map_of (nameMap r) (secret_key a n) = None" and "map_of (nameMap r) (secret_key b m) = None"
  shows "Secret_Resolve (fst (Secret_Set t' nano u' b m w (fst (Secret_Set t nano u a n v r)))) a n = Inr w"
proof -
  have "secret_key a n \<noteq> secret_key b m"
    using assms(1-3) secret_key_inj by (auto simp: good_pair_def)
  with assms show ?thesis
    by (simp add: Secret_Set_def good_pair_def Let_def Secret_Resolve_def)
qed

lemma secret_id_collision_leaks_example:
  "Secret_Resolve (fst (Secret_Set 2 7 2 ''cd'' ''KEY'' ''theirs''
     (fst (Secret_Set 1 7 1 ''ab'' ''KEY'' ''mine'' NewSecretRegistry)))) ''ab'' ''KEY'' = Inr ''theirs''"
  by (rule secret_id_collision_leaks)
    (simp_all add: good_pair_def ValidateSecretName_def nameRegex_def name_char_def NewSecretRegistry_def)

end
