(* ===== verification/AppService.thy ===== *)
theory AppService
  imports Reconciler Secret
begin

text \<open>
  The application service, \<open>internal/service/app_service.go\<close>: the operations behind the HTTP
  interface that keep the application registry and the deployment registry in step.

  Random identifiers and the readings of the clock are the record \<open>SvcInput\<close>, the content hash
  of a deployment is the parameter \<open>hash\<close>. \<open>specsMatch\<close> reads the secret registry; there a name
  without entry is a nil dereference in Go, which the invariant of that registry excludes.
\<close>

section \<open>Definitions\<close>

record SvcState =
  sv_apps :: AppRegistry
  sv_deps :: DepRegistry

record SvcInput =
  in_appID :: string
  in_depID :: string
  in_created :: time
  in_touched :: time
  in_depAt :: time
  in_updated :: time

datatype SvcError =
    SvcApp AppError | SvcDep DepError | SvcForbidden | SvcDegraded

definition CreateApp ::
  "(AppSpec \<Rightarrow> string) \<Rightarrow> SvcInput \<Rightarrow> string \<Rightarrow> AppSpec \<Rightarrow> SvcState \<Rightarrow> SvcState \<times> (SvcError + Application)" where
  "CreateApp hash x name spec0 s =
     (let spec = EnsureDefaultStrategy spec0 in
      case ValidateAppSpec spec of
        Some e \<Rightarrow> (s, Inl (SvcApp e))
      | None \<Rightarrow>
          (case App_Create (in_appID x) (in_created x) (in_touched x) name spec (sv_apps s) of
             (as, Inl e) \<Rightarrow> (s\<lparr>sv_apps := as\<rparr>, Inl (SvcApp e))
           | (as, Inr app) \<Rightarrow>
               (let (ds, dep) = Dep_Create hash (in_depID x) (in_depAt x) (a_ID app) spec (sv_deps s);
                    (as2, res) = App_Update (in_updated x) (a_ID app) spec (d_ID dep) AppPending as
                in (\<lparr>sv_apps = as2, sv_deps = ds\<rparr>, map_sum SvcApp (\<lambda>a. a) res))))"

text \<open>Making a new deployment the active one, as \<open>UpdateApp\<close> and \<open>DeployApp\<close> both do.\<close>

definition supersede ::
  "(AppSpec \<Rightarrow> string) \<Rightarrow> SvcInput \<Rightarrow> string \<Rightarrow> string \<Rightarrow> AppSpec \<Rightarrow> SvcState \<Rightarrow> SvcState \<times> (SvcError + Application)" where
  "supersede hash x k oldDepID spec s =
     (let (ds, dep) = Dep_Create hash (in_depID x) (in_depAt x) k spec (sv_deps s);
          (as, res) = App_Update (in_updated x) k spec (d_ID dep) AppPending (sv_apps s);
          ds1 = (if oldDepID \<noteq> '''' \<and> oldDepID \<noteq> d_ID dep then fst (Dep_UpdateState oldDepID DepSuperseded ds) else ds);
          ds2 = fst (Dep_UpdateState (d_ID dep) DepActive ds1)
      in (\<lparr>sv_apps = as, sv_deps = ds2\<rparr>, map_sum SvcApp (\<lambda>a. a) res))"

definition UpdateApp ::
  "(AppSpec \<Rightarrow> string) \<Rightarrow> SvcInput \<Rightarrow> string \<Rightarrow> AppSpec \<Rightarrow> SvcState \<Rightarrow> SvcState \<times> (SvcError + Application)" where
  "UpdateApp hash x k spec0 s =
     (case App_Get (sv_apps s) k of
        Inl e \<Rightarrow> (s, Inl (SvcApp e))
      | Inr app \<Rightarrow>
          (let spec = EnsureDefaultStrategy spec0 in
           case ValidateAppSpec spec of
             Some e \<Rightarrow> (s, Inl (SvcApp e))
           | None \<Rightarrow> supersede hash x k (a_ActiveDeploymentID app) spec s))"

definition GetApp :: "SvcState \<Rightarrow> string \<Rightarrow> AppError + Application" where
  "GetApp s k = App_Get (sv_apps s) k"

definition ListApps :: "SvcState \<Rightarrow> Application list" where
  "ListApps s = App_List (sv_apps s)"

definition RollbackApp ::
  "time \<Rightarrow> string \<Rightarrow> string \<Rightarrow> bool \<Rightarrow> SvcState \<Rightarrow> SvcState \<times> (SvcError + Application)" where
  "RollbackApp now k targetID force s =
     (case App_Get (sv_apps s) k of
        Inl e \<Rightarrow> (s, Inl (SvcApp e))
      | Inr app \<Rightarrow>
          (case Dep_Get (sv_deps s) targetID of
             Inl e \<Rightarrow> (s, Inl (SvcDep e))
           | Inr dep \<Rightarrow>
               if d_ApplicationID dep \<noteq> a_ID app then (s, Inl SvcForbidden)
               else if \<not> force \<and> (d_Degraded dep \<or> d_RolloutStatus dep = RolloutFailed) then (s, Inl SvcDegraded)
               else
                 (case App_Rollback now k targetID (sv_apps s) of
                    (as, Inl e) \<Rightarrow> (s\<lparr>sv_apps := as\<rparr>, Inl (SvcApp e))
                  | (as, Inr app1) \<Rightarrow>
                      (let oldDepID = a_ActiveDeploymentID app;
                           ds1 = (if oldDepID \<noteq> '''' \<and> oldDepID \<noteq> targetID
                                  then fst (Dep_UpdateState oldDepID DepSuperseded (sv_deps s)) else sv_deps s);
                           ds2 = fst (Dep_UpdateState targetID DepActive ds1);
                           ds3 = fst (Dep_UpdateRolloutStatusOnly targetID RolloutPending '''' ds2)
                       in (\<lparr>sv_apps = as, sv_deps = ds3\<rparr>, Inr app1)))))"

text \<open>Two specifications are compared field by field; resources and probes are not compared.\<close>

definition env_entry_matches :: "SecretRegistry \<Rightarrow> string \<Rightarrow> time \<Rightarrow> (string, string) gomap \<Rightarrow> string \<times> string \<Rightarrow> bool" where
  "env_entry_matches secReg appID createdAt envB kv =
     (case kv of (k, v) \<Rightarrow>
        mget_or '''' envB k = v \<and>
        (has_prefix v ''secret:'' \<longrightarrow>
           (case Secret_GetByName secReg appID (trim_prefix v ''secret:'') of
              Inl _ \<Rightarrow> True
            | Inr meta \<Rightarrow> \<not> sec_UpdatedAt meta > createdAt)))"

definition specsMatch :: "SecretRegistry \<Rightarrow> string \<Rightarrow> Deployment \<Rightarrow> AppSpec \<Rightarrow> bool" where
  "specsMatch secReg appID activeDep b =
     (let a = d_SpecSnapshot activeDep in
      s_Image a = s_Image b \<and> length (s_Command a) = length (s_Command b) \<and> length (s_Args a) = length (s_Args b) \<and>
      length (s_Environment a) = length (s_Environment b) \<and> length (s_Ports a) = length (s_Ports b) \<and>
      s_Replicas a = s_Replicas b \<and>
      s_Command a = s_Command b \<and> s_Args a = s_Args b \<and> s_Ports a = s_Ports b \<and>
      list_all (env_entry_matches secReg appID (d_CreatedAt activeDep) (s_Environment b)) (s_Environment a) \<and>
      s_Strategy a = s_Strategy b)"

definition deploy_found ::
  "(AppSpec \<Rightarrow> string) \<Rightarrow> SvcInput \<Rightarrow> string \<Rightarrow> Application \<Rightarrow> AppSpec \<Rightarrow> SecretRegistry \<Rightarrow> SvcState
    \<Rightarrow> SvcState \<times> (SvcError + Application)" where
  "deploy_found hash x k app spec0 secReg s =
     (let spec = EnsureDefaultStrategy spec0 in
      case ValidateAppSpec spec of
        Some e \<Rightarrow> (s, Inl (SvcApp e))
      | None \<Rightarrow>
          if a_ActiveDeploymentID app \<noteq> '''' \<and>
             (case Dep_Get (sv_deps s) (a_ActiveDeploymentID app) of
                Inl _ \<Rightarrow> False
              | Inr activeDep \<Rightarrow> specsMatch secReg k activeDep spec)
          then (s, Inr app)
          else supersede hash x k (a_ActiveDeploymentID app) spec s)"

definition DeployApp ::
  "(AppSpec \<Rightarrow> string) \<Rightarrow> SvcInput \<Rightarrow> string \<Rightarrow> AppSpec \<Rightarrow> SecretRegistry \<Rightarrow> SvcState
    \<Rightarrow> SvcState \<times> (SvcError + Application)" where
  "DeployApp hash x k spec secReg s =
     (case App_Get (sv_apps s) k of
        Inr app \<Rightarrow> deploy_found hash x k app spec secReg s
      | Inl _ \<Rightarrow>
          (case App_GetByName (sv_apps s) k of
             Inr app \<Rightarrow> deploy_found hash x (a_ID app) app spec secReg s
           | Inl _ \<Rightarrow> CreateApp hash x k spec s))"

section \<open>Runs of the service\<close>

datatype svc_op =
    SCreate SvcInput string AppSpec
  | SUpdate SvcInput string AppSpec
  | SRollback time string string bool
  | SDeploy SvcInput string AppSpec SecretRegistry

fun svc_step :: "(AppSpec \<Rightarrow> string) \<Rightarrow> svc_op \<Rightarrow> SvcState \<Rightarrow> SvcState" where
  "svc_step hash (SCreate x name spec) s = fst (CreateApp hash x name spec s)"
| "svc_step hash (SUpdate x k spec) s = fst (UpdateApp hash x k spec s)"
| "svc_step hash (SRollback now k dep force) s = fst (RollbackApp now k dep force s)"
| "svc_step hash (SDeploy x k spec sec) s = fst (DeployApp hash x k spec sec s)"

definition fresh_input :: "SvcInput \<Rightarrow> SvcState \<Rightarrow> bool" where
  "fresh_input x s \<longleftrightarrow> map_of (apps (sv_apps s)) (in_appID x) = None \<and>
     map_of (deployments (sv_deps s)) (in_depID x) = None \<and> in_depID x \<noteq> ''''"

fun svc_ok :: "svc_op \<Rightarrow> SvcState \<Rightarrow> bool" where
  "svc_ok (SCreate x _ _) s \<longleftrightarrow> fresh_input x s"
| "svc_ok (SUpdate x _ _) s \<longleftrightarrow> fresh_input x s"
| "svc_ok (SRollback _ _ _ _) s \<longleftrightarrow> True"
| "svc_ok (SDeploy x _ _ _) s \<longleftrightarrow> fresh_input x s"

definition NewSvcState :: SvcState where
  "NewSvcState = \<lparr>sv_apps = NewAppRegistry, sv_deps = NewDepRegistry\<rparr>"

text \<open>The active deployment of every application exists and is its own.\<close>

definition active_ok :: "DepRegistry \<Rightarrow> Application \<Rightarrow> bool" where
  "active_ok ds app \<longleftrightarrow> (\<exists>d. map_of (deployments ds) (a_ActiveDeploymentID app) = Some d \<and> d_ApplicationID d = a_ID app)"

definition svc_inv :: "SvcState \<Rightarrow> bool" where
  "svc_inv s \<longleftrightarrow> app_inv (sv_apps s) \<and> dep_inv (sv_deps s) \<and> (\<forall>a \<in> set (App_List (sv_apps s)). active_ok (sv_deps s) a)"

section \<open>The service keeps the registries in step\<close>

lemma active_ok_evolve: "active_ok ds a \<Longrightarrow> deps_evolve ds ds' \<Longrightarrow> active_ok ds' a"
  unfolding active_ok_def deps_evolve_def dep_evolves_def by metis

lemma active_ok_cong: "a_ActiveDeploymentID a' = a_ActiveDeploymentID a \<Longrightarrow> a_ID a' = a_ID a \<Longrightarrow> active_ok ds a' = active_ok ds a"
  by (simp add: active_ok_def)

lemma dep_write_keeps:
  assumes "dep_inv r"
  shows "dep_inv (fst (Dep_UpdateState k st r)) \<and> deps_evolve r (fst (Dep_UpdateState k st r))"
    and "dep_inv (fst (Dep_UpdateRolloutStatusOnly k rs re r)) \<and> deps_evolve r (fst (Dep_UpdateRolloutStatusOnly k rs re r))"
  using dep_step_keeps [OF assms, of "DState k st"] dep_step_keeps [OF assms, of "DRolloutOnly k rs re"] by simp_all

lemma dep_create_keeps:
  assumes "dep_inv r" and "map_of (deployments r) rid = None"
  shows "dep_inv (fst (Dep_Create hash rid now k spec r))" and "deps_evolve r (fst (Dep_Create hash rid now k spec r))"
  using dep_step_keeps [OF assms(1), of "DCreate rid now k spec" hash] assms(2) by simp_all

lemma deps_evolve_trans: "deps_evolve a b \<Longrightarrow> deps_evolve b c \<Longrightarrow> deps_evolve a c"
  by (rule dep_progress.rel_trans)

text \<open>The deployments after a new one became active.\<close>

definition activated :: "string \<Rightarrow> string \<Rightarrow> DepRegistry \<Rightarrow> DepRegistry" where
  "activated old new ds = fst (Dep_UpdateState new DepActive
     (if old \<noteq> '''' \<and> old \<noteq> new then fst (Dep_UpdateState old DepSuperseded ds) else ds))"

lemma activated_keeps: "dep_inv ds \<Longrightarrow> dep_inv (activated old new ds) \<and> deps_evolve ds (activated old new ds)"
  unfolding activated_def
  using dep_write_keeps(1) [of ds old DepSuperseded] dep_write_keeps(1) [of "fst (Dep_UpdateState old DepSuperseded ds)" new DepActive]
    dep_write_keeps(1) [of ds new DepActive] deps_evolve_trans by auto

lemma Dep_Create_ID [simp]: "d_ID (snd (Dep_Create hash rid now k spec r)) = rid"
  by (simp add: Dep_Create_def Let_def)

lemma Dep_Create_lookup:
  "map_of (deployments (fst (Dep_Create hash rid now k spec r))) rid = Some (snd (Dep_Create hash rid now k spec r))"
  "d_ApplicationID (snd (Dep_Create hash rid now k spec r)) = k"
  "d_SpecSnapshot (snd (Dep_Create hash rid now k spec r)) = spec"
  "d_CreatedAt (snd (Dep_Create hash rid now k spec r)) = now"
  by (simp_all add: Dep_Create_def Let_def)

lemma App_Update_ok:
  assumes "map_of (apps r) k = Some app" and "ValidateAppSpec spec = None" and "EnsureDefaultStrategy spec = spec"
  shows "App_Update now k spec dep st r =
    (r\<lparr>apps := mput k (app\<lparr>a_Spec := spec, a_ActiveDeploymentID := dep, a_Status := st, a_UpdatedAt := now\<rparr>) (apps r)\<rparr>,
     Inr (app\<lparr>a_Spec := spec, a_ActiveDeploymentID := dep, a_Status := st, a_UpdatedAt := now\<rparr>))"
  using assms by (simp add: App_Update_def Let_def)

lemma svc_inv_activate:
  assumes "svc_inv s" and "dep_inv ds" and "deps_evolve (sv_deps s) ds" and "map_of (apps (sv_apps s)) k = Some app"
    and "map_of (deployments ds) new = Some d" and "d_ApplicationID d = k"
    and "a_ID app' = a_ID app" and "a_Name app' = a_Name app" and "spec_ok (a_Spec app')" and "a_ActiveDeploymentID app' = new"
  shows "svc_inv \<lparr>sv_apps = (sv_apps s)\<lparr>apps := mput k app' (apps (sv_apps s))\<rparr>, sv_deps = ds\<rparr>"
proof -
  have ai: "app_inv (sv_apps s)" using assms(1) by (simp add: svc_inv_def)
  then have k: "keyed a_ID (apps (sv_apps s))" by (simp add: app_inv_def)
  have "active_ok ds a" if "a \<in> set (mvals (mput k app' (apps (sv_apps s))))" for a
  proof (rule ball_mvals_mput [OF keyed_distinct [OF k] _ _ that])
    show "active_ok ds a'" if "a' \<in> set (mvals (apps (sv_apps s)))" for a'
      using that assms(1,3) active_ok_evolve by (auto simp: svc_inv_def App_List_def)
    show "active_ok ds app'" using assms(4-7,10) keyed_map_of [OF k assms(4)] by (simp add: active_ok_def)
  qed
  then show ?thesis
    using app_inv_put [OF ai assms(4,7,8,9)] assms(2) by (simp add: svc_inv_def App_List_def)
qed

lemma supersede_eq:
  assumes "map_of (apps (sv_apps s)) k = Some app" and "ValidateAppSpec spec = None" and "EnsureDefaultStrategy spec = spec"
  shows "supersede hash x k old spec s =
    (\<lparr>sv_apps = (sv_apps s)\<lparr>apps := mput k (app\<lparr>a_Spec := spec, a_ActiveDeploymentID := in_depID x, a_Status := AppPending,
         a_UpdatedAt := in_updated x\<rparr>) (apps (sv_apps s))\<rparr>,
      sv_deps = activated old (in_depID x) (fst (Dep_Create hash (in_depID x) (in_depAt x) k spec (sv_deps s)))\<rparr>,
     Inr (app\<lparr>a_Spec := spec, a_ActiveDeploymentID := in_depID x, a_Status := AppPending, a_UpdatedAt := in_updated x\<rparr>))"
  using App_Update_ok [OF assms]
  by (simp add: supersede_def activated_def Let_def case_prod_unfold)

lemma activated_new:
  assumes "dep_inv r" and "map_of (deployments r) rid = None"
  shows "\<exists>d. map_of (deployments (activated old rid (fst (Dep_Create hash rid now k spec r)))) rid = Some d \<and>
    d_ApplicationID d = k \<and> d_SpecSnapshot d = spec \<and> d_CreatedAt d = now"
proof -
  have "deps_evolve (fst (Dep_Create hash rid now k spec r)) (activated old rid (fst (Dep_Create hash rid now k spec r)))"
    using activated_keeps dep_create_keeps(1) [OF assms] by blast
  then show ?thesis
    using Dep_Create_lookup [of hash rid now k spec r] unfolding deps_evolve_def dep_evolves_def by metis
qed

lemma svc_inv_supersede:
  assumes "svc_inv s" and "fresh_input x s" and "map_of (apps (sv_apps s)) k = Some app"
    and "ValidateAppSpec spec = None" and "EnsureDefaultStrategy spec = spec"
  shows "svc_inv (fst (supersede hash x k old spec s))"
proof -
  let ?ds = "fst (Dep_Create hash (in_depID x) (in_depAt x) k spec (sv_deps s))"
  have di: "dep_inv (sv_deps s)" and new: "map_of (deployments (sv_deps s)) (in_depID x) = None"
    using assms(1,2) by (auto simp: svc_inv_def fresh_input_def)
  note c = dep_create_keeps [OF di new, of hash "in_depAt x" k spec]
  note a = activated_keeps [OF c(1), of old "in_depID x"]
  obtain d where d: "map_of (deployments (activated old (in_depID x) ?ds)) (in_depID x) = Some d" "d_ApplicationID d = k"
    using activated_new [OF di new] by blast
  have ok: "spec_ok spec" using assms(4,5) by (metis spec_ok_EnsureDefaultStrategy)
  show ?thesis
    unfolding supersede_eq [OF assms(3-5)] fst_conv
    using a deps_evolve_trans [OF c(2)] ok by (intro svc_inv_activate [OF assms(1) _ _ assms(3) d]) auto
qed

lemma mput_overwrite_last: "map_of m k = None \<Longrightarrow> mput k v' (m @ [(k, v)]) = m @ [(k, v')]"
  by (induction m) (auto split: if_splits)

lemma svc_inv_Create:
  assumes "svc_inv s" and "fresh_input x s"
  shows "svc_inv (fst (CreateApp hash x name spec0 s))"
proof (cases "ValidateAppSpec (EnsureDefaultStrategy spec0) = None \<and> map_of (app_names (sv_apps s)) name = None")
  case False
  with assms(1) show ?thesis
    by (auto simp: CreateApp_def App_Create_def Let_def split: option.splits)
next
  case True
  let ?spec = "EnsureDefaultStrategy spec0"
  define ar where "ar = fst (App_Create (in_appID x) (in_created x) (in_touched x) name ?spec (sv_apps s))"
  let ?app = "\<lparr>a_ID = in_appID x, a_Name = name, a_Spec = ?spec, a_ActiveDeploymentID = '''',
     a_Status = AppPending, a_CreatedAt = in_created x, a_UpdatedAt = in_touched x\<rparr>"
  let ?new = "?app\<lparr>a_ActiveDeploymentID := in_depID x, a_UpdatedAt := in_updated x\<rparr>"
  let ?ds = "fst (Dep_Create hash (in_depID x) (in_depAt x) (in_appID x) ?spec (sv_deps s))"
  have di: "dep_inv (sv_deps s)" and ai: "app_inv (sv_apps s)"
    and fa: "map_of (apps (sv_apps s)) (in_appID x) = None" and fd: "map_of (deployments (sv_deps s)) (in_depID x) = None"
    using assms by (auto simp: svc_inv_def fresh_input_def)
  have c: "App_Create (in_appID x) (in_created x) (in_touched x) name ?spec (sv_apps s) = (ar, Inr ?app)"
    and l: "map_of (apps ar) (in_appID x) = Some ?app"
    using True fa by (simp_all add: ar_def App_Create_def Let_def)
  have e: "apps ar = apps (sv_apps s) @ [(in_appID x, ?app)]"
    unfolding mput_new [OF fa, symmetric] using True by (simp add: ar_def App_Create_def Let_def)
  have st: "fst (CreateApp hash x name spec0 s) = \<lparr>sv_apps = ar\<lparr>apps := mput (in_appID x) ?new (apps ar)\<rparr>, sv_deps = ?ds\<rparr>"
    using True App_Update_ok [OF l, of ?spec] by (simp add: CreateApp_def c Let_def case_prod_unfold)
  have "app_inv (ar\<lparr>apps := mput (in_appID x) ?new (apps ar)\<rparr>)"
    using True app_inv_Create [OF ai fa] by (intro app_inv_put [OF _ l]) (simp_all add: ar_def)
  moreover have "active_ok ?ds a" if "a \<in> set (mvals (mput (in_appID x) ?new (apps ar)))" for a
  proof -
    have m: "mput (in_appID x) ?new (apps ar) = apps (sv_apps s) @ [(in_appID x, ?new)]"
      unfolding e using fa by (rule mput_overwrite_last)
    have "active_ok ?ds ?new" by (simp add: active_ok_def Dep_Create_lookup)
    then show ?thesis
      using that assms(1) active_ok_evolve [OF _ dep_create_keeps(2) [OF di fd]]
      unfolding m by (auto simp: svc_inv_def App_List_def)
  qed
  ultimately show ?thesis
    unfolding st svc_inv_def using dep_create_keeps(1) [OF di fd] by (simp add: App_List_def)
qed


lemma svc_inv_Rollback:
  assumes "svc_inv s"
  shows "svc_inv (fst (RollbackApp now k dep force s))"
proof (cases "fst (RollbackApp now k dep force s) = s")
  case False
  then obtain app d where a: "map_of (apps (sv_apps s)) k = Some app" and d: "map_of (deployments (sv_deps s)) dep = Some d"
    and own: "d_ApplicationID d = a_ID app"
    and st: "fst (RollbackApp now k dep force s) = \<lparr>sv_apps = (sv_apps s)\<lparr>apps := mput k (app\<lparr>a_ActiveDeploymentID := dep,
        a_UpdatedAt := now\<rparr>) (apps (sv_apps s))\<rparr>,
      sv_deps = fst (Dep_UpdateRolloutStatusOnly dep RolloutPending '''' (activated (a_ActiveDeploymentID app) dep (sv_deps s)))\<rparr>"
    by (auto simp: RollbackApp_def App_Get_def Dep_Get_def App_Rollback_def activated_def Let_def
        split: option.splits if_splits)
  have di: "dep_inv (sv_deps s)" and ai: "app_inv (sv_apps s)" using assms by (auto simp: svc_inv_def)
  let ?ds = "fst (Dep_UpdateRolloutStatusOnly dep RolloutPending '''' (activated (a_ActiveDeploymentID app) dep (sv_deps s)))"
  note ak = activated_keeps [OF di, of "a_ActiveDeploymentID app" dep]
  note rk = dep_write_keeps(2) [of "activated (a_ActiveDeploymentID app) dep (sv_deps s)" dep RolloutPending "''''"]
  have di': "dep_inv ?ds" and ev: "deps_evolve (sv_deps s) ?ds" using ak rk deps_evolve_trans by blast+
  obtain d' where d': "map_of (deployments ?ds) dep = Some d'" "d_ApplicationID d' = k"
    using ev d own keyed_map_of [OF _ a] ai unfolding deps_evolve_def dep_evolves_def app_inv_def by metis
  have "spec_ok (a_Spec app)" using ai mvals_lookup [OF a] by (auto simp: app_inv_def)
  then show ?thesis unfolding st by (intro svc_inv_activate [OF assms di' ev a d']) auto
qed (use assms in simp)

lemma svc_inv_deploy_found:
  assumes "svc_inv s" and "fresh_input x s" and "map_of (apps (sv_apps s)) k = Some app"
  shows "svc_inv (fst (deploy_found hash x k app spec sec s))"
  using assms svc_inv_supersede [OF assms, of "EnsureDefaultStrategy spec"]
  by (auto simp: deploy_found_def Let_def split: option.splits)

lemma GetByName_lookup:
  assumes "app_inv r" and "App_GetByName r k = Inr app"
  shows "map_of (apps r) (a_ID app) = Some app"
  using assms by (auto simp: App_GetByName_def app_inv_def split: option.splits dest: keyed_map_of)

lemma GetByName_index:
  assumes "app_inv r" and "App_GetByName r k = Inr app"
  shows "map_of (app_names r) k = Some (a_ID app)"
  using assms by (auto simp: App_GetByName_def app_inv_def split: option.splits dest: keyed_map_of)

lemma svc_inv_step:
  assumes "svc_inv s" and "svc_ok op s"
  shows "svc_inv (svc_step hash op s)"
proof (cases op)
  case (SCreate x name spec)
  then show ?thesis using assms svc_inv_Create by simp
next
  case (SUpdate x k spec)
  then show ?thesis
    using assms svc_inv_supersede [OF assms(1), of x k _ "EnsureDefaultStrategy spec"]
    by (auto simp: UpdateApp_def App_Get_def Let_def split: option.splits)
next
  case (SRollback now k dep force)
  then show ?thesis using assms svc_inv_Rollback by simp
next
  case (SDeploy x k spec sec)
  then show ?thesis
    using assms svc_inv_deploy_found [OF assms(1)] svc_inv_Create [OF assms(1)] GetByName_lookup
    by (auto simp: DeployApp_def App_Get_def svc_inv_def [of s] split: option.splits sum.splits)
qed

interpretation svc_machine: invariant_machine NewSvcState svc_ok "svc_step hash" svc_inv for hash
proof
  show "svc_inv NewSvcState"
    using app_machine.inv_init dep_machine.inv_init by (simp add: svc_inv_def NewSvcState_def NewAppRegistry_def App_List_def)
qed (rule svc_inv_step)

section \<open>Properties\<close>

text \<open>
  C23: the application and the deployment registry stay in step. In every state the service
  reaches by creating, updating, deploying and rolling back, each application has an active
  deployment that exists and belongs to it, so the rollout controller computes targets for it.
\<close>

theorem svc_active_deployment:
  assumes "reach NewSvcState svc_ok (svc_step hash) s" and "app \<in> set (ListApps s)"
  shows "\<exists>d. Dep_Get (sv_deps s) (a_ActiveDeploymentID app) = Inr d \<and> d_ApplicationID d = a_ID app \<and>
    (\<exists>T. snd (computeAppTarget app insts (Dep_List (sv_deps s)) (sv_deps s)) = Some T)"
proof -
  have inv: "svc_inv s" using assms(1) by (rule svc_machine.reach_inv)
  then obtain d where d: "map_of (deployments (sv_deps s)) (a_ActiveDeploymentID app) = Some d" "d_ApplicationID d = a_ID app"
    using assms(2) by (auto simp: svc_inv_def ListApps_def active_ok_def)
  have k: "keyed d_ID (deployments (sv_deps s))" using inv by (simp add: svc_inv_def dep_inv_def)
  have "d \<in> set (Dep_List (sv_deps s))" "d_ID d = a_ActiveDeploymentID app"
    using mvals_lookup [OF d(1)] keyed_map_of [OF k d(1)] by (auto simp: Dep_List_def)
  then have "find (\<lambda>d. d_ID d = a_ActiveDeploymentID app)
      (rev (filter (\<lambda>d. d_ApplicationID d = a_ID app) (Dep_List (sv_deps s)))) \<noteq> None"
    using d(2) by (auto simp: find_None_iff)
  then have "\<exists>T. snd (computeAppTarget app insts (Dep_List (sv_deps s)) (sv_deps s)) = Some T"
    by (auto simp: computeAppTarget_def Let_def split: option.splits)
  with d show ?thesis by (simp add: Dep_Get_def)
qed

definition example_input :: SvcInput where
  "example_input = \<lparr>in_appID = ''a1'', in_depID = ''d1'', in_created = 1, in_touched = 1, in_depAt = 2, in_updated = 3\<rparr>"

definition example_service :: SvcState where
  "example_service = svc_step (\<lambda>_. ''h'') (SCreate example_input ''shop'' example_spec) NewSvcState"

lemma example_service_reach: "reach NewSvcState svc_ok (svc_step (\<lambda>_. ''h'')) example_service"
  unfolding example_service_def
  by (intro reach_step reach_init)
    (simp add: fresh_input_def NewSvcState_def NewAppRegistry_def NewDepRegistry_def example_input_def)

lemma example_service_app:
  "map_of (apps (sv_apps example_service)) ''a1'' =
     Some \<lparr>a_ID = ''a1'', a_Name = ''shop'', a_Spec = EnsureDefaultStrategy example_spec, a_ActiveDeploymentID = ''d1'',
       a_Status = AppPending, a_CreatedAt = 1, a_UpdatedAt = 3\<rparr>"
  by (simp add: example_service_def CreateApp_def App_Create_def App_Update_def Dep_Create_def Let_def NewSvcState_def
      NewAppRegistry_def NewDepRegistry_def example_input_def example_spec_valid)

theorem svc_active_deployment_witness:
  "\<exists>d. Dep_Get (sv_deps example_service) ''d1'' = Inr d \<and> d_ApplicationID d = ''a1''"
  using svc_active_deployment [OF example_service_reach, where insts = "[]"] mvals_lookup [OF example_service_app]
  by (fastforce simp: ListApps_def App_List_def)

definition secrets_older :: "SecretRegistry \<Rightarrow> string \<Rightarrow> time \<Rightarrow> bool" where
  "secrets_older sec k t \<longleftrightarrow> (\<forall>n meta. Secret_GetByName sec k n = Inr meta \<longrightarrow> sec_UpdatedAt meta \<le> t)"

lemma specsMatch_self:
  assumes "distinct (map fst (s_Environment spec))" and "d_SpecSnapshot d = spec" and "secrets_older sec k (d_CreatedAt d)"
  shows "specsMatch sec k d spec"
proof -
  have "mget_or '''' (s_Environment spec) n = v" if "(n, v) \<in> set (s_Environment spec)" for n v
    using that assms(1) by (simp add: mget_or_def)
  then have "list_all (env_entry_matches sec k (d_CreatedAt d) (s_Environment spec)) (s_Environment spec)"
    using assms(3) by (force simp: list_all_iff env_entry_matches_def secrets_older_def not_less split: sum.splits)
  then show ?thesis using assms(2) by (simp add: specsMatch_def)
qed

lemma EnsureDefault_env [simp]: "s_Environment (EnsureDefaultStrategy spec) = s_Environment spec"
  by (simp add: EnsureDefaultStrategy_def split: option.splits)


text \<open>What a deploy leaves behind: an active deployment with the specification.\<close>

definition deployed :: "SvcState \<Rightarrow> string \<Rightarrow> Application \<Rightarrow> AppSpec \<Rightarrow> time \<Rightarrow> bool" where
  "deployed s k app spec t \<longleftrightarrow> map_of (apps (sv_apps s)) k = Some app \<and> a_ActiveDeploymentID app \<noteq> '''' \<and>
     (\<exists>d. map_of (deployments (sv_deps s)) (a_ActiveDeploymentID app) = Some d \<and> d_SpecSnapshot d = spec \<and> d_CreatedAt d = t)"

lemma deployed_again:
  assumes "deployed s k app (EnsureDefaultStrategy spec) t" and "ValidateAppSpec (EnsureDefaultStrategy spec) = None"
    and "distinct (map fst (s_Environment spec))" and "secrets_older sec k t"
  shows "deploy_found hash x k app spec sec s = (s, Inr app)"
proof -
  obtain d where d: "map_of (deployments (sv_deps s)) (a_ActiveDeploymentID app) = Some d"
    "d_SpecSnapshot d = EnsureDefaultStrategy spec" "d_CreatedAt d = t"
    using assms(1) by (auto simp: deployed_def)
  have "specsMatch sec k d (EnsureDefaultStrategy spec)"
    using assms(3,4) d by (intro specsMatch_self) auto
  with assms(1,2) d show ?thesis by (simp add: deploy_found_def Let_def Dep_Get_def deployed_def)
qed

lemma supersede_deployed:
  assumes "svc_inv s" and "fresh_input x s" and "map_of (apps (sv_apps s)) k = Some app"
    and "ValidateAppSpec spec = None" and "EnsureDefaultStrategy spec = spec"
  shows "\<exists>app'. snd (supersede hash x k old spec s) = Inr app' \<and> a_ID app' = a_ID app \<and> a_Name app' = a_Name app \<and>
    deployed (fst (supersede hash x k old spec s)) k app' spec (in_depAt x) \<and>
    app_names (sv_apps (fst (supersede hash x k old spec s))) = app_names (sv_apps s) \<and>
    (\<forall>k'. map_of (apps (sv_apps (fst (supersede hash x k old spec s)))) k' = None \<longleftrightarrow> map_of (apps (sv_apps s)) k' = None)"
proof -
  have di: "dep_inv (sv_deps s)" and new: "map_of (deployments (sv_deps s)) (in_depID x) = None" "in_depID x \<noteq> ''''"
    using assms(1,2) by (auto simp: svc_inv_def fresh_input_def)
  obtain d where "map_of (deployments (activated old (in_depID x) (fst (Dep_Create hash (in_depID x) (in_depAt x) k spec
      (sv_deps s))))) (in_depID x) = Some d" "d_SpecSnapshot d = spec" "d_CreatedAt d = in_depAt x"
    using activated_new [OF di new(1)] by blast
  then show ?thesis
    using new(2) assms(3) by (simp add: supersede_eq [OF assms(3-5)] deployed_def)
qed

lemma create_deployed:
  assumes "fresh_input x s" and "CreateApp hash x name spec s = (s1, Inr app)"
  shows "a_ID app = in_appID x \<and> a_Name app = name \<and> deployed s1 (in_appID x) app (EnsureDefaultStrategy spec) (in_depAt x) \<and>
    map_of (app_names (sv_apps s1)) name = Some (in_appID x) \<and>
    ValidateAppSpec (EnsureDefaultStrategy spec) = None \<and>
    (\<forall>k. k \<noteq> in_appID x \<longrightarrow> map_of (apps (sv_apps s1)) k = map_of (apps (sv_apps s)) k)"
proof -
  let ?spec = "EnsureDefaultStrategy spec"
  have v: "ValidateAppSpec ?spec = None"
    using assms(2) by (cases "ValidateAppSpec ?spec") (simp_all add: CreateApp_def Let_def)
  have n: "map_of (app_names (sv_apps s)) name = None"
  proof (rule ccontr)
    assume "map_of (app_names (sv_apps s)) name \<noteq> None"
    then have "App_Create (in_appID x) (in_created x) (in_touched x) name ?spec (sv_apps s) = (sv_apps s, Inl AppAlreadyExists)"
      by (simp add: App_Create_def)
    with assms(2) v show False by (simp add: CreateApp_def Let_def)
  qed
  show ?thesis
    using assms v n
    by (auto simp: CreateApp_def App_Create_def App_Update_def Let_def Dep_Create_def deployed_def fresh_input_def)
qed

lemma DeployApp_by_name:
  "App_Get (sv_apps s) k = Inl e \<Longrightarrow> App_GetByName (sv_apps s) k = Inr app \<Longrightarrow>
    DeployApp hash x k spec sec s = deploy_found hash x (a_ID app) app spec sec s"
  by (simp add: DeployApp_def)

lemma redeploy_found:
  assumes "svc_inv s" and "fresh_input x s" and "distinct (map fst (s_Environment spec))" and "s1 \<noteq> s"
    and "secrets_older sec' (a_ID app) (in_depAt x)"
    and "deploy_found hash x k0 app0 spec sec s = (s1, Inr app)" and "map_of (apps (sv_apps s)) k0 = Some app0"
    and "k0 = k \<or> map_of (apps (sv_apps s)) k = None \<and> map_of (app_names (sv_apps s)) k = Some k0"
  shows "DeployApp hash x' k spec sec' s1 = (s1, Inr app)"
proof -
  let ?spec = "EnsureDefaultStrategy spec"
  have ka: "keyed a_ID (apps (sv_apps s))" using assms(1) by (auto simp: svc_inv_def app_inv_def)
  have v: "ValidateAppSpec ?spec = None" and sp: "supersede hash x k0 (a_ActiveDeploymentID app0) ?spec s = (s1, Inr app)"
    using assms(4,6) by (auto simp: deploy_found_def Let_def split: option.splits if_splits)
  from supersede_deployed [OF assms(1,2,7) v, of hash "a_ActiveDeploymentID app0"] sp
  have d: "deployed s1 k0 app ?spec (in_depAt x)" "a_ID app = a_ID app0" "app_names (sv_apps s1) = app_names (sv_apps s)"
    "map_of (apps (sv_apps s1)) k = None \<longleftrightarrow> map_of (apps (sv_apps s)) k = None" by auto
  have "a_ID app = k0" using keyed_map_of [OF ka assms(7)] d(2) by simp
  then have again: "deploy_found hash x' k0 app spec sec' s1 = (s1, Inr app)"
    using deployed_again [OF d(1) v assms(3)] assms(5) by simp
  from assms(8) show ?thesis
  proof
    assume "k0 = k"
    with again d(1) show ?thesis by (simp add: DeployApp_def App_Get_def deployed_def)
  next
    assume "map_of (apps (sv_apps s)) k = None \<and> map_of (app_names (sv_apps s)) k = Some k0"
    then have "App_Get (sv_apps s1) k = Inl AppNotFound" and "App_GetByName (sv_apps s1) k = Inr app"
      using d(1,3,4) by (simp_all add: App_Get_def App_GetByName_def deployed_def)
    with again \<open>a_ID app = k0\<close> show ?thesis by (simp add: DeployApp_by_name)
  qed
qed

text \<open>
  Deploying is idempotent. When \<open>DeployApp\<close> has succeeded for an application and
  specification, deploying the same specification again, with the secrets it refers to not
  rotated after that deployment, answers with the same application and changes nothing: no
  second deployment is created.
\<close>

lemma deploy_idempotent:
  assumes "reach NewSvcState svc_ok (svc_step hash) s" and "fresh_input x s" and "k \<noteq> in_appID x"
    and "distinct (map fst (s_Environment spec))"
    and "DeployApp hash x k spec sec s = (s1, Inr app)" and "s1 \<noteq> s"
    and "secrets_older sec' (a_ID app) (in_depAt x)"
  shows "DeployApp hash x' k spec sec' s1 = (s1, Inr app)"
proof -
  let ?spec = "EnsureDefaultStrategy spec"
  have inv: "svc_inv s" using assms(1) by (rule svc_machine.reach_inv)
  then have ai: "app_inv (sv_apps s)" by (simp add: svc_inv_def)
  note found = redeploy_found [OF inv assms(2,4,6,7)]
  show ?thesis
  proof (cases "map_of (apps (sv_apps s)) k")
    case (Some app0)
    with assms(5) have "deploy_found hash x k app0 spec sec s = (s1, Inr app)" by (simp add: DeployApp_def App_Get_def)
    then show ?thesis using Some by (rule found) simp
  next
    case None
    show ?thesis
    proof (cases "App_GetByName (sv_apps s) k")
      case (Inr app0)
      note l = GetByName_lookup [OF ai Inr] and n = GetByName_index [OF ai Inr]
      have "deploy_found hash x (a_ID app0) app0 spec sec s = (s1, Inr app)"
        using assms(5) None Inr by (simp add: DeployApp_def App_Get_def)
      then show ?thesis using l by (rule found) (use None n in simp)
    next
      case (Inl e)
      with None assms(5) have "CreateApp hash x k spec s = (s1, Inr app)" by (simp add: DeployApp_def App_Get_def)
      from create_deployed [OF assms(2) this]
      have c: "a_ID app = in_appID x" "deployed s1 (in_appID x) app ?spec (in_depAt x)"
        "map_of (app_names (sv_apps s1)) k = Some (in_appID x)" "ValidateAppSpec ?spec = None"
        "map_of (apps (sv_apps s1)) k = None" using None assms(3) by auto
      have "deploy_found hash x' (in_appID x) app spec sec' s1 = (s1, Inr app)"
        using deployed_again [OF c(2,4) assms(4)] assms(7) c(1) by simp
      with c show ?thesis by (simp add: DeployApp_def App_Get_def App_GetByName_def deployed_def)
    qed
  qed
qed

lemma deploy_idempotent_example:
  "DeployApp (\<lambda>_. ''h'') example_input ''shop'' example_spec NewSecretRegistry example_service =
     (example_service, Inr (the (map_of (apps (sv_apps example_service)) ''a1'')))"
proof (rule deploy_idempotent [where s = NewSvcState and x = example_input and sec = NewSecretRegistry])
  show "reach NewSvcState svc_ok (svc_step (\<lambda>_. ''h'')) NewSvcState" by (rule reach_init)
  show "DeployApp (\<lambda>_. ''h'') example_input ''shop'' example_spec NewSecretRegistry NewSvcState =
      (example_service, Inr (the (map_of (apps (sv_apps example_service)) ''a1'')))"
    by (simp add: example_service_def DeployApp_def CreateApp_def App_Get_def App_GetByName_def App_Create_def
        App_Update_def Dep_Create_def Let_def NewSvcState_def
        NewAppRegistry_def NewDepRegistry_def example_input_def example_spec_valid)
  show "example_service \<noteq> NewSvcState"
  proof
    assume "example_service = NewSvcState"
    with example_service_app show False by (simp add: NewSvcState_def NewAppRegistry_def)
  qed
qed (simp_all add: fresh_input_def NewSvcState_def NewAppRegistry_def NewDepRegistry_def example_input_def
    example_spec_def secrets_older_def Secret_GetByName_def NewSecretRegistry_def)

end
