(* ===== verification/Apply.thy ===== *)
theory Apply
  imports AppService Ingress Route
begin

text \<open>
  Manifests and \<open>runstack apply\<close>: \<open>internal/manifest/manifest.go\<close> and the handler of
  \<open>internal/api/apply.go\<close>, which brings the registries to what a manifest asks for.

  The decoder of the request body is a parameter: \<open>None\<close> is a body that does not decode. A
  certificate provider, when there is one, is a log of the names requested from it. Random
  identifiers and clock readings are the record \<open>ApplyInput\<close>, those of the \<open>n\<close>-th domain of a
  manifest are functions of \<open>n\<close>. The handler returns its state in every case, also when it
  fails half-way.
\<close>

section \<open>Manifests\<close>

record ResourceSpec =
  re_CPU :: float64
  re_Memory :: int

record EnvVar =
  ev_Name :: string
  ev_Value :: string

record ProbeSpec =
  ps_Path :: string
  ps_Port :: int

record ProbesSpec =
  ps_Readiness :: "ProbeSpec option"
  ps_Liveness :: "ProbeSpec option"

record ServiceSpec =
  ss_Port :: int

record DomainSpec =
  ds_Name :: string
  ds_TLS :: bool

record RolloutSpec =
  ro_MaxSurge :: int
  ro_MaxUnavailable :: int

record Manifest =
  mf_Name :: string
  mf_Image :: string
  mf_Replicas :: int
  mf_Command :: "string list"
  mf_Args :: "string list"
  mf_Resources :: ResourceSpec
  mf_Env :: "EnvVar list"
  mf_Secrets :: "string list"
  mf_Probes :: "ProbesSpec option"
  mf_Service :: "ServiceSpec option"
  mf_Domains :: "DomainSpec list"
  mf_Rollout :: "RolloutSpec option"

datatype ManifestError =
    BadName | NoImage | NegReplicas | BadResources | BadReadiness | BadLiveness | BadServicePort
  | DomainsNeedService | EmptyDomain | NegRollout

definition manifest_name_char :: "char \<Rightarrow> bool" where
  "manifest_name_char c \<longleftrightarrow> (let n = of_char c :: nat in 97 \<le> n \<and> n \<le> 122 \<or> 48 \<le> n \<and> n \<le> 57 \<or> n = 45)"

definition bad_probe :: "ProbeSpec option \<Rightarrow> bool" where
  "bad_probe p \<longleftrightarrow> (case p of None \<Rightarrow> False | Some q \<Rightarrow> ps_Port q \<le> 0 \<or> ps_Path q = '''')"

definition Manifest_Validate :: "Manifest \<Rightarrow> ManifestError option" where
  "Manifest_Validate m =
     (if mf_Name m = '''' \<or> \<not> list_all manifest_name_char (mf_Name m) then Some BadName
      else if mf_Image m = '''' then Some NoImage
      else if mf_Replicas m < 0 then Some NegReplicas
      else if re_CPU (mf_Resources m) \<le> 0 \<or> re_Memory (mf_Resources m) \<le> 0 then Some BadResources
      else if (case mf_Probes m of None \<Rightarrow> False | Some p \<Rightarrow> bad_probe (ps_Readiness p)) then Some BadReadiness
      else if (case mf_Probes m of None \<Rightarrow> False | Some p \<Rightarrow> bad_probe (ps_Liveness p)) then Some BadLiveness
      else if (case mf_Service m of None \<Rightarrow> False | Some sv \<Rightarrow> ss_Port sv \<le> 0) then Some BadServicePort
      else if mf_Domains m \<noteq> [] \<and> mf_Service m = None then Some DomainsNeedService
      else if list_ex (\<lambda>d. ds_Name d = '''') (mf_Domains m) then Some EmptyDomain
      else if (case mf_Rollout m of None \<Rightarrow> False | Some r \<Rightarrow> ro_MaxSurge r < 0 \<or> ro_MaxUnavailable r < 0)
        then Some NegRollout
      else None)"

definition manifest_env :: "Manifest \<Rightarrow> (string, string) gomap" where
  "manifest_env m =
     foldl (\<lambda>env sec. mput sec (''secret:'' @ sec) env)
       (foldl (\<lambda>env e. mput (ev_Name e) (ev_Value e) env) [] (mf_Env m)) (mf_Secrets m)"

definition probe_of :: "ProbeSpec \<Rightarrow> Probe" where
  "probe_of p = \<lparr>pr_Type = '''', pr_Path = ps_Path p, pr_Port = ps_Port p, pr_InitialDelaySecs = 0, pr_PeriodSecs = 0,
     pr_TimeoutSecs = 0, pr_SuccessThreshold = 0, pr_FailureThreshold = 0\<rparr>"

definition ToDeploymentSpec :: "Manifest \<Rightarrow> AppSpec" where
  "ToDeploymentSpec m =
     \<lparr>s_Resources = Some \<lparr>rr_CPU = re_CPU (mf_Resources m), rr_MemoryMB = re_Memory (mf_Resources m)\<rparr>,
      s_Image = mf_Image m, s_Command = mf_Command m, s_Args = mf_Args m, s_Environment = manifest_env m,
      s_Ports = [], s_Replicas = 0, s_Strategy = None,
      s_ReadinessProbe = (case mf_Probes m of None \<Rightarrow> None | Some p \<Rightarrow> map_option probe_of (ps_Readiness p)),
      s_LivenessProbe = (case mf_Probes m of None \<Rightarrow> None | Some p \<Rightarrow> map_option probe_of (ps_Liveness p))\<rparr>"

definition HashDeployment :: "(AppSpec \<Rightarrow> string) \<Rightarrow> Manifest \<Rightarrow> string" where
  "HashDeployment hash m = hash (json_spec (ToDeploymentSpec m))"

section \<open>The handler\<close>

record ApplyState =
  ap_apps :: AppRegistry
  ap_deps :: DepRegistry
  ap_services :: ServiceRegistry
  ap_domains :: DomainRegistry
  ap_ingresses :: IngressRegistry
  ap_certs :: "string list option"

datatype Action = Unchanged | Created | Updated

record ApplyResult =
  ar_ApplicationID :: string
  ar_DeploymentID :: string
  ar_Action :: Action

datatype ApplyError =
    BadManifestJSON | InvalidManifest ManifestError | AppCreateFailed AppError | AppLookupFailed AppError
  | MissingSecret string | DomainCreateFailed string DomainError | DomainLookupFailed DomainError
  | DomainOwnedByOther string | IngressCreateFailed string IngressError

fun apply_status :: "ApplyError \<Rightarrow> nat" where
  "apply_status BadManifestJSON = 400"
| "apply_status (InvalidManifest _) = 400"
| "apply_status (MissingSecret _) = 412"
| "apply_status (DomainOwnedByOther _) = 409"
| "apply_status _ = 500"

record ApplyInput =
  ai_appID :: string
  ai_created :: time
  ai_touched :: time
  ai_serviceID :: string
  ai_serviceAt :: time
  ai_domainID :: "nat \<Rightarrow> string"
  ai_ingressID :: "nat \<Rightarrow> string"
  ai_depID :: string
  ai_depAt :: time
  ai_updated :: time

definition bump :: "Action \<Rightarrow> Action" where
  "bump a = (if a = Unchanged then Updated else a)"

definition resolve_app :: "ApplyInput \<Rightarrow> string \<Rightarrow> ApplyState \<Rightarrow> ApplyState \<times> (ApplyError + Application \<times> Action)" where
  "resolve_app x name s =
     (case App_GetByName (ap_apps s) name of
        Inr app \<Rightarrow> (s, Inr (app, Unchanged))
      | Inl AppNotFound \<Rightarrow>
          (case App_Create (ai_appID x) (ai_created x) (ai_touched x) name
                  \<lparr>s_Resources = None, s_Image = '''', s_Command = [], s_Args = [], s_Environment = [], s_Ports = [],
                   s_Replicas = 0, s_Strategy = None, s_ReadinessProbe = None, s_LivenessProbe = None\<rparr> (ap_apps s) of
             (as, Inl e) \<Rightarrow> (s\<lparr>ap_apps := as\<rparr>, Inl (AppCreateFailed e))
           | (as, Inr app) \<Rightarrow> (s\<lparr>ap_apps := as\<rparr>, Inr (app, Created)))
      | Inl e \<Rightarrow> (s, Inl (AppLookupFailed e)))"

definition missing_secret :: "SecretRegistry \<Rightarrow> string \<Rightarrow> string list \<Rightarrow> string option" where
  "missing_secret sec appID names = find (\<lambda>n. case Secret_GetByName sec appID n of Inl _ \<Rightarrow> True | Inr _ \<Rightarrow> False) names"

definition apply_service :: "ApplyInput \<Rightarrow> string \<Rightarrow> int \<Rightarrow> ApplyState \<times> Action \<Rightarrow> (ApplyState \<times> Action) \<times> string" where
  "apply_service x appID port sa =
     (case sa of (s, act) \<Rightarrow>
        (case find (\<lambda>v. sv_ApplicationID v = appID) (Service_List (ap_services s)) of
           None \<Rightarrow>
             (let (vs, svc) = Service_Create (ai_serviceID x) (ai_serviceAt x) appID port ''tcp'' (ap_services s)
              in ((s\<lparr>ap_services := vs\<rparr>, bump act), sv_ID svc))
         | Some svc \<Rightarrow>
             (if sv_TargetPort svc \<noteq> port
              then (s\<lparr>ap_services := fst (Service_Update (sv_ID svc) port ''tcp'' (ap_services s))\<rparr>, bump act)
              else (s, act), sv_ID svc)))"

definition ingress_of :: "string \<Rightarrow> IngressRegistry \<Rightarrow> Ingress option" where
  "ingress_of domainID g = find (\<lambda>i. ing_DomainID i = domainID) (Ingress_List g)"

text \<open>The domain of one specification: found, created, or refused.\<close>

definition map_domain ::
  "string \<Rightarrow> string \<Rightarrow> DomainSpec \<Rightarrow> ApplyState \<times> Action \<Rightarrow> (ApplyState \<times> Action) \<times> (ApplyError + Domain)" where
  "map_domain rid appID d sa =
     (case sa of (s, act) \<Rightarrow>
        (case Domain_GetByName (ap_domains s) (ds_Name d) of
           Inl DomainNotFound \<Rightarrow>
             (case Domain_Create rid (ds_Name d) appID (ds_TLS d) (ap_domains s) of
                (ms, Inl e) \<Rightarrow> ((s\<lparr>ap_domains := ms\<rparr>, act), Inl (DomainCreateFailed (ds_Name d) e))
              | (ms, Inr dm) \<Rightarrow> ((s\<lparr>ap_domains := ms\<rparr>, bump act), Inr dm))
         | Inl e \<Rightarrow> ((s, act), Inl (DomainLookupFailed e))
         | Inr dm \<Rightarrow>
             if dm_ApplicationID dm \<noteq> appID then ((s, act), Inl (DomainOwnedByOther (ds_Name d)))
             else if dm_TLS dm \<noteq> ds_TLS d
             then ((s\<lparr>ap_domains := fst (Domain_UpdateTLS (dm_ID dm) (ds_TLS d) (ap_domains s))\<rparr>, bump act), Inr dm)
             else ((s, act), Inr dm)))"

definition map_ingress :: "string \<Rightarrow> string \<Rightarrow> string \<Rightarrow> Domain \<Rightarrow> ApplyState \<Rightarrow> ApplyState \<times> ApplyError option" where
  "map_ingress rid serviceID name dm s =
     (case ingress_of (dm_ID dm) (ap_ingresses s) of
        None \<Rightarrow>
          (case Ingress_Create rid (dm_ID dm) serviceID ''/'' (ap_ingresses s) of
             (g, Inl e) \<Rightarrow> (s\<lparr>ap_ingresses := g\<rparr>, Some (IngressCreateFailed name e))
           | (g, Inr _) \<Rightarrow> (s\<lparr>ap_ingresses := g\<rparr>, None))
      | Some ing \<Rightarrow>
          if ing_ServiceID ing \<noteq> serviceID
          then (s\<lparr>ap_ingresses := fst (Ingress_Create rid (dm_ID dm) serviceID ''/''
                                    (fst (Ingress_Delete (ing_ID ing) (ap_ingresses s))))\<rparr>, None)
          else (s, None))"

fun apply_domains ::
  "ApplyInput \<Rightarrow> string \<Rightarrow> string \<Rightarrow> nat \<Rightarrow> DomainSpec list \<Rightarrow> ApplyState \<times> Action \<Rightarrow> (ApplyState \<times> Action) \<times> ApplyError option" where
  "apply_domains x appID serviceID n [] sa = (sa, None)"
| "apply_domains x appID serviceID n (d # rest) sa =
     (case map_domain (ai_domainID x n) appID d sa of
        (sa1, Inl e) \<Rightarrow> (sa1, Some e)
      | ((s1, act), Inr dm) \<Rightarrow>
          (case map_ingress (ai_ingressID x n) serviceID (ds_Name d) dm s1 of
             (s2, Some e) \<Rightarrow> ((s2, act), Some e)
           | (s2, None) \<Rightarrow>
               (let s3 = (if ds_TLS d then s2\<lparr>ap_certs := map_option (\<lambda>c. c @ [ds_Name d]) (ap_certs s2)\<rparr> else s2)
                in apply_domains x appID serviceID (Suc n) rest (s3, act))))"

definition prune_domain :: "string list \<Rightarrow> ApplyState \<times> Action \<Rightarrow> Domain \<Rightarrow> ApplyState \<times> Action" where
  "prune_domain desired sa d =
     (case sa of (s, act) \<Rightarrow>
        if dm_Name d \<in> set desired then (s, act)
        else
          (let s1 = (case ingress_of (dm_ID d) (ap_ingresses s) of
                       None \<Rightarrow> s
                     | Some ing \<Rightarrow> s\<lparr>ap_ingresses := fst (Ingress_Delete (ing_ID ing) (ap_ingresses s))\<rparr>)
           in (s1\<lparr>ap_domains := fst (Domain_Delete (dm_ID d) (ap_domains s1))\<rparr>, bump act)))"

text \<open>
  Choosing the deployment: one with the same hash, a new one, or the active one. The second
  component is the deployment to activate, the third whether it was created.
\<close>

definition choose_deployment ::
  "(AppSpec \<Rightarrow> string) \<Rightarrow> ApplyInput \<Rightarrow> Manifest \<Rightarrow> Application \<Rightarrow> ApplyState \<times> Action
    \<Rightarrow> (ApplyState \<times> Action) \<times> string \<times> bool \<times> string" where
  "choose_deployment hash x m app sa =
     (case sa of (s, act) \<Rightarrow>
        (let deps = Dep_ListByApplication (ap_deps s) (a_ID app);
             activeHash = (case find (\<lambda>d. d_ID d = a_ActiveDeploymentID app) deps of None \<Rightarrow> '''' | Some d \<Rightarrow> d_Hash d);
             activeID = (case find (\<lambda>d. d_ID d = a_ActiveDeploymentID app) deps of None \<Rightarrow> '''' | Some d \<Rightarrow> d_ID d);
             newHash = HashDeployment hash m
         in case find (\<lambda>d. d_Hash d = newHash) deps of
              Some d \<Rightarrow>
                ((s, if a_ActiveDeploymentID app \<noteq> d_ID d then bump act else act), d_ID d, False, d_ID d)
            | None \<Rightarrow>
                if a_ActiveDeploymentID app = '''' \<or> activeHash \<noteq> newHash then
                  (let (ds, dep) = Dep_Create hash (ai_depID x) (ai_depAt x) (a_ID app) (ToDeploymentSpec m) (ap_deps s)
                   in ((s\<lparr>ap_deps := ds\<rparr>, bump act), d_ID dep, True, d_ID dep))
                else ((s, act), a_ActiveDeploymentID app, False, activeID)))"

definition Apply ::
  "(AppSpec \<Rightarrow> string) \<Rightarrow> ApplyInput \<Rightarrow> SecretRegistry \<Rightarrow> Manifest option \<Rightarrow> ApplyState
    \<Rightarrow> ApplyState \<times> (ApplyError + ApplyResult)" where
  "Apply hash x sec body s =
     (case body of
        None \<Rightarrow> (s, Inl BadManifestJSON)
      | Some m \<Rightarrow>
          (case Manifest_Validate m of
             Some e \<Rightarrow> (s, Inl (InvalidManifest e))
           | None \<Rightarrow>
               (case resolve_app x (mf_Name m) s of
                  (s1, Inl e) \<Rightarrow> (s1, Inl e)
                | (s1, Inr (app, act1)) \<Rightarrow>
                    (case missing_secret sec (a_ID app) (mf_Secrets m) of
                       Some n \<Rightarrow> (s1, Inl (MissingSecret n))
                     | None \<Rightarrow>
                         (let (sa2, serviceID) =
                                (case mf_Service m of None \<Rightarrow> ((s1, act1), '''')
                                 | Some sv \<Rightarrow> apply_service x (a_ID app) (ss_Port sv) (s1, act1));
                              currentDomains = filter (\<lambda>d. dm_ApplicationID d = a_ID app) (Domain_List (ap_domains (fst sa2)));
                              desired = (case mf_Service m of None \<Rightarrow> [] | Some _ \<Rightarrow> map ds_Name (mf_Domains m));
                              (sa3, err) =
                                (case mf_Service m of None \<Rightarrow> (sa2, None)
                                 | Some _ \<Rightarrow> apply_domains x (a_ID app) serviceID 0 (mf_Domains m) sa2)
                          in case err of
                               Some e \<Rightarrow> (fst sa3, Inl e)
                             | None \<Rightarrow>
                                 (let sa4 = foldl (prune_domain desired) sa3 currentDomains;
                                      ((s5, act5), activeDepID, depCreated, resultID) = choose_deployment hash x m app sa4;
                                      s6 = s5\<lparr>ap_apps := fst (App_Update (ai_updated x) (a_ID app)
                                             ((ToDeploymentSpec m)\<lparr>s_Replicas := mf_Replicas m\<rparr>) activeDepID (a_Status app)
                                             (ap_apps s5))\<rparr>;
                                      act6 = (if s_Replicas (a_Spec app) \<noteq> mf_Replicas m \<and> \<not> depCreated
                                              then bump act5 else act5)
                                  in (s6, Inr \<lparr>ar_ApplicationID = a_ID app, ar_DeploymentID = resultID,
                                               ar_Action = act6\<rparr>)))))))"

definition Diff :: "Manifest option \<Rightarrow> ApplyError + string" where
  "Diff body =
     (case body of None \<Rightarrow> Inl BadManifestJSON
      | Some m \<Rightarrow> (case Manifest_Validate m of Some e \<Rightarrow> Inl (InvalidManifest e) | None \<Rightarrow> Inr ''diff calculated''))"

section \<open>What the stages leave alone\<close>

abbreviation service_run :: "ServiceRegistry \<Rightarrow> ServiceRegistry \<Rightarrow> bool" where
  "service_run r r' \<equiv> reach r (\<lambda>_ _. True) service_step r'"

lemma service_runI:
  "service_run r (fst (Service_Create rid now app port proto r))"
  "service_run r (fst (Service_Update k port proto r))"
  "service_run r (fst (Service_Delete k r))"
  using reach.reach_step [OF reach.reach_init, where op = "SvCreate rid now app port proto" and step = service_step and init = r]
    reach.reach_step [OF reach.reach_init, where op = "SvUpdate k port proto" and step = service_step and init = r]
    reach.reach_step [OF reach.reach_init, where op = "SvDelete k" and step = service_step and init = r] by simp_all

lemma service_frame:
  "ap_apps (fst (fst (apply_service x k p (s, act)))) = ap_apps s \<and>
   ap_deps (fst (fst (apply_service x k p (s, act)))) = ap_deps s \<and>
   ap_domains (fst (fst (apply_service x k p (s, act)))) = ap_domains s \<and>
   ap_ingresses (fst (fst (apply_service x k p (s, act)))) = ap_ingresses s \<and>
   service_run (ap_services s) (ap_services (fst (fst (apply_service x k p (s, act)))))"
  by (simp add: apply_service_def Let_def case_prod_unfold service_runI reach.reach_init split: option.splits)

lemma map_domain_frame:
  assumes "map_domain rid k d (s, act) = ((s1, act1), res)"
  shows "ap_apps s1 = ap_apps s \<and> ap_deps s1 = ap_deps s"
  using assms by (auto simp: map_domain_def split: sum.splits DomainError.splits prod.splits if_splits)

lemma map_ingress_frame:
  assumes "map_ingress rid sid n dm s = (s1, e)"
  shows "ap_apps s1 = ap_apps s \<and> ap_deps s1 = ap_deps s \<and> ap_domains s1 = ap_domains s"
  using assms by (auto simp: map_ingress_def split: option.splits sum.splits prod.splits if_splits)

lemma apply_domains_frame:
  "apply_domains x k sid n ds (s, act) = ((s1, act1), e) \<Longrightarrow> ap_apps s1 = ap_apps s \<and> ap_deps s1 = ap_deps s"
proof (induction ds arbitrary: n s act)
  case (Cons d ds)
  then show ?case
    by (auto split: prod.splits sum.splits option.splits if_splits simp: Let_def
        dest!: map_domain_frame map_ingress_frame Cons.IH)
qed simp

lemma prune_frame:
  "ap_apps (fst (foldl (prune_domain des) (s, act) ds)) = ap_apps s \<and>
   ap_deps (fst (foldl (prune_domain des) (s, act) ds)) = ap_deps s"
proof (induction ds arbitrary: s act)
  case (Cons d ds)
  obtain s1 a1 where e: "prune_domain des (s, act) d = (s1, a1)" by fastforce
  then have "ap_apps s1 = ap_apps s \<and> ap_deps s1 = ap_deps s"
    by (auto simp: prune_domain_def Let_def split: if_splits option.splits)
  with Cons.IH [of s1 a1] e show ?case by simp
qed simp

section \<open>Domains of other applications\<close>

text \<open>The domains that do not belong to application \<open>k\<close> are kept, under unchanged keys.\<close>

definition others_kept :: "string \<Rightarrow> DomainRegistry \<Rightarrow> DomainRegistry \<Rightarrow> bool" where
  "others_kept k r r' \<longleftrightarrow> keyed dm_ID (domains r') \<and>
     (\<forall>i d. map_of (domains r) i = Some d \<and> dm_ApplicationID d \<noteq> k \<longrightarrow> map_of (domains r') i = Some d)"

lemma others_kept_refl: "keyed dm_ID (domains r) \<Longrightarrow> others_kept k r r"
  by (simp add: others_kept_def)

lemma Domain_Create_domains:
  "domains (fst (Domain_Create rid n k tls r)) = domains r \<or>
   (\<exists>d. domains (fst (Domain_Create rid n k tls r)) = mput rid d (domains r) \<and> dm_ID d = rid)"
  by (auto simp: Domain_Create_def Let_def split: option.splits if_splits)

lemma others_Create:
  assumes "others_kept k r r'" and "map_of (domains r) rid = None"
  shows "others_kept k r (fst (Domain_Create rid n k tls r'))"
  using assms Domain_Create_domains [of rid n k tls r'] unfolding others_kept_def
  by (auto intro: keyed_mput)

lemma own_key:
  assumes "others_kept k r r'" and "map_of (domains r') j = Some d" and "dm_ApplicationID d = k"
    and "map_of (domains r) i = Some d'" and "dm_ApplicationID d' \<noteq> k"
  shows "i \<noteq> j"
  using assms unfolding others_kept_def by (metis option.inject)

lemma others_UpdateTLS:
  assumes "others_kept k r r'" and "map_of (domains r') (dm_ID d) = Some d" and "dm_ApplicationID d = k"
  shows "others_kept k r (fst (Domain_UpdateTLS (dm_ID d) tls r'))"
  using assms own_key [OF assms] unfolding others_kept_def
  by (auto simp: Domain_UpdateTLS_def Let_def intro: keyed_mput split: option.splits)

lemma GetByName_domain:
  assumes "keyed dm_ID (domains r)" and "Domain_GetByName r n = Inr d"
  shows "map_of (domains r) (dm_ID d) = Some d"
  using assms by (auto simp: Domain_GetByName_def Let_def split: option.splits dest: keyed_map_of)

lemma map_domain_others:
  assumes "others_kept k r (ap_domains s)" and "map_of (domains r) rid = None" and "map_domain rid k d (s, act) = ((s1, act1), res)"
  shows "others_kept k r (ap_domains s1)"
proof (cases "Domain_GetByName (ap_domains s) (ds_Name d)")
  case (Inl e)
  then show ?thesis
    using assms(1,3) others_Create [OF assms(1,2), of "ds_Name d" "ds_TLS d"]
    by (cases e) (auto simp: map_domain_def split: prod.splits sum.splits)
next
  case (Inr dm)
  then have "map_of (domains (ap_domains s)) (dm_ID dm) = Some dm"
    using assms(1) by (intro GetByName_domain) (auto simp: others_kept_def)
  from others_UpdateTLS [OF assms(1) this] Inr assms(1,3) show ?thesis
    by (auto simp: map_domain_def split: if_splits)
qed

lemma apply_domains_others:
  assumes "\<And>n. map_of (domains r) (ai_domainID x n) = None"
  shows "others_kept k r (ap_domains s) \<Longrightarrow> apply_domains x k sid n ds (s, act) = ((s1, act1), e) \<Longrightarrow>
    others_kept k r (ap_domains s1)"
proof (induction ds arbitrary: n s act)
  case (Cons d ds)
  obtain s2 act2 res where m: "map_domain (ai_domainID x n) k d (s, act) = ((s2, act2), res)" by (metis surj_pair)
  note o2 = map_domain_others [OF Cons.prems(1) assms m]
  show ?case
  proof (cases res)
    case (Inl e')
    then show ?thesis using Cons.prems(2) m o2 by simp
  next
    case (Inr dm)
    obtain s3 e3 where i: "map_ingress (ai_ingressID x n) sid (ds_Name d) dm s2 = (s3, e3)" by fastforce
    have o3: "others_kept k r (ap_domains s3)" using o2 map_ingress_frame [OF i] by simp
    define s4 where "s4 = (if ds_TLS d then s3\<lparr>ap_certs := map_option (\<lambda>c. c @ [ds_Name d]) (ap_certs s3)\<rparr> else s3)"
    have o4: "others_kept k r (ap_domains s4)" using o3 by (simp add: s4_def)
    show ?thesis
    proof (cases e3)
      case None
      have "apply_domains x k sid (Suc n) ds (s4, act2) = ((s1, act1), e)"
        using Cons.prems(2) unfolding apply_domains.simps m Inr None s4_def Let_def
        by (simp only: i None prod.case sum.case option.case)
      with o4 show ?thesis by (rule Cons.IH)
    next
      case (Some e')
      then show ?thesis using Cons.prems(2) m i Inr o3 by simp
    qed
  qed
qed simp

lemma prune_others:
  assumes "\<And>d i d'. d \<in> set ds \<Longrightarrow> map_of (domains r) i = Some d' \<Longrightarrow> dm_ApplicationID d' \<noteq> k \<Longrightarrow> i \<noteq> dm_ID d"
  shows "others_kept k r (ap_domains s) \<Longrightarrow> others_kept k r (ap_domains (fst (foldl (prune_domain des) (s, act) ds)))"
  using assms
proof (induction ds arbitrary: s act)
  case (Cons d ds)
  obtain s1 a1 where e: "prune_domain des (s, act) d = (s1, a1)" by fastforce
  have ne: "i \<noteq> dm_ID d" if "map_of (domains r) i = Some d'" "dm_ApplicationID d' \<noteq> k" for i d'
    using that Cons.prems(2) [of d] by simp
  have "domains (ap_domains s1) = domains (ap_domains s) \<or> domains (ap_domains s1) = mdel (dm_ID d) (domains (ap_domains s))"
    using e by (auto simp: prune_domain_def Domain_Delete_def Let_def split: if_splits option.splits)
  then have "others_kept k r (ap_domains s1)"
    using Cons.prems(1) ne unfolding others_kept_def by (auto intro: keyed_mdel)
  then have "others_kept k r (ap_domains (fst (foldl (prune_domain des) (s1, a1) ds)))"
    using Cons.prems(2) by (intro Cons.IH) auto
  then show ?case using e by simp
qed simp

lemma choose_frame:
  "ap_apps (fst (fst (choose_deployment hash x m app (s, act)))) = ap_apps s \<and>
   ap_domains (fst (fst (choose_deployment hash x m app (s, act)))) = ap_domains s"
  by (simp add: choose_deployment_def Let_def case_prod_unfold split: option.splits)

definition applied_app :: "ApplyInput \<Rightarrow> string \<Rightarrow> ApplyState \<Rightarrow> string" where
  "applied_app x name s = (case App_GetByName (ap_apps s) name of Inr app \<Rightarrow> a_ID app | Inl _ \<Rightarrow> ai_appID x)"

lemma resolve_app_domains:
  assumes "resolve_app x n s = (s1, res)"
  shows "ap_domains s1 = ap_domains s \<and> ap_deps s1 = ap_deps s \<and> (\<forall>app act. res = Inr (app, act) \<longrightarrow> a_ID app = applied_app x n s)"
  using assms
  by (auto simp: resolve_app_def applied_app_def App_Create_def Let_def
      split: sum.splits AppError.splits prod.splits option.splits if_splits)


section \<open>Properties\<close>

text \<open>The run of a manifest that gets past its secrets, stage by stage.\<close>

lemma Apply_stages:
  assumes "Manifest_Validate m = None" and "resolve_app x (mf_Name m) s = (s1, Inr (app, act1))"
    and "missing_secret sec (a_ID app) (mf_Secrets m) = None"
  obtains s2 act2 s3 act3 err where
    "ap_apps s2 = ap_apps s1 \<and> ap_deps s2 = ap_deps s1 \<and> ap_domains s2 = ap_domains s1 \<and>
     ap_ingresses s2 = ap_ingresses s1 \<and> service_run (ap_services s1) (ap_services s2)"
    "s3 = s2 \<and> err = None \<or> (\<exists>sid. apply_domains x (a_ID app) sid 0 (mf_Domains m) (s2, act2) = ((s3, act3), err))"
    "err \<noteq> None \<Longrightarrow> fst (Apply hash x sec (Some m) s) = s3 \<and> (\<exists>e. snd (Apply hash x sec (Some m) s) = Inl e)"
    "err = None \<Longrightarrow> \<exists>s4 act4 s5 act5 dep created rid act6 des.
       (s4, act4) = foldl (prune_domain des) (s3, act3) (filter (\<lambda>d. dm_ApplicationID d = a_ID app) (Domain_List (ap_domains s2))) \<and>
       choose_deployment hash x m app (s4, act4) = ((s5, act5), dep, created, rid) \<and>
       Apply hash x sec (Some m) s =
         (s5\<lparr>ap_apps := fst (App_Update (ai_updated x) (a_ID app) ((ToDeploymentSpec m)\<lparr>s_Replicas := mf_Replicas m\<rparr>) dep
            (a_Status app) (ap_apps s5))\<rparr>,
          Inr \<lparr>ar_ApplicationID = a_ID app, ar_DeploymentID = rid, ar_Action = act6\<rparr>)"
proof -
  obtain s2 act2 sid where v: "(case mf_Service m of None \<Rightarrow> ((s1, act1), '''')
      | Some sv \<Rightarrow> apply_service x (a_ID app) (ss_Port sv) (s1, act1)) = ((s2, act2), sid)" by (metis surj_pair)
  obtain s3 act3 err where d: "(case mf_Service m of None \<Rightarrow> ((s2, act2), None)
      | Some _ \<Rightarrow> apply_domains x (a_ID app) sid 0 (mf_Domains m) (s2, act2)) = ((s3, act3), err)" by (metis surj_pair)
  let ?des = "case mf_Service m of None \<Rightarrow> [] | Some _ \<Rightarrow> map ds_Name (mf_Domains m)"
  let ?cur = "filter (\<lambda>d. dm_ApplicationID d = a_ID app) (Domain_List (ap_domains s2))"
  obtain s4 act4 where p: "foldl (prune_domain ?des) (s3, act3) ?cur = (s4, act4)" by fastforce
  obtain s5 act5 dep created rid where c: "choose_deployment hash x m app (s4, act4) = ((s5, act5), dep, created, rid)"
    by (metis surj_pair)
  show thesis
  proof (rule that [of s2 s3 err act2 act3])
    show "ap_apps s2 = ap_apps s1 \<and> ap_deps s2 = ap_deps s1 \<and> ap_domains s2 = ap_domains s1 \<and>
        ap_ingresses s2 = ap_ingresses s1 \<and> service_run (ap_services s1) (ap_services s2)"
      using v service_frame [of x "a_ID app" _ s1 act1] by (auto simp: reach_init split: option.splits) (metis fst_conv)+
    show "s3 = s2 \<and> err = None \<or> (\<exists>sid. apply_domains x (a_ID app) sid 0 (mf_Domains m) (s2, act2) = ((s3, act3), err))"
      using d by (auto split: option.splits)
    show "fst (Apply hash x sec (Some m) s) = s3 \<and> (\<exists>e. snd (Apply hash x sec (Some m) s) = Inl e)" if "err \<noteq> None"
      using that v d assms by (auto simp: Apply_def Let_def)
    show "\<exists>s4 act4 s5 act5 dep created rid act6 des.
       (s4, act4) = foldl (prune_domain des) (s3, act3) ?cur \<and>
       choose_deployment hash x m app (s4, act4) = ((s5, act5), dep, created, rid) \<and>
       Apply hash x sec (Some m) s =
         (s5\<lparr>ap_apps := fst (App_Update (ai_updated x) (a_ID app) ((ToDeploymentSpec m)\<lparr>s_Replicas := mf_Replicas m\<rparr>) dep
            (a_Status app) (ap_apps s5))\<rparr>,
          Inr \<lparr>ar_ApplicationID = a_ID app, ar_DeploymentID = rid, ar_Action = act6\<rparr>)" if "err = None"
      by (rule exI [of _ s4], rule exI [of _ act4], rule exI [of _ s5], rule exI [of _ act5], rule exI [of _ dep],
          rule exI [of _ created], rule exI [of _ rid],
          rule exI [of _ "if s_Replicas (a_Spec app) \<noteq> mf_Replicas m \<and> \<not> created then bump act5 else act5"],
          rule exI [of _ ?des])
        (use that v d p c assms in \<open>simp add: Apply_def Let_def\<close>)
  qed
qed

text \<open>
  C24: applying a manifest never touches the domains of another application. Whatever the
  manifest says, whether the call succeeds or fails half-way, every domain that belongs to
  another application is stored afterwards as it was before: it is not taken over, not pruned
  and its TLS flag is not changed.
\<close>

theorem apply_domains_isolated:
  assumes "domain_inv (ap_domains s)" and "\<forall>n. map_of (domains (ap_domains s)) (ai_domainID x n) = None"
    and "Domain_Get (ap_domains s) k = Inr d" and "dm_ApplicationID d \<noteq> applied_app x (mf_Name m) s"
  shows "Domain_Get (ap_domains (fst (Apply hash x sec (Some m) s))) k = Inr d"
proof -
  let ?a = "applied_app x (mf_Name m) s" and ?r = "ap_domains s"
  have key: "keyed dm_ID (domains ?r)" using assms(1) by (simp add: domain_inv_def)
  have kept: "others_kept ?a ?r (ap_domains (fst (Apply hash x sec (Some m) s)))"
  proof (cases "Manifest_Validate m")
    case (Some e)
    then show ?thesis using others_kept_refl [OF key] by (simp add: Apply_def)
  next
    case None
    obtain s1 res where r: "resolve_app x (mf_Name m) s = (s1, res)" by fastforce
    note r1 = resolve_app_domains [OF r]
    show ?thesis
    proof (cases "\<exists>app act. res = Inr (app, act) \<and> missing_secret sec (a_ID app) (mf_Secrets m) = None")
      case False
      then have "ap_domains (fst (Apply hash x sec (Some m) s)) = ?r"
        using None r r1 by (auto simp: Apply_def Let_def split: sum.splits option.splits)
      then show ?thesis using others_kept_refl [OF key] by simp
    next
      case True
      then obtain app act where a: "res = Inr (app, act)" and sec: "missing_secret sec (a_ID app) (mf_Secrets m) = None" by blast
      have ida: "a_ID app = ?a" using r1 a by blast
      from Apply_stages [OF None r [unfolded a] sec, of hash] obtain s2 act2 s3 act3 err where
        s2: "ap_domains s2 = ?r"
        and s3: "s3 = s2 \<and> err = None \<or> (\<exists>sid. apply_domains x (a_ID app) sid 0 (mf_Domains m) (s2, act2) = ((s3, act3), err))"
        and bad: "err \<noteq> None \<Longrightarrow> fst (Apply hash x sec (Some m) s) = s3"
        and good: "err = None \<Longrightarrow> \<exists>s4 act4 s5 act5 dep created rid act6 des.
           (s4, act4) = foldl (prune_domain des) (s3, act3) (filter (\<lambda>d. dm_ApplicationID d = a_ID app) (Domain_List (ap_domains s2))) \<and>
           choose_deployment hash x m app (s4, act4) = ((s5, act5), dep, created, rid) \<and>
           Apply hash x sec (Some m) s =
             (s5\<lparr>ap_apps := fst (App_Update (ai_updated x) (a_ID app) ((ToDeploymentSpec m)\<lparr>s_Replicas := mf_Replicas m\<rparr>) dep
                (a_Status app) (ap_apps s5))\<rparr>,
              Inr \<lparr>ar_ApplicationID = a_ID app, ar_DeploymentID = rid, ar_Action = act6\<rparr>)"
        using r1 by metis
      have o3: "others_kept ?a ?r (ap_domains s3)"
        using s3 apply_domains_others [of ?r x ?a s2] assms(2) others_kept_refl [OF key] s2 unfolding ida by metis
      show ?thesis
      proof (cases "err = None")
        case False
        then show ?thesis using bad o3 by simp
      next
        case ok: True
        from good [OF ok] obtain s4 act4 s5 act5 dep created rid act6 des where
          p: "(s4, act4) = foldl (prune_domain des) (s3, act3) (filter (\<lambda>d. dm_ApplicationID d = a_ID app) (Domain_List (ap_domains s2)))"
          and c: "choose_deployment hash x m app (s4, act4) = ((s5, act5), dep, created, rid)"
          and A: "ap_domains (fst (Apply hash x sec (Some m) s)) = ap_domains s5" by force
        have "others_kept ?a ?r (ap_domains (fst (s4, act4)))"
          unfolding p ida
          by (rule prune_others [OF _ o3])
            (use key s2 in \<open>auto simp: Domain_List_def keyed_mem\<close>)
        then show ?thesis using A choose_frame [of hash x m app s4 act4] c by simp
      qed
    qed
  qed
  have "map_of (domains ?r) k = Some d" using assms(3) by (auto simp: Domain_Get_def split: option.splits)
  with kept assms(4) have "map_of (domains (ap_domains (fst (Apply hash x sec (Some m) s)))) k = Some d"
    unfolding others_kept_def by blast
  then show ?thesis by (simp add: Domain_Get_def)
qed


definition example_manifest :: Manifest where
  "example_manifest = \<lparr>mf_Name = ''shop'', mf_Image = ''web'', mf_Replicas = 3, mf_Command = [], mf_Args = [],
     mf_Resources = \<lparr>re_CPU = 1, re_Memory = 64\<rparr>, mf_Env = [], mf_Secrets = [], mf_Probes = None,
     mf_Service = Some \<lparr>ss_Port = 80\<rparr>, mf_Domains = [\<lparr>ds_Name = ''api.example.com'', ds_TLS = True\<rparr>], mf_Rollout = None\<rparr>"

definition example_apply_input :: ApplyInput where
  "example_apply_input = \<lparr>ai_appID = ''a9'', ai_created = 1, ai_touched = 1, ai_serviceID = ''s9'', ai_serviceAt = 1,
     ai_domainID = (\<lambda>_. ''m9''), ai_ingressID = (\<lambda>_. ''g9''), ai_depID = ''d9'', ai_depAt = 1, ai_updated = 1\<rparr>"

definition example_cluster :: ApplyState where
  "example_cluster = \<lparr>ap_apps = NewAppRegistry, ap_deps = NewDepRegistry, ap_services = NewServiceRegistry,
     ap_domains = example_domains, ap_ingresses = NewIngressRegistry, ap_certs = None\<rparr>"

lemma example_manifest_valid: "Manifest_Validate example_manifest = None"
  by (simp add: example_manifest_def Manifest_Validate_def manifest_name_char_def)

theorem apply_domains_isolated_witness:
  "\<exists>d. dm_ApplicationID d = ''a1'' \<and>
     Domain_Get (ap_domains (fst (Apply (\<lambda>_. ''h'') example_apply_input NewSecretRegistry (Some example_manifest)
       example_cluster))) ''m1'' = Inr d"
proof -
  obtain d where d: "Domain_Get (ap_domains example_cluster) ''m1'' = Inr d" "dm_ApplicationID d = ''a1''"
    by (simp add: example_cluster_def example_domains_def Domain_Create_def NewDomainRegistry_def Domain_Get_def
        example_normalize Let_def)
  have "Domain_Get (ap_domains (fst (Apply (\<lambda>_. ''h'') example_apply_input NewSecretRegistry (Some example_manifest)
       example_cluster))) ''m1'' = Inr d"
  proof (rule apply_domains_isolated [OF _ _ d(1)])
    show "domain_inv (ap_domains example_cluster)"
      using domain_machine.reach_inv [OF example_domains_reach] by (simp add: example_cluster_def)
  qed (simp_all add: d(2) example_cluster_def example_domains_def Domain_Create_def NewDomainRegistry_def
      example_normalize Let_def example_apply_input_def applied_app_def App_GetByName_def NewAppRegistry_def)
  with d(2) show ?thesis by blast
qed

lemma App_Create_lookup:
  "App_Create rid t u n spec r = (r', Inr app) \<Longrightarrow>
    map_of (apps r') rid = Some app \<and> a_ID app = rid \<and> a_ActiveDeploymentID app = ''''"
  by (auto simp: App_Create_def Let_def split: if_splits option.splits)

lemma new_app_apply:
  assumes "Manifest_Validate m = None" and "mf_Probes m = None" and "App_GetByName (ap_apps s) (mf_Name m) = Inl AppNotFound"
    and "Apply hash x sec (Some m) s = (s', Inr res)"
    and "\<forall>d \<in> set (Dep_List (ap_deps s)). d_ApplicationID d \<noteq> ai_appID x"
  shows "\<exists>app. map_of (apps (ap_apps s')) (ai_appID x) = Some app \<and> a_ID app = ai_appID x \<and>
      s_Replicas (a_Spec app) = mf_Replicas m \<and> a_ActiveDeploymentID app = ai_depID x \<and>
    ap_deps s' = fst (Dep_Create hash (ai_depID x) (ai_depAt x) (ai_appID x) (ToDeploymentSpec m) (ap_deps s)) \<and>
    ar_ApplicationID res = ai_appID x"
proof -
  let ?empty = "\<lparr>s_Resources = None, s_Image = '''', s_Command = [], s_Args = [], s_Environment = [], s_Ports = [],
     s_Replicas = 0, s_Strategy = None, s_ReadinessProbe = None, s_LivenessProbe = None\<rparr>"
  let ?spec = "(ToDeploymentSpec m)\<lparr>s_Replicas := mf_Replicas m\<rparr>"
  obtain s1 r where r: "resolve_app x (mf_Name m) s = (s1, r)" by fastforce
  obtain app act where a: "r = Inr (app, act)" and sec: "missing_secret sec (a_ID app) (mf_Secrets m) = None"
    using assms(1,4) r by (auto simp: Apply_def split: sum.splits option.splits)
  have app: "App_Create (ai_appID x) (ai_created x) (ai_touched x) (mf_Name m) ?empty (ap_apps s) = (ap_apps s1, Inr app)"
    and s1: "ap_deps s1 = ap_deps s"
    using r a assms(3) by (auto simp: resolve_app_def split: sum.splits prod.splits)
  then have ids: "a_ID app = ai_appID x" "a_ActiveDeploymentID app = ''''"
    and look: "map_of (apps (ap_apps s1)) (ai_appID x) = Some app"
    using App_Create_lookup by auto
  from Apply_stages [OF assms(1) r [unfolded a] sec, of hash] obtain s2 act2 s3 act3 err where
    s2: "ap_apps s2 = ap_apps s1" "ap_deps s2 = ap_deps s1"
    and s3: "s3 = s2 \<and> err = None \<or> (\<exists>sid. apply_domains x (a_ID app) sid 0 (mf_Domains m) (s2, act2) = ((s3, act3), err))"
    and bad: "err \<noteq> None \<Longrightarrow> \<exists>e. snd (Apply hash x sec (Some m) s) = Inl e"
    and good: "err = None \<Longrightarrow> \<exists>s4 act4 s5 act5 dep created rid act6 des.
       (s4, act4) = foldl (prune_domain des) (s3, act3) (filter (\<lambda>d. dm_ApplicationID d = a_ID app) (Domain_List (ap_domains s2))) \<and>
       choose_deployment hash x m app (s4, act4) = ((s5, act5), dep, created, rid) \<and>
       Apply hash x sec (Some m) s =
         (s5\<lparr>ap_apps := fst (App_Update (ai_updated x) (a_ID app) ?spec dep (a_Status app) (ap_apps s5))\<rparr>,
          Inr \<lparr>ar_ApplicationID = a_ID app, ar_DeploymentID = rid, ar_Action = act6\<rparr>)"
    by metis
  have "err = None" using bad assms(4) by (cases err) auto
  from good [OF this] obtain s4 act4 s5 act5 dep created rid act6 des where
    p: "(s4, act4) = foldl (prune_domain des) (s3, act3) (filter (\<lambda>d. dm_ApplicationID d = a_ID app) (Domain_List (ap_domains s2)))"
    and c: "choose_deployment hash x m app (s4, act4) = ((s5, act5), dep, created, rid)"
    and A: "s' = s5\<lparr>ap_apps := fst (App_Update (ai_updated x) (a_ID app) ?spec dep (a_Status app) (ap_apps s5))\<rparr>"
      "ar_ApplicationID res = a_ID app"
    using assms(4) by auto
  have s3': "ap_apps s3 = ap_apps s1" "ap_deps s3 = ap_deps s" using s3 apply_domains_frame s2 s1 by metis+
  have s4: "ap_apps s4 = ap_apps s1" "ap_deps s4 = ap_deps s"
    using prune_frame [of des s3 act3] s3' p by (metis fst_conv)+
  have "Dep_ListByApplication (ap_deps s4) (a_ID app) = []"
    using assms(5) by (simp add: s4 ids Dep_ListByApplication_def Dep_List_def filter_empty_conv)
  then have s5: "dep = ai_depID x" "ap_apps s5 = ap_apps s1"
      "ap_deps s5 = fst (Dep_Create hash (ai_depID x) (ai_depAt x) (ai_appID x) (ToDeploymentSpec m) (ap_deps s))"
    using c s4 by (auto simp: choose_deployment_def Let_def ids case_prod_unfold)
  have "ValidateAppSpec (EnsureDefaultStrategy ?spec) = None"
    using assms(1,2)
    by (auto simp: ValidateAppSpec_def validateResources_def rolling_deadlock_def validateProbe_def EnsureDefaultStrategy_def
        ToDeploymentSpec_def Manifest_Validate_def split: if_splits)
  moreover have "s_Replicas (EnsureDefaultStrategy ?spec) = mf_Replicas m" by (simp add: EnsureDefaultStrategy_def ToDeploymentSpec_def)
  ultimately show ?thesis
    using A s5 look ids by (simp add: App_Update_def Let_def)
qed

text \<open>
  C27: a manifest applied to a new application runs no instance. The application records the
  replicas the manifest asks for, but the deployment that \<open>apply\<close> creates and activates is
  built without them: its snapshot has zero replicas and no strategy, and the rollout
  controller, which reads the snapshot, asks for zero instances of every deployment of the
  application, whatever \<open>replicas\<close> says.
\<close>

theorem apply_runs_no_replicas:
  assumes "Manifest_Validate m = None" and "mf_Probes m = None" and "App_GetByName (ap_apps s) (mf_Name m) = Inl AppNotFound"
    and "Apply hash x sec (Some m) s = (s', Inr res)"
    and "\<forall>d \<in> set (Dep_List (ap_deps s)). d_ApplicationID d \<noteq> ai_appID x" and "map_of (deployments (ap_deps s)) (ai_depID x) = None"
  shows "\<exists>app T. App_Get (ap_apps s') (ar_ApplicationID res) = Inr app \<and> s_Replicas (a_Spec app) = mf_Replicas m \<and>
    snd (computeAppTarget app insts (Dep_List (ap_deps s')) (ap_deps s')) = Some T \<and>
    map dt_DesiredCount (at_Targets T) = [0]"
proof -
  obtain app where app: "map_of (apps (ap_apps s')) (ai_appID x) = Some app" "a_ID app = ai_appID x"
      "s_Replicas (a_Spec app) = mf_Replicas m" "a_ActiveDeploymentID app = ai_depID x"
    and deps: "ap_deps s' = fst (Dep_Create hash (ai_depID x) (ai_depAt x) (ai_appID x) (ToDeploymentSpec m) (ap_deps s))"
    and res: "ar_ApplicationID res = ai_appID x"
    using new_app_apply [OF assms(1-5)] by blast
  let ?d = "snd (Dep_Create hash (ai_depID x) (ai_depAt x) (ai_appID x) (ToDeploymentSpec m) (ap_deps s))"
  have l: "Dep_List (ap_deps s') = Dep_List (ap_deps s) @ [?d]"
    using assms(6) by (simp add: deps Dep_List_def Dep_Create_def Let_def mput_new)
  have f: "filter (\<lambda>d. d_ApplicationID d = ai_appID x) (Dep_List (ap_deps s')) = [?d]"
    using assms(5) by (simp add: l filter_empty_conv Dep_Create_lookup)
  have "s_Strategy (d_SpecSnapshot ?d) = None" "s_Replicas (d_SpecSnapshot ?d) = 0" "\<not> d_Degraded ?d"
    by (simp_all add: Dep_Create_def Let_def ToDeploymentSpec_def)
  then have "\<exists>T. snd (computeAppTarget app insts (Dep_List (ap_deps s')) (ap_deps s')) = Some T \<and>
      map dt_DesiredCount (at_Targets T) = [0]"
    using app f by (simp add: computeAppTarget_def Let_def computeImmediateTarget_def target_def case_prod_unfold)
  with app res show ?thesis by (simp add: App_Get_def)
qed


lemma example_apply:
  "\<exists>s' res. Apply (\<lambda>_. ''h'') example_apply_input NewSecretRegistry (Some (example_manifest\<lparr>mf_Service := None, mf_Domains := []\<rparr>))
     example_cluster = (s', Inr res)"
  by (simp add: Apply_def Manifest_Validate_def example_manifest_def manifest_name_char_def resolve_app_def App_GetByName_def
      example_cluster_def NewAppRegistry_def App_Create_def Let_def EnsureDefaultStrategy_def ValidateAppSpec_def
      validateResources_def rolling_deadlock_def validateProbe_def missing_secret_def case_prod_unfold)

theorem apply_runs_no_replicas_witness:
  "\<exists>s' app T. fst (Apply (\<lambda>_. ''h'') example_apply_input NewSecretRegistry
       (Some (example_manifest\<lparr>mf_Service := None, mf_Domains := []\<rparr>)) example_cluster) = s' \<and>
     s_Replicas (a_Spec app) = 3 \<and> snd (computeAppTarget app [] (Dep_List (ap_deps s')) (ap_deps s')) = Some T \<and>
     map dt_DesiredCount (at_Targets T) = [0]"
proof -
  let ?m = "example_manifest\<lparr>mf_Service := None, mf_Domains := []\<rparr>"
  obtain s' res where a: "Apply (\<lambda>_. ''h'') example_apply_input NewSecretRegistry (Some ?m) example_cluster = (s', Inr res)"
    using example_apply by blast
  have "\<exists>app T. App_Get (ap_apps s') (ar_ApplicationID res) = Inr app \<and> s_Replicas (a_Spec app) = mf_Replicas ?m \<and>
    snd (computeAppTarget app [] (Dep_List (ap_deps s')) (ap_deps s')) = Some T \<and> map dt_DesiredCount (at_Targets T) = [0]"
    by (rule apply_runs_no_replicas [OF _ _ _ a])
      (simp_all add: Manifest_Validate_def example_manifest_def manifest_name_char_def App_GetByName_def
        example_cluster_def NewAppRegistry_def NewDepRegistry_def Dep_List_def)
  with a show ?thesis by (auto simp: example_manifest_def)
qed

text \<open>
  A manifest with a probe passes its own validation, but the probe it is turned into has no
  type and no period, so the application registry refuses the update that would activate the
  new deployment; the handler ignores that error.
\<close>

lemma apply_probes_refused:
  assumes "mf_Probes m = Some p" and "ps_Readiness p = Some q"
  shows "ValidateAppSpec (EnsureDefaultStrategy ((ToDeploymentSpec m)\<lparr>s_Replicas := n\<rparr>)) \<noteq> None"
proof -
  have "s_ReadinessProbe (EnsureDefaultStrategy ((ToDeploymentSpec m)\<lparr>s_Replicas := n\<rparr>)) = Some (probe_of q)"
    using assms by (simp add: EnsureDefaultStrategy_def ToDeploymentSpec_def)
  then show ?thesis by (simp add: ValidateAppSpec_None validateProbe_def probe_of_def)
qed

end
