(* ===== verification/Api.thy ===== *)
theory Api
  imports AppService
begin

text \<open>
  The HTTP interface towards the agents: \<open>internal/api/instance.go\<close> (claiming an instance with its
  secrets resolved, reporting its status, listing) and \<open>internal/api/middleware.go\<close>
  (authentication).

  A request is its path value, its decoded body (\<open>None\<close> when the body does not decode) and its
  query; an answer is the status code of the error or the value that is encoded. A status in
  a body is one of the named constants or \<open>StatusOther\<close> of any other string.
\<close>

section \<open>Claiming an instance\<close>

record ClaimInstanceRequest =
  cq_NodeID :: string

record ClaimInstanceResponse =
  cr_Instance :: Instance
  cr_ExecutionID :: string
  cr_Spec :: AppSpec

fun resolve_env ::
  "SecretRegistry \<Rightarrow> string \<Rightarrow> (string, string) gomap \<Rightarrow> (string, string) gomap \<Rightarrow> string + (string, string) gomap" where
  "resolve_env sec appID [] acc = Inr acc"
| "resolve_env sec appID ((k, v) # rest) acc =
     (if has_prefix v ''secret:'' then
        (case Secret_Resolve sec appID (trim_prefix v ''secret:'') of
           Inl _ \<Rightarrow> Inl (trim_prefix v ''secret:'')
         | Inr val \<Rightarrow> resolve_env sec appID rest (mput k val acc))
      else resolve_env sec appID rest (mput k v acc))"

definition Api_Claim ::
  "string \<Rightarrow> time \<Rightarrow> string \<Rightarrow> ClaimInstanceRequest option \<Rightarrow> DepRegistry \<Rightarrow> SecretRegistry \<Rightarrow> InstRegistry
    \<Rightarrow> InstRegistry \<times> (nat + ClaimInstanceResponse)" where
  "Api_Claim rid now k body deps sec r =
     (if k = '''' then (r, Inl 400)
      else
        (case body of
           None \<Rightarrow> (r, Inl 400)
         | Some req \<Rightarrow>
             if cq_NodeID req = '''' then (r, Inl 400)
             else
               (case Inst_Claim rid k (cq_NodeID req) r of
                  (r1, Inl e) \<Rightarrow> (r1, Inl (if e = InstNotFound then 404 else 409))
                | (r1, Inr inst) \<Rightarrow>
                    (case Dep_Get deps (i_DeploymentID inst) of
                       Inl _ \<Rightarrow> (r1, Inl 500)
                     | Inr dep \<Rightarrow>
                         (let spec = d_SpecSnapshot dep in
                          case (if s_Environment spec \<noteq> []
                                then resolve_env sec (d_ApplicationID dep) (s_Environment spec) []
                                else Inr (s_Environment spec)) of
                            Inl _ \<Rightarrow>
                              (fst (Inst_UpdateState now (i_ID inst) StatusCrashed (i_NodeID inst) '''' r1), Inl 500)
                          | Inr env \<Rightarrow>
                              (r1, Inr \<lparr>cr_Instance = inst, cr_ExecutionID = i_ExecutionID inst,
                                        cr_Spec = spec\<lparr>s_Environment := env\<rparr>\<rparr>))))))"

section \<open>Reporting and listing\<close>

record InstanceStatusRequest =
  sq_NodeID :: string
  sq_ExecutionID :: string
  sq_Status :: InstanceStatus
  sq_Health :: InstanceHealth
  sq_ContainerID :: string
  sq_Ports :: "PortMapping list"

definition Api_ReportStatus ::
  "time \<Rightarrow> string \<Rightarrow> InstanceStatusRequest option \<Rightarrow> InstRegistry \<times> DepRegistry
    \<Rightarrow> (InstRegistry \<times> DepRegistry) \<times> (nat + Instance)" where
  "Api_ReportStatus now k body rd =
     (case rd of (r, deps) \<Rightarrow>
        if k = '''' then ((r, deps), Inl 400)
        else
          (case body of
             None \<Rightarrow> ((r, deps), Inl 400)
           | Some q \<Rightarrow>
               if sq_NodeID q = '''' \<or> sq_ExecutionID q = '''' \<or> sq_Status q = StatusOther ''''
               then ((r, deps), Inl 400)
               else
                 (let oldStatus = (case Inst_Get r k of Inl _ \<Rightarrow> StatusOther '''' | Inr i \<Rightarrow> i_Status i) in
                  case Inst_ReportStatus now k (sq_NodeID q) (sq_ExecutionID q) (sq_Status q) (sq_Health q)
                         (sq_ContainerID q) (sq_Ports q) r of
                    (r1, Inl e) \<Rightarrow>
                      ((r1, deps), Inl (if e = InstNotFound then 404
                                        else if e = NodeMismatch \<or> e = StaleExecution then 409 else 400))
                  | (r1, Inr inst) \<Rightarrow>
                      ((r1, if oldStatus \<noteq> StatusCrashed \<and> sq_Status q = StatusCrashed
                            then fst (Dep_RecordCrash (i_DeploymentID inst) MaxCrashLoopThreshold deps) else deps),
                       Inr inst))))"

fun status_string :: "InstanceStatus \<Rightarrow> string" where
  "status_string StatusPending = ''PENDING''"
| "status_string StatusAssigned = ''ASSIGNED''"
| "status_string StatusStarting = ''STARTING''"
| "status_string StatusRunning = ''RUNNING''"
| "status_string StatusStopping = ''STOPPING''"
| "status_string StatusCrashed = ''CRASHED''"
| "status_string StatusStopped = ''STOPPED''"
| "status_string StatusUnknown = ''UNKNOWN''"
| "status_string (StatusOther s) = s"

definition Api_List :: "string \<Rightarrow> string \<Rightarrow> InstRegistry \<Rightarrow> Instance list" where
  "Api_List nodeID st r =
     filter (\<lambda>i. \<not> (nodeID \<noteq> '''' \<and> i_NodeID i \<noteq> nodeID) \<and> \<not> (st \<noteq> '''' \<and> status_string (i_Status i) \<noteq> st)) (Inst_List r)"

section \<open>Authentication\<close>

record AuthManager =
  operatorToken :: string
  agentToken :: string

text \<open>\<open>strings.SplitN\<close> at the first space: \<open>None\<close> when there is none.\<close>

fun split_space :: "string \<Rightarrow> (string \<times> string) option" where
  "split_space [] = None"
| "split_space (c # s) =
     (if c = CHR '' '' then Some ([], s)
      else map_option (\<lambda>(a, b). (c # a, b)) (split_space s))"

definition extractToken :: "AuthManager \<Rightarrow> string \<Rightarrow> nat + string" where
  "extractToken m header =
     (if header = '''' then Inl 401
      else
        (case split_space header of
           None \<Rightarrow> Inl 401
         | Some (scheme, token) \<Rightarrow>
             if scheme \<noteq> ''Bearer'' \<or> token = '''' then Inl 401
             else if token \<noteq> operatorToken m \<and> token \<noteq> agentToken m then Inl 401
             else Inr token))"

definition RequireOperator :: "AuthManager \<Rightarrow> string \<Rightarrow> 'a \<Rightarrow> nat + 'a" where
  "RequireOperator m header answer =
     (case extractToken m header of
        Inl st \<Rightarrow> Inl st
      | Inr token \<Rightarrow> if token \<noteq> operatorToken m then Inl 403 else Inr answer)"

definition RequireAgent :: "AuthManager \<Rightarrow> string \<Rightarrow> 'a \<Rightarrow> nat + 'a" where
  "RequireAgent m header answer =
     (case extractToken m header of
        Inl st \<Rightarrow> Inl st
      | Inr token \<Rightarrow> if token \<noteq> agentToken m then Inl 403 else Inr answer)"

definition RequireNodeAuth :: "AuthManager \<Rightarrow> NodeRegistry \<Rightarrow> string \<Rightarrow> (string \<Rightarrow> 'a) \<Rightarrow> nat + 'a" where
  "RequireNodeAuth m nodes header answer =
     (case extractToken m header of
        Inl st \<Rightarrow> Inl st
      | Inr token \<Rightarrow>
          (case Node_GetByToken nodes token of
             None \<Rightarrow> Inl 401
           | Some n \<Rightarrow> Inr (answer (n_ID n))))"

section \<open>Resolving the environment\<close>

definition unresolved :: "SecretRegistry \<Rightarrow> string \<Rightarrow> string \<Rightarrow> bool" where
  "unresolved sec appID v \<longleftrightarrow> has_prefix v ''secret:'' \<and> (\<exists>e. Secret_Resolve sec appID (trim_prefix v ''secret:'') = Inl e)"

definition resolved_value :: "SecretRegistry \<Rightarrow> string \<Rightarrow> string \<Rightarrow> string" where
  "resolved_value sec appID v =
     (if has_prefix v ''secret:'' then projr (Secret_Resolve sec appID (trim_prefix v ''secret:'')) else v)"

lemma resolve_env_result:
  assumes "distinct (map fst env)"
  shows "if \<exists>(n, v) \<in> set env. unresolved sec a v then \<exists>e. resolve_env sec a env acc = Inl e
    else \<exists>out. resolve_env sec a env acc = Inr out \<and>
      (\<forall>n. map_of out n = (case map_of env n of Some v \<Rightarrow> Some (resolved_value sec a v) | None \<Rightarrow> map_of acc n))"
  using assms
proof (induction env arbitrary: acc)
  case (Cons p env)
  obtain n v where p: "p = (n, v)" by fastforce
  have fresh: "map_of env n = None" using Cons.prems by (simp add: p map_of_eq_None_iff)
  show ?case
  proof (cases "unresolved sec a v")
    case True
    then show ?thesis by (auto simp: p unresolved_def)
  next
    case False
    have step: "resolve_env sec a (p # env) acc = resolve_env sec a env (mput n (resolved_value sec a v) acc)"
      using False by (auto simp: p unresolved_def resolved_value_def split: sum.splits)
    have some: "(\<exists>(n, v) \<in> set (p # env). unresolved sec a v) \<longleftrightarrow> (\<exists>(n, v) \<in> set env. unresolved sec a v)"
      using False by (simp add: p)
    have "distinct (map fst env)" using Cons.prems by simp
    from Cons.IH [OF this, of "mput n (resolved_value sec a v) acc"] show ?thesis
      unfolding step some using fresh by (auto simp: p split: if_splits option.splits)
  qed
qed simp

section \<open>Properties\<close>

text \<open>
  C25: an agent that claims an instance gets every secret of the deployment, or nothing. If all
  secrets its environment refers to resolve under the application of the deployment, the
  answer carries the environment with exactly those values put in and everything else as in
  the snapshot; if one does not, the answer is an error, no value is sent, and the instance is
  \<open>CRASHED\<close>, so the reconciler replaces it.
\<close>

theorem claim_resolves_secrets:
  assumes "k \<noteq> ''''" and "cq_NodeID q \<noteq> ''''" and "keyed i_ID r" and "Inst_Claim rid k (cq_NodeID q) r = (r1, Inr inst)"
    and "Dep_Get deps (i_DeploymentID inst) = Inr dep" and "env = s_Environment (d_SpecSnapshot dep)"
    and "distinct (map fst env)"
  shows "if \<exists>(n, v) \<in> set env. unresolved sec (d_ApplicationID dep) v
    then snd (Api_Claim rid now k (Some q) deps sec r) = Inl 500 \<and>
      (\<exists>i. map_of (fst (Api_Claim rid now k (Some q) deps sec r)) k = Some i \<and> i_Status i = StatusCrashed)
    else fst (Api_Claim rid now k (Some q) deps sec r) = r1 \<and>
      (\<exists>resp. snd (Api_Claim rid now k (Some q) deps sec r) = Inr resp \<and> cr_ExecutionID resp = rid \<and>
        (\<forall>n. map_of (s_Environment (cr_Spec resp)) n = map_option (resolved_value sec (d_ApplicationID dep)) (map_of env n)))"
proof -
  have inst: "map_of r1 k = Some inst" "i_ID inst = k" "i_Status inst = StatusStarting" "i_ExecutionID inst = rid"
    using assms(4) keyed_map_of [OF assms(3)] by (auto simp: Inst_Claim_def Let_def split: option.splits if_splits)
  have run: "Api_Claim rid now k (Some q) deps sec r =
      (case (if env \<noteq> [] then resolve_env sec (d_ApplicationID dep) env [] else Inr env) of
         Inl _ \<Rightarrow> (fst (Inst_UpdateState now k StatusCrashed (i_NodeID inst) '''' r1), Inl 500)
       | Inr e \<Rightarrow> (r1, Inr \<lparr>cr_Instance = inst, cr_ExecutionID = i_ExecutionID inst,
                           cr_Spec = (d_SpecSnapshot dep)\<lparr>s_Environment := e\<rparr>\<rparr>))"
    using assms(1,2) by (simp add: Api_Claim_def Let_def assms(4-6) inst(2) split: sum.split)
  have crash: "\<exists>i. map_of (fst (Inst_UpdateState now k StatusCrashed (i_NodeID inst) '''' r1)) k = Some i \<and> i_Status i = StatusCrashed"
    using inst by (simp add: Inst_UpdateState_def Let_def)
  note res = resolve_env_result [OF assms(7), of sec "d_ApplicationID dep" "[]"]
  show ?thesis
  proof (cases "\<exists>(n, v) \<in> set env. unresolved sec (d_ApplicationID dep) v")
    case True
    then have "env \<noteq> []" by auto
    with True res crash show ?thesis by (auto simp: run)
  next
    case False
    then obtain out where "resolve_env sec (d_ApplicationID dep) env [] = Inr out"
      "\<forall>n. map_of out n = (case map_of env n of Some v \<Rightarrow> Some (resolved_value sec (d_ApplicationID dep) v) | None \<Rightarrow> map_of [] n)"
      using res by auto
    with False show ?thesis
      by (cases "env = []") (auto simp: run inst(4) split: option.splits)
  qed
qed

definition example_secret_deps :: DepRegistry where
  "example_secret_deps = fst (Dep_Create (\<lambda>_. ''h'') ''dep'' 1 ''a1'' (example_spec\<lparr>s_Environment := [(''DB'', ''secret:KEY'')]\<rparr>) NewDepRegistry)"

theorem claim_resolves_secrets_witness:
  "\<exists>i. map_of (fst (Api_Claim ''x1'' 9 ''i1'' (Some \<lparr>cq_NodeID = ''n1''\<rparr>) example_secret_deps NewSecretRegistry
       example_assigned)) ''i1'' = Some i \<and> i_Status i = StatusCrashed"
proof -
  obtain inst where c: "Inst_Claim ''x1'' ''i1'' ''n1'' example_assigned = (example_insts, Inr inst)" using example_claim by blast
  have d: "i_DeploymentID inst = ''dep''"
    using c by (auto simp: Inst_Claim_def Let_def example_assigned_def example_ops_def Inst_Create_def
        NewInstRegistry_def Inst_UpdateState_def Update_apply_def split: option.splits if_splits)
  let ?dep = "snd (Dep_Create (\<lambda>_. ''h'') ''dep'' 1 ''a1'' (example_spec\<lparr>s_Environment := [(''DB'', ''secret:KEY'')]\<rparr>) NewDepRegistry)"
  have g: "Dep_Get example_secret_deps (i_DeploymentID inst) = Inr ?dep"
    by (simp add: d example_secret_deps_def Dep_Get_def Dep_Create_def Let_def)
  have u: "\<exists>(n, v) \<in> set (s_Environment (d_SpecSnapshot ?dep)). unresolved NewSecretRegistry (d_ApplicationID ?dep) v"
    by (simp add: Dep_Create_lookup unresolved_def has_prefix_def Secret_Resolve_def NewSecretRegistry_def)
  have "keyed i_ID example_assigned" using example_assigned_inv by (simp add: inst_inv_def)
  from claim_resolves_secrets [where q = "\<lparr>cq_NodeID = ''n1''\<rparr>", OF _ _ this _ g refl, of "''i1''" "''x1''" example_insts NewSecretRegistry 9] c u
  show ?thesis by (simp add: Dep_Create_lookup)
qed

text \<open>
  A crash is counted once. When an agent reports \<open>CRASHED\<close> and repeats the report, as it does
  when an answer is lost, the second report is accepted but changes neither registry beyond
  filling in a missing container or missing ports; the crash counter of the deployment has
  gone up by one, and only if the instance was not \<open>CRASHED\<close> before.
\<close>

lemma report_crash_once:
  assumes "Api_ReportStatus now k (Some q) (r, deps) = ((r1, deps1), Inr inst)" and "sq_Status q = StatusCrashed"
    and "map_of r k = Some i"
  shows "deps1 = (if i_Status i = StatusCrashed then deps
      else fst (Dep_RecordCrash (i_DeploymentID i) MaxCrashLoopThreshold deps)) \<and>
    (\<forall>now' q' r2 deps2 x. sq_Status q' = StatusCrashed \<and> Api_ReportStatus now' k (Some q') (r1, deps1) = ((r2, deps2), x) \<longrightarrow>
       deps2 = deps1)"
proof -
  have rep: "Inst_ReportStatus now k (sq_NodeID q) (sq_ExecutionID q) StatusCrashed (sq_Health q) (sq_ContainerID q) (sq_Ports q) r = (r1, Inr inst)"
    and d1: "deps1 = (if i_Status i \<noteq> StatusCrashed then fst (Dep_RecordCrash (i_DeploymentID inst) MaxCrashLoopThreshold deps) else deps)"
    using assms by (auto simp: Api_ReportStatus_def Inst_Get_def Let_def split: if_splits prod.splits sum.splits)
  have i1: "map_of r1 k = Some inst" "i_Status inst = StatusCrashed" "i_DeploymentID inst = i_DeploymentID i"
    using rep assms(3) by (auto simp: Inst_ReportStatus_def Report_same_def Let_def mput_existing split: if_splits)
  have "deps2 = deps1" if "sq_Status q' = StatusCrashed" "Api_ReportStatus now' k (Some q') (r1, deps1) = ((r2, deps2), x)"
    for now' q' r2 deps2 x
    using that i1 by (auto simp: Api_ReportStatus_def Inst_Get_def Let_def split: if_splits prod.splits sum.splits)
  with d1 i1 show ?thesis by auto
qed

definition example_crash_report :: InstanceStatusRequest where
  "example_crash_report = \<lparr>sq_NodeID = ''n1'', sq_ExecutionID = ''x1'', sq_Status = StatusCrashed,
     sq_Health = HealthOther '''', sq_ContainerID = ''c1'', sq_Ports = []\<rparr>"

lemma report_crash_once_example:
  "\<exists>r1 deps1 inst. Api_ReportStatus 9 ''i1'' (Some example_crash_report) (example_insts, example_secret_deps) = ((r1, deps1), Inr inst) \<and>
     snd (fst (Api_ReportStatus 9 ''i1'' (Some example_crash_report) (r1, deps1))) = deps1 \<and>
     deps1 = fst (Dep_RecordCrash ''dep'' MaxCrashLoopThreshold example_secret_deps)"
proof -
  obtain r1 deps1 inst where run: "Api_ReportStatus 9 ''i1'' (Some example_crash_report) (example_insts, example_secret_deps) = ((r1, deps1), Inr inst)"
    by (simp add: Api_ReportStatus_def example_crash_report_def Inst_ReportStatus_def Inst_Get_def Report_same_def Let_def example_insts_value)
  have st: "sq_Status example_crash_report = StatusCrashed" by (simp add: example_crash_report_def)
  obtain i where i: "map_of example_insts ''i1'' = Some i" "i_Status i = StatusStarting" "i_DeploymentID i = ''dep''"
    by (simp add: example_insts_value)
  obtain r2 deps2 x where again: "Api_ReportStatus 9 ''i1'' (Some example_crash_report) (r1, deps1) = ((r2, deps2), x)"
    by (metis prod.exhaust)
  from report_crash_once [OF run st i(1)] st again i(2,3) run show ?thesis by fastforce
qed

lemma split_space_iff: "split_space h = Some (a, b) \<longleftrightarrow> h = a @ '' '' @ b \<and> CHR '' '' \<notin> set a"
proof (induction h arbitrary: a)
  case (Cons c h)
  then show ?case by (cases a) auto
qed simp

text \<open>Exactly the bearer of the operator token passes, and nobody when it is empty.\<close>

lemma operator_only:
  "RequireOperator m header x = Inr x \<longleftrightarrow> operatorToken m \<noteq> '''' \<and> header = ''Bearer '' @ operatorToken m"
proof -
  have "split_space (''Bearer '' @ t) = Some (''Bearer'', t)" for t by (simp add: split_space_iff)
  moreover have "header = ''Bearer '' @ t" if "split_space header = Some (''Bearer'', t)" for t
    using that by (simp add: split_space_iff)
  ultimately show ?thesis
    by (auto simp: RequireOperator_def extractToken_def split: option.splits if_splits)
qed

text \<open>
  A token that a node was issued at registration never authenticates it: the shared check admits
  the operator and the agent token only, before the node registry is asked.
\<close>

lemma node_token_rejected:
  assumes "token \<noteq> operatorToken m" and "token \<noteq> agentToken m"
  shows "RequireNodeAuth m nodes (''Bearer '' @ token) f = Inl 401"
proof -
  have "split_space (''Bearer '' @ token) = Some (''Bearer'', token)" by (simp add: split_space_iff)
  with assms show ?thesis by (auto simp: RequireNodeAuth_def extractToken_def)
qed

end
