(* ===== verification/Tls.thy ===== *)
theory Tls
  imports Ingress
begin

text \<open>
  Certificates: \<open>internal/ingress/tls.go\<close>. The ACME client of \<open>golang.org/x/crypto\<close> is outside the
  repository; an answer of it is an argument, \<open>None\<close> for a certificate and \<open>Some\<close> of the text of an
  error otherwise. What the provider keeps itself is modelled whole: the cache it hands to the
  client, the policy that says which hosts the client may ask for, and the record of every name
  a certificate was requested for. A request starts a goroutine; its second half, which runs when
  the client has answered, is \<open>cert_answered\<close>.
\<close>

section \<open>Definitions\<close>

datatype CertStatus = CertPending | CertIssued | CertFailed | CertExpired

record Certificate =
  ct_ID :: string
  ct_Domain :: string
  ct_Status :: CertStatus
  ct_CreatedAt :: time
  ct_ExpiresAt :: "time option"
  ct_Error :: string

type_synonym memoryCache = "(string, string) gomap"

definition Cache_Get :: "memoryCache \<Rightarrow> string \<Rightarrow> string option" where
  "Cache_Get m k = map_of m k"

definition Cache_Put :: "string \<Rightarrow> string \<Rightarrow> memoryCache \<Rightarrow> memoryCache" where
  "Cache_Put k v m = mput k v m"

definition Cache_Delete :: "string \<Rightarrow> memoryCache \<Rightarrow> memoryCache" where
  "Cache_Delete k m = mdel k m"

record ACMEProvider =
  certMeta :: "(string, Certificate) gomap"
  cert_cache :: memoryCache

definition NewACMEProvider :: ACMEProvider where
  "NewACMEProvider = \<lparr>certMeta = [], cert_cache = []\<rparr>"

datatype PolicyError = HostNotConfigured | TLSNotEnabled

definition HostPolicy :: "DomainRegistry \<Rightarrow> string \<Rightarrow> PolicyError option" where
  "HostPolicy r host =
     (case Domain_GetByName r host of
        Inl _ \<Rightarrow> Some HostNotConfigured
      | Inr d \<Rightarrow> if \<not> dm_TLS d then Some TLSNotEnabled else None)"

definition RequestCertificate :: "string \<Rightarrow> time \<Rightarrow> string \<Rightarrow> ACMEProvider \<Rightarrow> ACMEProvider" where
  "RequestCertificate rid now name p =
     (case map_of (certMeta p) name of
        None \<Rightarrow>
          p\<lparr>certMeta := mput name \<lparr>ct_ID = rid, ct_Domain = name, ct_Status = CertPending, ct_CreatedAt = now,
                                   ct_ExpiresAt = None, ct_Error = ''''\<rparr> (certMeta p)\<rparr>
      | Some meta \<Rightarrow> p\<lparr>certMeta := mput name (meta\<lparr>ct_Status := CertPending, ct_Error := ''''\<rparr>) (certMeta p)\<rparr>)"

definition cert_answered :: "string \<Rightarrow> string option \<Rightarrow> ACMEProvider \<Rightarrow> ACMEProvider" where
  "cert_answered name err p =
     (case map_of (certMeta p) name of
        None \<Rightarrow> p
      | Some meta \<Rightarrow>
          p\<lparr>certMeta := mput name
              (case err of
                 Some e \<Rightarrow> meta\<lparr>ct_Status := CertFailed, ct_Error := e\<rparr>
               | None \<Rightarrow> meta\<lparr>ct_Status := CertIssued, ct_Error := ''''\<rparr>) (certMeta p)\<rparr>)"

definition GetCertificate :: "ACMEProvider \<Rightarrow> string \<Rightarrow> Certificate option" where
  "GetCertificate p name = map_of (certMeta p) name"

definition GetTLSCertificate :: "string \<Rightarrow> string option \<Rightarrow> ACMEProvider \<Rightarrow> ACMEProvider \<times> string option" where
  "GetTLSCertificate serverName answer p = (cert_answered serverName answer p, answer)"

section \<open>The record of a certificate follows the attempts\<close>

datatype cert_event =
    Requested string time string
  | Answered string "string option"
  | Handshake string "string option"

fun cert_step :: "cert_event \<Rightarrow> ACMEProvider \<Rightarrow> ACMEProvider" where
  "cert_step (Requested rid now name) p = RequestCertificate rid now name p"
| "cert_step (Answered name err) p = cert_answered name err p"
| "cert_step (Handshake name err) p = fst (GetTLSCertificate name err p)"

text \<open>
  The specification reads a history, the latest event first: a name is known once it was
  requested, and its state is that of the latest event about it.
\<close>

fun cert_spec :: "string \<Rightarrow> cert_event list \<Rightarrow> (CertStatus \<times> string) option" where
  "cert_spec name [] = None"
| "cert_spec name (Requested rid now n # h) = (if n = name then Some (CertPending, '''') else cert_spec name h)"
| "cert_spec name (Answered n err # h) =
     (if n = name \<and> cert_spec name h \<noteq> None
      then Some (case err of Some e \<Rightarrow> (CertFailed, e) | None \<Rightarrow> (CertIssued, '''')) else cert_spec name h)"
| "cert_spec name (Handshake n err # h) =
     (if n = name \<and> cert_spec name h \<noteq> None
      then Some (case err of Some e \<Rightarrow> (CertFailed, e) | None \<Rightarrow> (CertIssued, '''')) else cert_spec name h)"

lemma certificate_follows_attempts:
  "map_option (\<lambda>c. (ct_Status c, ct_Error c)) (GetCertificate (foldr cert_step h NewACMEProvider) name) = cert_spec name h"
proof (induction h)
  case Nil
  show ?case by (simp add: GetCertificate_def NewACMEProvider_def)
next
  case (Cons ev h)
  show ?case
    by (cases ev) (auto simp: Cons.IH [symmetric] GetCertificate_def RequestCertificate_def cert_answered_def
        GetTLSCertificate_def split: option.splits)
qed

text \<open>The client may ask for exactly the hosts that are registered with TLS.\<close>

lemma host_policy_iff:
  assumes "domain_inv r"
  shows "HostPolicy r host = None \<longleftrightarrow> (\<exists>d \<in> set (Domain_List r). dm_Name d = NormalizeDomain host \<and> dm_TLS d)"
  using Domain_GetByName_iff [OF assms, of host]
  by (cases "Domain_GetByName r host") (auto simp: HostPolicy_def, metis sum.inject(2))

end
