(* ===== verification/Handlers.thy ===== *)
theory Handlers
  imports Scheduling AppService Apply Api Tls
begin

text \<open>
  The HTTP handlers of the control plane that change or read one registry at a time:
  \<open>internal/api/job.go\<close>, \<open>node.go\<close>, \<open>app.go\<close>, \<open>secret.go\<close>, \<open>route.go\<close>, \<open>domain.go\<close> and \<open>ingress.go\<close>.

  A handler gets the values of the path and the query, the decoded body (\<open>None\<close> when it does not
  decode) and the registries it uses, and yields the registry it may change and its answer:
  \<open>Inl\<close> of the status of an error, or \<open>Inr\<close> of what it encodes. \<open>ctx\<close> is the identity that the
  node authentication put into the request, when the request went through it. An error of a
  handler is decided by the error value of the registry, as in the code.
\<close>

section \<open>Jobs\<close>

record CreateJobRequest =
  jq_Name :: string
  jq_Command :: string
  jq_MaxRetries :: int
  jq_CPU :: float64
  jq_MemoryMB :: int

record ReportResultRequest =
  rq_NodeID :: string
  rq_ExecutionID :: string
  rq_Result :: JobResult

definition JobApi_Create ::
  "string \<Rightarrow> time \<Rightarrow> time \<Rightarrow> CreateJobRequest option \<Rightarrow> JobRegistry \<Rightarrow> JobRegistry \<times> (nat + Job)" where
  "JobApi_Create rid now nowE body r =
     (case body of
        None \<Rightarrow> (r, Inl 400)
      | Some req \<Rightarrow>
          if jq_Name req = '''' \<or> jq_Command req = '''' then (r, Inl 400)
          else if jq_CPU req < 0 then (r, Inl 400)
          else if jq_MemoryMB req < 0 then (r, Inl 400)
          else if jq_MaxRetries req < 0 then (r, Inl 400)
          else
            (case Job_Create rid now nowE (jq_Name req) (jq_Command req) (jq_MaxRetries req) (jq_CPU req)
                    (jq_MemoryMB req) r of
               (r1, j) \<Rightarrow> (r1, Inr j)))"

fun job_status_string :: "JobStatus \<Rightarrow> string" where
  "job_status_string JobPending = ''pending''"
| "job_status_string JobAssigned = ''assigned''"
| "job_status_string JobRunning = ''running''"
| "job_status_string JobSucceeded = ''succeeded''"
| "job_status_string JobFailed = ''failed''"
| "job_status_string (JobOther s) = s"

definition JobApi_List :: "string \<Rightarrow> string \<Rightarrow> JobRegistry \<Rightarrow> Job list" where
  "JobApi_List nodeID st r =
     filter (\<lambda>j. \<not> (nodeID \<noteq> '''' \<and> j_AssignedNodeID j \<noteq> nodeID) \<and>
                  \<not> (st \<noteq> '''' \<and> job_status_string (j_Status j) \<noteq> st)) (Job_List r)"

definition JobApi_Get :: "string \<Rightarrow> JobRegistry \<Rightarrow> nat + Job" where
  "JobApi_Get k r = (case Job_Get r k of Inl _ \<Rightarrow> Inl 404 | Inr j \<Rightarrow> Inr j)"

definition JobApi_GetEvents :: "string \<Rightarrow> JobRegistry \<Rightarrow> nat + JobEvent list" where
  "JobApi_GetEvents k r =
     (case Job_GetEvents r k of
        Inl e \<Rightarrow> Inl (if e = ErrJobNotFound then 404 else 500)
      | Inr events \<Rightarrow> Inr events)"

definition JobApi_Update ::
  "time \<Rightarrow> string \<Rightarrow> UpdateParams option \<Rightarrow> JobRegistry \<Rightarrow> JobRegistry \<times> (nat + Job)" where
  "JobApi_Update nowE k body r =
     (case body of
        None \<Rightarrow> (r, Inl 400)
      | Some params \<Rightarrow>
          (case Job_Update nowE k params r of
             (r1, Inl e) \<Rightarrow>
               (r1, Inl (if e = ErrJobNotFound then 404 else if e = ErrInvalidTransition then 400 else 500))
           | (r1, Inr j) \<Rightarrow> (r1, Inr j)))"

definition identity_mismatch :: "string option \<Rightarrow> string \<Rightarrow> bool" where
  "identity_mismatch ctx nodeID \<longleftrightarrow> (case ctx of None \<Rightarrow> False | Some k \<Rightarrow> k \<noteq> nodeID)"

definition JobApi_Claim ::
  "string \<Rightarrow> time \<Rightarrow> time \<Rightarrow> string option \<Rightarrow> string \<Rightarrow> string option \<Rightarrow> NodeRegistry \<Rightarrow> JobRegistry
    \<Rightarrow> JobRegistry \<times> (nat + Job)" where
  "JobApi_Claim rid now nowE ctx k body nodes r =
     (case body of
        None \<Rightarrow> (r, Inl 400)
      | Some nodeID \<Rightarrow>
          if identity_mismatch ctx nodeID then (r, Inl 403)
          else if (case Node_Get nodes nodeID of Inl _ \<Rightarrow> True | Inr n \<Rightarrow> n_Status n \<noteq> NodeOnline) then (r, Inl 403)
          else
            (case Job_Claim rid now nowE k nodeID r of
               (r1, Inl e) \<Rightarrow> (r1, Inl (if e = ErrJobNotFound then 404 else 409))
             | (r1, Inr j) \<Rightarrow> (r1, Inr j)))"

definition JobApi_ReportResult ::
  "time \<Rightarrow> time \<Rightarrow> string option \<Rightarrow> string \<Rightarrow> ReportResultRequest option \<Rightarrow> NodeRegistry \<Rightarrow> JobRegistry
    \<Rightarrow> JobRegistry \<times> (nat + Job)" where
  "JobApi_ReportResult now nowE ctx k body nodes r =
     (case body of
        None \<Rightarrow> (r, Inl 400)
      | Some req \<Rightarrow>
          if identity_mismatch ctx (rq_NodeID req) then (r, Inl 403)
          else if rq_NodeID req = '''' \<or> rq_ExecutionID req = '''' then (r, Inl 400)
          else if (case Node_Get nodes (rq_NodeID req) of Inl _ \<Rightarrow> True | Inr _ \<Rightarrow> False) then (r, Inl 403)
          else
            (case Job_ReportResult now nowE k (rq_NodeID req) (rq_ExecutionID req) (rq_Result req) r of
               (r1, Inl e) \<Rightarrow> (r1, Inl (if e = ErrJobNotFound then 404 else 409))
             | (r1, Inr j) \<Rightarrow> (r1, Inr j)))"

section \<open>Nodes\<close>

record RegisterRequest =
  gq_NodeID :: string
  gq_Hostname :: string
  gq_IPAddress :: string
  gq_CPUCores :: int
  gq_OS :: string
  gq_Architecture :: string
  gq_Capabilities :: Capabilities

text \<open>
  \<open>net.SplitHostPort\<close>, the host only: the part before the last colon, which must not contain a
  colon or a bracket itself, or the text between a bracket at the front and the bracket right
  before the last colon.
\<close>

definition split_host :: "string \<Rightarrow> string option" where
  "split_host s =
     (if CHR '':'' \<notin> set s then None
      else
        (let port = rev (takeWhile (\<lambda>c. c \<noteq> CHR '':'') (rev s));
             host = take (length s - length port - 1) s
         in if s \<noteq> [] \<and> hd s = CHR ''['' then
              (let inner = takeWhile (\<lambda>c. c \<noteq> CHR '']'') (tl s) in
               if host = CHR ''['' # inner @ '']'' \<and> CHR ''['' \<notin> set (inner @ port) \<and> CHR '']'' \<notin> set port
               then Some inner else None)
            else if CHR '':'' \<in> set host \<or> CHR ''['' \<in> set s \<or> CHR '']'' \<in> set s then None
            else Some host))"

definition NodeApi_Register ::
  "time \<Rightarrow> string \<Rightarrow> string \<Rightarrow> RegisterRequest option \<Rightarrow> NodeRegistry \<Rightarrow> NodeRegistry \<times> (nat + Node \<times> string)" where
  "NodeApi_Register now tok remoteAddr body r =
     (case body of
        None \<Rightarrow> (r, Inl 400)
      | Some req \<Rightarrow>
          if gq_NodeID req = '''' \<or> gq_Hostname req = '''' \<or> gq_CPUCores req \<le> 0 \<or> gq_OS req = '''' \<or>
             gq_Architecture req = '''' then (r, Inl 400)
          else
            (let ip = (if gq_IPAddress req = ''''
                       then (case split_host remoteAddr of None \<Rightarrow> remoteAddr | Some host \<Rightarrow> host)
                       else gq_IPAddress req);
                 n = \<lparr>n_ID = gq_NodeID req, n_Hostname = gq_Hostname req, n_IPAddress = ip, n_CPUCores = gq_CPUCores req,
                      n_OS = gq_OS req, n_Architecture = gq_Architecture req, n_Status = NodeStatusOther '''',
                      n_LastHeartbeat = 0, n_OfflineSince = None, n_Capabilities = gq_Capabilities req, n_Token = ''''\<rparr>
             in case Node_Register now n tok r of (r1, n1) \<Rightarrow> (r1, Inr (n1, tok))))"

record NodeSummary =
  ns_Node :: Node
  ns_AllocatedCPU :: float64
  ns_AllocatedMem :: int
  ns_AvailableCPU :: float64
  ns_AvailableMem :: int

definition NodeApi_ListNodes ::
  "(rat \<Rightarrow> rat) \<Rightarrow> NodeRegistry \<Rightarrow> InstRegistry \<Rightarrow> DepRegistry \<Rightarrow> JobRegistry \<Rightarrow> NodeSummary list" where
  "NodeApi_ListNodes rnd nodes insts deps jobReg =
     (let ns = Node_List nodes; caps = CalculateAll rnd ns insts deps jobReg
      in map (\<lambda>n. let c = mget_or zero_capacity caps (n_ID n) in
           \<lparr>ns_Node = n, ns_AllocatedCPU = rnd (rnd (of_int (n_CPUCores n)) - AvailableCPU c),
            ns_AllocatedMem = wrap64 (total_memory n - AvailableMemoryMB c),
            ns_AvailableCPU = AvailableCPU c, ns_AvailableMem = AvailableMemoryMB c\<rparr>) ns)"

definition NodeApi_GetNode :: "string \<Rightarrow> NodeRegistry \<Rightarrow> nat + Node" where
  "NodeApi_GetNode k r = (case Node_Get r k of Inl _ \<Rightarrow> Inl 404 | Inr n \<Rightarrow> Inr n)"

text \<open>A body that is missing or does not decode counts as a heartbeat without capabilities.\<close>

definition NodeApi_Heartbeat ::
  "time \<Rightarrow> string option \<Rightarrow> string \<Rightarrow> Capabilities option \<Rightarrow> NodeRegistry \<Rightarrow> NodeRegistry \<times> (nat + Node)" where
  "NodeApi_Heartbeat now ctx k caps r =
     (if identity_mismatch ctx k then (r, Inl 403)
      else
        (case Node_Heartbeat now k caps r of
           (r1, Inl _) \<Rightarrow> (r1, Inl 404)
         | (r1, Inr n) \<Rightarrow> (r1, Inr n)))"

section \<open>Applications\<close>

definition AppApi_Create ::
  "(AppSpec \<Rightarrow> string) \<Rightarrow> SvcInput \<Rightarrow> (string \<times> AppSpec) option \<Rightarrow> SvcState \<Rightarrow> SvcState \<times> (nat + Application)" where
  "AppApi_Create hash x body s =
     (case body of
        None \<Rightarrow> (s, Inl 400)
      | Some (name, spec) \<Rightarrow>
          (case CreateApp hash x name spec s of
             (s1, Inl e) \<Rightarrow> (s1, Inl (if e = SvcApp AppAlreadyExists then 409 else 500))
           | (s1, Inr app) \<Rightarrow> (s1, Inr app)))"

definition AppApi_List :: "SvcState \<Rightarrow> Application list" where
  "AppApi_List s = ListApps s"

definition AppApi_Get :: "string \<Rightarrow> SvcState \<Rightarrow> nat + Application" where
  "AppApi_Get k s =
     (if k = '''' then Inl 400 else (case GetApp s k of Inl _ \<Rightarrow> Inl 404 | Inr app \<Rightarrow> Inr app))"

definition AppApi_Update ::
  "(AppSpec \<Rightarrow> string) \<Rightarrow> SvcInput \<Rightarrow> string \<Rightarrow> AppSpec option \<Rightarrow> SvcState \<Rightarrow> SvcState \<times> (nat + Application)" where
  "AppApi_Update hash x k body s =
     (if k = '''' then (s, Inl 400)
      else
        (case body of
           None \<Rightarrow> (s, Inl 400)
         | Some spec \<Rightarrow>
             (case UpdateApp hash x k spec s of
                (s1, Inl e) \<Rightarrow> (s1, Inl (if e = SvcApp AppNotFound then 404 else 500))
              | (s1, Inr app) \<Rightarrow> (s1, Inr app))))"

definition AppApi_Rollback ::
  "time \<Rightarrow> string \<Rightarrow> string \<Rightarrow> string \<Rightarrow> SvcState \<Rightarrow> SvcState \<times> (nat + Application)" where
  "AppApi_Rollback now k targetID force s =
     (if k = '''' then (s, Inl 400)
      else if targetID = '''' then (s, Inl 400)
      else
        (case RollbackApp now k targetID (force = ''true'') s of
           (s1, Inl e) \<Rightarrow> (s1, Inl (if e = SvcForbidden then 403 else 400))
         | (s1, Inr app) \<Rightarrow> (s1, Inr app)))"

definition AppApi_Deploy ::
  "(AppSpec \<Rightarrow> string) \<Rightarrow> SvcInput \<Rightarrow> string \<Rightarrow> AppSpec option \<Rightarrow> SecretRegistry \<Rightarrow> SvcState \<Rightarrow> SvcState \<times> (nat + Application)" where
  "AppApi_Deploy hash x k body sec s =
     (if k = '''' then (s, Inl 400)
      else
        (case body of
           None \<Rightarrow> (s, Inl 400)
         | Some spec \<Rightarrow>
             (case DeployApp hash x k spec sec s of
                (s1, Inl e) \<Rightarrow> (s1, Inl (if e = SvcApp AppNotFound then 404 else 500))
              | (s1, Inr app) \<Rightarrow> (s1, Inr app))))"

section \<open>Secrets\<close>

record SetSecretRequest =
  tq_Name :: string
  tq_Value :: string
  tq_ApplicationID :: string

definition SecretApi_Set ::
  "time \<Rightarrow> int \<Rightarrow> time \<Rightarrow> SetSecretRequest option \<Rightarrow> AppRegistry \<Rightarrow> SecretRegistry \<Rightarrow> SecretRegistry \<times> (nat + Secret)" where
  "SecretApi_Set nowU nano now body appReg r =
     (case body of
        None \<Rightarrow> (r, Inl 400)
      | Some req \<Rightarrow>
          if tq_Name req = '''' \<or> tq_Value req = '''' \<or> tq_ApplicationID req = '''' then (r, Inl 400)
          else
            (case App_Get appReg (tq_ApplicationID req) of
               Inl _ \<Rightarrow> (r, Inl 404)
             | Inr _ \<Rightarrow>
                 (case Secret_Set nowU nano now (tq_ApplicationID req) (tq_Name req) (tq_Value req) r of
                    (r1, Inl _) \<Rightarrow> (r1, Inl 400)
                  | (r1, Inr sec) \<Rightarrow> (r1, Inr sec))))"

definition SecretApi_List :: "string \<Rightarrow> SecretRegistry \<Rightarrow> nat + Secret list" where
  "SecretApi_List appID r = (if appID = '''' then Inl 400 else Inr (Secret_ListByApp r appID))"

definition SecretApi_Delete :: "string \<Rightarrow> SecretRegistry \<Rightarrow> SecretRegistry \<times> (nat + unit)" where
  "SecretApi_Delete k r =
     (if k = '''' then (r, Inl 400)
      else
        (case Secret_Delete k r of
           (r1, Some e) \<Rightarrow> (r1, Inl (if e = SecretNotFound then 404 else 500))
         | (r1, None) \<Rightarrow> (r1, Inr ())))"

section \<open>Services\<close>

text \<open>An application named by its identifier, or else by its name.\<close>

definition app_by_id_or_name :: "AppRegistry \<Rightarrow> string \<Rightarrow> string option" where
  "app_by_id_or_name appReg k =
     (case App_Get appReg k of
        Inr _ \<Rightarrow> Some k
      | Inl _ \<Rightarrow> (case App_GetByName appReg k of Inl _ \<Rightarrow> None | Inr app \<Rightarrow> Some (a_ID app)))"

record CreateServiceRequest =
  vq_ApplicationID :: string
  vq_TargetPort :: int
  vq_Protocol :: string

definition RouteApi_Create ::
  "string \<Rightarrow> time \<Rightarrow> CreateServiceRequest option \<Rightarrow> AppRegistry \<Rightarrow> ServiceRegistry \<Rightarrow> ServiceRegistry \<times> (nat + Service)" where
  "RouteApi_Create rid now body appReg r =
     (case body of
        None \<Rightarrow> (r, Inl 400)
      | Some req \<Rightarrow>
          (case app_by_id_or_name appReg (vq_ApplicationID req) of
             None \<Rightarrow> (r, Inl 404)
           | Some appID \<Rightarrow>
               (case Service_Create rid now appID (vq_TargetPort req)
                       (if vq_Protocol req = '''' then ''http'' else vq_Protocol req) r of
                  (r1, srv) \<Rightarrow> (r1, Inr srv))))"

definition RouteApi_List :: "string \<Rightarrow> ServiceRegistry \<Rightarrow> Service list" where
  "RouteApi_List appID r = filter (\<lambda>v. \<not> (appID \<noteq> '''' \<and> sv_ApplicationID v \<noteq> appID)) (Service_List r)"

definition RouteApi_Get :: "string \<Rightarrow> ServiceRegistry \<Rightarrow> nat + Service" where
  "RouteApi_Get k r = (case Service_Get r k of Inl _ \<Rightarrow> Inl 404 | Inr srv \<Rightarrow> Inr srv)"

definition RouteApi_Update :: "string \<Rightarrow> (int \<times> string) option \<Rightarrow> ServiceRegistry \<Rightarrow> ServiceRegistry \<times> (nat + Service)" where
  "RouteApi_Update k body r =
     (case body of
        None \<Rightarrow> (r, Inl 400)
      | Some (targetPort, protocol) \<Rightarrow>
          (case Service_Update k targetPort protocol r of
             (r1, Inl _) \<Rightarrow> (r1, Inl 404)
           | (r1, Inr srv) \<Rightarrow> (r1, Inr srv)))"

definition RouteApi_Delete :: "string \<Rightarrow> ServiceRegistry \<Rightarrow> ServiceRegistry \<times> (nat + unit)" where
  "RouteApi_Delete k r =
     (case Service_Delete k r of (r1, Some _) \<Rightarrow> (r1, Inl 404) | (r1, None) \<Rightarrow> (r1, Inr ()))"

section \<open>Domains\<close>

record CreateDomainRequest =
  mq_Name :: string
  mq_ApplicationID :: string
  mq_TLS :: bool

definition DomainApi_Create ::
  "string \<Rightarrow> CreateDomainRequest option \<Rightarrow> AppRegistry \<Rightarrow> DomainRegistry \<Rightarrow> DomainRegistry \<times> (nat + Domain)" where
  "DomainApi_Create rid body appReg r =
     (case body of
        None \<Rightarrow> (r, Inl 400)
      | Some req \<Rightarrow>
          if mq_Name req = '''' \<or> mq_ApplicationID req = '''' then (r, Inl 400)
          else
            (case app_by_id_or_name appReg (mq_ApplicationID req) of
               None \<Rightarrow> (r, Inl 404)
             | Some appID \<Rightarrow>
                 (case Domain_Create rid (mq_Name req) appID (mq_TLS req) r of
                    (r1, Inl e) \<Rightarrow> (r1, Inl (if e = DomainHijack then 403 else 409))
                  | (r1, Inr d) \<Rightarrow> (r1, Inr d))))"

definition DomainApi_List :: "string \<Rightarrow> DomainRegistry \<Rightarrow> Domain list" where
  "DomainApi_List appID r = filter (\<lambda>d. \<not> (appID \<noteq> '''' \<and> dm_ApplicationID d \<noteq> appID)) (Domain_List r)"

definition DomainApi_Delete :: "string \<Rightarrow> DomainRegistry \<Rightarrow> DomainRegistry \<times> (nat + unit)" where
  "DomainApi_Delete k r =
     (case Domain_Delete k r of (r1, Some _) \<Rightarrow> (r1, Inl 404) | (r1, None) \<Rightarrow> (r1, Inr ()))"

definition DomainApi_EnableTLS ::
  "string \<Rightarrow> time \<Rightarrow> string \<Rightarrow> DomainRegistry \<times> ACMEProvider option \<Rightarrow> (DomainRegistry \<times> ACMEProvider option) \<times> (nat + unit)" where
  "DomainApi_EnableTLS rid now name rp =
     (case rp of (r, provider) \<Rightarrow>
        (case Domain_GetByName r name of
           Inl _ \<Rightarrow> ((r, provider), Inl 404)
         | Inr d \<Rightarrow>
             (let r1 = fst (Domain_UpdateStatus (dm_ID d) (dm_Status d) r) in
              case Domain_EnableTLS (dm_ID d) r1 of
                (r2, Some _) \<Rightarrow> ((r2, provider), Inl 500)
              | (r2, None) \<Rightarrow>
                  ((r2, map_option (RequestCertificate rid now (dm_Name d)) provider), Inr ()))))"

definition DomainApi_TLSStatus :: "string \<Rightarrow> DomainRegistry \<Rightarrow> ACMEProvider option \<Rightarrow> nat + Certificate" where
  "DomainApi_TLSStatus name r provider =
     (case Domain_GetByName r name of
        Inl _ \<Rightarrow> Inl 404
      | Inr _ \<Rightarrow>
          (case provider of
             None \<Rightarrow> Inl 501
           | Some p \<Rightarrow> (case GetCertificate p name of None \<Rightarrow> Inl 404 | Some cert \<Rightarrow> Inr cert)))"

section \<open>Ingresses\<close>

record CreateIngressRequest =
  iq_DomainID :: string
  iq_ServiceID :: string
  iq_Path :: string

definition IngressApi_Create ::
  "string \<Rightarrow> CreateIngressRequest option \<Rightarrow> DomainRegistry \<Rightarrow> ServiceRegistry \<Rightarrow> IngressRegistry
    \<Rightarrow> IngressRegistry \<times> (nat + Ingress)" where
  "IngressApi_Create rid body domainReg serviceReg r =
     (case body of
        None \<Rightarrow> (r, Inl 400)
      | Some req \<Rightarrow>
          (case Domain_Get domainReg (iq_DomainID req) of
             Inl _ \<Rightarrow> (r, Inl 404)
           | Inr d \<Rightarrow>
               (case Service_Get serviceReg (iq_ServiceID req) of
                  Inl _ \<Rightarrow> (r, Inl 404)
                | Inr v \<Rightarrow>
                    if dm_ApplicationID d \<noteq> sv_ApplicationID v then (r, Inl 403)
                    else
                      (case Ingress_Create rid (iq_DomainID req) (iq_ServiceID req) (iq_Path req) r of
                         (r1, Inl _) \<Rightarrow> (r1, Inl 409)
                       | (r1, Inr ing) \<Rightarrow> (r1, Inr ing)))))"

definition IngressApi_List :: "string \<Rightarrow> IngressRegistry \<Rightarrow> Ingress list" where
  "IngressApi_List domainID r = filter (\<lambda>i. \<not> (domainID \<noteq> '''' \<and> ing_DomainID i \<noteq> domainID)) (Ingress_List r)"

definition IngressApi_Delete :: "string \<Rightarrow> IngressRegistry \<Rightarrow> IngressRegistry \<times> (nat + unit)" where
  "IngressApi_Delete k r =
     (case Ingress_Delete k r of (r1, Some _) \<Rightarrow> (r1, Inl 404) | (r1, None) \<Rightarrow> (r1, Inr ()))"

end
