(* ===== verification/Status.thy ===== *)
theory Status
  imports Application Deployment Instance Ingress
begin

text \<open>
  What operators see of an application: \<open>internal/api/apps.go\<close>. The handlers read five registries
  and change none. \<open>sort.Slice\<close> and \<open>sort.Strings\<close> are \<open>go_sort\<close>.
\<close>

section \<open>Definitions\<close>

record AppSummary =
  am_ID :: string
  am_Name :: string
  am_Status :: AppStatus
  am_ActiveDeploymentID :: string
  am_RolloutStatus :: "RolloutStatus option"
  am_ReadyReplicas :: int
  am_DesiredReplicas :: int
  am_BlockedReason :: string
  am_Domains :: "string list"
  am_TLSActive :: bool

record InstanceSummary =
  im_ID :: string
  im_DeploymentID :: string
  im_NodeID :: string
  im_Status :: InstanceStatus
  im_Health :: InstanceHealth
  im_CPU :: float64
  im_MemoryMB :: int

record DomainSummary =
  dq_Name :: string
  dq_TLS :: bool
  dq_Status :: DomainStatus
  dq_Path :: string

record DeploymentSummary =
  pm_ID :: string
  pm_Version :: int
  pm_Hash :: string
  pm_RolloutStatus :: RolloutStatus
  pm_DesiredReplicas :: int
  pm_UpdatedReplicas :: int
  pm_ReadyReplicas :: int
  pm_UnavailableReplicas :: int
  pm_BlockedReason :: string
  pm_Degraded :: bool
  pm_Resources :: "ResourceRequirements option"
  pm_Image :: string

record ApplicationMeta =
  mt_ID :: string
  mt_Name :: string
  mt_Status :: AppStatus

record AppStatusDetail =
  sd_Application :: ApplicationMeta
  sd_ActiveDeployment :: "DeploymentSummary option"
  sd_Instances :: "InstanceSummary list"
  sd_Domains :: "DomainSummary list"

text \<open>The rollout status of a summary that was never set, the empty string, is \<open>None\<close>.\<close>

definition app_summary :: "DepRegistry \<Rightarrow> DomainRegistry \<Rightarrow> Application \<Rightarrow> AppSummary" where
  "app_summary deps domainReg app =
     (let own = filter (\<lambda>d. dm_ApplicationID d = a_ID app) (Domain_List domainReg);
          base = \<lparr>am_ID = a_ID app, am_Name = a_Name app, am_Status = a_Status app,
                  am_ActiveDeploymentID = a_ActiveDeploymentID app, am_RolloutStatus = None, am_ReadyReplicas = 0,
                  am_DesiredReplicas = 0, am_BlockedReason = '''',
                  am_Domains = go_sort (<) (map dm_Name own),
                  am_TLSActive = list_ex (\<lambda>d. dm_TLS d \<and> dm_Status d = DomainActive) own\<rparr>
      in if a_ActiveDeploymentID app \<noteq> '''' then
           (case Dep_Get deps (a_ActiveDeploymentID app) of
              Inl _ \<Rightarrow> base
            | Inr dep \<Rightarrow>
                base\<lparr>am_RolloutStatus := Some (d_RolloutStatus dep), am_ReadyReplicas := d_ReadyReplicas dep,
                     am_DesiredReplicas := d_DesiredReplicas dep, am_BlockedReason := d_BlockedReason dep\<rparr>)
         else base\<lparr>am_DesiredReplicas := s_Replicas (a_Spec app)\<rparr>)"

definition Status_ListApps :: "AppRegistry \<Rightarrow> DepRegistry \<Rightarrow> DomainRegistry \<Rightarrow> AppSummary list" where
  "Status_ListApps appReg deps domainReg =
     map (app_summary deps domainReg) (go_sort (\<lambda>a b. a_Name a < a_Name b) (App_List appReg))"

fun split_slash :: "string \<Rightarrow> string list" where
  "split_slash [] = [[]]"
| "split_slash (c # s) =
     (if c = CHR ''/'' then [] # split_slash s
      else (case split_slash s of [] \<Rightarrow> [[c]] | w # ws \<Rightarrow> (c # w) # ws))"

definition deployment_summary :: "Deployment \<Rightarrow> DeploymentSummary" where
  "deployment_summary dep =
     \<lparr>pm_ID = d_ID dep, pm_Version = d_Version dep, pm_Hash = d_Hash dep, pm_RolloutStatus = d_RolloutStatus dep,
      pm_DesiredReplicas = d_DesiredReplicas dep, pm_UpdatedReplicas = d_UpdatedReplicas dep,
      pm_ReadyReplicas = d_ReadyReplicas dep, pm_UnavailableReplicas = d_UnavailableReplicas dep,
      pm_BlockedReason = d_BlockedReason dep, pm_Degraded = d_Degraded dep,
      pm_Resources = s_Resources (d_SpecSnapshot dep), pm_Image = s_Image (d_SpecSnapshot dep)\<rparr>"

definition instance_summary :: "ResourceRequirements option \<Rightarrow> Instance \<Rightarrow> InstanceSummary" where
  "instance_summary res inst =
     \<lparr>im_ID = i_ID inst, im_DeploymentID = i_DeploymentID inst, im_NodeID = i_NodeID inst, im_Status = i_Status inst,
      im_Health = i_Health inst, im_CPU = (case res of None \<Rightarrow> 0 | Some rr \<Rightarrow> rr_CPU rr),
      im_MemoryMB = (case res of None \<Rightarrow> 0 | Some rr \<Rightarrow> rr_MemoryMB rr)\<rparr>"

definition domain_summary :: "IngressRegistry \<Rightarrow> Domain \<Rightarrow> DomainSummary" where
  "domain_summary ingReg d =
     \<lparr>dq_Name = dm_Name d, dq_TLS = dm_TLS d, dq_Status = dm_Status d,
      dq_Path = (case find (\<lambda>i. ing_DomainID i = dm_ID d) (Ingress_List ingReg) of
                   None \<Rightarrow> ''/'' | Some ing \<Rightarrow> ing_Path ing)\<rparr>"

definition Status_GetAppStatus ::
  "string \<Rightarrow> AppRegistry \<Rightarrow> DepRegistry \<Rightarrow> InstRegistry \<Rightarrow> DomainRegistry \<Rightarrow> IngressRegistry \<Rightarrow> nat + AppStatusDetail" where
  "Status_GetAppStatus path appReg deps instReg domainReg ingReg =
     (if length (split_slash path) < 5 then Inl 400
      else
        (case App_GetByName appReg (split_slash path ! 4) of
           Inl _ \<Rightarrow> Inl 404
         | Inr app \<Rightarrow>
             (let active = (if a_ActiveDeploymentID app = '''' then None
                            else (case Dep_Get deps (a_ActiveDeploymentID app) of
                                    Inl _ \<Rightarrow> None | Inr dep \<Rightarrow> Some (deployment_summary dep)));
                  res = (case active of None \<Rightarrow> None | Some d \<Rightarrow> pm_Resources d)
              in Inr \<lparr>sd_Application = \<lparr>mt_ID = a_ID app, mt_Name = a_Name app, mt_Status = a_Status app\<rparr>,
                      sd_ActiveDeployment = active,
                      sd_Instances = go_sort (\<lambda>a b. im_ID a < im_ID b)
                        (map (instance_summary res) (filter (\<lambda>i. i_ApplicationID i = a_ID app) (Inst_List instReg))),
                      sd_Domains = go_sort (\<lambda>a b. dq_Name a < dq_Name b)
                        (map (domain_summary ingReg) (filter (\<lambda>d. dm_ApplicationID d = a_ID app) (Domain_List domainReg)))\<rparr>)))"

section \<open>Properties\<close>

interpretation app_name_order: slice_order "\<lambda>a b. a_Name a < a_Name b"
  by unfold_locales auto

interpretation string_order: slice_order "(<) :: string \<Rightarrow> string \<Rightarrow> bool"
  by unfold_locales auto

interpretation inst_summary_order: slice_order "\<lambda>a b. im_ID a < im_ID b"
  by unfold_locales auto

interpretation domain_summary_order: slice_order "\<lambda>a b. dq_Name a < dq_Name b"
  by unfold_locales auto

lemma app_summary_names:
  "am_ID (app_summary deps dr app) = a_ID app" "am_Name (app_summary deps dr app) = a_Name app"
  "am_Domains (app_summary deps dr app) = go_sort (<) (map dm_Name (filter (\<lambda>d. dm_ApplicationID d = a_ID app) (Domain_List dr)))"
  by (simp_all add: app_summary_def Let_def split: sum.split)

lemma sorted_map_key: "sorted_wrt (\<lambda>a b. \<not> f b < f a) xs \<Longrightarrow> sorted (map f xs)" for f :: "'a \<Rightarrow> 'b :: linorder"
  by (induction xs) (auto simp: not_less)

text \<open>
  The list of applications is complete and in one order. Every application appears once, in
  strictly ascending order of the names, and with exactly its own domains, in ascending order,
  whatever the order of the maps.
\<close>

lemma apps_listed_in_order:
  assumes "app_inv appReg" and "domain_inv domainReg"
  shows "sorted_wrt (<) (map am_Name (Status_ListApps appReg deps domainReg)) \<and>
    am_ID ` set (Status_ListApps appReg deps domainReg) = a_ID ` set (App_List appReg) \<and>
    (\<forall>a \<in> set (App_List appReg). \<exists>m \<in> set (Status_ListApps appReg deps domainReg).
       am_ID m = a_ID a \<and> sorted (am_Domains m) \<and>
       set (am_Domains m) = {dm_Name d | d. d \<in> set (Domain_List domainReg) \<and> dm_ApplicationID d = a_ID a})"
proof -
  let ?apps = "go_sort (\<lambda>a b. a_Name a < a_Name b) (App_List appReg)"
  have names: "map am_Name (Status_ListApps appReg deps domainReg) = map a_Name ?apps"
    by (simp add: Status_ListApps_def app_summary_names)
  have "keyed a_ID (apps appReg)" using assms(1) by (simp add: app_inv_def)
  then have "distinct (App_List appReg)"
    using keyed_ids_distinct distinct_map by (fastforce simp: App_List_def)
  moreover have "inj_on a_Name (set (App_List appReg))"
    using App_GetByName_iff [OF assms(1)] by (intro inj_onI) (metis sum.inject(2))
  ultimately have "distinct (map a_Name ?apps)"
    by (simp add: distinct_map app_name_order.distinct_go_sort app_name_order.set_go_sort)
  then have "sorted_wrt (<) (map a_Name ?apps)"
    using sorted_map_key [OF app_name_order.sorted_go_sort, of "App_List appReg"] by (simp add: strict_sorted_iff)
  moreover have "am_ID ` set (Status_ListApps appReg deps domainReg) = a_ID ` set (App_List appReg)"
    by (simp add: Status_ListApps_def image_image app_summary_names app_name_order.set_go_sort)
  moreover have "\<exists>m \<in> set (Status_ListApps appReg deps domainReg). am_ID m = a_ID a \<and> sorted (am_Domains m) \<and>
      set (am_Domains m) = {dm_Name d | d. d \<in> set (Domain_List domainReg) \<and> dm_ApplicationID d = a_ID a}"
    if "a \<in> set (App_List appReg)" for a
  proof (rule bexI)
    show "app_summary deps domainReg a \<in> set (Status_ListApps appReg deps domainReg)"
      using that by (simp add: Status_ListApps_def app_name_order.set_go_sort)
    show "am_ID (app_summary deps domainReg a) = a_ID a \<and> sorted (am_Domains (app_summary deps domainReg a)) \<and>
      set (am_Domains (app_summary deps domainReg a)) =
        {dm_Name d | d. d \<in> set (Domain_List domainReg) \<and> dm_ApplicationID d = a_ID a}"
      using sorted_map_key [of "\<lambda>x. x", OF string_order.sorted_go_sort]
      by (auto simp: app_summary_names string_order.set_go_sort)
  qed
  ultimately show ?thesis unfolding names by blast
qed

end
