(* ===== verification/Runtime.thy ===== *)
theory Runtime
  imports Prelude
begin

text \<open>
  Container runtimes of an agent: the interface of \<open>internal/runtime/runtime.go\<close>, the runtime in
  memory of \<open>internal/runtime/fake/fake.go\<close>, and the one that drives the Docker command line,
  \<open>internal/runtime/docker/docker.go\<close>.

  The interface is a record of functions over a state. The Docker command line is a parameter:
  \<open>cli\<close> runs a command with its arguments in the state of the daemon and yields what it prints
  and, when it fails, the text of the error of \<open>os/exec\<close>; \<open>parse\<close> decodes the JSON that
  \<open>docker inspect\<close> prints; \<open>fmt_cpu\<close> is the verb \<open>%f\<close>. The code keeps nothing between calls.
\<close>

section \<open>The interface\<close>

datatype RuntimeError =
    ContainerNotFound | ContainerConflict | RuntimeUnavailable | InvalidSpec
  | OtherRuntimeError string

datatype ContainerState = CtRunning | CtExited | CtStopped | CtUnknown

record PortMapping =
  rp_Internal :: int
  rp_External :: int

record ContainerSpec =
  cs_InstanceID :: string
  cs_ExecutionID :: string
  cs_ApplicationID :: string
  cs_DeploymentID :: string
  cs_Image :: string
  cs_Command :: "string list"
  cs_Args :: "string list"
  cs_Environment :: "(string, string) gomap"
  cs_Ports :: "PortMapping list"
  cs_CPU :: float64
  cs_MemoryMB :: int

record ContainerInfo =
  ci_OOMKilled :: bool
  ci_ContainerID :: string
  ci_State :: ContainerState

record 'r ContainerRuntime =
  rt_Start :: "'r \<Rightarrow> ContainerSpec \<Rightarrow> 'r \<times> (RuntimeError + ContainerInfo)"
  rt_Stop :: "'r \<Rightarrow> string \<Rightarrow> 'r \<times> RuntimeError option"
  rt_Status :: "'r \<Rightarrow> string \<Rightarrow> 'r \<times> (RuntimeError + ContainerState)"
  rt_Remove :: "'r \<Rightarrow> string \<Rightarrow> 'r \<times> RuntimeError option"
  rt_Logs :: "'r \<Rightarrow> string \<Rightarrow> 'r \<times> (RuntimeError + string)"

section \<open>The runtime in memory\<close>

record FakeContainer =
  fc_ID :: string
  fc_InstanceID :: string
  fc_ExecutionID :: string
  fc_State :: ContainerState

record FakeRuntime =
  Containers :: "(string, FakeContainer) gomap"
  ShouldFail :: bool

definition Fake_New :: FakeRuntime where
  "Fake_New = \<lparr>Containers = [], ShouldFail = False\<rparr>"

definition Fake_Start :: "FakeRuntime \<Rightarrow> ContainerSpec \<Rightarrow> FakeRuntime \<times> (RuntimeError + ContainerInfo)" where
  "Fake_Start f spec =
     (if ShouldFail f then (f, Inl (OtherRuntimeError ''fake start failed''))
      else
        (let name = ''runstack-'' @ cs_InstanceID spec in
         case map_of (Containers f) name of
           Some c \<Rightarrow>
             if fc_ExecutionID c \<noteq> cs_ExecutionID spec then (f, Inl ContainerConflict)
             else (f, Inr \<lparr>ci_OOMKilled = False, ci_ContainerID = fc_ID c, ci_State = fc_State c\<rparr>)
         | None \<Rightarrow>
             (f\<lparr>Containers := mput name \<lparr>fc_ID = name, fc_InstanceID = cs_InstanceID spec,
                  fc_ExecutionID = cs_ExecutionID spec, fc_State = CtRunning\<rparr> (Containers f)\<rparr>,
              Inr \<lparr>ci_OOMKilled = False, ci_ContainerID = name, ci_State = CtRunning\<rparr>)))"

definition Fake_Stop :: "FakeRuntime \<Rightarrow> string \<Rightarrow> FakeRuntime \<times> RuntimeError option" where
  "Fake_Stop f k =
     (if ShouldFail f then (f, Some (OtherRuntimeError ''fake stop failed''))
      else
        (case map_of (Containers f) k of
           None \<Rightarrow> (f, None)
         | Some c \<Rightarrow> (f\<lparr>Containers := mput k (c\<lparr>fc_State := CtExited\<rparr>) (Containers f)\<rparr>, None)))"

definition Fake_Status :: "FakeRuntime \<Rightarrow> string \<Rightarrow> FakeRuntime \<times> (RuntimeError + ContainerState)" where
  "Fake_Status f k =
     (if ShouldFail f then (f, Inl (OtherRuntimeError ''fake status failed''))
      else
        (case map_of (Containers f) k of
           None \<Rightarrow> (f, Inl ContainerNotFound)
         | Some c \<Rightarrow> (f, Inr (fc_State c))))"

definition Fake_Remove :: "FakeRuntime \<Rightarrow> string \<Rightarrow> FakeRuntime \<times> RuntimeError option" where
  "Fake_Remove f k =
     (if ShouldFail f then (f, Some (OtherRuntimeError ''fake remove failed''))
      else (f\<lparr>Containers := mdel k (Containers f)\<rparr>, None))"

definition Fake_Logs :: "FakeRuntime \<Rightarrow> string \<Rightarrow> FakeRuntime \<times> (RuntimeError + string)" where
  "Fake_Logs f k = (f, Inr ''fake logs'')"

definition fake_runtime :: "FakeRuntime ContainerRuntime" where
  "fake_runtime = \<lparr>rt_Start = Fake_Start, rt_Stop = Fake_Stop, rt_Status = Fake_Status,
     rt_Remove = Fake_Remove, rt_Logs = Fake_Logs\<rparr>"

section \<open>The Docker command line\<close>

record CliResult =
  cli_out :: string
  cli_stderr :: string
  cli_err :: "string option"

type_synonym 'd cli = "'d \<Rightarrow> string list \<Rightarrow> 'd \<times> CliResult"

record InspectData =
  id_Id :: string
  id_Status :: string
  id_OOMKilled :: bool
  id_Labels :: "(string, string) gomap"

record inspectInfo =
  ii_ID :: string
  ii_State :: ContainerState
  ii_InstanceID :: string
  ii_ExecutionID :: string
  ii_OOMKilled :: bool

text \<open>\<open>strings.Contains\<close>.\<close>

fun str_contains :: "string \<Rightarrow> string \<Rightarrow> bool" where
  "str_contains [] p \<longleftrightarrow> p = []"
| "str_contains (c # s) p \<longleftrightarrow> has_prefix (c # s) p \<or> str_contains s p"

definition containerName :: "string \<Rightarrow> string" where
  "containerName instanceID = ''runstack-'' @ instanceID"

fun error_text :: "RuntimeError \<Rightarrow> string" where
  "error_text ContainerNotFound = ''container not found''"
| "error_text ContainerConflict = ''container conflict (identity mismatch)''"
| "error_text RuntimeUnavailable = ''container runtime unavailable''"
| "error_text InvalidSpec = ''invalid container spec''"
| "error_text (OtherRuntimeError s) = s"

definition errorsIsNotFound :: "RuntimeError \<Rightarrow> bool" where
  "errorsIsNotFound e \<longleftrightarrow> e = ContainerNotFound \<or> str_contains (error_text e) ''exit status 1''"

definition state_of :: "string \<Rightarrow> ContainerState" where
  "state_of st =
     (if st = ''running'' then CtRunning
      else if st = ''exited'' \<or> st = ''dead'' then CtExited
      else CtUnknown)"

definition docker_inspect ::
  "'d cli \<Rightarrow> (string \<Rightarrow> string + InspectData list) \<Rightarrow> 'd \<Rightarrow> string \<Rightarrow> 'd \<times> (RuntimeError + inspectInfo)" where
  "docker_inspect cli parse d k =
     (case cli d [''inspect'', k] of
        (d1, r) \<Rightarrow>
          (case cli_err r of
             Some e \<Rightarrow>
               (d1, Inl (if str_contains (cli_stderr r) ''No such object'' then ContainerNotFound
                         else OtherRuntimeError (''inspect failed: '' @ e @ '' (stderr: '' @ cli_stderr r @ '')'')))
           | None \<Rightarrow>
               (case parse (cli_out r) of
                  Inl e \<Rightarrow> (d1, Inl (OtherRuntimeError (''failed to parse inspect json: '' @ e)))
                | Inr [] \<Rightarrow> (d1, Inl ContainerNotFound)
                | Inr (dt # _) \<Rightarrow>
                    (d1, Inr \<lparr>ii_ID = id_Id dt, ii_State = state_of (id_Status dt),
                              ii_InstanceID = mget_or '''' (id_Labels dt) ''runstack.instance.id'',
                              ii_ExecutionID = mget_or '''' (id_Labels dt) ''runstack.execution.id'',
                              ii_OOMKilled = id_OOMKilled dt\<rparr>))))"

text \<open>
  The arguments of \<open>docker run\<close>, in the order the code appends them. An invalid key of the
  environment stops the loop.
\<close>

fun env_args :: "(string, string) gomap \<Rightarrow> RuntimeError + string list" where
  "env_args [] = Inr []"
| "env_args ((k, v) # env) =
     (if str_contains k ''='' \<or> has_prefix k ''-'' then Inl InvalidSpec
      else (case env_args env of Inl e \<Rightarrow> Inl e | Inr as \<Rightarrow> Inr (''-e'' # (k @ ''='' @ v) # as)))"

definition flag_args :: "(rat \<Rightarrow> string) \<Rightarrow> ContainerSpec \<Rightarrow> string list" where
  "flag_args fmt_cpu spec =
     [''run'', ''-d'', ''--name'', containerName (cs_InstanceID spec),
      ''-l'', ''runstack.instance.id='' @ cs_InstanceID spec,
      ''-l'', ''runstack.execution.id='' @ cs_ExecutionID spec] @
     (if cs_ApplicationID spec \<noteq> '''' then [''-l'', ''runstack.application.id='' @ cs_ApplicationID spec] else []) @
     (if cs_DeploymentID spec \<noteq> '''' then [''-l'', ''runstack.deployment.id='' @ cs_DeploymentID spec] else []) @
     (if cs_CPU spec > 0 then [''--cpus='' @ fmt_cpu (cs_CPU spec)] else []) @
     (if cs_MemoryMB spec > 0 then [''--memory='' @ show_int (cs_MemoryMB spec) @ ''m''] else [])"

definition port_args :: "PortMapping list \<Rightarrow> string list" where
  "port_args ps = concat (map (\<lambda>p. [''-p'', show_int (rp_External p) @ '':'' @ show_int (rp_Internal p)]) ps)"

definition run_args :: "(rat \<Rightarrow> string) \<Rightarrow> ContainerSpec \<Rightarrow> RuntimeError + string list" where
  "run_args fmt_cpu spec =
     (case env_args (cs_Environment spec) of
        Inl e \<Rightarrow> Inl e
      | Inr env \<Rightarrow>
          Inr (flag_args fmt_cpu spec @ env @ port_args (cs_Ports spec) @ [cs_Image spec] @ cs_Command spec @ cs_Args spec))"

definition docker_Start ::
  "'d cli \<Rightarrow> (string \<Rightarrow> string + InspectData list) \<Rightarrow> (rat \<Rightarrow> string) \<Rightarrow> 'd \<Rightarrow> ContainerSpec
    \<Rightarrow> 'd \<times> (RuntimeError + ContainerInfo)" where
  "docker_Start cli parse fmt_cpu d spec =
     (if cs_InstanceID spec = '''' \<or> cs_ExecutionID spec = '''' \<or> cs_Image spec = '''' then (d, Inl InvalidSpec)
      else if has_prefix (cs_Image spec) ''-'' then (d, Inl InvalidSpec)
      else if has_prefix (cs_InstanceID spec) ''-'' then (d, Inl InvalidSpec)
      else
        (case docker_inspect cli parse d (containerName (cs_InstanceID spec)) of
           (d1, Inr info) \<Rightarrow>
             if ii_ExecutionID info \<noteq> cs_ExecutionID spec then (d1, Inl ContainerConflict)
             else (d1, Inr \<lparr>ci_OOMKilled = False, ci_ContainerID = ii_ID info, ci_State = ii_State info\<rparr>)
         | (d1, Inl e) \<Rightarrow>
             if \<not> errorsIsNotFound e then (d1, Inl e)
             else
               (case run_args fmt_cpu spec of
                  Inl e \<Rightarrow> (d1, Inl e)
                | Inr args \<Rightarrow>
                    (case cli d1 args of
                       (d2, r) \<Rightarrow>
                         (case cli_err r of
                            Some e \<Rightarrow>
                              (d2, Inl (OtherRuntimeError
                                 (if str_contains (cli_stderr r) ''Conflict'' then ''docker run conflict: '' @ cli_stderr r
                                  else ''docker run failed: '' @ e @ '' (stderr: '' @ cli_stderr r @ '')'')))
                          | None \<Rightarrow>
                              (d2, Inr \<lparr>ci_OOMKilled = False, ci_ContainerID = trim_space (cli_out r),
                                        ci_State = CtRunning\<rparr>))))))"

definition docker_Stop ::
  "'d cli \<Rightarrow> (string \<Rightarrow> string + InspectData list) \<Rightarrow> 'd \<Rightarrow> string \<Rightarrow> 'd \<times> RuntimeError option" where
  "docker_Stop cli parse d k =
     (case docker_inspect cli parse d k of
        (d1, Inl e) \<Rightarrow> (d1, if errorsIsNotFound e then None else Some e)
      | (d1, Inr info) \<Rightarrow>
          if ii_InstanceID info = '''' then (d1, Some ContainerConflict)
          else
            (case cli d1 [''stop'', ''-t'', ''10'', k] of
               (d2, r) \<Rightarrow>
                 (case cli_err r of
                    None \<Rightarrow> (d2, None)
                  | Some e \<Rightarrow>
                      (case docker_inspect cli parse d2 k of
                         (d3, after) \<Rightarrow>
                           (let st = (case after of Inl _ \<Rightarrow> None | Inr i \<Rightarrow> Some (ii_State i)) in
                            if st = Some CtExited \<or> st = Some CtUnknown then (d3, None)
                            else (d3, Some (OtherRuntimeError
                                   (''docker stop failed: '' @ e @ '' (stderr: '' @ cli_stderr r @ '')''))))))))"

definition docker_Status ::
  "'d cli \<Rightarrow> (string \<Rightarrow> string + InspectData list) \<Rightarrow> 'd \<Rightarrow> string \<Rightarrow> 'd \<times> (RuntimeError + ContainerState)" where
  "docker_Status cli parse d k =
     (case docker_inspect cli parse d k of
        (d1, Inl e) \<Rightarrow> (d1, Inl (if errorsIsNotFound e then ContainerNotFound else e))
      | (d1, Inr info) \<Rightarrow>
          (d1, if ii_InstanceID info = '''' then Inl ContainerConflict else Inr (ii_State info)))"

definition docker_Remove ::
  "'d cli \<Rightarrow> (string \<Rightarrow> string + InspectData list) \<Rightarrow> 'd \<Rightarrow> string \<Rightarrow> 'd \<times> RuntimeError option" where
  "docker_Remove cli parse d k =
     (case docker_inspect cli parse d k of
        (d1, Inl e) \<Rightarrow> (d1, if errorsIsNotFound e then None else Some e)
      | (d1, Inr info) \<Rightarrow>
          if ii_InstanceID info = '''' then (d1, Some ContainerConflict)
          else
            (case cli d1 [''rm'', ''-f'', k] of
               (d2, r) \<Rightarrow> (d2, map_option (\<lambda>e. OtherRuntimeError (''docker rm failed: '' @ e)) (cli_err r))))"

definition docker_Logs ::
  "'d cli \<Rightarrow> (string \<Rightarrow> string + InspectData list) \<Rightarrow> 'd \<Rightarrow> string \<Rightarrow> 'd \<times> (RuntimeError + string)" where
  "docker_Logs cli parse d k =
     (case docker_inspect cli parse d k of
        (d1, Inl e) \<Rightarrow> (d1, Inl e)
      | (d1, Inr info) \<Rightarrow>
          if ii_InstanceID info = '''' then (d1, Inl (OtherRuntimeError ''container is not managed by RunStack''))
          else
            (case cli d1 [''logs'', ''--tail'', ''100'', k] of
               (d2, r) \<Rightarrow>
                 (case cli_err r of
                    Some e \<Rightarrow> (d2, Inl (OtherRuntimeError (''docker logs failed: '' @ e @ '' (stderr: '' @ cli_stderr r @ '')'')))
                  | None \<Rightarrow> (d2, Inr (cli_out r)))))"

definition docker_runtime ::
  "'d cli \<Rightarrow> (string \<Rightarrow> string + InspectData list) \<Rightarrow> (rat \<Rightarrow> string) \<Rightarrow> 'd ContainerRuntime" where
  "docker_runtime cli parse fmt_cpu =
     \<lparr>rt_Start = docker_Start cli parse fmt_cpu, rt_Stop = docker_Stop cli parse, rt_Status = docker_Status cli parse,
      rt_Remove = docker_Remove cli parse, rt_Logs = docker_Logs cli parse\<rparr>"

section \<open>The contract of a runtime that answers\<close>

text \<open>
  \<open>view\<close> is what a runtime holds under a name: the execution a container was started for, and its
  state. A runtime that is \<open>up\<close> starts a container once, refuses the name to another execution,
  and stops and removes whatever is there.
\<close>

locale container_runtime =
  fixes rt :: "'r ContainerRuntime"
    and view :: "'r \<Rightarrow> string \<Rightarrow> (string \<times> ContainerState) option"
    and up :: "'r \<Rightarrow> bool"
  assumes start_new: "up r \<Longrightarrow> view r (containerName (cs_InstanceID spec)) = None \<Longrightarrow>
      \<exists>r' info. rt_Start rt r spec = (r', Inr info) \<and> up r' \<and> ci_State info = CtRunning \<and>
        ci_ContainerID info = containerName (cs_InstanceID spec) \<and>
        view r' = (view r)(containerName (cs_InstanceID spec) \<mapsto> (cs_ExecutionID spec, CtRunning))"
    and start_same: "up r \<Longrightarrow> view r (containerName (cs_InstanceID spec)) = Some (cs_ExecutionID spec, st) \<Longrightarrow>
      \<exists>r' info. rt_Start rt r spec = (r', Inr info) \<and> up r' \<and> ci_State info = st \<and> view r' = view r"
    and start_conflict: "up r \<Longrightarrow> view r (containerName (cs_InstanceID spec)) = Some (ex, st) \<Longrightarrow>
      ex \<noteq> cs_ExecutionID spec \<Longrightarrow> \<exists>r'. rt_Start rt r spec = (r', Inl ContainerConflict) \<and> up r' \<and> view r' = view r"
    and status: "up r \<Longrightarrow> \<exists>r'. rt_Status rt r k =
        (r', case view r k of None \<Rightarrow> Inl ContainerNotFound | Some (ex, st) \<Rightarrow> Inr st) \<and> up r' \<and> view r' = view r"
    and stop: "up r \<Longrightarrow> \<exists>r'. rt_Stop rt r k = (r', None) \<and> up r' \<and>
        view r' = (case view r k of None \<Rightarrow> view r | Some (ex, st) \<Rightarrow> (view r)(k \<mapsto> (ex, CtExited)))"
    and remove: "up r \<Longrightarrow> \<exists>r'. rt_Remove rt r k = (r', None) \<and> up r' \<and> view r' = (view r)(k := None)"
    and logs: "up r \<Longrightarrow> \<exists>r' l. rt_Logs rt r k = (r', l) \<and> up r' \<and> view r' = view r"
begin

lemma stop_then_remove:
  assumes "up r" and "rt_Stop rt r k = (r1, a)" and "rt_Remove rt r1 k = (r2, b)"
  shows "up r2 \<and> view r2 = (view r)(k := None)"
proof -
  have "up r1" "view r1 = (case view r k of None \<Rightarrow> view r | Some (ex, st) \<Rightarrow> (view r)(k \<mapsto> (ex, CtExited)))"
    using stop [OF assms(1), of k] assms(2) by auto
  with remove [of r1 k] assms(3) show ?thesis by (auto split: option.splits)
qed

end

definition fake_view :: "FakeRuntime \<Rightarrow> string \<Rightarrow> (string \<times> ContainerState) option" where
  "fake_view f k = map_option (\<lambda>c. (fc_ExecutionID c, fc_State c)) (map_of (Containers f) k)"

lemma fake_simps [simp]:
  "rt_Start fake_runtime = Fake_Start" "rt_Stop fake_runtime = Fake_Stop" "rt_Status fake_runtime = Fake_Status"
  "rt_Remove fake_runtime = Fake_Remove" "rt_Logs fake_runtime = Fake_Logs"
  by (simp_all add: fake_runtime_def)

interpretation fake: container_runtime fake_runtime fake_view "\<lambda>f. \<not> ShouldFail f"
proof unfold_locales
  fix f :: FakeRuntime and k
  assume up: "\<not> ShouldFail f"
  show "\<exists>r'. rt_Stop fake_runtime f k = (r', None) \<and> \<not> ShouldFail r' \<and>
      fake_view r' = (case fake_view f k of None \<Rightarrow> fake_view f | Some (ex, st) \<Rightarrow> (fake_view f)(k \<mapsto> (ex, CtExited)))"
    using up by (cases "map_of (Containers f) k") (auto simp: Fake_Stop_def fake_view_def fun_eq_iff)
qed (auto simp: Fake_Start_def Fake_Status_def Fake_Remove_def Fake_Logs_def fake_view_def containerName_def Let_def
    fun_eq_iff split: option.splits)

section \<open>The command line as it is read back\<close>

text \<open>
  How \<open>docker run\<close> reads its arguments, as documented: options up to the first word that is none,
  which is the image; all that follows is the command. \<open>-d\<close> takes no value, \<open>--name\<close>, \<open>-l\<close>,
  \<open>-e\<close> and \<open>-p\<close> take the next word, whatever it is; labels and variables are split at the first
  equals sign.
\<close>

record RunRequest =
  dr_Name :: string
  dr_Labels :: "(string \<times> string) list"
  dr_Env :: "(string \<times> string) list"
  dr_Publish :: "string list"
  dr_Image :: string
  dr_Command :: "string list"

fun split_eq :: "string \<Rightarrow> string \<times> string" where
  "split_eq [] = ([], [])"
| "split_eq (c # s) = (if c = CHR ''='' then ([], s) else (case split_eq s of (k, v) \<Rightarrow> (c # k, v)))"

fun read_run :: "string list \<Rightarrow> RunRequest \<Rightarrow> RunRequest option" where
  "read_run [] q = None"
| "read_run (w # ws) q =
     (if w = ''-d'' \<or> has_prefix w ''--cpus='' \<or> has_prefix w ''--memory='' then read_run ws q
      else if w \<in> {''--name'', ''-l'', ''-e'', ''-p''} then
        (case ws of
           [] \<Rightarrow> None
         | v # vs \<Rightarrow>
             read_run vs (if w = ''--name'' then q\<lparr>dr_Name := v\<rparr>
                          else if w = ''-l'' then q\<lparr>dr_Labels := dr_Labels q @ [split_eq v]\<rparr>
                          else if w = ''-e'' then q\<lparr>dr_Env := dr_Env q @ [split_eq v]\<rparr>
                          else q\<lparr>dr_Publish := dr_Publish q @ [v]\<rparr>))
      else if has_prefix w ''-'' then None
      else Some (q\<lparr>dr_Image := w, dr_Command := ws\<rparr>))"

definition read_docker :: "string list \<Rightarrow> RunRequest option" where
  "read_docker args =
     (case args of
        [] \<Rightarrow> None
      | w # ws \<Rightarrow>
          if w = ''run''
          then read_run ws \<lparr>dr_Name = '''', dr_Labels = [], dr_Env = [], dr_Publish = [], dr_Image = '''', dr_Command = []\<rparr>
          else None)"

lemma contains_char: "str_contains s [c] \<longleftrightarrow> c \<in> set s"
  by (induction s) (auto simp: has_prefix_def)

lemma split_eq_key: "CHR ''='' \<notin> set k \<Longrightarrow> split_eq (k @ CHR ''='' # v) = (k, v)"
  by (induction k) auto

lemma read_label: "read_run (''-l'' # v # ws) q = read_run ws (q\<lparr>dr_Labels := dr_Labels q @ [split_eq v]\<rparr>)"
  by (simp add: has_prefix_def)

lemma read_env: "env_args env = Inr as \<Longrightarrow> read_run (as @ ws) q = read_run ws (q\<lparr>dr_Env := dr_Env q @ env\<rparr>)"
proof (induction env arbitrary: as q)
  case (Cons p env)
  obtain k v where p: "p = (k, v)" by fastforce
  from Cons.prems obtain as1 where as: "env_args env = Inr as1" "as = ''-e'' # (k @ ''='' @ v) # as1" "CHR ''='' \<notin> set k"
    by (auto simp: p contains_char split: if_splits sum.splits)
  have "read_run (as @ ws) q = read_run (as1 @ ws) (q\<lparr>dr_Env := dr_Env q @ [(k, v)]\<rparr>)"
    using split_eq_key [OF as(3)] by (simp add: as(2) has_prefix_def)
  with Cons.IH [OF as(1)] show ?case by (simp add: p)
qed simp

definition published :: "PortMapping list \<Rightarrow> string list" where
  "published ps = map (\<lambda>p. show_int (rp_External p) @ '':'' @ show_int (rp_Internal p)) ps"

lemma read_ports: "read_run (port_args ps @ ws) q = read_run ws (q\<lparr>dr_Publish := dr_Publish q @ published ps\<rparr>)"
  by (induction ps arbitrary: q) (simp_all add: port_args_def published_def has_prefix_def)

lemma read_image:
  assumes "w \<noteq> ''''" and "\<not> has_prefix w ''-''"
  shows "read_run (w # ws) q = Some (q\<lparr>dr_Image := w, dr_Command := ws\<rparr>)"
proof -
  obtain c s where "w = c # s" "c \<noteq> CHR ''-''" using assms by (cases w) (auto simp: has_prefix_def)
  then show ?thesis by (auto simp: has_prefix_def)
qed

lemma read_limit: "read_run ((''--cpus='' @ v) # ws) q = read_run ws q" "read_run ((''--memory='' @ v) # ws) q = read_run ws q"
  by (simp_all add: has_prefix_def)

definition spec_labels :: "ContainerSpec \<Rightarrow> (string \<times> string) list" where
  "spec_labels spec =
     [(''runstack.instance.id'', cs_InstanceID spec), (''runstack.execution.id'', cs_ExecutionID spec)] @
     (if cs_ApplicationID spec \<noteq> '''' then [(''runstack.application.id'', cs_ApplicationID spec)] else []) @
     (if cs_DeploymentID spec \<noteq> '''' then [(''runstack.deployment.id'', cs_DeploymentID spec)] else [])"

lemma label_split:
  "split_eq (''runstack.instance.id='' @ v) = (''runstack.instance.id'', v)"
  "split_eq (''runstack.execution.id='' @ v) = (''runstack.execution.id'', v)"
  "split_eq (''runstack.application.id='' @ v) = (''runstack.application.id'', v)"
  "split_eq (''runstack.deployment.id='' @ v) = (''runstack.deployment.id'', v)"
  by simp_all

lemma read_flags:
  "read_docker (flag_args fmt_cpu spec @ ws) =
     read_run ws \<lparr>dr_Name = containerName (cs_InstanceID spec), dr_Labels = spec_labels spec, dr_Env = [],
       dr_Publish = [], dr_Image = '''', dr_Command = []\<rparr>"
proof -
  have name: "read_run (''-d'' # ''--name'' # v # ws) q = read_run ws (q\<lparr>dr_Name := v\<rparr>)" for v ws q
    by (simp add: has_prefix_def)
  show ?thesis
    unfolding flag_args_def read_docker_def append_Cons append_Nil list.case
    by (simp only: if_True name read_label) (simp add: read_label read_limit [unfolded append_Cons append_Nil] spec_labels_def del: read_run.simps)
qed

section \<open>Properties\<close>


definition example_container :: ContainerSpec where
  "example_container = \<lparr>cs_InstanceID = ''i1'', cs_ExecutionID = ''x1'', cs_ApplicationID = ''a1'', cs_DeploymentID = '''',
     cs_Image = ''web'', cs_Command = [''--privileged''], cs_Args = [], cs_Environment = [(''A'', ''-v=/:/host'')],
     cs_Ports = [\<lparr>rp_Internal = 8, rp_External = 9\<rparr>], cs_CPU = 0, cs_MemoryMB = 64\<rparr>"


text \<open>
  A command that fails with exit status 1, whatever the reason, counts as a missing container: when
  the daemon does not answer, \<open>Status\<close> says that every container is gone.
\<close>

lemma contains_infix: "str_contains (a @ p @ b) p"
proof -
  have "has_prefix (p @ b) p" by (simp add: has_prefix_def)
  then have "str_contains (p @ b) p" by (cases "p @ b") auto
  then show ?thesis by (induction a) auto
qed

lemma docker_outage_taken_for_absence:
  assumes "cli d [''inspect'', k] = (d, \<lparr>cli_out = '''', cli_stderr = msg, cli_err = Some ''exit status 1''\<rparr>)"
    and "\<not> str_contains msg ''No such object''"
  shows "docker_Status cli parse d k = (d, Inl ContainerNotFound)"
  using assms contains_infix [of "''inspect failed: ''" "''exit status 1''" "'' (stderr: '' @ msg @ '')''"]
  by (simp add: docker_Status_def docker_inspect_def errorsIsNotFound_def del: str_contains.simps)

end
