(* ===== verification/LogBuffer.thy ===== *)
theory LogBuffer
  imports Prelude
begin

text \<open>
  The crash logs an agent keeps: \<open>internal/executor/log_buffer.go\<close>.

  What the container runtime delivers is an argument: \<open>None\<close> when \<open>Logs\<close> fails, else the
  bytes that can be read before the stream ends or breaks (the code keeps what it has read in
  both cases). \<open>CaptureAndFreeze\<close> gives up the lock while it reads, so other captures may run
  between its two checks; the critical section behind the second check is \<open>freeze\<close>, and any
  interleaving of captures acts on the buffer as a sequence of \<open>freeze\<close> steps.
\<close>

section \<open>The buffer\<close>

definition MaxLinesPerInstance :: nat where
  "MaxLinesPerInstance = 500"

definition MaxBytesPerInstance :: nat where
  "MaxBytesPerInstance = 1 * 1024 * 1024"

definition MaxAgentLogBytes :: int where
  "MaxAgentLogBytes = 50 * 1024 * 1024"

record CrashLogRecord =
  cl_ApplicationID :: string
  cl_DeploymentID :: string
  cl_InstanceID :: string
  cl_ExecutionID :: string
  cl_NodeID :: string
  cl_Lines :: "string list"
  cl_SizeBytes :: int
  cl_CapturedAt :: time

record LogRingBuffer =
  lb_records :: "(string, CrashLogRecord) gomap"
  lb_totalBytes :: int
  lb_order :: "string list"

definition NewLogRingBuffer :: LogRingBuffer where
  "NewLogRingBuffer = \<lparr>lb_records = [], lb_totalBytes = 0, lb_order = []\<rparr>"

text \<open>\<open>strings.Split\<close> at newlines.\<close>

fun split_lines :: "string \<Rightarrow> string list" where
  "split_lines [] = [[]]"
| "split_lines (c # s) =
     (if c = CHR 0x0A then [] # split_lines s
      else (case split_lines s of [] \<Rightarrow> [[c]] | l # ls \<Rightarrow> (c # l) # ls))"

definition captured_lines :: "string \<Rightarrow> string list" where
  "captured_lines stream =
     (let lines = split_lines (take MaxBytesPerInstance stream);
          lines1 = (if length lines > MaxLinesPerInstance
                    then drop (length lines - MaxLinesPerInstance) lines else lines)
      in if lines1 \<noteq> [] \<and> last lines1 = '''' then butlast lines1 else lines1)"

definition log_record ::
  "string \<Rightarrow> string \<Rightarrow> string \<Rightarrow> string \<Rightarrow> string \<Rightarrow> string \<Rightarrow> time \<Rightarrow> CrashLogRecord" where
  "log_record appID depID instID execID nodeID stream now =
     \<lparr>cl_ApplicationID = appID, cl_DeploymentID = depID, cl_InstanceID = instID, cl_ExecutionID = execID,
      cl_NodeID = nodeID, cl_Lines = captured_lines stream,
      cl_SizeBytes = foldl (\<lambda>n l. n + int (length l)) 0 (captured_lines stream), cl_CapturedAt = now\<rparr>"

fun evict :: "int \<Rightarrow> string list \<Rightarrow> (string, CrashLogRecord) gomap \<times> int
    \<Rightarrow> (string, CrashLogRecord) gomap \<times> int \<times> string list" where
  "evict sz [] (recs, tot) = (recs, tot, [])"
| "evict sz (oldest # rest) (recs, tot) =
     (if tot + sz > MaxAgentLogBytes then
        (case map_of recs oldest of
           Some old \<Rightarrow> evict sz rest (mdel oldest recs, tot - cl_SizeBytes old)
         | None \<Rightarrow> evict sz rest (recs, tot))
      else (recs, tot, oldest # rest))"

definition freeze :: "CrashLogRecord \<Rightarrow> LogRingBuffer \<Rightarrow> LogRingBuffer" where
  "freeze rec b =
     (if map_of (lb_records b) (cl_InstanceID rec) \<noteq> None then b
      else
        (case evict (cl_SizeBytes rec) (lb_order b) (lb_records b, lb_totalBytes b) of
           (recs, tot, ord) \<Rightarrow>
             b\<lparr>lb_records := mput (cl_InstanceID rec) rec recs,
               lb_order := ord @ [cl_InstanceID rec],
               lb_totalBytes := tot + cl_SizeBytes rec\<rparr>))"

definition CaptureAndFreeze ::
  "string \<Rightarrow> string \<Rightarrow> string \<Rightarrow> string \<Rightarrow> string \<Rightarrow> string option \<Rightarrow> time \<Rightarrow> LogRingBuffer \<Rightarrow> LogRingBuffer" where
  "CaptureAndFreeze appID depID instID execID nodeID logs now b =
     (if map_of (lb_records b) instID \<noteq> None then b
      else
        (case logs of
           None \<Rightarrow> b
         | Some stream \<Rightarrow> freeze (log_record appID depID instID execID nodeID stream now) b))"

definition Log_Get :: "LogRingBuffer \<Rightarrow> string \<Rightarrow> string \<Rightarrow> string \<Rightarrow> string list option" where
  "Log_Get b instID appID execID =
     (case map_of (lb_records b) instID of
        None \<Rightarrow> None
      | Some rec \<Rightarrow>
          if cl_ApplicationID rec \<noteq> appID \<or> (execID \<noteq> '''' \<and> cl_ExecutionID rec \<noteq> execID) then None
          else Some (cl_Lines rec))"

text \<open>A capture that finished reading, as a step: who crashed, and what was read when.\<close>

datatype log_op = LFreeze string string string string string string time

fun op_record :: "log_op \<Rightarrow> CrashLogRecord" where
  "op_record (LFreeze appID depID instID execID nodeID stream now) =
     log_record appID depID instID execID nodeID stream now"

definition log_step :: "log_op \<Rightarrow> LogRingBuffer \<Rightarrow> LogRingBuffer" where
  "log_step op b = freeze (op_record op) b"

lemma capture_is_freeze:
  "CaptureAndFreeze appID depID instID execID nodeID logs now b =
     (case logs of None \<Rightarrow> b | Some stream \<Rightarrow> log_step (LFreeze appID depID instID execID nodeID stream now) b)"
  by (simp add: CaptureAndFreeze_def log_step_def freeze_def log_record_def split: option.splits)

section \<open>Sizes\<close>

lemma split_lines_nonempty [simp]: "split_lines s \<noteq> []"
  by (induction s) (auto split: list.splits)

abbreviation line_bytes :: "string list \<Rightarrow> nat" where
  "line_bytes ls \<equiv> sum_list (map length ls)"

lemma split_lines_bytes: "line_bytes (split_lines s) + length (split_lines s) = Suc (length s)"
proof (induction s)
  case (Cons c s)
  then show ?case by (cases "split_lines s") auto
qed simp

lemma line_bytes_drop: "line_bytes (drop n ls) \<le> line_bytes ls"
  by (metis append_take_drop_id le_add2 map_append sum_list_append)

lemma line_bytes_butlast: "line_bytes (butlast ls) \<le> line_bytes ls"
  by (cases ls rule: rev_cases) auto

lemma captured_lines_bounds:
  "length (captured_lines s) \<le> MaxLinesPerInstance \<and> line_bytes (captured_lines s) \<le> MaxBytesPerInstance"
proof -
  define ls where "ls = split_lines (take MaxBytesPerInstance s)"
  define ds where "ds = (if length ls > MaxLinesPerInstance then drop (length ls - MaxLinesPerInstance) ls else ls)"
  have "ls \<noteq> []" by (simp add: ls_def)
  then have "line_bytes ls \<le> MaxBytesPerInstance"
    using split_lines_bytes [of "take MaxBytesPerInstance s"] unfolding ls_def [symmetric]
    by (cases ls) auto
  then have "line_bytes ds \<le> MaxBytesPerInstance" and "length ds \<le> MaxLinesPerInstance"
    using line_bytes_drop [of "length ls - MaxLinesPerInstance" ls] by (auto simp: ds_def)
  moreover have "line_bytes (butlast ds) \<le> line_bytes ds" by (rule line_bytes_butlast)
  moreover have "captured_lines s = (if ds \<noteq> [] \<and> last ds = [] then butlast ds else ds)"
    by (simp only: captured_lines_def Let_def ds_def ls_def)
  ultimately show ?thesis by auto
qed

lemma foldl_line_bytes: "foldl (\<lambda>n l. n + int (length l)) a ls = a + int (line_bytes ls)"
  by (induction ls arbitrary: a) auto

text \<open>What every stored record obeys.\<close>

definition record_ok :: "CrashLogRecord \<Rightarrow> bool" where
  "record_ok rec \<longleftrightarrow> length (cl_Lines rec) \<le> MaxLinesPerInstance \<and>
     cl_SizeBytes rec = int (line_bytes (cl_Lines rec)) \<and> cl_SizeBytes rec \<le> int MaxBytesPerInstance"

lemma op_record_ok: "record_ok (op_record op)"
  using captured_lines_bounds
  by (cases op) (simp add: record_ok_def log_record_def foldl_line_bytes)

section \<open>The specification: a queue that drops its oldest entries\<close>

definition queue_bytes :: "CrashLogRecord list \<Rightarrow> int" where
  "queue_bytes q = sum_list (map cl_SizeBytes q)"

fun keep_newest :: "int \<Rightarrow> CrashLogRecord list \<Rightarrow> CrashLogRecord list" where
  "keep_newest room [] = []"
| "keep_newest room (r # q) = (if queue_bytes (r # q) > room then keep_newest room q else r # q)"

definition queue_freeze :: "log_op \<Rightarrow> CrashLogRecord list \<Rightarrow> CrashLogRecord list" where
  "queue_freeze op q =
     (let rec = op_record op in
      if \<exists>r \<in> set q. cl_InstanceID r = cl_InstanceID rec then q
      else keep_newest (MaxAgentLogBytes - cl_SizeBytes rec) q @ [rec])"

definition queue_get :: "CrashLogRecord list \<Rightarrow> string \<Rightarrow> string \<Rightarrow> string \<Rightarrow> string list option" where
  "queue_get q instID appID execID =
     (case find (\<lambda>r. cl_InstanceID r = instID) q of
        None \<Rightarrow> None
      | Some r \<Rightarrow> if cl_ApplicationID r = appID \<and> execID \<in> {'''', cl_ExecutionID r} then Some (cl_Lines r) else None)"

definition log_queue :: "LogRingBuffer \<Rightarrow> CrashLogRecord list" where
  "log_queue b = map (\<lambda>k. the (map_of (lb_records b) k)) (lb_order b)"

definition log_inv :: "LogRingBuffer \<Rightarrow> bool" where
  "log_inv b \<longleftrightarrow> distinct (lb_order b) \<and> keyed cl_InstanceID (lb_records b) \<and>
     set (lb_order b) = dom (map_of (lb_records b)) \<and>
     lb_totalBytes b = queue_bytes (log_queue b) \<and> lb_totalBytes b \<le> MaxAgentLogBytes \<and>
     (\<forall>r \<in> set (log_queue b). record_ok r)"


lemma queue_bytes_simps [simp]:
  "queue_bytes [] = 0" "queue_bytes (r # q) = cl_SizeBytes r + queue_bytes q"
  "queue_bytes (q @ q') = queue_bytes q + queue_bytes q'"
  by (simp_all add: queue_bytes_def)

lemma keep_newest_fits: "0 \<le> room \<Longrightarrow> queue_bytes (keep_newest room q) \<le> room"
  by (induction q) auto

lemma keep_newest_subset: "set (keep_newest room q) \<subseteq> set q"
  by (induction q) auto

text \<open>The eviction loop drops records exactly as the queue does.\<close>

lemma evict_keeps_newest:
  assumes "distinct ks" and "\<forall>k \<in> set ks. map_of recs k \<noteq> None" and "keyed cl_InstanceID recs"
    and "tot = queue_bytes (map (\<lambda>k. the (map_of recs k)) ks)"
    and "evict sz ks (recs, tot) = (recs', tot', ks')"
  shows "map (\<lambda>k. the (map_of recs' k)) ks' = keep_newest (MaxAgentLogBytes - sz) (map (\<lambda>k. the (map_of recs k)) ks) \<and>
    tot' = queue_bytes (map (\<lambda>k. the (map_of recs' k)) ks') \<and> distinct ks' \<and> set ks' \<subseteq> set ks \<and>
    keyed cl_InstanceID recs' \<and> dom (map_of recs') = dom (map_of recs) - (set ks - set ks')"
  using assms
proof (induction ks arbitrary: recs tot)
  case (Cons k ks)
  obtain r where r: "map_of recs k = Some r" using Cons.prems(2) by auto
  have same: "map (\<lambda>k'. the (map_of (mdel k recs) k')) ks = map (\<lambda>k'. the (map_of recs k')) ks"
    using Cons.prems(1) by auto
  show ?case
  proof (cases "tot + sz > MaxAgentLogBytes")
    case True
    have run: "evict sz ks (mdel k recs, tot - cl_SizeBytes r) = (recs', tot', ks')"
      using Cons.prems(5) True r by simp
    have ks: "\<forall>k' \<in> set ks. map_of (mdel k recs) k' \<noteq> None" "distinct ks" using Cons.prems(1,2) by auto
    have tot: "tot - cl_SizeBytes r = queue_bytes (map (\<lambda>k'. the (map_of (mdel k recs) k')) ks)"
      unfolding same using Cons.prems(4) r by simp
    have "map (\<lambda>k. the (map_of recs' k)) ks' =
        keep_newest (MaxAgentLogBytes - sz) (map (\<lambda>k. the (map_of recs k)) ks) \<and>
      tot' = queue_bytes (map (\<lambda>k. the (map_of recs' k)) ks') \<and> distinct ks' \<and> set ks' \<subseteq> set ks \<and>
      keyed cl_InstanceID recs' \<and> dom (map_of recs') = dom (map_of (mdel k recs)) - (set ks - set ks')"
      by (rule Cons.IH [OF ks(2,1) keyed_mdel [OF Cons.prems(3)] tot run, unfolded same])
    moreover have "keep_newest (MaxAgentLogBytes - sz) (map (\<lambda>k. the (map_of recs k)) (k # ks)) =
        keep_newest (MaxAgentLogBytes - sz) (map (\<lambda>k. the (map_of recs k)) ks)"
      using Cons.prems(4) True by auto
    ultimately show ?thesis using Cons.prems(1) by (auto simp: AList.delete_conv')
  next
    case False
    then have "recs' = recs" "tot' = tot" "ks' = k # ks" using Cons.prems(5) by auto
    with False Cons.prems show ?thesis by auto
  qed
qed simp

lemma freeze_step:
  assumes "log_inv b" and "record_ok rec" and "map_of (lb_records b) (cl_InstanceID rec) = None"
  shows "log_queue (freeze rec b) = keep_newest (MaxAgentLogBytes - cl_SizeBytes rec) (log_queue b) @ [rec] \<and>
    log_inv (freeze rec b)"
proof -
  let ?k = "cl_InstanceID rec"
  obtain recs' tot' ks' where e: "evict (cl_SizeBytes rec) (lb_order b) (lb_records b, lb_totalBytes b) = (recs', tot', ks')"
    by (metis prod.exhaust)
  have f: "freeze rec b = b\<lparr>lb_records := mput ?k rec recs', lb_order := ks' @ [?k], lb_totalBytes := tot' + cl_SizeBytes rec\<rparr>"
    using assms(3) e by (simp add: freeze_def)
  have ev: "map (\<lambda>k. the (map_of recs' k)) ks' = keep_newest (MaxAgentLogBytes - cl_SizeBytes rec) (log_queue b)"
    "tot' = queue_bytes (map (\<lambda>k. the (map_of recs' k)) ks')" "distinct ks'" "set ks' \<subseteq> set (lb_order b)"
    "keyed cl_InstanceID recs'" "dom (map_of recs') = dom (map_of (lb_records b)) - (set (lb_order b) - set ks')"
    using evict_keeps_newest [OF _ _ _ _ e] assms(1) unfolding log_inv_def log_queue_def by auto
  have new: "?k \<notin> set (lb_order b)" using assms(1,3) by (auto simp: log_inv_def)
  then have "map (\<lambda>k. the (map_of (mput ?k rec recs') k)) ks' = map (\<lambda>k. the (map_of recs' k)) ks'"
    using ev(4) by auto
  then have q: "log_queue (freeze rec b) = keep_newest (MaxAgentLogBytes - cl_SizeBytes rec) (log_queue b) @ [rec]"
    by (simp add: f log_queue_def flip: ev(1) [unfolded log_queue_def])
  have room: "0 \<le> MaxAgentLogBytes - cl_SizeBytes rec"
    using assms(2) by (simp add: record_ok_def MaxAgentLogBytes_def MaxBytesPerInstance_def)
  have sel: "lb_records (freeze rec b) = mput ?k rec recs'" "lb_order (freeze rec b) = ks' @ [?k]"
    "lb_totalBytes (freeze rec b) = tot' + cl_SizeBytes rec" by (simp_all add: f)
  have tot: "tot' + cl_SizeBytes rec = queue_bytes (log_queue (freeze rec b))" by (simp add: q ev(1,2))
  have "log_inv (freeze rec b)"
    unfolding log_inv_def sel
  proof (intro conjI)
    show "distinct (ks' @ [?k])" using new ev(3,4) by auto
    show "keyed cl_InstanceID (mput ?k rec recs')" using ev(5) by (simp add: keyed_mput)
    show "set (ks' @ [?k]) = dom (map_of (mput ?k rec recs'))"
      using ev(4,6) assms(1) by (auto simp: log_inv_def AList.update_conv')
    show "tot' + cl_SizeBytes rec \<le> MaxAgentLogBytes"
      unfolding tot using keep_newest_fits [OF room, of "log_queue b"] by (simp add: q)
    show "\<forall>r \<in> set (log_queue (freeze rec b)). record_ok r"
      using assms(1,2) by (auto simp: q log_inv_def dest: subsetD [OF keep_newest_subset])
  qed (rule tot)
  with q show ?thesis by blast
qed

lemma queue_mem_iff:
  "log_inv b \<Longrightarrow> (\<exists>r \<in> set (log_queue b). cl_InstanceID r = k) \<longleftrightarrow> map_of (lb_records b) k \<noteq> None"
  by (force simp: log_inv_def log_queue_def dom_def dest: keyed_map_of)

lemma log_step_queue:
  assumes "log_inv b"
  shows "log_queue (log_step op b) = queue_freeze op (log_queue b) \<and> log_inv (log_step op b)"
proof (cases "map_of (lb_records b) (cl_InstanceID (op_record op))")
  case None
  then have "\<not> (\<exists>r \<in> set (log_queue b). cl_InstanceID r = cl_InstanceID (op_record op))"
    using queue_mem_iff [OF assms] by simp
  with freeze_step [OF assms op_record_ok None] show ?thesis
    by (simp add: log_step_def queue_freeze_def Let_def)
next
  case (Some r)
  then have "\<exists>r \<in> set (log_queue b). cl_InstanceID r = cl_InstanceID (op_record op)"
    using queue_mem_iff [OF assms] by simp
  with Some assms show ?thesis by (simp add: log_step_def freeze_def queue_freeze_def Let_def)
qed

interpretation log_machine: simulation NewLogRingBuffer "\<lambda>_ _. True" log_step log_inv log_queue "[]" queue_freeze
  by unfold_locales
    (simp_all add: log_step_queue, simp_all add: log_inv_def log_queue_def NewLogRingBuffer_def MaxAgentLogBytes_def)

section \<open>Properties\<close>

text \<open>
  C26: the crash-log buffer implements a queue that forgets its oldest entries. In every state
  that any interleaving of captures reaches, a further capture of an instance without a record
  appends one and drops just as many of the oldest records as it takes to stay within 50 MB;
  a capture for an instance that has a record changes nothing; and a lookup answers from the
  queue, only to the application of the instance and, when one is named, only for its
  execution.
\<close>

theorem log_buffer_refines_queue:
  assumes "reach NewLogRingBuffer (\<lambda>_ _. True) log_step b"
  shows "reach [] (\<lambda>_ _. True) queue_freeze (log_queue b) \<and>
    log_queue (CaptureAndFreeze appID depID instID execID nodeID logs now b) =
      (case logs of None \<Rightarrow> log_queue b | Some s \<Rightarrow> queue_freeze (LFreeze appID depID instID execID nodeID s now) (log_queue b)) \<and>
    Log_Get b = queue_get (log_queue b)"
proof -
  have inv: "log_inv b" using assms by (rule log_machine.reach_inv)
  have "Log_Get b i a x = queue_get (log_queue b) i a x" for i a x
  proof (cases "find (\<lambda>r. cl_InstanceID r = i) (log_queue b)")
    case None
    then have "map_of (lb_records b) i = None"
      using queue_mem_iff [OF inv, of i] by (auto simp: find_None_iff)
    with None show ?thesis by (simp add: Log_Get_def queue_get_def)
  next
    case (Some r)
    then have "r \<in> set (log_queue b)" "cl_InstanceID r = i" by (auto simp: find_Some_iff)
    then have "map_of (lb_records b) i = Some r"
      using inv by (force simp: log_inv_def log_queue_def dest: keyed_map_of)
    with Some show ?thesis by (auto simp: Log_Get_def queue_get_def)
  qed
  then have "Log_Get b = queue_get (log_queue b)" by blast
  with log_machine.reach_absf [OF assms] log_step_queue [OF inv] show ?thesis
    by (simp add: capture_is_freeze split: option.split)
qed

definition example_log :: log_op where
  "example_log = LFreeze ''app'' ''dep'' ''i1'' ''x1'' ''n1'' (''boom'' @ [CHR 0x0A]) 7"

definition example_logs :: LogRingBuffer where
  "example_logs = log_step example_log NewLogRingBuffer"

lemma example_logs_reach: "reach NewLogRingBuffer (\<lambda>_ _. True) log_step example_logs"
  unfolding example_logs_def by (intro reach_step reach_init) simp

lemma example_logs_queue: "log_queue example_logs = [op_record example_log]"
  by (simp add: example_logs_def log_step_def freeze_def NewLogRingBuffer_def log_queue_def)

theorem log_buffer_refines_queue_witness:
  "log_queue (CaptureAndFreeze ''app'' ''dep'' ''i1'' ''x2'' ''n1'' (Some ''late'') 9 example_logs) =
     log_queue example_logs \<and>
   Log_Get example_logs ''i1'' ''app'' ''x1'' = Some [''boom'']"
proof -
  have op: "op_record example_log = log_record ''app'' ''dep'' ''i1'' ''x1'' ''n1'' (''boom'' @ [CHR 0x0A]) 7"
    by (simp add: example_log_def)
  have l: "captured_lines (''boom'' @ [CHR 0x0A]) = [''boom'']"
    by (simp add: captured_lines_def MaxBytesPerInstance_def MaxLinesPerInstance_def)
  from log_buffer_refines_queue [OF example_logs_reach, of "''app''" "''dep''" "''i1''" "''x2''" "''n1''" "Some ''late''" 9]
  show ?thesis
    using l by (simp add: example_logs_queue queue_freeze_def queue_get_def op log_record_def Let_def)
qed

text \<open>
  The agent's memory for crash logs is bounded. In every reachable state the byte counter
  equals the bytes of the lines kept, at most 50 MB in all, with at most 500 lines and 1 MB per
  instance, one record per instance; and the record captured last is always among them, so
  eviction never discards the crash that caused it.
\<close>

lemma log_buffer_bounded:
  assumes "reach NewLogRingBuffer (\<lambda>_ _. True) log_step b"
  shows "lb_totalBytes b = int (sum_list (map (\<lambda>r. line_bytes (cl_Lines r)) (log_queue b))) \<and>
    lb_totalBytes b \<le> 50 * 1024 * 1024 \<and>
    (\<forall>r \<in> set (log_queue b). length (cl_Lines r) \<le> 500 \<and> line_bytes (cl_Lines r) \<le> 1024 * 1024) \<and>
    length (lb_records b) = length (log_queue b) \<and>
    (map_of (lb_records b) i = None \<longrightarrow>
       Log_Get (CaptureAndFreeze a d i x n (Some s) now b) i a x = Some (captured_lines s))"
proof -
  have inv: "log_inv b" using assms by (rule log_machine.reach_inv)
  then have rs: "\<forall>r \<in> set (log_queue b). record_ok r" and tot: "lb_totalBytes b = queue_bytes (log_queue b)"
    and ord: "distinct (lb_order b)" "set (lb_order b) = fst ` set (lb_records b)" "distinct (map fst (lb_records b))"
    by (auto simp: log_inv_def keyed_def dom_map_of_conv_image_fst)
  have bytes: "queue_bytes q = int (sum_list (map (\<lambda>r. line_bytes (cl_Lines r)) q))" 
    if "\<forall>r \<in> set q. cl_SizeBytes r = int (line_bytes (cl_Lines r))" for q
    using that by (induction q) auto
  have "length (lb_order b) = length (lb_records b)"
    using ord by (metis distinct_card length_map set_map)
  moreover have "Log_Get (CaptureAndFreeze a d i x n (Some s) now b) i a x = Some (captured_lines s)"
    if "map_of (lb_records b) i = None"
    using that by (simp add: capture_is_freeze log_step_def freeze_def log_record_def Log_Get_def case_prod_unfold)
  ultimately show ?thesis
    using rs bytes [of "log_queue b"] tot inv
    by (auto simp: log_inv_def record_ok_def log_queue_def MaxAgentLogBytes_def MaxLinesPerInstance_def MaxBytesPerInstance_def)
qed

lemma log_buffer_bounded_example:
  "lb_totalBytes example_logs \<le> 50 * 1024 * 1024 \<and>
   length (lb_records example_logs) = 1"
  using log_buffer_bounded [OF example_logs_reach, where i = "''''" and a = "''''" and d = "''''" and x = "''''"
      and n = "''''" and s = "''''" and now = 0] by (simp add: example_logs_queue)

text \<open>
  The limit on the bytes is applied to the start of the stream: of a longer log the first
  megabyte is kept, and the crash at its end is not in the record.
\<close>

lemma capture_loses_the_end:
  "MaxBytesPerInstance \<le> length s \<Longrightarrow> captured_lines (s @ t) = captured_lines s"
  by (simp add: captured_lines_def)

end
