(* ===== verification/Logs.thy ===== *)
theory Logs
  imports Application Instance Node Runtime LogBuffer
begin

text \<open>
  Logs of an application: the handler of the control plane, \<open>internal/api/logs.go\<close>, finds an
  instance and asks the agent of its node; the endpoint of the agent, \<open>cmd/runstack/agent_api.go\<close>,
  answers from the crash logs or from the container runtime.

  The request between the two is a record of the query parameters. The connection to the agent is
  an argument of the handler: \<open>None\<close> when the agent cannot be reached, or the status and the body of
  its answer.
\<close>

section \<open>The handler of the control plane\<close>

record LogRequest =
  lr_IP :: string
  lr_Port :: int
  lr_Container :: string
  lr_Instance :: string
  lr_App :: string
  lr_Exec :: string

definition logs_app :: "AppRegistry \<Rightarrow> string \<Rightarrow> string option" where
  "logs_app appReg k =
     (case App_Get appReg k of
        Inr app \<Rightarrow> Some (a_ID app)
      | Inl e \<Rightarrow>
          if e = AppNotFound
          then (case App_GetByName appReg k of Inr app \<Rightarrow> Some (a_ID app) | Inl _ \<Rightarrow> None)
          else None)"

definition logs_instance :: "string \<Rightarrow> string \<Rightarrow> Instance list \<Rightarrow> Instance option" where
  "logs_instance appID instanceID insts =
     find (\<lambda>i. i_ApplicationID i = appID \<and>
               (if instanceID \<noteq> '''' then i_ID i = instanceID else i_Status i = StatusRunning)) insts"

definition logs_request ::
  "int \<Rightarrow> string \<Rightarrow> string \<Rightarrow> AppRegistry \<Rightarrow> InstRegistry \<Rightarrow> NodeRegistry \<Rightarrow> nat + LogRequest" where
  "logs_request agentPort k instanceID appReg instReg nodeReg =
     (if k = '''' then Inl 400
      else
        (case logs_app appReg k of
           None \<Rightarrow> Inl 404
         | Some appID \<Rightarrow>
             (case logs_instance appID instanceID (Inst_List instReg) of
                None \<Rightarrow> Inl 404
              | Some inst \<Rightarrow>
                  if i_ApplicationID inst \<noteq> appID then Inl 403
                  else if i_NodeID inst = '''' \<or> (i_ContainerID inst = '''' \<and> i_Status inst \<noteq> StatusCrashed) then Inl 412
                  else
                    (case Node_Get nodeReg (i_NodeID inst) of
                       Inl _ \<Rightarrow> Inl 404
                     | Inr n \<Rightarrow>
                         if n_IPAddress n = '''' then Inl 412
                         else
                           Inr \<lparr>lr_IP = (if n_IPAddress n = ''::1'' \<or> has_prefix (n_IPAddress n) ''127.''
                                         then ''127.0.0.1'' else n_IPAddress n),
                                lr_Port = (if agentPort = 0 then 8081 else agentPort),
                                lr_Container = i_ContainerID inst, lr_Instance = i_ID inst,
                                lr_App = i_ApplicationID inst, lr_Exec = i_ExecutionID inst\<rparr>))))"

definition GetAppLogs ::
  "int \<Rightarrow> (LogRequest \<Rightarrow> (nat \<times> string) option) \<Rightarrow> string \<Rightarrow> string \<Rightarrow> AppRegistry \<Rightarrow> InstRegistry \<Rightarrow> NodeRegistry
    \<Rightarrow> nat + string" where
  "GetAppLogs agentPort ask k instanceID appReg instReg nodeReg =
     (case logs_request agentPort k instanceID appReg instReg nodeReg of
        Inl st \<Rightarrow> Inl st
      | Inr q \<Rightarrow>
          (case ask q of
             None \<Rightarrow> Inl 502
           | Some (st, body) \<Rightarrow> if st \<noteq> 200 then Inl 502 else Inr body))"

section \<open>The endpoint of the agent\<close>

fun join_lines :: "string list \<Rightarrow> string" where
  "join_lines [] = []"
| "join_lines [l] = l"
| "join_lines (l # ls) = l @ CHR 0x0A # join_lines ls"

definition agent_logs ::
  "'r ContainerRuntime \<Rightarrow> LogRingBuffer \<Rightarrow> LogRequest \<Rightarrow> 'r \<Rightarrow> 'r \<times> (nat \<times> string)" where
  "agent_logs cr crashLogs q r =
     (if lr_Container q = '''' \<and> lr_Instance q = '''' then (r, 400, '''')
      else
        (case (if lr_Instance q \<noteq> '''' \<and> lr_App q \<noteq> ''''
               then Log_Get crashLogs (lr_Instance q) (lr_App q) (lr_Exec q) else None) of
           Some lines \<Rightarrow> (r, 200, join_lines lines @ [CHR 0x0A])
         | None \<Rightarrow>
             if lr_Container q \<noteq> '''' then
               (if \<not> has_prefix (lr_Container q) ''runstack-'' then (r, 403, '''')
                else
                  (case rt_Logs cr r (lr_Container q) of
                     (r1, Inl _) \<Rightarrow> (r1, 500, '''')
                   | (r1, Inr out) \<Rightarrow> (r1, 200, out)))
             else (r, 404, '''')))"

section \<open>Properties\<close>

lemma logs_request_instance:
  assumes "logs_request port k instanceID appReg instReg nodeReg = Inr q"
  shows "\<exists>appID inst. logs_app appReg k = Some appID \<and> inst \<in> set (Inst_List instReg) \<and> i_ApplicationID inst = appID \<and>
    lr_Container q = i_ContainerID inst \<and> lr_Instance q = i_ID inst \<and> lr_App q = appID \<and> lr_Exec q = i_ExecutionID inst \<and>
    (instanceID \<noteq> '''' \<longrightarrow> i_ID inst = instanceID)"
proof -
  obtain appID where a: "logs_app appReg k = Some appID"
    using assms by (auto simp: logs_request_def split: if_splits option.splits)
  obtain inst where i: "logs_instance appID instanceID (Inst_List instReg) = Some inst"
    using assms by (auto simp: logs_request_def a split: if_splits option.splits)
  have "q = \<lparr>lr_IP = lr_IP q, lr_Port = lr_Port q, lr_Container = i_ContainerID inst, lr_Instance = i_ID inst,
      lr_App = i_ApplicationID inst, lr_Exec = i_ExecutionID inst\<rparr>"
    using assms by (auto simp: logs_request_def a i split: if_splits sum.splits)
  then have "lr_Container q = i_ContainerID inst \<and> lr_Instance q = i_ID inst \<and> lr_App q = i_ApplicationID inst \<and>
      lr_Exec q = i_ExecutionID inst"
    by (metis LogRequest.select_convs)
  moreover have "inst \<in> set (Inst_List instReg) \<and> i_ApplicationID inst = appID \<and> (instanceID \<noteq> '''' \<longrightarrow> i_ID inst = instanceID)"
    using find_SomeD [OF i [unfolded logs_instance_def]] by (auto split: if_splits)
  ultimately show ?thesis using a by auto
qed

lemma agent_logs_source:
  assumes "snd (agent_logs cr buf q r) = (200, body)"
  shows "(\<exists>rec. map_of (lb_records buf) (lr_Instance q) = Some rec \<and> cl_ApplicationID rec = lr_App q \<and>
      (lr_Exec q \<noteq> '''' \<longrightarrow> cl_ExecutionID rec = lr_Exec q) \<and> body = join_lines (cl_Lines rec) @ [CHR 0x0A]) \<or>
    has_prefix (lr_Container q) ''runstack-'' \<and> snd (rt_Logs cr r (lr_Container q)) = Inr body"
  using assms by (auto simp: agent_logs_def Log_Get_def split: if_splits option.splits prod.splits sum.splits)


definition example_serving :: InstRegistry where
  "example_serving = fst (Inst_ReportStatus 9 ''i1'' ''n1'' ''x1'' StatusRunning HealthHealthy ''runstack-i1'' [] example_insts)"

definition example_log_apps :: AppRegistry where
  "example_log_apps = app_step (ACreate ''app'' 1 2 ''shop'' example_spec) NewAppRegistry"

definition example_log_nodes :: NodeRegistry where
  "example_log_nodes =
     [(''n1'', \<lparr>n_ID = ''n1'', n_Hostname = ''h'', n_IPAddress = ''10.0.0.7'', n_CPUCores = 1, n_OS = ''linux'',
        n_Architecture = ''amd64'', n_Status = NodeOnline, n_LastHeartbeat = 0, n_OfflineSince = None,
        n_Capabilities = \<lparr>TotalMemoryBytes = 0, AvailableMemoryBytes = 0, HasDocker = True, HasPodman = False\<rparr>,
        n_Token = ''''\<rparr>)]"


text \<open>
  The identifier that Docker gives a container is not its name. For a running instance whose
  stored identifier does not start like a name of RunStack, and of which there is no crash log,
  the agent refuses the logs and the control plane answers with a bad gateway.
\<close>

lemma docker_logs_refused:
  assumes "logs_request port k instanceID appReg instReg nodeReg = Inr q" and "lr_Container q \<noteq> ''''"
    and "\<not> has_prefix (lr_Container q) ''runstack-''" and "map_of (lb_records buf) (lr_Instance q) = None"
  shows "GetAppLogs port (\<lambda>q. Some (snd (agent_logs cr buf q r))) k instanceID appReg instReg nodeReg = Inl 502"
  using assms by (simp add: GetAppLogs_def agent_logs_def Log_Get_def)

end
