(* ===== verification/Platform.thy ===== *)
theory Platform
  imports ControlPlane Handlers Status Logs
begin

text \<open>
  The control plane with its HTTP interface: the routes that \<open>runControlPlane\<close> of \<open>cmd/runstack/cp.go\<close>
  mounts, each with its handler and its guard, over one state, and the two timer loops beside
  them.

  A request names its route, the values in path and query and the decoded body. Identifiers and
  tokens that a handler draws and the clock readings it takes are the record \<open>RequestInput\<close>. An
  answer is its status code; what a handler encodes is the subject of the theories of the
  handlers. Requests and rounds follow one another: every operation of a registry holds its
  lock, and what is shown here is kept by each of them.
\<close>

section \<open>The state and the routes\<close>

record Platform =
  pl_core :: ControlPlane
  pl_secrets :: SecretRegistry
  pl_acme :: ACMEProvider

record RequestInput =
  ri_id :: string
  ri_token :: string
  ri_now :: time
  ri_event :: time
  ri_nano :: int
  ri_svc :: SvcInput
  ri_apply :: ApplyInput
  ri_cert :: "string \<Rightarrow> string"

datatype request =
    GetHealth | GetStatus
  | RegisterNode string "RegisterRequest option" | ListNodes | GetNode string | HeartbeatNode string "Capabilities option"
  | CreateJob "CreateJobRequest option" | ListJobs string string | GetJob string | GetJobEvents string
  | UpdateJob string "UpdateParams option" | ClaimJob string "string option" | ReportJob string "ReportResultRequest option"
  | PostApp "(string \<times> AppSpec) option" | ListAppSummaries | GetAppByID string | GetAppStatusOf string
  | GetLogsOf string string "(nat \<times> string) option" | PutApp string "AppSpec option" | PostDeploy string "AppSpec option"
  | PostRollback string string string
  | SetSecret "SetSecretRequest option" | ListSecrets string | DeleteSecret string
  | CreateService "CreateServiceRequest option" | ListServices string | GetService string
  | UpdateService string "(int \<times> string) option" | DeleteService string
  | PostApply "Manifest option" | PostDiff "Manifest option"
  | CreateDomain "CreateDomainRequest option" | ListDomains string | DeleteDomain string
  | PostTLS string | GetTLS string
  | PostIngress "CreateIngressRequest option" | ListIngresses string | DeleteIngress string
  | ListInstancesOf string string | ClaimInstanceOf string "ClaimInstanceRequest option"
  | ReportInstance string "InstanceStatusRequest option"

definition code :: "nat \<Rightarrow> nat + 'a \<Rightarrow> nat" where
  "code ok ans = (case ans of Inl st \<Rightarrow> st | Inr _ \<Rightarrow> ok)"

definition svc_of :: "Platform \<Rightarrow> SvcState" where
  "svc_of p = \<lparr>sv_apps = cp_apps (pl_core p), sv_deps = cp_deps (pl_core p)\<rparr>"

definition put_svc :: "Platform \<Rightarrow> SvcState \<Rightarrow> Platform" where
  "put_svc p s = p\<lparr>pl_core := (pl_core p)\<lparr>cp_apps := sv_apps s, cp_deps := sv_deps s\<rparr>\<rparr>"

definition apply_of :: "Platform \<Rightarrow> ApplyState" where
  "apply_of p =
     (let c = pl_core p in
      \<lparr>ap_apps = cp_apps c, ap_deps = cp_deps c, ap_services = cp_routes c, ap_domains = cp_domains c,
       ap_ingresses = cp_ingresses c, ap_certs = Some []\<rparr>)"

definition put_apply :: "RequestInput \<Rightarrow> Platform \<Rightarrow> ApplyState \<Rightarrow> Platform" where
  "put_apply x p s =
     p\<lparr>pl_core := (pl_core p)\<lparr>cp_apps := ap_apps s, cp_deps := ap_deps s, cp_routes := ap_services s,
                              cp_domains := ap_domains s, cp_ingresses := ap_ingresses s\<rparr>,
       pl_acme := foldl (\<lambda>a name. RequestCertificate (ri_cert x name) (ri_now x) name a) (pl_acme p)
                    (case ap_certs s of None \<Rightarrow> [] | Some names \<Rightarrow> names)\<rparr>"

text \<open>The handlers of nodes and jobs.\<close>

fun handle_jobs ::
  "(rat \<Rightarrow> rat) \<Rightarrow> RequestInput \<Rightarrow> string option \<Rightarrow> request \<Rightarrow> Platform \<Rightarrow> (Platform \<times> nat) option" where
  "handle_jobs rnd x ctx (RegisterNode remote body) p =
     (case NodeApi_Register (ri_now x) (ri_token x) remote body (cp_nodes (pl_core p)) of
        (r, ans) \<Rightarrow> Some (p\<lparr>pl_core := (pl_core p)\<lparr>cp_nodes := r\<rparr>\<rparr>, code 200 ans))"
| "handle_jobs rnd x ctx (HeartbeatNode k caps) p =
     (case NodeApi_Heartbeat (ri_now x) ctx k caps (cp_nodes (pl_core p)) of
        (r, ans) \<Rightarrow> Some (p\<lparr>pl_core := (pl_core p)\<lparr>cp_nodes := r\<rparr>\<rparr>, code 200 ans))"
| "handle_jobs rnd x ctx ListNodes p = Some (p, 200)"
| "handle_jobs rnd x ctx (GetNode k) p = Some (p, code 200 (NodeApi_GetNode k (cp_nodes (pl_core p))))"
| "handle_jobs rnd x ctx (CreateJob body) p =
     (case JobApi_Create (ri_id x) (ri_now x) (ri_event x) body (cp_jobs (pl_core p)) of
        (r, ans) \<Rightarrow> Some (p\<lparr>pl_core := (pl_core p)\<lparr>cp_jobs := r\<rparr>\<rparr>, code 201 ans))"
| "handle_jobs rnd x ctx (ListJobs nodeID st) p = Some (p, 200)"
| "handle_jobs rnd x ctx (GetJob k) p = Some (p, code 200 (JobApi_Get k (cp_jobs (pl_core p))))"
| "handle_jobs rnd x ctx (GetJobEvents k) p = Some (p, code 200 (JobApi_GetEvents k (cp_jobs (pl_core p))))"
| "handle_jobs rnd x ctx (UpdateJob k body) p =
     (case JobApi_Update (ri_event x) k body (cp_jobs (pl_core p)) of
        (r, ans) \<Rightarrow> Some (p\<lparr>pl_core := (pl_core p)\<lparr>cp_jobs := r\<rparr>\<rparr>, code 200 ans))"
| "handle_jobs rnd x ctx (ClaimJob k body) p =
     (case JobApi_Claim (ri_id x) (ri_now x) (ri_event x) ctx k body (cp_nodes (pl_core p)) (cp_jobs (pl_core p)) of
        (r, ans) \<Rightarrow> Some (p\<lparr>pl_core := (pl_core p)\<lparr>cp_jobs := r\<rparr>\<rparr>, code 200 ans))"
| "handle_jobs rnd x ctx (ReportJob k body) p =
     (case JobApi_ReportResult (ri_now x) (ri_event x) ctx k body (cp_nodes (pl_core p)) (cp_jobs (pl_core p)) of
        (r, ans) \<Rightarrow> Some (p\<lparr>pl_core := (pl_core p)\<lparr>cp_jobs := r\<rparr>\<rparr>, code 200 ans))"
| "handle_jobs rnd x ctx _ p = None"

text \<open>The handlers of applications, secrets and manifests.\<close>

fun handle_apps ::
  "(AppSpec \<Rightarrow> string) \<Rightarrow> RequestInput \<Rightarrow> request \<Rightarrow> Platform \<Rightarrow> (Platform \<times> nat) option" where
  "handle_apps hash x (PostApp body) p =
     (case AppApi_Create hash (ri_svc x) body (svc_of p) of (s, ans) \<Rightarrow> Some (put_svc p s, code 201 ans))"
| "handle_apps hash x ListAppSummaries p = Some (p, 200)"
| "handle_apps hash x (GetAppByID k) p = Some (p, code 200 (AppApi_Get k (svc_of p)))"
| "handle_apps hash x (GetAppStatusOf path) p =
     (let c = pl_core p in
      Some (p, code 200 (Status_GetAppStatus path (cp_apps c) (cp_deps c) (cp_insts c) (cp_domains c) (cp_ingresses c))))"
| "handle_apps hash x (GetLogsOf k instanceID answer) p =
     (let c = pl_core p in
      Some (p, code 200 (GetAppLogs 0 (\<lambda>_. answer) k instanceID (cp_apps c) (cp_insts c) (cp_nodes c))))"
| "handle_apps hash x (PutApp k body) p =
     (case AppApi_Update hash (ri_svc x) k body (svc_of p) of (s, ans) \<Rightarrow> Some (put_svc p s, code 200 ans))"
| "handle_apps hash x (PostDeploy k body) p =
     (case AppApi_Deploy hash (ri_svc x) k body (pl_secrets p) (svc_of p) of (s, ans) \<Rightarrow> Some (put_svc p s, code 200 ans))"
| "handle_apps hash x (PostRollback k dep force) p =
     (case AppApi_Rollback (ri_now x) k dep force (svc_of p) of (s, ans) \<Rightarrow> Some (put_svc p s, code 200 ans))"
| "handle_apps hash x (SetSecret body) p =
     (case SecretApi_Set (ri_event x) (ri_nano x) (ri_now x) body (cp_apps (pl_core p)) (pl_secrets p) of
        (r, ans) \<Rightarrow> Some (p\<lparr>pl_secrets := r\<rparr>, code 201 ans))"
| "handle_apps hash x (ListSecrets k) p = Some (p, code 200 (SecretApi_List k (pl_secrets p)))"
| "handle_apps hash x (DeleteSecret k) p =
     (case SecretApi_Delete k (pl_secrets p) of (r, ans) \<Rightarrow> Some (p\<lparr>pl_secrets := r\<rparr>, code 204 ans))"
| "handle_apps hash x (PostApply body) p =
     (case Apply hash (ri_apply x) (pl_secrets p) body (apply_of p) of
        (s, ans) \<Rightarrow> Some (put_apply x p s, case ans of Inl e \<Rightarrow> apply_status e | Inr _ \<Rightarrow> 200))"
| "handle_apps hash x (PostDiff body) p = Some (p, case Diff body of Inl e \<Rightarrow> apply_status e | Inr _ \<Rightarrow> 200)"
| "handle_apps hash x _ p = None"

text \<open>The handlers of services, domains, ingresses and instances.\<close>

fun handle_routes :: "RequestInput \<Rightarrow> request \<Rightarrow> Platform \<Rightarrow> (Platform \<times> nat) option" where
  "handle_routes x (CreateService body) p =
     (case RouteApi_Create (ri_id x) (ri_now x) body (cp_apps (pl_core p)) (cp_routes (pl_core p)) of
        (r, ans) \<Rightarrow> Some (p\<lparr>pl_core := (pl_core p)\<lparr>cp_routes := r\<rparr>\<rparr>, code 201 ans))"
| "handle_routes x (ListServices k) p = Some (p, 200)"
| "handle_routes x (GetService k) p = Some (p, code 200 (RouteApi_Get k (cp_routes (pl_core p))))"
| "handle_routes x (UpdateService k body) p =
     (case RouteApi_Update k body (cp_routes (pl_core p)) of
        (r, ans) \<Rightarrow> Some (p\<lparr>pl_core := (pl_core p)\<lparr>cp_routes := r\<rparr>\<rparr>, code 200 ans))"
| "handle_routes x (DeleteService k) p =
     (case RouteApi_Delete k (cp_routes (pl_core p)) of
        (r, ans) \<Rightarrow> Some (p\<lparr>pl_core := (pl_core p)\<lparr>cp_routes := r\<rparr>\<rparr>, code 204 ans))"
| "handle_routes x (CreateDomain body) p =
     (case DomainApi_Create (ri_id x) body (cp_apps (pl_core p)) (cp_domains (pl_core p)) of
        (r, ans) \<Rightarrow> Some (p\<lparr>pl_core := (pl_core p)\<lparr>cp_domains := r\<rparr>\<rparr>, code 201 ans))"
| "handle_routes x (ListDomains k) p = Some (p, 200)"
| "handle_routes x (DeleteDomain k) p =
     (case DomainApi_Delete k (cp_domains (pl_core p)) of
        (r, ans) \<Rightarrow> Some (p\<lparr>pl_core := (pl_core p)\<lparr>cp_domains := r\<rparr>\<rparr>, code 204 ans))"
| "handle_routes x (PostTLS name) p =
     (case DomainApi_EnableTLS (ri_id x) (ri_now x) name (cp_domains (pl_core p), Some (pl_acme p)) of
        ((r, a), ans) \<Rightarrow>
          Some (p\<lparr>pl_core := (pl_core p)\<lparr>cp_domains := r\<rparr>, pl_acme := (case a of None \<Rightarrow> pl_acme p | Some q \<Rightarrow> q)\<rparr>,
                code 200 ans))"
| "handle_routes x (GetTLS name) p =
     Some (p, code 200 (DomainApi_TLSStatus name (cp_domains (pl_core p)) (Some (pl_acme p))))"
| "handle_routes x (PostIngress body) p =
     (case IngressApi_Create (ri_id x) body (cp_domains (pl_core p)) (cp_routes (pl_core p)) (cp_ingresses (pl_core p)) of
        (r, ans) \<Rightarrow> Some (p\<lparr>pl_core := (pl_core p)\<lparr>cp_ingresses := r\<rparr>\<rparr>, code 201 ans))"
| "handle_routes x (ListIngresses k) p = Some (p, 200)"
| "handle_routes x (DeleteIngress k) p =
     (case IngressApi_Delete k (cp_ingresses (pl_core p)) of
        (r, ans) \<Rightarrow> Some (p\<lparr>pl_core := (pl_core p)\<lparr>cp_ingresses := r\<rparr>\<rparr>, code 204 ans))"
| "handle_routes x (ListInstancesOf nodeID st) p = Some (p, 200)"
| "handle_routes x (ClaimInstanceOf k body) p =
     (case Api_Claim (ri_id x) (ri_now x) k body (cp_deps (pl_core p)) (pl_secrets p) (cp_insts (pl_core p)) of
        (r, ans) \<Rightarrow> Some (p\<lparr>pl_core := (pl_core p)\<lparr>cp_insts := r\<rparr>\<rparr>, code 200 ans))"
| "handle_routes x (ReportInstance k body) p =
     (case Api_ReportStatus (ri_now x) k body (cp_insts (pl_core p), cp_deps (pl_core p)) of
        ((r, deps), ans) \<Rightarrow> Some (p\<lparr>pl_core := (pl_core p)\<lparr>cp_insts := r, cp_deps := deps\<rparr>\<rparr>, code 200 ans))"
| "handle_routes x _ p = None"

definition handle ::
  "(AppSpec \<Rightarrow> string) \<Rightarrow> (rat \<Rightarrow> rat) \<Rightarrow> RequestInput \<Rightarrow> string option \<Rightarrow> request \<Rightarrow> Platform \<Rightarrow> Platform \<times> nat" where
  "handle hash rnd x ctx q p =
     (case handle_jobs rnd x ctx q p of
        Some out \<Rightarrow> out
      | None \<Rightarrow>
          (case handle_apps hash x q p of
             Some out \<Rightarrow> out
           | None \<Rightarrow> (case handle_routes x q p of Some out \<Rightarrow> out | None \<Rightarrow> (p, 200))))"

section \<open>The guards\<close>

datatype guard = Public | Operator | AgentToken | NodeToken

fun guard_of :: "request \<Rightarrow> guard" where
  "guard_of GetHealth = Public"
| "guard_of GetStatus = Public"
| "guard_of (RegisterNode _ _) = AgentToken"
| "guard_of (HeartbeatNode _ _) = NodeToken"
| "guard_of (ClaimJob _ _) = NodeToken"
| "guard_of (ReportJob _ _) = NodeToken"
| "guard_of (ClaimInstanceOf _ _) = NodeToken"
| "guard_of (ReportInstance _ _) = NodeToken"
| "guard_of _ = Operator"

definition serve ::
  "AuthManager \<Rightarrow> (AppSpec \<Rightarrow> string) \<Rightarrow> (rat \<Rightarrow> rat) \<Rightarrow> RequestInput \<Rightarrow> string \<Rightarrow> request \<Rightarrow> Platform \<Rightarrow> Platform \<times> nat" where
  "serve m hash rnd x header q p =
     (case guard_of q of
        Public \<Rightarrow> handle hash rnd x None q p
      | Operator \<Rightarrow>
          (case RequireOperator m header (handle hash rnd x None q p) of Inl st \<Rightarrow> (p, st) | Inr out \<Rightarrow> out)
      | AgentToken \<Rightarrow>
          (case RequireAgent m header (handle hash rnd x None q p) of Inl st \<Rightarrow> (p, st) | Inr out \<Rightarrow> out)
      | NodeToken \<Rightarrow>
          (case RequireNodeAuth m (cp_nodes (pl_core p)) header (\<lambda>k. handle hash rnd x (Some k) q p) of
             Inl st \<Rightarrow> (p, st) | Inr out \<Rightarrow> out))"

section \<open>Who may do what\<close>

lemma bearer_of:
  assumes "extractToken m header = Inr t"
  shows "header = ''Bearer '' @ t" and "t \<noteq> ''''" and "t = operatorToken m \<or> t = agentToken m"
  using assms by (auto simp: extractToken_def split_space_iff split: if_splits option.splits prod.splits)

lemma refused_codes: "extractToken m header = Inl st \<Longrightarrow> st = 401"
  by (auto simp: extractToken_def split: if_splits option.splits prod.splits)

text \<open>What admits a request to its handler, and the answer when nothing does.\<close>

definition admits :: "AuthManager \<Rightarrow> NodeRegistry \<Rightarrow> string \<Rightarrow> guard \<Rightarrow> bool" where
  "admits m nodes t g =
     (case g of
        Public \<Rightarrow> True
      | Operator \<Rightarrow> t = operatorToken m
      | AgentToken \<Rightarrow> t = agentToken m
      | NodeToken \<Rightarrow> Node_GetByToken nodes t \<noteq> None)"

lemma serve_admitted:
  assumes "serve m hash rnd x header q p \<notin> {(p, 401), (p, 403)}" and "guard_of q \<noteq> Public"
  obtains t where "extractToken m header = Inr t" and "admits m (cp_nodes (pl_core p)) t (guard_of q)"
proof (cases "extractToken m header")
  case (Inl st)
  then have "serve m hash rnd x header q p = (p, 401)"
    using assms(2) refused_codes[OF Inl]
    by (simp add: serve_def RequireOperator_def RequireAgent_def RequireNodeAuth_def split: guard.splits)
  with assms(1) show ?thesis by simp
next
  case (Inr t)
  have "admits m (cp_nodes (pl_core p)) t (guard_of q)"
    using assms Inr
    by (auto simp: serve_def admits_def RequireOperator_def RequireAgent_def RequireNodeAuth_def
        split: guard.splits option.splits if_splits)
  with Inr show ?thesis by (rule that)
qed

text \<open>
  C28: Nobody without a token reads or changes anything through the API. Whatever the header and
  the request, the control plane answers 401 or 403 and its whole state is as before, unless the
  request is one of the two public queries (which change nothing), the header carries the
  operator's token, or it carries the agents' token and the request registers a node or is one of
  the four reports of agents and that token belongs to a node.\<close>

theorem api_guarded:
  assumes "serve m hash rnd x header q p \<notin> {(p, 401), (p, 403)}"
  shows "q \<in> {GetHealth, GetStatus} \<and> serve m hash rnd x header q p = (p, 200)
    \<or> operatorToken m \<noteq> '''' \<and> header = ''Bearer '' @ operatorToken m
    \<or> agentToken m \<noteq> '''' \<and> header = ''Bearer '' @ agentToken m
      \<and> (case q of
           RegisterNode _ _ \<Rightarrow> True
         | HeartbeatNode _ _ \<Rightarrow> Node_GetByToken (cp_nodes (pl_core p)) (agentToken m) \<noteq> None
         | ClaimJob _ _ \<Rightarrow> Node_GetByToken (cp_nodes (pl_core p)) (agentToken m) \<noteq> None
         | ReportJob _ _ \<Rightarrow> Node_GetByToken (cp_nodes (pl_core p)) (agentToken m) \<noteq> None
         | ClaimInstanceOf _ _ \<Rightarrow> Node_GetByToken (cp_nodes (pl_core p)) (agentToken m) \<noteq> None
         | ReportInstance _ _ \<Rightarrow> Node_GetByToken (cp_nodes (pl_core p)) (agentToken m) \<noteq> None
         | _ \<Rightarrow> False)"
proof (cases "guard_of q = Public")
  case True
  then have "q \<in> {GetHealth, GetStatus}" by (cases q) simp_all
  then show ?thesis by (auto simp: serve_def handle_def)
next
  case False
  from serve_admitted[OF assms False] obtain t where t: "extractToken m header = Inr t"
    and ok: "admits m (cp_nodes (pl_core p)) t (guard_of q)" .
  show ?thesis
  proof (cases "t = operatorToken m")
    case True with bearer_of[OF t] show ?thesis by simp
  next
    case other: False
    with bearer_of[OF t] have "t = agentToken m" and "t \<noteq> ''''" and "header = ''Bearer '' @ t" by simp_all
    moreover from other ok False have "guard_of q = AgentToken \<or> guard_of q = NodeToken"
      by (cases "guard_of q") (simp_all add: admits_def)
    ultimately show ?thesis using ok by (cases q) (simp_all add: admits_def)
  qed
qed

definition example_platform :: Platform where
  "example_platform = \<lparr>pl_core = example_cp, pl_secrets = NewSecretRegistry, pl_acme = NewACMEProvider\<rparr>"

definition example_auth :: AuthManager where
  "example_auth = \<lparr>operatorToken = ''op'', agentToken = ''ag''\<rparr>"

definition example_request :: RequestInput where
  "example_request =
     \<lparr>ri_id = ''j1'', ri_token = ''t1'', ri_now = 7, ri_event = 8, ri_nano = 9,
      ri_svc = \<lparr>in_appID = ''a2'', in_depID = ''d2'', in_created = 7, in_touched = 7, in_depAt = 7, in_updated = 7\<rparr>,
      ri_apply = \<lparr>ai_appID = ''a3'', ai_created = 7, ai_touched = 7, ai_serviceID = ''s3'', ai_serviceAt = 7,
        ai_domainID = (\<lambda>i. ''m''), ai_ingressID = (\<lambda>i. ''i''), ai_depID = ''d3'', ai_depAt = 7, ai_updated = 7\<rparr>,
      ri_cert = (\<lambda>name. ''c'')\<rparr>"

text \<open>A deletion with the operator's token goes through; the same with the agents' token does not.\<close>

theorem api_guarded_witness:
  "(''Bearer op'' = ''Bearer '' @ operatorToken example_auth) \<and>
   serve example_auth (\<lambda>_. ''h'') (\<lambda>x. x) example_request ''Bearer ag'' (DeleteService ''s1'') example_platform = (example_platform, 403) \<and>
   snd (serve example_auth (\<lambda>_. ''h'') (\<lambda>x. x) example_request ''Bearer op'' (DeleteService ''s1'') example_platform) \<notin> {401, 403}"
proof -
  let ?out = "\<lambda>h. serve example_auth (\<lambda>_. ''h'') (\<lambda>x. x) example_request h (DeleteService ''s1'') example_platform"
  have "snd (?out ''Bearer op'') = 404"
    by code_simp
  moreover have "?out ''Bearer ag'' = (example_platform, 403)"
    by (simp add: serve_def RequireOperator_def extractToken_def example_auth_def split_space_iff)
  ultimately show ?thesis
    using api_guarded[of example_auth "\<lambda>_. ''h''" "\<lambda>x. x" example_request "''Bearer op''" "DeleteService ''s1''" example_platform]
    by (auto simp: example_auth_def)
qed

end
