(* ===== verification/System.thy ===== *)
theory System
  imports Platform
begin

text \<open>
  The control plane in operation: requests of any kind with any header, the offline check and the
  rounds of the controllers, in any order. What a handler does to a registry is a run of that
  registry under its protocol, so the invariant of the control plane is kept by every event.
\<close>

section \<open>Runs of the registries\<close>

abbreviation app_run :: "AppRegistry \<Rightarrow> AppRegistry \<Rightarrow> bool" where
  "app_run r r' \<equiv> reach r app_op_ok app_step r'"

text \<open>
  Deployments that handlers create: their identifiers are new and no instance refers to them yet,
  they ask for no negative memory, and their sizes fit 32 bits.
\<close>

definition spec_fits :: "AppSpec \<Rightarrow> bool" where
  "spec_fits spec \<longleftrightarrow> spec_sizes spec \<and> 0 \<le> (case s_Resources spec of None \<Rightarrow> 0 | Some rr \<Rightarrow> rr_MemoryMB rr)"

fun deploy_op :: "InstRegistry \<Rightarrow> dep_op \<Rightarrow> DepRegistry \<Rightarrow> bool" where
  "deploy_op insts (DCreate rid now app spec) r \<longleftrightarrow>
     map_of (deployments r) rid = None \<and> spec_fits spec \<and> (\<forall>i \<in> set (Inst_List insts). i_DeploymentID i \<noteq> rid)"
| "deploy_op insts _ r \<longleftrightarrow> True"

abbreviation deploy_run :: "(AppSpec \<Rightarrow> string) \<Rightarrow> InstRegistry \<Rightarrow> DepRegistry \<Rightarrow> DepRegistry \<Rightarrow> bool" where
  "deploy_run hash insts r r' \<equiv> reach r (deploy_op insts) (dep_step hash) r'"

abbreviation snapshot :: "DepRegistry \<Rightarrow> Instance \<Rightarrow> AppSpec option" where
  "snapshot r i \<equiv> map_option d_SpecSnapshot (map_of (deployments r) (i_DeploymentID i))"

lemma specs_ok_iff:
  "specs_ok r \<longleftrightarrow> (\<forall>d \<in> set (mvals (deployments r)). spec_fits (d_SpecSnapshot d))"
  unfolding specs_ok_def request_of_def spec_fits_def Dep_List_def
  by (intro ball_cong refl) (auto split: option.splits)

lemma deploy_step_keeps:
  assumes "dep_inv r" and "specs_ok r" and "deploy_op insts op r"
  shows "dep_inv (dep_step hash op r) \<and> specs_ok (dep_step hash op r) \<and>
    (\<forall>i \<in> set (Inst_List insts). snapshot (dep_step hash op r) i = snapshot r i)"
proof (cases "\<exists>rid now app spec. op = DCreate rid now app spec")
  case True
  then obtain rid now app spec where op: "op = DCreate rid now app spec" by blast
  let ?d = "snd (Dep_Create hash rid now app spec r)"
  have "deployments (dep_step hash op r) = mput rid ?d (deployments r)" by (simp add: op Dep_Create_def Let_def)
  then have "specs_ok (dep_step hash op r)" "\<forall>i \<in> set (Inst_List insts). snapshot (dep_step hash op r) i = snapshot r i"
    using assms Dep_Create_lookup(3) [of hash rid now app spec r]
    by (auto simp: op specs_ok_iff set_mvals in_mput_cases dep_inv_def keyed_distinct split: if_splits)
  moreover have "dep_inv (dep_step hash op r)" using dep_step_keeps [of r op hash] assms by (simp add: op)
  ultimately show ?thesis by blast
next
  case False
  then have w: "one_write dep_evolves (deployments r) (deployments (dep_step hash op r))"
    using dep_step_writes by blast
  have "dep_op_ok op r" using False by (cases op) auto
  then have "dep_inv (dep_step hash op r)" using dep_step_keeps assms(1) by blast
  moreover have "snapshot (dep_step hash op r) i = snapshot r i" for i
    using w by (auto simp: one_write_def dep_evolves_def)
  moreover have "\<forall>d \<in> set (mvals (deployments (dep_step hash op r))). spec_fits (d_SpecSnapshot d)"
    using assms(1,2) by (intro one_write_all [OF w]) (auto simp: specs_ok_iff dep_inv_def dep_evolves_def)
  ultimately show ?thesis by (simp add: specs_ok_iff)
qed

lemma deploy_run_keeps:
  assumes "deploy_run hash insts r r'" and "dep_inv r" and "specs_ok r"
  shows "dep_inv r' \<and> specs_ok r' \<and> used_memory r' insts k = used_memory r insts k"
proof -
  have run: "dep_inv r' \<and> specs_ok r' \<and> (\<forall>i \<in> set (Inst_List insts). snapshot r' i = snapshot r i)"
    using assms
  proof (induction rule: reach.induct)
    case (reach_step t op)
    then show ?case using deploy_step_keeps [of t insts op hash] by simp
  qed simp
  have "inst_memory r' k i = inst_memory r k i" if "snapshot r' i = snapshot r i" for i
    using that by (auto simp: inst_memory_def Dep_Get_def request_of_def split: option.splits)
  then have "map (inst_memory r' k) (Inst_List insts) = map (inst_memory r k) (Inst_List insts)"
    using run by simp
  then have "used_memory r' insts k = used_memory r insts k"
    unfolding used_memory_def by (rule arg_cong [where f = sum_list])
  with run show ?thesis by blast
qed

section \<open>The application service\<close>

lemma app_runI:
  "app_run r0 r \<Longrightarrow> map_of (apps r) rid = None \<Longrightarrow> app_run r0 (fst (App_Create rid t u name spec r))"
  "app_run r0 r \<Longrightarrow> app_run r0 (fst (App_Update t k spec dep st r))"
  "app_run r0 r \<Longrightarrow> app_run r0 (fst (App_Rollback t k dep r))"
  using reach.reach_step [of r0 app_op_ok app_step r "ACreate rid t u name spec"]
    reach.reach_step [of r0 app_op_ok app_step r "AUpdate t k spec dep st"]
    reach.reach_step [of r0 app_op_ok app_step r "ARollback t k dep"] by simp_all

lemma deploy_runI:
  "deploy_run hash insts r0 r \<Longrightarrow> map_of (deployments r) rid = None \<Longrightarrow> spec_fits spec \<Longrightarrow>
    \<forall>i \<in> set (Inst_List insts). i_DeploymentID i \<noteq> rid \<Longrightarrow> deploy_run hash insts r0 (fst (Dep_Create hash rid now app spec r))"
  "deploy_run hash insts r0 r \<Longrightarrow> deploy_run hash insts r0 (fst (Dep_UpdateState k st r))"
  "deploy_run hash insts r0 r \<Longrightarrow> deploy_run hash insts r0 (fst (Dep_UpdateRolloutStatusOnly k rst re r))"
  "deploy_run hash insts r0 r \<Longrightarrow> deploy_run hash insts r0 (fst (Dep_RecordCrash k th r))"
  using reach.reach_step [of r0 "deploy_op insts" "dep_step hash" r "DCreate rid now app spec"]
    reach.reach_step [of r0 "deploy_op insts" "dep_step hash" r "DState k st"]
    reach.reach_step [of r0 "deploy_op insts" "dep_step hash" r "DRolloutOnly k rst re"]
    reach.reach_step [of r0 "deploy_op insts" "dep_step hash" r "DCrash k th"] by simp_all

text \<open>The sizes of a specification in a request; validation adds that nothing is negative.\<close>

definition sized :: "AppSpec \<Rightarrow> bool" where
  "sized spec \<longleftrightarrow> small (s_Replicas spec) \<and>
     (case s_Strategy spec of None \<Rightarrow> True | Some st \<Rightarrow> small (rs_MaxSurge st) \<and> small (rs_MaxUnavailable st))"

lemma valid_fits:
  assumes "ValidateAppSpec (EnsureDefaultStrategy spec) = None" and "sized spec"
  shows "spec_fits (EnsureDefaultStrategy spec)"
proof -
  have "s_Replicas (EnsureDefaultStrategy spec) = s_Replicas spec" by (simp add: EnsureDefaultStrategy_def split: option.split)
  moreover have "case s_Strategy (EnsureDefaultStrategy spec) of None \<Rightarrow> True
      | Some st \<Rightarrow> small (rs_MaxSurge st) \<and> small (rs_MaxUnavailable st)"
    using assms(2) by (auto simp: EnsureDefaultStrategy_def sized_def small_def split: option.splits)
  ultimately show ?thesis
    using assms by (auto simp: ValidateAppSpec_None spec_fits_def spec_sizes_def sized_def validateResources_def
        split: option.splits if_splits)
qed

text \<open>The identifiers in the input of a request are new everywhere.\<close>

definition fresh_svc :: "InstRegistry \<Rightarrow> SvcInput \<Rightarrow> SvcState \<Rightarrow> bool" where
  "fresh_svc insts x s \<longleftrightarrow> fresh_input x s \<and>
     (\<forall>i \<in> set (Inst_List insts). i_DeploymentID i \<noteq> in_depID x \<and> i_ApplicationID i \<noteq> in_appID x)"

abbreviation svc_run :: "(AppSpec \<Rightarrow> string) \<Rightarrow> InstRegistry \<Rightarrow> SvcState \<Rightarrow> SvcState \<Rightarrow> bool" where
  "svc_run hash insts s s' \<equiv> app_run (sv_apps s) (sv_apps s') \<and> deploy_run hash insts (sv_deps s) (sv_deps s')"

lemma svc_run_supersede:
  assumes "fresh_svc insts x s" and "spec_fits spec"
  shows "svc_run hash insts s (fst (supersede hash x k old spec s))"
  using assms
  by (auto simp: supersede_def case_prod_unfold Let_def fresh_svc_def fresh_input_def reach_init intro!: app_runI deploy_runI)

lemma svc_run_Create:
  assumes "fresh_svc insts x s" and "sized spec"
  shows "svc_run hash insts s (fst (CreateApp hash x name spec s))"
proof (cases "ValidateAppSpec (EnsureDefaultStrategy spec)")
  case None
  note fits = valid_fits [OF None assms(2)]
  obtain as ans where c: "App_Create (in_appID x) (in_created x) (in_touched x) name (EnsureDefaultStrategy spec) (sv_apps s) = (as, ans)"
    by fastforce
  have "app_run (sv_apps s) as"
    using app_runI(1) [OF reach_init, of "sv_apps s" "in_appID x"] assms(1) c
    by (metis fresh_svc_def fresh_input_def fst_conv)
  with assms(1) fits show ?thesis
    by (cases ans) (auto simp: CreateApp_def Let_def None c case_prod_unfold fresh_svc_def fresh_input_def reach_init
        intro!: app_runI deploy_runI)
qed (simp add: CreateApp_def Let_def reach_init)

lemma svc_run_Update:
  assumes "fresh_svc insts x s" and "sized spec"
  shows "svc_run hash insts s (fst (UpdateApp hash x k spec s))"
  using svc_run_supersede [OF assms(1) valid_fits [OF _ assms(2)]]
  by (auto simp: UpdateApp_def Let_def reach_init split: sum.split option.split)

lemma svc_run_found:
  assumes "fresh_svc insts x s" and "sized spec"
  shows "svc_run hash insts s (fst (deploy_found hash x k app spec sec s))"
  using svc_run_supersede [OF assms(1) valid_fits [OF _ assms(2)]]
  by (auto simp: deploy_found_def Let_def reach_init split: sum.split option.split)

lemma svc_run_Deploy:
  assumes "fresh_svc insts x s" and "sized spec"
  shows "svc_run hash insts s (fst (DeployApp hash x k spec sec s))"
  using svc_run_found [OF assms] svc_run_Create [OF assms]
  by (auto simp: DeployApp_def split: sum.split)

lemma svc_run_Rollback: "svc_run hash insts s (fst (RollbackApp now k dep force s))"
proof (cases "\<exists>app d. App_Get (sv_apps s) k = Inr app \<and> Dep_Get (sv_deps s) dep = Inr d")
  case True
  then obtain app d where g: "App_Get (sv_apps s) k = Inr app" "Dep_Get (sv_deps s) dep = Inr d" by blast
  obtain as ans where r: "App_Rollback now k dep (sv_apps s) = (as, ans)" by fastforce
  have "app_run (sv_apps s) as" using app_runI(3) [OF reach_init, of "sv_apps s" now k dep] r by simp
  then show ?thesis
    by (cases ans) (auto simp: RollbackApp_def g r Let_def reach_init intro!: deploy_runI)
next
  case False
  then show ?thesis by (auto simp: RollbackApp_def reach_init split: sum.split)
qed

section \<open>Manifests\<close>

abbreviation domain_run :: "DomainRegistry \<Rightarrow> DomainRegistry \<Rightarrow> bool" where
  "domain_run r r' \<equiv> reach r domain_op_ok domain_step r'"

abbreviation ingress_run :: "IngressRegistry \<Rightarrow> IngressRegistry \<Rightarrow> bool" where
  "ingress_run r r' \<equiv> reach r ingress_op_ok ingress_step r'"

lemma domain_runI:
  "map_of (domains r) rid = None \<Longrightarrow> domain_run r (fst (Domain_Create rid name app tls r))"
  "domain_run r (fst (Domain_UpdateStatus k st r))" "domain_run r (fst (Domain_Delete k r))"
  "domain_run r (fst (Domain_EnableTLS k r))" "domain_run r (fst (Domain_UpdateTLS k tls r))"
  using reach_one [of domain_op_ok "DmCreate rid name app tls" r domain_step]
    reach_one [of domain_op_ok "DmStatus k st" r domain_step] reach_one [of domain_op_ok "DmDelete k" r domain_step]
    reach_one [of domain_op_ok "DmEnableTLS k" r domain_step] reach_one [of domain_op_ok "DmUpdateTLS k tls" r domain_step]
  by simp_all

lemma ingress_runI:
  "map_of r rid = None \<Longrightarrow> ingress_run r (fst (Ingress_Create rid dm srv path r))"
  "ingress_run r (fst (Ingress_Delete k r))"
  using reach_one [of ingress_op_ok "InCreate rid dm srv path" r ingress_step]
    reach_one [of ingress_op_ok "InDelete k" r ingress_step] by simp_all

lemma fst_eqI: "f = (a, b) \<Longrightarrow> fst f = a"
  by simp

lemma map_domain_run:
  assumes "map_domain rid k d (s, act) = ((s1, act1), res)" and "map_of (domains (ap_domains s)) rid = None"
  shows "domain_run (ap_domains s) (ap_domains s1) \<and> ap_ingresses s1 = ap_ingresses s \<and> ap_services s1 = ap_services s \<and>
    (\<forall>i. i \<noteq> rid \<longrightarrow> map_of (domains (ap_domains s)) i = None \<longrightarrow> map_of (domains (ap_domains s1)) i = None)"
proof -
  have "ap_domains s1 \<in> {ap_domains s, fst (Domain_Create rid (ds_Name d) k (ds_TLS d) (ap_domains s))} \<union>
      range (\<lambda>j. fst (Domain_UpdateTLS j (ds_TLS d) (ap_domains s))) \<and>
      ap_ingresses s1 = ap_ingresses s \<and> ap_services s1 = ap_services s"
    using assms(1) by (auto simp: map_domain_def split: sum.splits DomainError.splits prod.splits if_splits)
  moreover have "domain_run (ap_domains s) (fst (Domain_Create rid (ds_Name d) k (ds_TLS d) (ap_domains s)))"
    by (rule domain_runI(1) [OF assms(2)])
  moreover have "map_of (domains (fst (Domain_Create rid (ds_Name d) k (ds_TLS d) (ap_domains s)))) i = None"
    if "i \<noteq> rid" "map_of (domains (ap_domains s)) i = None" for i
    using that by (auto simp: Domain_Create_def Let_def split: option.splits)
  moreover have "map_of (domains (fst (Domain_UpdateTLS j tls (ap_domains s)))) i = None"
    if "map_of (domains (ap_domains s)) i = None" for i j tls
    using that by (auto simp: Domain_UpdateTLS_def split: option.splits)
  ultimately show ?thesis using domain_runI(5) by (auto simp: reach_init)
qed

lemma map_ingress_run:
  assumes "map_ingress rid sid n dm s = (s1, e)" and "map_of (ap_ingresses s) rid = None"
  shows "ingress_run (ap_ingresses s) (ap_ingresses s1) \<and> ap_services s1 = ap_services s \<and>
    (\<forall>i. i \<noteq> rid \<longrightarrow> map_of (ap_ingresses s) i = None \<longrightarrow> map_of (ap_ingresses s1) i = None)"
proof -
  let ?g = "ap_ingresses s"
  have "ap_ingresses s1 \<in> {?g, fst (Ingress_Create rid (dm_ID dm) sid ''/'' ?g)} \<union>
      range (\<lambda>j. fst (Ingress_Create rid (dm_ID dm) sid ''/'' (fst (Ingress_Delete j ?g)))) \<and> ap_services s1 = ap_services s"
    using assms(1) by (auto simp: map_ingress_def split: option.splits sum.splits prod.splits if_splits dest: fst_eqI)
  moreover have del: "map_of (fst (Ingress_Delete j ?g)) i = None" if "map_of ?g i = None" for i j
    using that by (auto simp: Ingress_Delete_def split: option.splits)
  moreover have "ingress_run ?g (fst (Ingress_Create rid (dm_ID dm) sid ''/'' (fst (Ingress_Delete j ?g))))" for j
    using reach_trans [OF ingress_runI(2) ingress_runI(1)] del assms(2) by blast
  moreover have "map_of (fst (Ingress_Create rid (dm_ID dm) sid ''/'' g)) i = None" if "i \<noteq> rid" "map_of g i = None" for i g
    using that by (auto simp: Ingress_Create_def Let_def)
  ultimately show ?thesis using ingress_runI(1) [OF assms(2)] by (auto simp: reach_init)
qed

lemma apply_domains_run:
  assumes "apply_domains x k sid n ds (s, act) = ((s1, act1), e)" and "inj (ai_domainID x)" and "inj (ai_ingressID x)"
    and "\<forall>i \<ge> n. map_of (domains (ap_domains s)) (ai_domainID x i) = None"
    and "\<forall>i \<ge> n. map_of (ap_ingresses s) (ai_ingressID x i) = None"
  shows "domain_run (ap_domains s) (ap_domains s1) \<and> ingress_run (ap_ingresses s) (ap_ingresses s1) \<and>
    ap_services s1 = ap_services s"
  using assms(1,4,5)
proof (induction ds arbitrary: n s act)
  case (Cons d ds)
  obtain s2 act2 res where m: "map_domain (ai_domainID x n) k d (s, act) = ((s2, act2), res)" by (metis surj_pair)
  note dr = map_domain_run [OF m]
  show ?case
  proof (cases res)
    case (Inl err)
    with Cons.prems m dr show ?thesis by (auto simp: reach_init)
  next
    case (Inr dm)
    obtain s3 err where g: "map_ingress (ai_ingressID x n) sid (ds_Name d) dm s2 = (s3, err)" by fastforce
    note ir = map_ingress_run [OF g] and fr = map_ingress_frame [OF g]
    show ?thesis
    proof (cases err)
      case (Some e')
      with Cons.prems m Inr g dr ir fr show ?thesis by auto
    next
      case None
      define s4 where "s4 = (if ds_TLS d then s3\<lparr>ap_certs := map_option (\<lambda>c. c @ [ds_Name d]) (ap_certs s3)\<rparr> else s3)"
      have same: "ap_domains s4 = ap_domains s3" "ap_ingresses s4 = ap_ingresses s3" "ap_services s4 = ap_services s3"
        by (simp_all add: s4_def)
      have "apply_domains x k sid (Suc n) ds (s4, act2) = ((s1, act1), e)"
        using Cons.prems(1) m Inr g None by (simp add: s4_def Let_def)
      moreover have "\<forall>i \<ge> Suc n. map_of (domains (ap_domains s4)) (ai_domainID x i) = None"
        using dr fr same Cons.prems(2) assms(2) by (auto simp: inj_eq)
      moreover have "\<forall>i \<ge> Suc n. map_of (ap_ingresses s4) (ai_ingressID x i) = None"
        using ir dr same Cons.prems(2,3) assms(3) by (auto simp: inj_eq)
      ultimately have "domain_run (ap_domains s4) (ap_domains s1) \<and> ingress_run (ap_ingresses s4) (ap_ingresses s1) \<and>
          ap_services s1 = ap_services s4" by (rule Cons.IH)
      then show ?thesis
        using dr ir fr same Cons.prems(2,3) reach_trans [of "ap_domains s" domain_op_ok domain_step "ap_domains s2" "ap_domains s1"]
          reach_trans [of "ap_ingresses s" ingress_op_ok ingress_step "ap_ingresses s3" "ap_ingresses s1"] by auto
    qed
  qed
qed (simp add: reach_init)

lemma prune_run:
  "foldl (prune_domain des) (s, act) ds = (s1, act1) \<Longrightarrow>
    domain_run (ap_domains s) (ap_domains s1) \<and> ingress_run (ap_ingresses s) (ap_ingresses s1) \<and> ap_services s1 = ap_services s"
proof (induction ds arbitrary: s act)
  case (Cons d ds)
  obtain s2 a2 where e: "prune_domain des (s, act) d = (s2, a2)" by fastforce
  then have "domain_run (ap_domains s) (ap_domains s2) \<and> ingress_run (ap_ingresses s) (ap_ingresses s2) \<and> ap_services s2 = ap_services s"
    by (auto simp: prune_domain_def Let_def reach_init domain_runI ingress_runI split: if_splits option.splits)
  with Cons.IH [of s2 a2] Cons.prems e show ?case
    using reach_trans [of "ap_domains s" domain_op_ok domain_step "ap_domains s2" "ap_domains s1"]
      reach_trans [of "ap_ingresses s" ingress_op_ok ingress_step "ap_ingresses s2" "ap_ingresses s1"] by simp
qed (simp add: reach_init)

definition fresh_apply :: "InstRegistry \<Rightarrow> ApplyInput \<Rightarrow> ApplyState \<Rightarrow> bool" where
  "fresh_apply insts x s \<longleftrightarrow>
     map_of (apps (ap_apps s)) (ai_appID x) = None \<and> map_of (deployments (ap_deps s)) (ai_depID x) = None \<and>
     (\<forall>i \<in> set (Inst_List insts). i_DeploymentID i \<noteq> ai_depID x) \<and>
     inj (ai_domainID x) \<and> (\<forall>n. map_of (domains (ap_domains s)) (ai_domainID x n) = None) \<and>
     inj (ai_ingressID x) \<and> (\<forall>n. map_of (ap_ingresses s) (ai_ingressID x n) = None)"

text \<open>What an application of a manifest does to the five registries.\<close>

definition apply_run :: "(AppSpec \<Rightarrow> string) \<Rightarrow> InstRegistry \<Rightarrow> ApplyState \<Rightarrow> ApplyState \<Rightarrow> bool" where
  "apply_run hash insts s s' \<longleftrightarrow> app_run (ap_apps s) (ap_apps s') \<and> deploy_run hash insts (ap_deps s) (ap_deps s') \<and>
     service_run (ap_services s) (ap_services s') \<and> domain_run (ap_domains s) (ap_domains s') \<and>
     ingress_run (ap_ingresses s) (ap_ingresses s')"

lemma apply_run_refl: "apply_run hash insts s s"
  by (simp add: apply_run_def reach_init)

lemma apply_run_trans: "apply_run hash insts s t \<Longrightarrow> apply_run hash insts t u \<Longrightarrow> apply_run hash insts s u"
  unfolding apply_run_def by (blast intro: reach_trans)

lemma resolve_app_run:
  assumes "resolve_app x n s = (s1, res)" and "map_of (apps (ap_apps s)) (ai_appID x) = None"
  shows "apply_run hash insts s s1 \<and> ap_deps s1 = ap_deps s \<and> ap_domains s1 = ap_domains s \<and> ap_ingresses s1 = ap_ingresses s"
proof -
  have "app_run (ap_apps s) as" if "App_Create (ai_appID x) t u nm spec (ap_apps s) = (as, ans)" for t u nm spec as ans
    using app_runI(1) [OF reach_init assms(2), of t u nm spec] that by simp
  then show ?thesis
    using assms(1)
    by (auto simp: resolve_app_def apply_run_def reach_init split: sum.splits AppError.splits prod.splits)
qed

lemma choose_run:
  assumes "choose_deployment hash x m app (s, act) = ((s1, act1), out)" and "Manifest_Validate m = None"
    and "map_of (deployments (ap_deps s)) (ai_depID x) = None" and "\<forall>i \<in> set (Inst_List insts). i_DeploymentID i \<noteq> ai_depID x"
  shows "apply_run hash insts s s1"
proof -
  have "spec_fits (ToDeploymentSpec m)"
    using assms(2) by (auto simp: spec_fits_def spec_sizes_def small_def ToDeploymentSpec_def Manifest_Validate_def split: if_splits)
  then have "deploy_run hash insts (ap_deps s) ds"
    if "Dep_Create hash (ai_depID x) t k (ToDeploymentSpec m) (ap_deps s) = (ds, d)" for t k ds d
    using deploy_runI(1) [OF reach_init assms(3) _ assms(4), of "ToDeploymentSpec m" hash t k] that by simp
  then show ?thesis
    using assms(1)
    by (auto simp: choose_deployment_def Let_def apply_run_def reach_init split: option.splits prod.splits if_splits)
qed

lemma Apply_run:
  assumes "fresh_apply insts x s"
  shows "apply_run hash insts s (fst (Apply hash x sec body s))"
proof (cases body)
  case None
  then show ?thesis by (simp add: Apply_def apply_run_refl)
next
  case (Some m)
  obtain s1 res where r: "resolve_app x (mf_Name m) s = (s1, res)" by fastforce
  have r1: "apply_run hash insts s s1" "ap_deps s1 = ap_deps s" "ap_domains s1 = ap_domains s" "ap_ingresses s1 = ap_ingresses s"
    using resolve_app_run [OF r] assms by (auto simp: fresh_apply_def)
  show ?thesis
  proof (cases "Manifest_Validate m = None \<and> (\<exists>app act. res = Inr (app, act) \<and> missing_secret sec (a_ID app) (mf_Secrets m) = None)")
    case False
    then have "fst (Apply hash x sec body s) \<in> {s, s1}"
    proof (cases "Manifest_Validate m")
      case None
      show ?thesis
      proof (cases res)
        case (Inr ra)
        obtain app act where ra: "ra = (app, act)" by fastforce
        with False None Inr obtain n where "missing_secret sec (a_ID app) (mf_Secrets m) = Some n" by auto
        then show ?thesis by (simp add: Apply_def Some None r Inr ra)
      qed (simp add: Apply_def Some None r)
    qed (simp add: Apply_def Some)
    with r1 show ?thesis by (auto simp: apply_run_refl)
  next
    case True
    then obtain app act1 where ok: "Manifest_Validate m = None" and res: "res = Inr (app, act1)"
      and sec: "missing_secret sec (a_ID app) (mf_Secrets m) = None" by blast
    from Apply_stages [OF ok r [unfolded res] sec, of hash] obtain s2 act2 s3 act3 err where
      s2: "ap_apps s2 = ap_apps s1 \<and> ap_deps s2 = ap_deps s1 \<and> ap_domains s2 = ap_domains s1 \<and>
        ap_ingresses s2 = ap_ingresses s1 \<and> service_run (ap_services s1) (ap_services s2)"
      and s3: "s3 = s2 \<and> err = None \<or> (\<exists>sid. apply_domains x (a_ID app) sid 0 (mf_Domains m) (s2, act2) = ((s3, act3), err))"
      and bad: "err \<noteq> None \<Longrightarrow> fst (Apply hash x sec (Some m) s) = s3"
      and good: "err = None \<Longrightarrow> \<exists>s4 act4 s5 act5 dep created rid act6 des.
        (s4, act4) = foldl (prune_domain des) (s3, act3) (filter (\<lambda>d. dm_ApplicationID d = a_ID app) (Domain_List (ap_domains s2))) \<and>
        choose_deployment hash x m app (s4, act4) = ((s5, act5), dep, created, rid) \<and>
        Apply hash x sec (Some m) s =
          (s5\<lparr>ap_apps := fst (App_Update (ai_updated x) (a_ID app) ((ToDeploymentSpec m)\<lparr>s_Replicas := mf_Replicas m\<rparr>) dep
             (a_Status app) (ap_apps s5))\<rparr>,
           Inr \<lparr>ar_ApplicationID = a_ID app, ar_DeploymentID = rid, ar_Action = act6\<rparr>)"
      by metis
    have run2: "apply_run hash insts s1 s2" using s2 by (simp add: apply_run_def reach_init)
    have f3: "ap_apps s3 = ap_apps s2 \<and> ap_deps s3 = ap_deps s2" using s3 by (auto dest: apply_domains_frame)
    have run3: "apply_run hash insts s2 s3"
      using s3
    proof (elim disjE exE conjE)
      fix sid assume d: "apply_domains x (a_ID app) sid 0 (mf_Domains m) (s2, act2) = ((s3, act3), err)"
      show ?thesis
        using apply_domains_run [OF d] assms r1 s2 f3 by (simp add: fresh_apply_def apply_run_def reach_init)
    qed (simp add: apply_run_refl)
    note run = apply_run_trans [OF apply_run_trans [OF r1(1) run2] run3]
    show ?thesis
    proof (cases err)
      case (Some e)
      with bad run show ?thesis by (simp add: \<open>body = Some m\<close>)
    next
      case None
      with good obtain s4 act4 s5 act5 dep created rid act6 des where
        p: "foldl (prune_domain des) (s3, act3) (filter (\<lambda>d. dm_ApplicationID d = a_ID app) (Domain_List (ap_domains s2))) = (s4, act4)"
        and c: "choose_deployment hash x m app (s4, act4) = ((s5, act5), dep, created, rid)"
        and fin: "fst (Apply hash x sec (Some m) s) =
          s5\<lparr>ap_apps := fst (App_Update (ai_updated x) (a_ID app) ((ToDeploymentSpec m)\<lparr>s_Replicas := mf_Replicas m\<rparr>) dep
             (a_Status app) (ap_apps s5))\<rparr>"
        by (metis fst_conv)
      have f4: "ap_apps s4 = ap_apps s3 \<and> ap_deps s4 = ap_deps s3"
        using prune_frame [of des s3 act3 "filter (\<lambda>d. dm_ApplicationID d = a_ID app) (Domain_List (ap_domains s2))"] p by simp
      have run4: "apply_run hash insts s3 s4" using prune_run [OF p] f4 by (simp add: apply_run_def reach_init)
      have "map_of (deployments (ap_deps s4)) (ai_depID x) = None"
        using f4 f3 s2 r1 assms by (simp add: fresh_apply_def)
      then have run5: "apply_run hash insts s4 s5"
        using choose_run [OF c ok] assms by (simp add: fresh_apply_def)
      have "apply_run hash insts s5 (fst (Apply hash x sec (Some m) s))"
        unfolding fin apply_run_def by (simp add: reach_init app_runI)
      with run run4 run5 show ?thesis unfolding \<open>body = Some m\<close> by (blast intro: apply_run_trans)
    qed
  qed
qed

section \<open>Instances\<close>

text \<open>
  The registry accepts any string as a reported status. A status outside the enumeration holds no
  memory in the eyes of the scheduler although its container may run, so the bound on the memory
  of a node depends on agents that report statuses of the enumeration only.
\<close>

definition known_status :: "InstanceStatus \<Rightarrow> bool" where
  "known_status st \<longleftrightarrow> (case st of StatusOther _ \<Rightarrow> False | _ \<Rightarrow> True)"

definition all_known :: "InstRegistry \<Rightarrow> bool" where
  "all_known r \<longleftrightarrow> (\<forall>i \<in> set (mvals r). known_status (i_Status i))"

fun platform_op :: "inst_op \<Rightarrow> InstRegistry \<Rightarrow> bool" where
  "platform_op (IReport now k nd ex st hl ct ps) r \<longleftrightarrow> ex \<noteq> '''' \<and> known_status st"
| "platform_op op r \<longleftrightarrow> inst_protocol op r"

lemma platform_op_protocol: "platform_op op r \<Longrightarrow> inst_protocol op r"
  by (cases op) simp_all

lemma controller_op_platform: "controller_op op r \<Longrightarrow> platform_op op r"
  by (cases op) simp_all

lemma Report_apply_fields:
  "i_Status (Report_apply now st hl ct ps i) = st" "i_DeploymentID (Report_apply now st hl ct ps i) = i_DeploymentID i"
  "i_NodeID (Report_apply now st hl ct ps i) = i_NodeID i"
  by (simp_all add: Report_apply_def Let_def)

lemma all_known_mput: "keyed i_ID r \<Longrightarrow> all_known r \<Longrightarrow> known_status (i_Status v) \<Longrightarrow> all_known (mput k v r)"
  by (auto simp: all_known_def set_mvals in_mput_cases keyed_distinct split: if_splits)

lemma all_known_step:
  assumes "keyed i_ID r" and "all_known r" and "platform_op op r"
  shows "all_known (inst_step op r)"
proof -
  note put = all_known_mput [OF assms(1,2)]
  have look: "known_status (i_Status i)" if "map_of r x = Some i" for x i
    using mvals_lookup [OF that] assms(2) unfolding all_known_def by blast
  show ?thesis
  proof (cases op)
    case (ICreate rid now app dep)
    then show ?thesis by (simp add: Inst_Create_def Let_def put known_status_def)
  next
    case (IUpdate now x st nd ct)
    show ?thesis
    proof (cases "map_of r x")
      case (Some i)
      with assms(3) IUpdate have "known_status st" by (auto simp: known_status_def)
      then have "all_known (mput x (Update_apply now st nd ct i) r)" by (intro put) (simp add: Update_apply_fields)
      then show ?thesis by (simp add: IUpdate Inst_UpdateState_def Some assms(2) Let_def)
    qed (simp add: IUpdate Inst_UpdateState_def assms(2))
  next
    case (IClaim rid x nd)
    then show ?thesis by (simp add: Inst_Claim_def Let_def put known_status_def assms(2) split: option.split)
  next
    case (IReport now x nd ex st hl ct ps)
    have "all_known (fst (Report_same x ct ps i r))" if "map_of r x = Some i" for i
      using look [OF that] assms(2) by (simp add: Report_same_def Let_def put)
    moreover have "all_known (mput x (Report_apply now st hl ct ps i) r)" for i
      using assms(3) by (intro put) (simp add: IReport Report_apply_fields)
    ultimately show ?thesis
      by (simp add: IReport Inst_ReportStatus_def Let_def assms(2) split: option.split)
  next
    case (IUnknown now x)
    then show ?thesis by (simp add: Inst_MarkUnknown_def Let_def put known_status_def assms(2) split: option.split)
  next
    case (IDrain now x)
    then show ?thesis using look by (simp add: Inst_MarkDraining_def Let_def put assms(2) split: option.split)
  qed
qed

lemma platform_run_keeps:
  assumes "reach r platform_op inst_step r'" and "placement_inv r" and "all_known r"
  shows "placement_inv r' \<and> all_known r'"
  using assms
proof (induction rule: reach.induct)
  case (reach_step t op)
  then have "placement_inv t" "all_known t" by simp_all
  with reach_step(2) show ?case
    using placement_step [OF _ platform_op_protocol] all_known_step by (auto simp: placement_inv_def inst_inv_def)
qed simp

text \<open>An agent never makes an instance hold memory that it did not hold before.\<close>

lemma agent_op_memory:
  assumes "placement_inv r" and "all_known r" and "platform_op op r" and "requests_ok deps" and "n \<noteq> ''''"
    and "(\<exists>rid k nd. op = IClaim rid k nd) \<or> (\<exists>now k nd ex st hl ct ps. op = IReport now k nd ex st hl ct ps) \<or>
      (\<exists>now k nd. op = IUpdate now k StatusCrashed nd '''')"
  shows "used_memory deps (inst_step op r) n \<le> used_memory deps r n"
proof -
  have k: "keyed i_ID r" and u: "all_unplaced r" using assms(1) by (auto simp: placement_inv_def inst_inv_def)
  have put: "used_memory deps (mput x v' r) n \<le> used_memory deps r n"
    if "map_of r x = Some v" "i_NodeID v' = i_NodeID v" "i_DeploymentID v' = i_DeploymentID v"
      "isInstanceConsumingCapacity (i_Status v') \<Longrightarrow> isInstanceConsumingCapacity (i_Status v) \<or> i_NodeID v = ''''" for x v v'
    using that by (intro used_memory_le [OF k that(1)] inst_memory_le [OF assms(4,5)]) auto
  have live: "isInstanceConsumingCapacity (i_Status i) \<or> i_NodeID i = ''''"
    if "map_of r x = Some i" "\<not> stopped_or_crashed (i_Status i)" for x i
  proof -
    have "known_status (i_Status i)" "unplaced i"
      using mvals_lookup [OF that(1)] assms(2) u unfolding all_known_def all_unplaced_def by blast+
    with that(2) show ?thesis
      by (cases "i_Status i") (auto simp: known_status_def isInstanceConsumingCapacity_def)
  qed
  show ?thesis
    using assms(6)
  proof (elim disjE exE)
    fix rid x nd assume op: "op = IClaim rid x nd"
    show ?thesis
    proof (cases "map_of r x")
      case (Some i)
      have "used_memory deps (mput x v' r) n \<le> used_memory deps r n"
        if "i_NodeID v' = i_NodeID i" "i_DeploymentID v' = i_DeploymentID i" "\<not> stopped_or_crashed (i_Status i)" for v'
        using that live [OF Some] by (intro put [OF Some]) auto
      then show ?thesis by (simp add: op Inst_Claim_def Some Let_def)
    qed (simp add: op Inst_Claim_def)
  next
    fix now x nd ex st hl ct ps assume op: "op = IReport now x nd ex st hl ct ps"
    show ?thesis
    proof (cases "map_of r x")
      case (Some i)
      have "used_memory deps (fst (Report_same x ct ps i r)) n \<le> used_memory deps r n"
        by (auto simp: Report_same_def Let_def intro!: put [OF Some])
      moreover have "used_memory deps (mput x (Report_apply now st hl ct ps i) r) n \<le> used_memory deps r n"
        if "\<not> stopped_or_crashed (i_Status i)"
        using live [OF Some that] by (intro put [OF Some]) (auto simp: Report_apply_fields)
      ultimately show ?thesis by (simp add: op Inst_ReportStatus_def Some Let_def)
    qed (simp add: op Inst_ReportStatus_def)
  next
    fix now x nd assume op: "op = IUpdate now x StatusCrashed nd ''''"
    show ?thesis
    proof (cases "map_of r x")
      case (Some i)
      with assms(3) have "nd = '''' \<or> nd = i_NodeID i" by (auto simp: op)
      then have "used_memory deps (mput x (Update_apply now StatusCrashed nd '''' i) r) n \<le> used_memory deps r n"
        by (intro put [OF Some]) (auto simp: Update_apply_fields isInstanceConsumingCapacity_def)
      then show ?thesis by (simp add: op Inst_UpdateState_def Some Let_def)
    qed (simp add: op Inst_UpdateState_def)
  qed
qed

section \<open>The invariant\<close>

context invariant_machine begin

lemma run_inv: "reach s ok step t \<Longrightarrow> inv s \<Longrightarrow> inv t"
  by (induction rule: reach.induct) (auto intro: inv_step)

end

definition pl_inv :: "(nat \<Rightarrow> string) \<Rightarrow> Platform \<Rightarrow> bool" where
  "pl_inv gen p \<longleftrightarrow> cp_inv gen (pl_core p) \<and> all_known (cp_insts (pl_core p)) \<and> ingress_inv (cp_ingresses (pl_core p)) \<and>
     secret_inv (pl_secrets p)"

lemma cp_invD:
  assumes "cp_inv gen s"
  shows "placement_inv (cp_insts s)" "inst_inv (cp_insts s)" "dep_inv (cp_deps s)" "app_inv (cp_apps s)" "node_inv (cp_nodes s)"
    "domain_inv (cp_domains s)" "specs_ok (cp_deps s)" "no_overcommit (cp_nodes s) (cp_deps s) (cp_insts s)"
  using assms by (auto simp: cp_inv_def routing_ok_def)

text \<open>What each registry may do without harm to the others.\<close>

lemma cp_inv_jobs: "cp_inv gen s \<Longrightarrow> reach (cp_jobs s) job_op_ok job_step r \<Longrightarrow> cp_inv gen (s\<lparr>cp_jobs := r\<rparr>)"
  by (auto simp: cp_inv_def intro: reach_trans)

lemma cp_inv_nodes:
  "cp_inv gen s \<Longrightarrow> node_inv r \<Longrightarrow> no_overcommit r (cp_deps s) (cp_insts s) \<Longrightarrow> cp_inv gen (s\<lparr>cp_nodes := r\<rparr>)"
  by (simp add: cp_inv_def routing_ok_def)

lemma cp_inv_deploy:
  assumes "cp_inv gen s" and "app_run (cp_apps s) as" and "deploy_run hash (cp_insts s) (cp_deps s) ds"
  shows "cp_inv gen (s\<lparr>cp_apps := as, cp_deps := ds\<rparr>)"
proof -
  have "app_inv as" by (rule app_machine.run_inv [OF assms(2) cp_invD(4) [OF assms(1)]])
  moreover note d = deploy_run_keeps [OF assms(3) cp_invD(3,7) [OF assms(1)]]
  moreover have "no_overcommit (cp_nodes s) ds (cp_insts s)"
    using cp_invD(8) [OF assms(1)] d by (simp add: no_overcommit_def)
  ultimately show ?thesis using assms(1) by (simp add: cp_inv_def routing_ok_def fresh_ids_def)
qed

lemma cp_inv_routes:
  assumes "cp_inv gen s" and "service_run (cp_routes s) vs" and "domain_run (cp_domains s) ms"
  shows "cp_inv gen (s\<lparr>cp_routes := vs, cp_domains := ms, cp_ingresses := gs\<rparr>)"
proof -
  have "domain_inv ms" by (rule domain_machine.run_inv [OF assms(3) cp_invD(6) [OF assms(1)]])
  moreover have "keyed sv_ID vs"
    using service_machine.run_inv [OF assms(2)] assms(1) by (simp add: cp_inv_def routing_ok_def)
  ultimately show ?thesis using assms(1) by (simp add: cp_inv_def routing_ok_def)
qed

lemma inst_step_dom:
  assumes "inst_inv r" and "inst_protocol op r" and "\<And>rid now app dep. op \<noteq> ICreate rid now app dep"
  shows "map_of (inst_step op r) k = None \<longleftrightarrow> map_of r k = None"
  using one_write_dom [OF inst_step_one_write [OF assms]] .

lemma cp_inv_insts:
  assumes "cp_inv gen s" and "all_known (cp_insts s)" and "platform_op op (cp_insts s)"
    and "(\<exists>rid k nd. op = IClaim rid k nd) \<or> (\<exists>now k nd ex st hl ct ps. op = IReport now k nd ex st hl ct ps) \<or>
      (\<exists>now k nd. op = IUpdate now k StatusCrashed nd '''')"
  shows "cp_inv gen (s\<lparr>cp_insts := inst_step op (cp_insts s)\<rparr>) \<and> all_known (inst_step op (cp_insts s))"
proof -
  let ?r = "inst_step op (cp_insts s)"
  note inv = cp_invD [OF assms(1)]
  have pl: "placement_inv ?r" by (rule placement_step [OF inv(1) platform_op_protocol [OF assms(3)]])
  moreover have "no_overcommit (cp_nodes s) (cp_deps s) ?r"
    using inv(8) agent_op_memory [OF inv(1) assms(2,3) specs_ok_requests [OF inv(3,7)] _ assms(4)]
    unfolding no_overcommit_def by (meson order_trans)
  moreover have "map_of ?r k = None \<longleftrightarrow> map_of (cp_insts s) k = None" for k
    using assms(4) by (intro inst_step_dom [OF inv(2) platform_op_protocol [OF assms(3)]]) auto
  moreover have "all_known ?r"
    using all_known_step assms(2,3) inv(2) by (simp add: inst_inv_def)
  ultimately show ?thesis
    using assms(1) by (simp add: cp_inv_def routing_ok_def fresh_ids_def placement_inv_def)
qed

section \<open>The handlers keep it\<close>

abbreviation capacity_of :: "Capabilities \<Rightarrow> int" where
  "capacity_of c \<equiv> int (unat (TotalMemoryBytes c) div 1024 div 1024)"

abbreviation held_memory :: "Platform \<Rightarrow> string \<Rightarrow> int" where
  "held_memory p k \<equiv> used_memory (cp_deps (pl_core p)) (cp_insts (pl_core p)) k"

text \<open>
  What the environment owes a request: drawn identifiers are new, sizes fit 32 bits, a node
  declares at least the memory its instances hold, and agents report statuses of the enumeration.
\<close>

fun request_ok :: "RequestInput \<Rightarrow> request \<Rightarrow> Platform \<Rightarrow> bool" where
  "request_ok x (RegisterNode remote (Some req)) p \<longleftrightarrow> held_memory p (gq_NodeID req) \<le> capacity_of (gq_Capabilities req)"
| "request_ok x (HeartbeatNode k (Some caps)) p \<longleftrightarrow> held_memory p k \<le> capacity_of caps"
| "request_ok x (CreateJob body) p \<longleftrightarrow> map_of (jobs (cp_jobs (pl_core p))) (''job-'' @ ri_id x) = None"
| "request_ok x (PostApp (Some (name, spec))) p \<longleftrightarrow> fresh_svc (cp_insts (pl_core p)) (ri_svc x) (svc_of p) \<and> sized spec"
| "request_ok x (PutApp k (Some spec)) p \<longleftrightarrow> fresh_svc (cp_insts (pl_core p)) (ri_svc x) (svc_of p) \<and> sized spec"
| "request_ok x (PostDeploy k (Some spec)) p \<longleftrightarrow> fresh_svc (cp_insts (pl_core p)) (ri_svc x) (svc_of p) \<and> sized spec"
| "request_ok x (PostApply body) p \<longleftrightarrow> fresh_apply (cp_insts (pl_core p)) (ri_apply x) (apply_of p)"
| "request_ok x (SetSecret (Some req)) p \<longleftrightarrow>
     CHR '':'' \<notin> set (tq_ApplicationID req) \<and> secret_fresh (ri_event x, ri_nano x, ri_now x) (pl_secrets p)"
| "request_ok x (CreateDomain body) p \<longleftrightarrow> map_of (domains (cp_domains (pl_core p))) (ri_id x) = None"
| "request_ok x (PostIngress body) p \<longleftrightarrow> map_of (cp_ingresses (pl_core p)) (ri_id x) = None"
| "request_ok x (ClaimInstanceOf k body) p \<longleftrightarrow> ri_id x \<noteq> ''''"
| "request_ok x (ReportInstance k (Some q)) p \<longleftrightarrow> known_status (sq_Status q)"
| "request_ok x _ p \<longleftrightarrow> True"

abbreviation with_core :: "Platform \<Rightarrow> (ControlPlane \<Rightarrow> ControlPlane) \<Rightarrow> Platform" where
  "with_core p f \<equiv> p\<lparr>pl_core := f (pl_core p)\<rparr>"

lemma pl_inv_core:
  assumes "pl_inv gen p" and "cp_inv gen (f (pl_core p))" and "cp_insts (f (pl_core p)) = cp_insts (pl_core p)"
    and "cp_ingresses (f (pl_core p)) = cp_ingresses (pl_core p)"
  shows "pl_inv gen (with_core p f)"
  using assms by (simp add: pl_inv_def)

lemma job_runI:
  "map_of (jobs r) (''job-'' @ rid) = None \<Longrightarrow> reach r job_op_ok job_step (fst (JobApi_Create rid now nowE body r))"
  "reach r job_op_ok job_step (fst (JobApi_Update nowE k params r))"
  "reach r job_op_ok job_step (fst (JobApi_Claim rid now nowE ctx k node nodes r))"
  "reach r job_op_ok job_step (fst (JobApi_ReportResult now nowE ctx k res nodes r))"
proof -
  have one: "reach r job_op_ok job_step (job_step op r)" if "job_op_ok op r" for op by (rule reach_one [of job_op_ok op r job_step, OF that])
  have crt: "reach r job_op_ok job_step r1"
    if "Job_Create rid now nowE n c m cpu mem r = (r1, out)" "map_of (jobs r) (''job-'' @ rid) = None" "0 \<le> m" for n c m cpu mem r1 out
    using one [of "OpCreate rid now nowE n c m cpu mem"] that by simp
  show "reach r job_op_ok job_step (fst (JobApi_Create rid now nowE body r))" if "map_of (jobs r) (''job-'' @ rid) = None"
    using that by (auto simp: JobApi_Create_def reach_init split: option.split prod.split dest: crt)
  have upd: "reach r job_op_ok job_step r1" if "Job_Update nowE k q r = (r1, out)" for q r1 out
    using one [of "OpUpdate nowE k q"] that by simp
  show "reach r job_op_ok job_step (fst (JobApi_Update nowE k params r))"
    by (auto simp: JobApi_Update_def reach_init split: option.split prod.split sum.split dest: upd)
  have clm: "reach r job_op_ok job_step r1" if "Job_Claim rid now nowE k q r = (r1, out)" for q r1 out
    using one [of "OpClaim rid now nowE k q"] that by simp
  show "reach r job_op_ok job_step (fst (JobApi_Claim rid now nowE ctx k node nodes r))"
    by (auto simp: JobApi_Claim_def reach_init split: option.split prod.split sum.split dest: clm)
  have rep: "reach r job_op_ok job_step r1" if "Job_ReportResult now nowE k n e q r = (r1, out)" for n e q r1 out
    using one [of "OpReport now nowE k n e q"] that by simp
  show "reach r job_op_ok job_step (fst (JobApi_ReportResult now nowE ctx k res nodes r))"
    by (auto simp: JobApi_ReportResult_def reach_init split: option.split prod.split sum.split dest: rep)
qed

lemma nodes_keep:
  assumes "node_inv r" and "no_overcommit r deps insts"
  shows "node_inv (fst (NodeApi_Register now tok remote body r)) \<and>
    ((\<forall>req. body = Some req \<longrightarrow> used_memory deps insts (gq_NodeID req) \<le> capacity_of (gq_Capabilities req)) \<longrightarrow>
      no_overcommit (fst (NodeApi_Register now tok remote body r)) deps insts)"
    and "node_inv (fst (NodeApi_Heartbeat now ctx k caps r)) \<and>
    ((\<forall>c. caps = Some c \<longrightarrow> used_memory deps insts k \<le> capacity_of c) \<longrightarrow>
      no_overcommit (fst (NodeApi_Heartbeat now ctx k caps r)) deps insts)"
proof -
  have keyed: "keyed n_ID r" using assms(1) by (simp add: node_inv_def)
  have put: "no_overcommit (mput (n_ID n) n r) deps insts"
    if "n_ID n \<noteq> ''''" "used_memory deps insts (n_ID n) \<le> total_memory n" for n
    using that assms(2) by (auto simp: no_overcommit_def Node_List_def set_mvals in_mput_cases keyed_distinct [OF keyed] split: if_splits)
  define new where "new req ip = \<lparr>n_ID = gq_NodeID req, n_Hostname = gq_Hostname req, n_IPAddress = ip,
    n_CPUCores = gq_CPUCores req, n_OS = gq_OS req, n_Architecture = gq_Architecture req, n_Status = NodeStatusOther '''',
    n_LastHeartbeat = 0, n_OfflineSince = None, n_Capabilities = gq_Capabilities req, n_Token = ''''\<rparr>" for req :: RegisterRequest and ip
  have "fst (NodeApi_Register now tok remote body r) = r \<or>
      (\<exists>req ip. body = Some req \<and> gq_NodeID req \<noteq> '''' \<and>
         fst (NodeApi_Register now tok remote body r) = node_step (NRegister now (new req ip) tok) r)"
  proof (cases body)
    case (Some req)
    then show ?thesis
      unfolding node_step.simps new_def NodeApi_Register_def option.case Let_def by (simp only: case_prod_unfold split: if_split) auto
  qed (simp add: NodeApi_Register_def)
  then show "node_inv (fst (NodeApi_Register now tok remote body r)) \<and>
    ((\<forall>req. body = Some req \<longrightarrow> used_memory deps insts (gq_NodeID req) \<le> capacity_of (gq_Capabilities req)) \<longrightarrow>
      no_overcommit (fst (NodeApi_Register now tok remote body r)) deps insts)"
  proof (elim disjE exE conjE)
    fix req ip assume b: "body = Some req" "gq_NodeID req \<noteq> ''''"
      "fst (NodeApi_Register now tok remote body r) = node_step (NRegister now (new req ip) tok) r"
    let ?n = "new req ip"
    have "no_overcommit (fst (Node_Register now ?n tok r)) deps insts"
      if "used_memory deps insts (gq_NodeID req) \<le> capacity_of (gq_Capabilities req)"
    proof -
      obtain t where "fst (Node_Register now ?n tok r) = mput (n_ID ?n) (?n\<lparr>n_Status := NodeOnline, n_LastHeartbeat := now, n_Token := t\<rparr>) r"
        unfolding Node_Register_def Let_def by (cases "map_of r (n_ID ?n)"; cases "tok = ''''") auto
      with put [of "?n\<lparr>n_Status := NodeOnline, n_LastHeartbeat := now, n_Token := t\<rparr>"] that b(2)
      show ?thesis by (simp add: total_memory_def new_def)
    qed
    with b show ?thesis using node_step_inv [OF assms(1), of "NRegister now ?n tok"] by simp
  qed (use assms in simp)
  have hb: "fst (NodeApi_Heartbeat now ctx k caps r) \<in> {r, node_step (NHeartbeat now k caps) r}"
    by (auto simp: NodeApi_Heartbeat_def split: prod.split sum.split)
  moreover have "no_overcommit (fst (Node_Heartbeat now k caps r)) deps insts"
    if "\<forall>c. caps = Some c \<longrightarrow> used_memory deps insts k \<le> capacity_of c"
  proof (cases "map_of r k")
    case (Some n)
    have n: "n_ID n = k" "n_ID n \<noteq> ''''" "used_memory deps insts k \<le> total_memory n"
      using keyed_map_of [OF keyed Some] mvals_lookup [OF Some] assms(2) by (auto simp: no_overcommit_def Node_List_def)
    let ?n = "n\<lparr>n_Status := NodeOnline, n_LastHeartbeat := now, n_OfflineSince := None\<rparr>"
    show ?thesis
      using n that put [of ?n] put [of "?n\<lparr>n_Capabilities := the caps\<rparr>"]
      by (cases caps) (auto simp: Node_Heartbeat_def Some Let_def total_memory_def)
  qed (use assms(2) in \<open>simp add: Node_Heartbeat_def\<close>)
  ultimately show "node_inv (fst (NodeApi_Heartbeat now ctx k caps r)) \<and>
    ((\<forall>c. caps = Some c \<longrightarrow> used_memory deps insts k \<le> capacity_of c) \<longrightarrow>
      no_overcommit (fst (NodeApi_Heartbeat now ctx k caps r)) deps insts)"
    using node_step_inv [OF assms(1), of "NHeartbeat now k caps"] assms by auto
qed

lemma pl_inv_jobs:
  "pl_inv gen p \<Longrightarrow> reach (cp_jobs (pl_core p)) job_op_ok job_step r \<Longrightarrow> pl_inv gen (with_core p (cp_jobs_update (\<lambda>_. r)))"
  using cp_inv_jobs [of gen "pl_core p" r] by (simp add: pl_inv_def)

lemma pl_inv_nodes:
  "pl_inv gen p \<Longrightarrow> node_inv r \<Longrightarrow> no_overcommit r (cp_deps (pl_core p)) (cp_insts (pl_core p)) \<Longrightarrow>
    pl_inv gen (with_core p (cp_nodes_update (\<lambda>_. r)))"
  using cp_inv_nodes [of gen "pl_core p" r] by (simp add: pl_inv_def)

lemma pl_inv_svc:
  assumes "pl_inv gen p" and "svc_run hash (cp_insts (pl_core p)) (svc_of p) s"
  shows "pl_inv gen (put_svc p s)"
  using assms cp_inv_deploy [of gen "pl_core p" "sv_apps s" hash "sv_deps s"]
  by (simp add: pl_inv_def put_svc_def svc_of_def)

lemma pl_inv_routes:
  assumes "pl_inv gen p" and "service_run (cp_routes (pl_core p)) vs" and "domain_run (cp_domains (pl_core p)) ms"
    and "ingress_run (cp_ingresses (pl_core p)) gs"
  shows "pl_inv gen (p\<lparr>pl_core := (pl_core p)\<lparr>cp_routes := vs, cp_domains := ms, cp_ingresses := gs\<rparr>, pl_acme := a\<rparr>)"
  using assms cp_inv_routes [of gen "pl_core p" vs ms gs] ingress_machine.run_inv [OF assms(4)]
  by (simp add: pl_inv_def)

lemma pl_inv_route_parts:
  assumes "pl_inv gen p"
  shows "service_run (cp_routes (pl_core p)) vs \<Longrightarrow> pl_inv gen (with_core p (cp_routes_update (\<lambda>_. vs)))"
    and "domain_run (cp_domains (pl_core p)) ms \<Longrightarrow> pl_inv gen (with_core p (cp_domains_update (\<lambda>_. ms)))"
    and "domain_run (cp_domains (pl_core p)) ms \<Longrightarrow> pl_inv gen (with_core p (cp_domains_update (\<lambda>_. ms))\<lparr>pl_acme := a\<rparr>)"
    and "ingress_run (cp_ingresses (pl_core p)) gs \<Longrightarrow> pl_inv gen (with_core p (cp_ingresses_update (\<lambda>_. gs)))"
  using pl_inv_routes [OF assms, of vs "cp_domains (pl_core p)" "cp_ingresses (pl_core p)" "pl_acme p"]
    pl_inv_routes [OF assms, of "cp_routes (pl_core p)" ms "cp_ingresses (pl_core p)" "pl_acme p"]
    pl_inv_routes [OF assms, of "cp_routes (pl_core p)" ms "cp_ingresses (pl_core p)" a]
    pl_inv_routes [OF assms, of "cp_routes (pl_core p)" "cp_domains (pl_core p)" gs "pl_acme p"]
  by (simp_all add: reach_init)

lemma pl_inv_apply:
  assumes "pl_inv gen p" and "apply_run hash (cp_insts (pl_core p)) (apply_of p) s"
  shows "pl_inv gen (put_apply x p s)"
proof -
  note run = assms(2) [unfolded apply_run_def apply_of_def Let_def, simplified]
  let ?c = "(pl_core p)\<lparr>cp_apps := ap_apps s, cp_deps := ap_deps s\<rparr>"
  have "cp_inv gen ?c" using assms(1) run by (intro cp_inv_deploy) (auto simp: pl_inv_def)
  then have "cp_inv gen (?c\<lparr>cp_routes := ap_services s, cp_domains := ap_domains s, cp_ingresses := ap_ingresses s\<rparr>)"
    using run by (intro cp_inv_routes) auto
  moreover have "ingress_inv (ap_ingresses s)"
    using ingress_machine.run_inv run assms(1) by (auto simp: pl_inv_def)
  ultimately show ?thesis using assms(1) by (simp add: pl_inv_def put_apply_def)
qed

lemma pl_inv_inst:
  assumes "pl_inv gen p" and "platform_op op (cp_insts (pl_core p))"
    and "(\<exists>rid k nd. op = IClaim rid k nd) \<or> (\<exists>now k nd ex st hl ct ps. op = IReport now k nd ex st hl ct ps) \<or>
      (\<exists>now k nd. op = IUpdate now k StatusCrashed nd '''')"
  shows "pl_inv gen (with_core p (cp_insts_update (\<lambda>_. inst_step op (cp_insts (pl_core p)))))"
  using assms cp_inv_insts [of gen "pl_core p" op] by (simp add: pl_inv_def)

lemma Claim_keeps:
  assumes "pl_inv gen p" and "rid \<noteq> ''''"
  shows "pl_inv gen (with_core p (cp_insts_update (\<lambda>_. fst (Api_Claim rid now k body deps sec (cp_insts (pl_core p))))))"
proof -
  let ?r = "cp_insts (pl_core p)"
  have same: "with_core p (cp_insts_update (\<lambda>_. ?r)) = p" by simp
  have one: "pl_inv gen (with_core p (cp_insts_update (\<lambda>_. fst (Inst_Claim rid k nd ?r))))" for nd
    using pl_inv_inst [OF assms(1), of "IClaim rid k nd"] assms(2) by simp
  have two: "pl_inv gen (with_core p (cp_insts_update (\<lambda>_. fst (Inst_UpdateState now (i_ID i) StatusCrashed (i_NodeID i) '''' r1))))"
    if "Inst_Claim rid k nd ?r = (r1, Inr i)" for nd r1 i
  proof -
    let ?p = "with_core p (cp_insts_update (\<lambda>_. r1))"
    have p: "pl_inv gen ?p" using one [of nd] that by simp
    have k: "keyed i_ID ?r" using assms(1) by (auto simp: pl_inv_def inst_inv_def dest: cp_invD)
    have "map_of r1 (i_ID i) = Some i"
      using that keyed_map_of [OF k] by (auto simp: Inst_Claim_def Let_def split: option.splits if_splits)
    then have "platform_op (IUpdate now (i_ID i) StatusCrashed (i_NodeID i) '''') (cp_insts (pl_core ?p))" by simp
    from pl_inv_inst [OF p this] show ?thesis by simp
  qed
  have "fst (Api_Claim rid now k body deps sec ?r) = ?r \<or>
      (\<exists>nd. fst (Api_Claim rid now k body deps sec ?r) = fst (Inst_Claim rid k nd ?r)) \<or>
      (\<exists>nd r1 i. Inst_Claim rid k nd ?r = (r1, Inr i) \<and>
         fst (Api_Claim rid now k body deps sec ?r) = fst (Inst_UpdateState now (i_ID i) StatusCrashed (i_NodeID i) '''' r1))"
  proof (cases "k = '''' \<or> body = None \<or> (\<exists>req. body = Some req \<and> cq_NodeID req = '''')")
    case False
    then obtain req where b: "k \<noteq> ''''" "body = Some req" "cq_NodeID req \<noteq> ''''" by auto
    obtain r1 out where c: "Inst_Claim rid k (cq_NodeID req) ?r = (r1, out)" by fastforce
    then show ?thesis
      by (cases out) (auto simp: Api_Claim_def b c Let_def split: sum.split intro!: exI [of _ "cq_NodeID req"])
  qed (auto simp: Api_Claim_def)
  with one two assms(1) same show ?thesis by metis
qed

lemma Report_keeps:
  assumes "pl_inv gen p" and "\<And>q. body = Some q \<Longrightarrow> known_status (sq_Status q)"
    and "Api_ReportStatus now k body (cp_insts (pl_core p), cp_deps (pl_core p)) = ((r, deps), ans)"
  shows "pl_inv gen (with_core p (\<lambda>c. c\<lparr>cp_insts := r, cp_deps := deps\<rparr>))"
proof (cases "k = '''' \<or> (case body of None \<Rightarrow> True
    | Some q \<Rightarrow> sq_NodeID q = '''' \<or> sq_ExecutionID q = '''' \<or> sq_Status q = StatusOther '''')")
  case True
  then have "Api_ReportStatus now k body (cp_insts (pl_core p), cp_deps (pl_core p)) =
      ((cp_insts (pl_core p), cp_deps (pl_core p)), Inl 400)"
    by (cases body) (auto simp: Api_ReportStatus_def)
  with assms(3) have "r = cp_insts (pl_core p)" "deps = cp_deps (pl_core p)" by simp_all
  with assms(1) show ?thesis by simp
next
  case False
  then obtain q where b: "k \<noteq> ''''" "body = Some q" "sq_NodeID q \<noteq> ''''" "sq_ExecutionID q \<noteq> ''''" "sq_Status q \<noteq> StatusOther ''''"
    by (auto split: option.splits)
  let ?op = "IReport now k (sq_NodeID q) (sq_ExecutionID q) (sq_Status q) (sq_Health q) (sq_ContainerID q) (sq_Ports q)"
  let ?p = "with_core p (cp_insts_update (\<lambda>_. inst_step ?op (cp_insts (pl_core p))))"
  have p: "pl_inv gen ?p" using assms(2) b by (intro pl_inv_inst [OF assms(1)]) auto
  obtain r1 out where rep: "Inst_ReportStatus now k (sq_NodeID q) (sq_ExecutionID q) (sq_Status q) (sq_Health q) (sq_ContainerID q)
      (sq_Ports q) (cp_insts (pl_core p)) = (r1, out)" by fastforce
  have "r = r1 \<and> (deps = cp_deps (pl_core p) \<or> (\<exists>d. deps = fst (Dep_RecordCrash d MaxCrashLoopThreshold (cp_deps (pl_core p)))))"
    using assms(3) b by (cases out) (auto simp: Api_ReportStatus_def Let_def rep split: if_splits)
  then have r: "r = inst_step ?op (cp_insts (pl_core p))" and d: "deploy_run hash r (cp_deps (pl_core p)) deps" for hash
    using deploy_runI(4) [OF reach_init] by (auto simp: reach_init rep)
  have "pl_inv gen (put_svc ?p \<lparr>sv_apps = cp_apps (pl_core p), sv_deps = deps\<rparr>)"
    using d [unfolded r] by (intro pl_inv_svc [OF p]) (simp add: svc_of_def reach_init)
  then show ?thesis by (simp add: put_svc_def r)
qed

text \<open>The handlers, group by group.\<close>

lemma handle_jobs_keeps:
  assumes "pl_inv gen p" and "request_ok x q p" and "handle_jobs rnd x ctx q p = Some out"
  shows "pl_inv gen (fst out)"
proof -
  have n: "node_inv (cp_nodes (pl_core p))" "no_overcommit (cp_nodes (pl_core p)) (cp_deps (pl_core p)) (cp_insts (pl_core p))"
    using assms(1) by (auto simp: pl_inv_def dest: cp_invD)
  note nodes = pl_inv_nodes [OF assms(1)] and reg = nodes_keep(1) [OF n] and hb = nodes_keep(2) [OF n]
    and job = pl_inv_jobs [OF assms(1)]
  show ?thesis
  proof (cases q)
    case (RegisterNode remote body)
    then have "pl_inv gen (with_core p (cp_nodes_update (\<lambda>_. fst (NodeApi_Register (ri_now x) (ri_token x) remote body (cp_nodes (pl_core p))))))"
      using assms(2) reg [of "ri_now x" "ri_token x" remote body] by (cases body) (auto intro!: nodes)
    then show ?thesis using assms(3) by (auto simp: RegisterNode split: prod.splits)
  next
    case (HeartbeatNode k caps)
    then have "pl_inv gen (with_core p (cp_nodes_update (\<lambda>_. fst (NodeApi_Heartbeat (ri_now x) ctx k caps (cp_nodes (pl_core p))))))"
      using assms(2) hb [of "ri_now x" ctx k caps] by (cases caps) (auto intro!: nodes)
    then show ?thesis using assms(3) by (auto simp: HeartbeatNode split: prod.splits)
  next
    case (CreateJob body)
    then show ?thesis using assms(2,3) job [OF job_runI(1)] by (auto split: prod.splits) (metis fst_conv)
  next
    case (UpdateJob k body)
    then show ?thesis using assms(3) job [OF job_runI(2)] by (auto split: prod.splits) (metis fst_conv)
  next
    case (ClaimJob k body)
    then show ?thesis using assms(3) job [OF job_runI(3)] by (auto split: prod.splits) (metis fst_conv)
  next
    case (ReportJob k body)
    then show ?thesis using assms(3) job [OF job_runI(4)] by (auto split: prod.splits) (metis fst_conv)
  qed (use assms in auto)
qed

lemma svc_api_runs:
  assumes "fresh_svc insts x s" and "sized spec"
  shows "svc_run hash insts s (fst (AppApi_Create hash x (Some (name, spec)) s))"
    and "svc_run hash insts s (fst (AppApi_Update hash x k (Some spec) s))"
    and "svc_run hash insts s (fst (AppApi_Deploy hash x k (Some spec) sec s))"
  using svc_run_Create [OF assms, of hash name] svc_run_Update [OF assms, of hash k] svc_run_Deploy [OF assms, of hash k sec]
  by (auto simp: AppApi_Create_def AppApi_Update_def AppApi_Deploy_def reach_init split: prod.split sum.split)

lemma svc_api_refused:
  "fst (AppApi_Create hash x None s) = s" "fst (AppApi_Update hash x k None s) = s" "fst (AppApi_Deploy hash x k None sec s) = s"
  by (simp_all add: AppApi_Create_def AppApi_Update_def AppApi_Deploy_def)

lemma rollback_api_run: "svc_run hash insts s (fst (AppApi_Rollback now k dep force s))"
  using svc_run_Rollback [where hash = hash and insts = insts and now = now and k = k and dep = dep and force = "force = ''true''" and s = s]
  by (auto simp: AppApi_Rollback_def reach_init split: prod.split sum.split)

lemma secret_api_inv:
  assumes "secret_inv r"
  shows "(\<And>req. body = Some req \<Longrightarrow> CHR '':'' \<notin> set (tq_ApplicationID req) \<and> secret_fresh (t, nano, u) r) \<Longrightarrow>
      secret_inv (fst (SecretApi_Set t nano u body as r))"
    and "secret_inv (fst (SecretApi_Delete k r))"
proof -
  show "secret_inv (fst (SecretApi_Delete k r))"
    using Delete_inv [OF assms, of k] by (auto simp: SecretApi_Delete_def assms split: prod.split option.split)
  assume ok: "\<And>req. body = Some req \<Longrightarrow> CHR '':'' \<notin> set (tq_ApplicationID req) \<and> secret_fresh (t, nano, u) r"
  have "secret_inv r1" if "body = Some req" "Secret_Set t nano u (tq_ApplicationID req) n v r = (r1, out)" for req n v r1 out
    using secret_machine.inv_step [OF assms, of "SSet t nano u (tq_ApplicationID req) n v"] ok [OF that(1)] that(2) by simp
  then show "secret_inv (fst (SecretApi_Set t nano u body as r))"
    using assms by (auto simp: SecretApi_Set_def split: option.split prod.split sum.split)
qed

lemma handle_apps_keeps:
  assumes "pl_inv gen p" and "request_ok x q p" and "handle_apps hash x q p = Some out"
  shows "pl_inv gen (fst out)"
proof -
  note svc = pl_inv_svc [OF assms(1), where hash = hash]
  have same: "put_svc p (svc_of p) = p" by (simp add: put_svc_def svc_of_def)
  have sec: "pl_inv gen (p\<lparr>pl_secrets := r\<rparr>)" if "secret_inv r" for r using that assms(1) by (simp add: pl_inv_def)
  have si: "secret_inv (pl_secrets p)" using assms(1) by (simp add: pl_inv_def)
  show ?thesis
  proof (cases q)
    case (PostApp body)
    then have "pl_inv gen (put_svc p (fst (AppApi_Create hash (ri_svc x) body (svc_of p))))"
      using assms(1,2) by (cases body) (auto simp: svc_api_refused same intro!: svc svc_api_runs)
    then show ?thesis using assms(3) by (auto simp: PostApp split: prod.splits)
  next
    case (PutApp k body)
    then have "pl_inv gen (put_svc p (fst (AppApi_Update hash (ri_svc x) k body (svc_of p))))"
      using assms(1,2) by (cases body) (auto simp: svc_api_refused same intro!: svc svc_api_runs)
    then show ?thesis using assms(3) by (auto simp: PutApp split: prod.splits)
  next
    case (PostDeploy k body)
    then have "pl_inv gen (put_svc p (fst (AppApi_Deploy hash (ri_svc x) k body (pl_secrets p) (svc_of p))))"
      using assms(1,2) by (cases body) (auto simp: svc_api_refused same intro!: svc svc_api_runs)
    then show ?thesis using assms(3) by (auto simp: PostDeploy split: prod.splits)
  next
    case (PostRollback k dep force)
    have "pl_inv gen (put_svc p (fst (AppApi_Rollback (ri_now x) k dep force (svc_of p))))"
      by (rule svc [OF rollback_api_run])
    then show ?thesis using assms(3) by (auto simp: PostRollback split: prod.splits)
  next
    case (SetSecret body)
    then have "secret_inv (fst (SecretApi_Set (ri_event x) (ri_nano x) (ri_now x) body (cp_apps (pl_core p)) (pl_secrets p)))"
      using assms(2) by (intro secret_api_inv(1) [OF si]) auto
    then show ?thesis using assms(3) sec by (auto simp: SetSecret split: prod.splits)
  next
    case (DeleteSecret k)
    then show ?thesis using assms(3) sec [OF secret_api_inv(2) [OF si, of k]] by (auto split: prod.splits)
  next
    case (PostApply body)
    then have "apply_run hash (cp_insts (pl_core p)) (apply_of p) (fst (Apply hash (ri_apply x) (pl_secrets p) body (apply_of p)))"
      using assms(2) by (intro Apply_run) simp
    note pl_inv_apply [OF assms(1) this, of x]
    then show ?thesis using assms(3) by (auto simp: PostApply split: prod.splits)
  qed (use assms in \<open>auto simp: Let_def\<close>)
qed

lemma route_api_runs:
  "service_run r (fst (RouteApi_Create rid now body as r))" "service_run r (fst (RouteApi_Update k upd r))"
  "service_run r (fst (RouteApi_Delete k r))"
  using service_runI(1) [of r rid now] service_runI(2) [of r k] service_runI(3) [of r k]
  by (auto simp: RouteApi_Create_def RouteApi_Update_def RouteApi_Delete_def reach_init split: option.split prod.split sum.split)
    (metis fst_conv)+

lemma domain_api_runs:
  assumes "map_of (domains r) rid = None"
  shows "domain_run r (fst (DomainApi_Create rid body as r))"
  using domain_runI(1) [OF assms]
  by (auto simp: DomainApi_Create_def reach_init split: option.split prod.split sum.split) (metis fst_conv)+

lemma domain_api_runs':
  "domain_run r (fst (DomainApi_Delete k r))"
  "domain_run r (fst (fst (DomainApi_EnableTLS rid now name (r, pr))))"
proof -
  show "domain_run r (fst (DomainApi_Delete k r))"
    using domain_runI(3) [of r k] by (auto simp: DomainApi_Delete_def split: option.split prod.split)
  have "domain_run r r2" if "Domain_EnableTLS k (fst (Domain_UpdateStatus k st r)) = (r2, e)" for k st r2 e
    using reach_trans [OF domain_runI(2) [where k = k and st = st and r = r] domain_runI(4) [where k = k]] that by simp
  then show "domain_run r (fst (fst (DomainApi_EnableTLS rid now name (r, pr))))"
    by (auto simp: DomainApi_EnableTLS_def Let_def reach_init split: sum.split prod.split option.split)
qed

lemma ingress_api_runs:
  "map_of r rid = None \<Longrightarrow> ingress_run r (fst (IngressApi_Create rid body ms vs r))"
  "ingress_run r (fst (IngressApi_Delete k r))"
proof -
  show "ingress_run r (fst (IngressApi_Delete k r))"
    using ingress_runI(2) [of r k] by (auto simp: IngressApi_Delete_def split: option.split prod.split)
  assume "map_of r rid = None"
  from ingress_runI(1) [OF this] have "ingress_run r r1" if "Ingress_Create rid dm srv path r = (r1, out)" for dm srv path r1 out
    using that by (metis fst_conv)
  then show "ingress_run r (fst (IngressApi_Create rid body ms vs r))"
    by (auto simp: IngressApi_Create_def reach_init split: option.split sum.split prod.split)
qed

lemma handle_routes_keeps:
  assumes "pl_inv gen p" and "request_ok x q p" and "handle_routes x q p = Some out"
  shows "pl_inv gen (fst out)"
proof -
  note part = pl_inv_route_parts [OF assms(1)]
  show ?thesis
  proof (cases q)
    case (CreateService body)
    then show ?thesis using assms(3) part(1) [OF route_api_runs(1)] by (auto split: prod.splits) (metis fst_conv)
  next
    case (UpdateService k body)
    then show ?thesis using assms(3) part(1) [OF route_api_runs(2)] by (auto split: prod.splits) (metis fst_conv)
  next
    case (DeleteService k)
    then show ?thesis using assms(3) part(1) [OF route_api_runs(3)] by (auto split: prod.splits) (metis fst_conv)
  next
    case (CreateDomain body)
    then show ?thesis using assms(2,3) part(2) [OF domain_api_runs] by (auto split: prod.splits) (metis fst_conv)
  next
    case (DeleteDomain k)
    then show ?thesis using assms(3) part(2) [OF domain_api_runs'(1)] by (auto split: prod.splits) (metis fst_conv)
  next
    case (PostTLS name)
    obtain r a ans where e: "DomainApi_EnableTLS (ri_id x) (ri_now x) name (cp_domains (pl_core p), Some (pl_acme p)) = ((r, a), ans)"
      by (metis surj_pair)
    have "domain_run (cp_domains (pl_core p)) r"
      using domain_api_runs'(2) [of "cp_domains (pl_core p)" "ri_id x" "ri_now x" name "Some (pl_acme p)"] by (simp add: e)
    then show ?thesis using assms(3) part(3) by (auto simp: PostTLS e)
  next
    case (PostIngress body)
    then show ?thesis using assms(2,3) part(4) [OF ingress_api_runs(1)] by (auto split: prod.splits) (metis fst_conv)
  next
    case (DeleteIngress k)
    then show ?thesis using assms(3) part(4) [OF ingress_api_runs(2)] by (auto split: prod.splits) (metis fst_conv)
  next
    case (ClaimInstanceOf k body)
    then have "ri_id x \<noteq> ''''" using assms(2) by simp
    from Claim_keeps [OF assms(1) this, of "ri_now x" k body "cp_deps (pl_core p)" "pl_secrets p"]
    show ?thesis using assms(3) by (auto simp: ClaimInstanceOf split: prod.splits)
  next
    case (ReportInstance k body)
    obtain r deps ans where e: "Api_ReportStatus (ri_now x) k body (cp_insts (pl_core p), cp_deps (pl_core p)) = ((r, deps), ans)"
      by (metis surj_pair)
    have "pl_inv gen (with_core p (\<lambda>c. c\<lparr>cp_insts := r, cp_deps := deps\<rparr>))"
      using assms(2) by (intro Report_keeps [OF assms(1) _ e]) (simp add: ReportInstance)
    then show ?thesis using assms(3) by (auto simp: ReportInstance e)
  qed (use assms in auto)
qed

lemma handle_keeps:
  assumes "pl_inv gen p" and "request_ok x q p"
  shows "pl_inv gen (fst (handle hash rnd x ctx q p))"
  using assms handle_jobs_keeps [OF assms] handle_apps_keeps [OF assms] handle_routes_keeps [OF assms]
  by (auto simp: handle_def split: option.split)

lemma serve_keeps:
  assumes "pl_inv gen p" and "request_ok x q p"
  shows "pl_inv gen (fst (serve m hash rnd x header q p))"
proof -
  have "serve m hash rnd x header q p \<in> insert (handle hash rnd x None q p) (range (\<lambda>st. (p, st)) \<union>
      range (\<lambda>k. handle hash rnd x (Some k) q p))"
  proof (cases "extractToken m header")
    case (Inl st)
    then show ?thesis
      by (cases "guard_of q") (simp_all add: serve_def RequireOperator_def RequireAgent_def RequireNodeAuth_def)
  next
    case (Inr t)
    then show ?thesis
      by (cases "guard_of q"; cases "Node_GetByToken (cp_nodes (pl_core p)) t")
        (simp_all add: serve_def RequireOperator_def RequireAgent_def RequireNodeAuth_def)
  qed
  with assms(1) handle_keeps [OF assms] show ?thesis by auto
qed

section \<open>The control plane as a machine\<close>

datatype platform_event = Request RequestInput string request | OfflineCheck time | Round TickClock

fun platform_ok :: "platform_event \<Rightarrow> Platform \<Rightarrow> bool" where
  "platform_ok (Request x header q) p \<longleftrightarrow> request_ok x q p"
| "platform_ok (OfflineCheck now) p \<longleftrightarrow> True"
| "platform_ok (Round tk) p \<longleftrightarrow> length (cp_insts (pl_core p)) \<le> 2147483648"

fun platform_step ::
  "AuthManager \<Rightarrow> (AppSpec \<Rightarrow> string) \<Rightarrow> (rat \<Rightarrow> rat) \<Rightarrow> (nat \<Rightarrow> string) \<Rightarrow> platform_event \<Rightarrow> Platform \<Rightarrow> Platform" where
  "platform_step m hash rnd gen (Request x header q) p = fst (serve m hash rnd x header q p)"
| "platform_step m hash rnd gen (OfflineCheck now) p = with_core p (offline_tick now)"
| "platform_step m hash rnd gen (Round tk) p =
     (case control_tick rnd gen tk (pl_core p) of Inl _ \<Rightarrow> p | Inr s \<Rightarrow> with_core p (\<lambda>_. s))"

definition NewPlatform :: Platform where
  "NewPlatform =
     \<lparr>pl_core = \<lparr>cp_nodes = NewNodeRegistry, cp_jobs = NewJobRegistry, cp_apps = NewAppRegistry, cp_deps = NewDepRegistry,
        cp_insts = NewInstRegistry, cp_routes = NewServiceRegistry, cp_domains = NewDomainRegistry,
        cp_ingresses = NewIngressRegistry, cp_proxy = NewHTTPProxy, cp_lastJobNode = '''', cp_lastInstNode = '''', cp_drawn = 0\<rparr>,
      pl_secrets = NewSecretRegistry, pl_acme = NewACMEProvider\<rparr>"

lemma pl_inv_New:
  assumes "inj gen"
  shows "pl_inv gen NewPlatform"
proof -
  have "routing_ok NewAppRegistry NewInstRegistry NewNodeRegistry NewServiceRegistry NewDomainRegistry"
    using app_machine.inv_init inst_machine.inv_init node_machine.inv_init service_machine.inv_init domain_machine.inv_init
    by (simp add: routing_ok_def)
  moreover have "specs_ok NewDepRegistry" by (simp add: specs_ok_def Dep_List_def NewDepRegistry_def)
  moreover have "no_overcommit NewNodeRegistry NewDepRegistry NewInstRegistry"
    by (simp add: no_overcommit_def Node_List_def NewNodeRegistry_def)
  ultimately show ?thesis
    using assms placement_machine.inv_init dep_machine.inv_init ingress_machine.inv_init secret_machine.inv_init
    by (simp add: pl_inv_def cp_inv_def NewPlatform_def reach_init fresh_ids_def all_known_def NewInstRegistry_def)
qed

lemma round_keeps:
  assumes "pl_inv gen p" and "length (cp_insts (pl_core p)) \<le> 2147483648"
  shows "\<exists>s. control_tick rnd gen tk (pl_core p) = Inr s \<and> pl_inv gen (with_core p (\<lambda>_. s))"
proof -
  have inv: "cp_inv gen (pl_core p)" using assms(1) by (simp add: pl_inv_def)
  from control_tick_steps [OF inv assms(2) refl refl, where rnd = rnd and tk = tk] obtain s where
    s: "control_tick rnd gen tk (pl_core p) = Inr s" "cp_inv gen s"
      "reach (cp_insts (pl_core p)) controller_op inst_step (cp_insts s)" by blast
  have "all_known (cp_insts s)"
    using platform_run_keeps [OF reach_mono [OF s(3) controller_op_platform] cp_invD(1) [OF inv]] assms(1)
    by (simp add: pl_inv_def)
  moreover have "cp_ingresses s = cp_ingresses (pl_core p)"
    using s(1) by (auto simp: control_tick_def routing_round_def instance_round_def reconcile_round_def job_round_def
        split: sum.splits prod.splits)
  ultimately show ?thesis using s assms(1) by (auto simp: pl_inv_def)
qed

interpretation platform_machine:
  invariant_machine NewPlatform platform_ok "platform_step m hash rnd gen" "\<lambda>p. inj gen \<longrightarrow> pl_inv gen p" for m hash rnd gen
proof
  show "inj gen \<longrightarrow> pl_inv gen NewPlatform" using pl_inv_New by blast
next
  fix p ev assume inv: "inj gen \<longrightarrow> pl_inv gen p" and ok: "platform_ok ev p"
  show "inj gen \<longrightarrow> pl_inv gen (platform_step m hash rnd gen ev p)"
  proof
    assume "inj gen"
    with inv have p: "pl_inv gen p" by blast
    show "pl_inv gen (platform_step m hash rnd gen ev p)"
    proof (cases ev)
      case (Request x header q)
      then show ?thesis using serve_keeps [OF p] ok by simp
    next
      case (OfflineCheck now)
      have "cp_insts (offline_tick now c) = cp_insts c" "cp_ingresses (offline_tick now c) = cp_ingresses c" for c
        by (simp_all add: offline_tick_def)
      then show ?thesis using p offline_tick_keeps [of gen "pl_core p" now] by (simp add: OfflineCheck pl_inv_def)
    next
      case (Round tk)
      then show ?thesis using round_keeps [OF p, of rnd tk] ok by auto
    qed
  qed
qed

section \<open>Properties\<close>


text \<open>A node registers with the agents' token, the operator creates an application; a round follows.\<close>

definition example_register :: RegisterRequest where
  "example_register =
     \<lparr>gq_NodeID = ''n1'', gq_Hostname = ''h'', gq_IPAddress = ''10.0.0.1'', gq_CPUCores = 4, gq_OS = ''linux'',
      gq_Architecture = ''amd64'',
      gq_Capabilities = \<lparr>TotalMemoryBytes = 4294967296, AvailableMemoryBytes = 4294967296, HasDocker = True, HasPodman = False\<rparr>\<rparr>"

definition example_step :: "string \<Rightarrow> request \<Rightarrow> Platform \<Rightarrow> Platform" where
  "example_step header q = platform_step example_auth (\<lambda>_. ''h'') (\<lambda>x. x) example_gen (Request example_request header q)"

definition example_registered :: Platform where
  "example_registered = example_step ''Bearer ag'' (RegisterNode ''10.0.0.1:7'' (Some example_register)) NewPlatform"

definition example_created :: Platform where
  "example_created = example_step ''Bearer op'' (PostApp (Some (''web'', example_spec))) example_registered"

lemma example_registered_eq:
  "example_registered = with_core NewPlatform (cp_nodes_update (\<lambda>_. [(''n1'',
     \<lparr>n_ID = ''n1'', n_Hostname = ''h'', n_IPAddress = ''10.0.0.1'', n_CPUCores = 4, n_OS = ''linux'', n_Architecture = ''amd64'',
      n_Status = NodeOnline, n_LastHeartbeat = 7, n_OfflineSince = None, n_Capabilities = gq_Capabilities example_register,
      n_Token = ''t1''\<rparr>)]))"
  by (simp add: example_registered_def example_step_def serve_def RequireAgent_def extractToken_def example_auth_def handle_def
      NodeApi_Register_def Node_Register_def example_register_def example_request_def NewPlatform_def NewNodeRegistry_def Let_def)

lemma example_created_parts:
  "map n_ID (Node_List (cp_nodes (pl_core example_created))) = [''n1'']"
  "map a_Name (App_List (cp_apps (pl_core example_created))) = [''web'']" "cp_insts (pl_core example_created) = []"
proof -
  have "ValidateAppSpec (EnsureDefaultStrategy example_spec) = None"
    by (simp add: ValidateAppSpec_None EnsureDefaultStrategy_def validateResources_def validateProbe_def rolling_deadlock_def example_spec_def)
  then show "map n_ID (Node_List (cp_nodes (pl_core example_created))) = [''n1'']"
    "map a_Name (App_List (cp_apps (pl_core example_created))) = [''web'']" "cp_insts (pl_core example_created) = []"
    unfolding example_created_def example_registered_eq
    by (simp_all add: example_step_def serve_def RequireOperator_def extractToken_def example_auth_def handle_def AppApi_Create_def
        CreateApp_def App_Create_def App_Update_def Dep_Create_def put_svc_def svc_of_def example_request_def NewPlatform_def
        NewAppRegistry_def NewDepRegistry_def NewInstRegistry_def Node_List_def App_List_def Let_def)
qed

lemma example_registered_reach:
  "reach NewPlatform platform_ok (platform_step example_auth (\<lambda>_. ''h'') (\<lambda>x. x) example_gen) example_registered"
  unfolding example_registered_def example_step_def
  by (intro reach_step reach_init) (simp_all add: NewPlatform_def used_memory_def Inst_List_def NewInstRegistry_def)

lemma example_create_ok: "request_ok example_request (PostApp (Some (''web'', example_spec))) example_registered"
  unfolding example_registered_eq
  by (simp add: NewPlatform_def fresh_svc_def fresh_input_def svc_of_def example_request_def Inst_List_def NewInstRegistry_def
      NewAppRegistry_def NewDepRegistry_def sized_def small_def example_spec_def)

lemma example_created_reach:
  "reach NewPlatform platform_ok (platform_step example_auth (\<lambda>_. ''h'') (\<lambda>x. x) example_gen) example_created"
  using reach_step [OF example_registered_reach, of "Request example_request ''Bearer op'' (PostApp (Some (''web'', example_spec)))"]
  example_create_ok by (simp add: example_created_def example_step_def)


end
