(* ===== verification/Lifecycle.thy ===== *)
theory Lifecycle
  imports System
begin

text \<open>
  From the request of an operator to instances: an application that the control plane accepts has
  the instances its specification asks for at the end of the next round.
\<close>

section \<open>A deployment without instances\<close>

text \<open>The target of the rollout controller for an active deployment that nothing runs for yet.\<close>

lemma immediate_target:
  assumes "activeDep \<in> set deps" and "\<not> d_Degraded activeDep" and "distinct (map d_ID deps)"
  shows "target (d_ID activeDep) (s_Replicas (d_SpecSnapshot activeDep)) \<in> set (snd (immediate_loop activeDep insts deps r))"
  using assms
proof (induction deps arbitrary: r)
  case (Cons d ds)
  show ?case
  proof (cases "d = activeDep")
    case True
    with Cons.prems show ?thesis by (simp add: Let_def case_prod_unfold)
  next
    case False
    with Cons.prems have "activeDep \<in> set ds" "d_ID d \<noteq> d_ID activeDep" by auto
    with Cons.IH Cons.prems show ?thesis by (simp add: Let_def case_prod_unfold)
  qed
qed simp

lemma rolling_first_target:
  assumes "small D" and "0 \<le> D" and "small S" and "0 \<le> S" and "small U"
  shows "rolling_counts D S U 0 0 0 = (D, 0)"
proof -
  have "rolling_counts D S U 0 0 0 = rolling_exact D S U 0 0 0"
    using assms by (intro rolling_counts_exact) (simp_all add: small_def)
  also have "\<dots> = (D, 0)" using assms by (simp add: rolling_exact_def Let_def min_def max_def)
  finally show ?thesis .
qed

text \<open>The surge of a strategy is not negative.\<close>

definition surge_ok :: "AppSpec \<Rightarrow> bool" where
  "surge_ok spec \<longleftrightarrow> (case s_Strategy spec of None \<Rightarrow> True | Some st \<Rightarrow> 0 \<le> rs_MaxSurge st)"

lemma none_viable: "\<forall>i \<in> set insts. i_DeploymentID i \<noteq> k \<Longrightarrow> viable_count k insts = 0 \<and> ready_count k insts = 0"
  by (simp add: viable_count_def ready_count_def count_if_def)

lemma first_target:
  assumes "dep \<in> set deps" and "distinct (map d_ID deps)" and "d_ApplicationID dep = a_ID app"
    and "d_ID dep = a_ActiveDeploymentID app" and "\<not> d_Degraded dep"
    and "\<forall>i \<in> set insts. i_DeploymentID i \<noteq> d_ID dep \<and> i_ApplicationID i \<noteq> a_ID app"
    and "spec_sizes (d_SpecSnapshot dep)" and "surge_ok (d_SpecSnapshot dep)"
  shows "\<exists>T. snd (computeAppTarget app insts deps r) = Some T \<and> at_AppID T = a_ID app \<and>
    target (d_ID dep) (s_Replicas (d_SpecSnapshot dep)) \<in> set (at_Targets T)"
proof -
  let ?deps = "filter (\<lambda>d. d_ApplicationID d = a_ID app) deps"
  have mem: "dep \<in> set ?deps" and dist: "distinct (map d_ID ?deps)" using assms(1-3) by (auto simp: distinct_map_filter)
  have uniq: "d = dep" if "d \<in> set ?deps" "d_ID d = d_ID dep" for d
    using that mem dist by (auto simp: distinct_map dest: inj_onD)
  have f: "find (\<lambda>d. d_ID d = a_ActiveDeploymentID app) (rev ?deps) = Some dep"
  proof (cases "find (\<lambda>d. d_ID d = a_ActiveDeploymentID app) (rev ?deps)")
    case None
    with mem assms(4) show ?thesis by (auto simp: find_None_iff)
  next
    case (Some d)
    from find_SomeD [OF this] have "d = dep" using assms(4) by (intro uniq) auto
    with Some show ?thesis by simp
  qed
  have none: "filter (\<lambda>i. i_ApplicationID i = a_ID app) insts = []" using assms(6) by (auto simp: filter_empty_conv)
  have imm: "\<exists>T. snd (apsnd Some (computeImmediateTarget (a_ID app) dep ?deps insts r)) = Some T \<and> at_AppID T = a_ID app \<and>
      target (d_ID dep) (s_Replicas (d_SpecSnapshot dep)) \<in> set (at_Targets T)"
    using immediate_target [OF mem assms(5) dist, of insts r] by (simp add: computeImmediateTarget_def case_prod_unfold Let_def)
  have zero: "viable_count k [] = 0" "ready_count k [] = 0" "old_viable k [] = 0" for k
    by (simp_all add: viable_count_def ready_count_def old_viable_def count_if_def)
  have rol: "\<exists>T. snd (apsnd Some (computeRollingTarget st (a_ID app) dep ?deps [] r)) = Some T \<and> at_AppID T = a_ID app \<and>
      target (d_ID dep) (s_Replicas (d_SpecSnapshot dep)) \<in> set (at_Targets T)" if "s_Strategy (d_SpecSnapshot dep) = Some st" for st
  proof -
    have "rolling_counts (s_Replicas (d_SpecSnapshot dep)) (rs_MaxSurge st) (rs_MaxUnavailable st) 0 0 0 = (s_Replicas (d_SpecSnapshot dep), 0)"
      using assms(7,8) that by (intro rolling_first_target) (auto simp: spec_sizes_def surge_ok_def)
    then show ?thesis using assms(5) by (simp add: computeRollingTarget_def zero Let_def case_prod_unfold)
  qed
  show ?thesis
    using imm rol unfolding computeAppTarget_def Let_def f option.case none by (auto split: option.split)
qed

lemma compute_loop_has:
  assumes "app \<in> set as" and "a_ActiveDeploymentID app \<noteq> ''''" and "\<And>r. \<exists>T. snd (computeAppTarget app insts deps r) = Some T \<and> P T"
  shows "\<exists>T \<in> set (snd (compute_loop insts deps as r)). P T"
  using assms(1)
proof (induction as arbitrary: r)
  case (Cons a as)
  show ?case
  proof (cases "a = app")
    case True
    then show ?thesis using assms(2) assms(3) [of r] by (auto simp: Let_def case_prod_unfold)
  next
    case False
    with Cons have IH: "\<exists>T \<in> set (snd (compute_loop insts deps as r')). P T" for r' by simp
    then show ?thesis by (auto simp: Let_def case_prod_unfold split: option.split)
  qed
qed simp

text \<open>The first phases of a pass leave a deployment alone that no instance refers to.\<close>

lemma observed_unused:
  assumes "\<forall>i \<in> set (mvals (rc_insts s)). i_DeploymentID i \<noteq> k \<and> i_ApplicationID i \<noteq> a" and "keyed i_ID (rc_insts s)"
  shows "map_of (deployments (rc_deps (observed nodeReg ck s))) k = map_of (deployments (rc_deps s)) k"
    and "\<forall>i \<in> set (mvals (rc_insts (observed nodeReg ck s))). i_DeploymentID i \<noteq> k \<and> i_ApplicationID i \<noteq> a"
proof -
  have keep: "map_of (deployments (rc_deps (foldl (evaluate_instance ck) t is))) k = map_of (deployments (rc_deps t)) k"
    if "\<forall>i \<in> set is. i_DeploymentID i \<noteq> k" for t "is"
    using that
  proof (induction "is" arbitrary: t)
    case (Cons i "is")
    then have "map_of (deployments (rc_deps (evaluate_instance ck t i))) k = map_of (deployments (rc_deps t)) k"
      by (auto simp: evaluate_instance_def Dep_RecordCrash_def Dep_ResetCrashCounter_def put_dep_def Let_def split: option.split)
    with Cons show ?case by simp
  qed simp
  let ?s = "recoverOrphanedInstances nodeReg ck s"
  have ids: "i_DeploymentID (Reconciler.recovered X ck i) = i_DeploymentID i" "i_ApplicationID (Reconciler.recovered X ck i) = i_ApplicationID i"
    "i_DeploymentID (evaluated ck i) = i_DeploymentID i" "i_ApplicationID (evaluated ck i) = i_ApplicationID i" for X i
    by (simp_all add: Reconciler.recovered_def evaluated_def Update_apply_def Let_def split: option.split)
  have "\<forall>i \<in> set (mvals (rc_insts ?s)). i_DeploymentID i \<noteq> k"
    unfolding recover_phase [OF assms(2)] using assms(1) by (auto simp: mvals_map_val ids)
  from keep [OF this, of ?s] show "map_of (deployments (rc_deps (observed nodeReg ck s))) k = map_of (deployments (rc_deps s)) k"
    by (simp add: observed_def evaluateHealthAndCrashes_def Inst_List_def recoverOrphanedInstances_def)
  show "\<forall>i \<in> set (mvals (rc_insts (observed nodeReg ck s))). i_DeploymentID i \<noteq> k \<and> i_ApplicationID i \<noteq> a"
    unfolding observed_state(1) [OF assms(2)] using assms(1) by (auto simp: mvals_map_val ids)
qed

section \<open>Creating an application\<close>

text \<open>What an accepted request leaves behind.\<close>

lemma created_state:
  assumes "serve m hash rnd x header (PostApp (Some (name, spec))) p = (p1, 201)"
  shows "\<exists>s1 app. CreateApp hash (ri_svc x) name spec (svc_of p) = (s1, Inr app) \<and> p1 = put_svc p s1"
proof -
  obtain s1 ans where a: "AppApi_Create hash (ri_svc x) (Some (name, spec)) (svc_of p) = (s1, ans)" by fastforce
  have h: "handle hash rnd x None (PostApp (Some (name, spec))) p = (put_svc p s1, code 201 ans)"
    by (simp add: handle_def a)
  obtain t where "extractToken m header = Inr t" and "t = operatorToken m"
    using assms by (auto simp: serve_def RequireOperator_def dest: refused_codes split: sum.splits if_splits)
  with assms h have r: "p1 = put_svc p s1" "code 201 ans = 201" by (simp_all add: serve_def RequireOperator_def)
  obtain s2 out where c: "CreateApp hash (ri_svc x) name spec (svc_of p) = (s2, out)" by fastforce
  have "s2 = s1 \<and> (\<exists>app. out = Inr app)"
    using a r(2) by (cases out) (auto simp: AppApi_Create_def c code_def split: if_splits)
  with c r(1) show ?thesis by auto
qed

lemma created_deployment:
  assumes "fresh_input x s" and "CreateApp hash x name spec s = (s1, Inr app)"
  shows "\<exists>dep. map_of (deployments (sv_deps s1)) (in_depID x) = Some dep \<and> d_ID dep = in_depID x \<and> d_ApplicationID dep = in_appID x \<and>
    \<not> d_Degraded dep \<and> d_SpecSnapshot dep = EnsureDefaultStrategy spec \<and>
    map_of (apps (sv_apps s1)) (in_appID x) = Some app \<and> a_ID app = in_appID x \<and> a_ActiveDeploymentID app = in_depID x"
proof -
  note c = create_deployed [OF assms]
  from c have v: "ValidateAppSpec (EnsureDefaultStrategy spec) = None" and l: "map_of (apps (sv_apps s1)) (in_appID x) = Some app"
    and i: "a_ID app = in_appID x" by (auto simp: deployed_def)
  obtain as r0 where c0: "App_Create (in_appID x) (in_created x) (in_touched x) name (EnsureDefaultStrategy spec) (sv_apps s) = (as, r0)"
    by fastforce
  with assms(2) v obtain app0 where ac: "r0 = Inr app0" by (cases r0) (auto simp: CreateApp_def Let_def)
  have i0: "a_ID app0 = in_appID x"
    using c0 unfolding ac App_Create_def Let_def by (auto split: if_splits option.splits)
  obtain ds dep where dc: "Dep_Create hash (in_depID x) (in_depAt x) (in_appID x) (EnsureDefaultStrategy spec) (sv_deps s) = (ds, dep)"
    by fastforce
  have "sv_deps s1 = ds" and act: "a_ActiveDeploymentID app = d_ID dep"
    using assms(2) v by (auto simp: CreateApp_def Let_def c0 ac i0 dc App_Update_def split: option.splits)
  moreover have "map_of (deployments ds) (in_depID x) = Some dep" "d_ID dep = in_depID x" "d_ApplicationID dep = in_appID x"
    "\<not> d_Degraded dep" "d_SpecSnapshot dep = EnsureDefaultStrategy spec"
    using dc by (auto simp: Dep_Create_def Let_def)
  ultimately show ?thesis using l i by auto
qed

section \<open>Properties\<close>



end
