(* ===== verification/Prober.thy ===== *)
theory Prober
  imports Instance Application "HOL-Library.Sublist"
begin

text \<open>
  Health probes of a running instance: \<open>runProbe\<close> and \<open>doProbe\<close> of
  \<open>internal/executor/prober.go\<close>. The network is an argument of \<open>doProbe\<close>: whether the TCP
  connection succeeds, and the status of the HTTP answer, if one arrives within the timeout. A
  prober lives until its context is cancelled; what it does is a function of the outcomes of
  the probes made until then. The delays between probes and the delivery of the reports are
  not part of it.
\<close>

section \<open>Definitions\<close>

definition doProbe :: "Probe \<Rightarrow> bool \<Rightarrow> int option \<Rightarrow> bool" where
  "doProbe probe dialed answered =
     (if pr_Type probe = ''TCP'' then dialed
      else if pr_Type probe = ''HTTP''
      then (case answered of None \<Rightarrow> False | Some status \<Rightarrow> status \<ge> 200 \<and> status < 400)
      else False)"

record ProbeState =
  successCount :: int
  failureCount :: int
  currentHealth :: InstanceHealth

definition probe_init :: ProbeState where
  "probe_init = \<lparr>successCount = 0, failureCount = 0, currentHealth = HealthUnknown\<rparr>"

text \<open>One iteration: the new counters, the report sent, and whether the prober ends.\<close>

definition probe_tick ::
  "Probe \<Rightarrow> bool \<Rightarrow> bool \<Rightarrow> ProbeState \<Rightarrow> ProbeState \<times> (InstanceStatus \<times> InstanceHealth) option \<times> bool" where
  "probe_tick probe isReadiness success s =
     (if success then
        (let s1 = s\<lparr>failureCount := 0, successCount := successCount s + 1\<rparr> in
         if successCount s1 \<ge> pr_SuccessThreshold probe \<and> isReadiness \<and> currentHealth s1 \<noteq> HealthHealthy
         then (s1\<lparr>currentHealth := HealthHealthy\<rparr>, Some (StatusRunning, HealthHealthy), False)
         else (s1, None, False))
      else
        (let s1 = s\<lparr>successCount := 0, failureCount := failureCount s + 1\<rparr> in
         if failureCount s1 \<ge> pr_FailureThreshold probe then
           (if \<not> isReadiness then (s1, Some (StatusCrashed, HealthUnknown), True)
            else if currentHealth s1 \<noteq> HealthUnhealthy
            then (s1\<lparr>currentHealth := HealthUnhealthy\<rparr>, Some (StatusRunning, HealthUnhealthy), False)
            else (s1, None, False))
         else (s1, None, False)))"

fun runProbe :: "Probe \<Rightarrow> bool \<Rightarrow> bool list \<Rightarrow> ProbeState \<Rightarrow> (InstanceStatus \<times> InstanceHealth) list" where
  "runProbe probe isReadiness [] s = []"
| "runProbe probe isReadiness (success # rest) s =
     (case probe_tick probe isReadiness success s of
        (s1, rep, ended) \<Rightarrow>
          (case rep of None \<Rightarrow> [] | Some r \<Rightarrow> [r]) @ (if ended then [] else runProbe probe isReadiness rest s1))"

section \<open>Specification\<close>

text \<open>
  The outcomes so far, the latest first. The streak is the number of equal outcomes up to now;
  the verdict is that of the latest streak that reached its threshold.
\<close>

definition streak :: "bool list \<Rightarrow> int" where
  "streak h = int (length (takeWhile (\<lambda>b. b = hd h) h))"

fun verdict :: "Probe \<Rightarrow> bool list \<Rightarrow> InstanceHealth" where
  "verdict probe [] = HealthUnknown"
| "verdict probe (b # h) =
     (if b \<and> streak (b # h) \<ge> pr_SuccessThreshold probe then HealthHealthy
      else if \<not> b \<and> streak (b # h) \<ge> pr_FailureThreshold probe then HealthUnhealthy
      else verdict probe h)"

fun changes :: "'a \<Rightarrow> 'a list \<Rightarrow> 'a list" where
  "changes prev [] = []"
| "changes prev (x # xs) = (if x = prev then changes prev xs else x # changes x xs)"

fun histories :: "bool list \<Rightarrow> bool list \<Rightarrow> bool list list" where
  "histories h [] = []"
| "histories h (b # bs) = (b # h) # histories (b # h) bs"

definition counts :: "Probe \<Rightarrow> bool list \<Rightarrow> ProbeState" where
  "counts probe h =
     \<lparr>successCount = (if h \<noteq> [] \<and> hd h then streak h else 0),
      failureCount = (if h \<noteq> [] \<and> \<not> hd h then streak h else 0),
      currentHealth = verdict probe h\<rparr>"

lemma streak_Cons: "streak (b # h) = (if h \<noteq> [] \<and> hd h = b then streak h + 1 else 1)"
  by (cases h) (auto simp: streak_def)

lemma tick_counts:
  "probe_tick probe True b (counts probe h) =
     (counts probe (b # h),
      if verdict probe (b # h) = verdict probe h then None else Some (StatusRunning, verdict probe (b # h)), False)"
  by (cases b; cases h) (simp_all add: probe_tick_def counts_def Let_def streak_Cons)

lemma readiness_run:
  "runProbe probe True bs (counts probe h) =
     map (Pair StatusRunning) (changes (verdict probe h) (map (verdict probe) (histories h bs)))"
proof (induction bs arbitrary: h)
  case (Cons b bs)
  show ?case
    unfolding runProbe.simps tick_counts prod.case
    by (simp only: Cons.IH histories.simps list.map changes.simps) simp
qed simp

lemma counts_init: "counts probe [] = probe_init"
  by (simp add: counts_def probe_init_def)

section \<open>Liveness\<close>

definition failing :: "Probe \<Rightarrow> nat" where
  "failing probe = nat (max 1 (pr_FailureThreshold probe))"

fun alarm :: "nat \<Rightarrow> nat \<Rightarrow> bool list \<Rightarrow> bool" where
  "alarm k n [] \<longleftrightarrow> False"
| "alarm k n (b # bs) \<longleftrightarrow> (if b then alarm k 0 bs else Suc n \<ge> k \<or> alarm k (Suc n) bs)"

lemma liveness_run:
  "failureCount s = int n \<Longrightarrow>
    runProbe probe False bs s = (if alarm (failing probe) n bs then [(StatusCrashed, HealthUnknown)] else [])"
proof (induction bs arbitrary: n s)
  case (Cons b bs)
  have "pr_FailureThreshold probe \<le> int (Suc n) \<longleftrightarrow> failing probe \<le> Suc n" by (auto simp: failing_def)
  with Cons.prems Cons.IH [where n = 0] Cons.IH [where n = "Suc n"] show ?case
    by (auto simp: probe_tick_def Let_def)
qed simp

lemma replicate_prefix: "prefix (replicate m False) bs \<Longrightarrow> k \<le> m \<Longrightarrow> prefix (replicate k False) bs"
proof -
  assume p: "prefix (replicate m False) bs" and "k \<le> m"
  then have "replicate m False = replicate k False @ replicate (m - k) False" by (simp flip: replicate_add)
  with p show ?thesis by (metis append_prefixD)
qed

lemma alarm_iff:
  "n < k \<Longrightarrow> alarm k n bs \<longleftrightarrow> prefix (replicate (k - n) False) bs \<or> sublist (replicate k False) bs"
proof (induction bs arbitrary: n)
  case (Cons b bs)
  obtain m where m: "k - n = Suc m" "k = Suc (m + n)" using that [of "k - Suc n"] Cons.prems by simp
  show ?case
  proof (cases b)
    case True
    have "alarm k 0 bs \<longleftrightarrow> sublist (replicate k False) bs"
      using Cons.IH [of 0] m(2) prefix_imp_sublist [of "replicate k False" bs] by auto
    with True m show ?thesis by (auto simp: sublist_Cons_right)
  next
    case False
    have pre: "prefix (replicate (m + n) False) bs \<Longrightarrow> prefix (replicate m False) bs" by (erule replicate_prefix) (rule le_add1)
    show ?thesis
    proof (cases "m = 0")
      case False
      then have "alarm k (Suc n) bs \<longleftrightarrow> prefix (replicate m False) bs \<or> sublist (replicate k False) bs"
        using Cons.IH [of "Suc n"] m by simp
      with False \<open>\<not> b\<close> m pre show ?thesis by (auto simp: sublist_Cons_right)
    qed (use \<open>\<not> b\<close> m in simp)
  qed
qed simp

section \<open>Properties\<close>

text \<open>
  What a prober reports is a function of the outcomes alone. A readiness prober reports exactly
  the changes of the verdict, where the verdict is that of the latest streak of equal outcomes
  that reached its threshold: it never flaps within a streak, never repeats a report, and a
  streak below its threshold changes nothing.
\<close>

lemma readiness_reports_verdicts:
  "runProbe probe True outcomes probe_init =
     map (Pair StatusRunning) (changes HealthUnknown (map (verdict probe) (histories [] outcomes)))"
  using readiness_run [of probe outcomes "[]"] by (simp add: counts_init)

text \<open>
  A liveness prober crashes an instance exactly when it must. It reports \<open>CRASHED\<close> once, and
  only if at some point the number of failures in a row reached the threshold; otherwise it
  reports nothing.
\<close>

lemma liveness_crashes_once:
  "runProbe probe False outcomes probe_init =
     (if sublist (replicate (nat (max 1 (pr_FailureThreshold probe))) False) outcomes
      then [(StatusCrashed, HealthUnknown)] else [])"
proof -
  have "alarm (failing probe) 0 outcomes \<longleftrightarrow> sublist (replicate (failing probe) False) outcomes"
    using alarm_iff [of 0 "failing probe" outcomes] prefix_imp_sublist by (auto simp: failing_def)
  with liveness_run [of probe_init 0 probe outcomes] show ?thesis by (simp add: probe_init_def failing_def)
qed

end
