(* ===== verification/Agent.thy ===== *)
theory Agent
  imports Api Runtime Prober LogBuffer
begin

text \<open>
  The agent: the client of the control plane (\<open>internal/api/client.go\<close>) and the executor of
  instances (\<open>internal/executor/instance_executor.go\<close>, \<open>instance_executor_sync.go\<close> and the start
  and stop of probers in \<open>prober.go\<close>).

  The state of an agent holds its own maps, the state of its container runtime, and the control
  plane it talks to. The handlers of the control plane are a record of functions, \<open>Server\<close>, with
  two instances: the bare handlers, and the handlers behind the guards that \<open>cp.go\<close> mounts them
  with. The network decides the fate of the \<open>n\<close>-th request; the identifier a claim draws and the
  readings of the clock are indexed by the request as well. Loops over maps and lists are loops
  over lists; the ticker is left out.
\<close>

section \<open>The server\<close>

record Cluster =
  cl_insts :: InstRegistry
  cl_deps :: DepRegistry
  cl_secrets :: SecretRegistry

record Server =
  srv_List :: "string \<Rightarrow> string \<Rightarrow> string \<Rightarrow> Cluster \<Rightarrow> nat + Instance list"
  srv_Claim :: "string \<Rightarrow> string \<Rightarrow> time \<Rightarrow> string \<Rightarrow> ClaimInstanceRequest \<Rightarrow> Cluster \<Rightarrow> Cluster \<times> (nat + ClaimInstanceResponse)"
  srv_Report :: "string \<Rightarrow> time \<Rightarrow> string \<Rightarrow> InstanceStatusRequest \<Rightarrow> Cluster \<Rightarrow> Cluster \<times> (nat + Instance)"

definition serve_claim ::
  "string \<Rightarrow> time \<Rightarrow> string \<Rightarrow> ClaimInstanceRequest \<Rightarrow> Cluster \<Rightarrow> Cluster \<times> (nat + ClaimInstanceResponse)" where
  "serve_claim rid now k q c =
     (case Api_Claim rid now k (Some q) (cl_deps c) (cl_secrets c) (cl_insts c) of
        (insts, ans) \<Rightarrow> (c\<lparr>cl_insts := insts\<rparr>, ans))"

definition serve_report ::
  "time \<Rightarrow> string \<Rightarrow> InstanceStatusRequest \<Rightarrow> Cluster \<Rightarrow> Cluster \<times> (nat + Instance)" where
  "serve_report now k q c =
     (case Api_ReportStatus now k (Some q) (cl_insts c, cl_deps c) of
        ((insts, deps), ans) \<Rightarrow> (c\<lparr>cl_insts := insts, cl_deps := deps\<rparr>, ans))"

definition open_server :: Server where
  "open_server =
     \<lparr>srv_List = (\<lambda>header nodeID st c. Inr (Api_List nodeID st (cl_insts c))),
      srv_Claim = (\<lambda>header. serve_claim),
      srv_Report = (\<lambda>header. serve_report)\<rparr>"

definition guarded_server :: "AuthManager \<Rightarrow> NodeRegistry \<Rightarrow> Server" where
  "guarded_server m nodes =
     \<lparr>srv_List = (\<lambda>header nodeID st c. RequireOperator m header (Api_List nodeID st (cl_insts c))),
      srv_Claim = (\<lambda>header rid now k q c.
        case RequireNodeAuth m nodes header (\<lambda>_. serve_claim rid now k q c) of
          Inl st \<Rightarrow> (c, Inl st) | Inr ans \<Rightarrow> ans),
      srv_Report = (\<lambda>header now k q c.
        case RequireNodeAuth m nodes header (\<lambda>_. serve_report now k q c) of
          Inl st \<Rightarrow> (c, Inl st) | Inr ans \<Rightarrow> ans)\<rparr>"

section \<open>The agent and its client\<close>

datatype delivery = Delivered | NotSent | AnswerLost

record AgentEnv =
  env_net :: "nat \<Rightarrow> delivery"
  env_rid :: "nat \<Rightarrow> string"
  env_now :: "nat \<Rightarrow> time"

record 'r InstanceExecutor =
  ex_NodeID :: string
  ex_Ports :: PortAllocator
  ex_CrashLogs :: LogRingBuffer
  ex_probers :: "(string, (Probe \<times> bool \<times> int) list) gomap"
  ex_activeSpecs :: "(string, AppSpec) gomap"
  ex_activePorts :: "(string, int) gomap"
  ex_Runtime :: 'r
  ex_cluster :: Cluster
  ex_requests :: nat

definition NewInstanceExecutor :: "string \<Rightarrow> 'r \<Rightarrow> Cluster \<Rightarrow> 'r InstanceExecutor" where
  "NewInstanceExecutor nodeID cr c =
     \<lparr>ex_NodeID = nodeID, ex_Ports = NewPortAllocator 30000 32767, ex_CrashLogs = NewLogRingBuffer, ex_probers = [],
      ex_activeSpecs = [], ex_activePorts = [], ex_Runtime = cr, ex_cluster = c, ex_requests = 0\<rparr>"

text \<open>
  \<open>ex_probers\<close> lists for every instance the probers that run: the probe, whether it is for
  readiness, and the port it dials.
\<close>

text \<open>The client sends no \<open>Authorization\<close> header. Its answers are \<open>None\<close> for every error.\<close>

definition Client_ListInstances ::
  "Server \<Rightarrow> AgentEnv \<Rightarrow> string \<Rightarrow> string \<Rightarrow> 'r InstanceExecutor \<Rightarrow> 'r InstanceExecutor \<times> Instance list option" where
  "Client_ListInstances srv env nodeID st e =
     (e\<lparr>ex_requests := Suc (ex_requests e)\<rparr>,
      if env_net env (ex_requests e) = Delivered
      then (case srv_List srv '''' nodeID st (ex_cluster e) of Inl _ \<Rightarrow> None | Inr insts \<Rightarrow> Some insts)
      else None)"

definition Client_ClaimInstance ::
  "Server \<Rightarrow> AgentEnv \<Rightarrow> string \<Rightarrow> string \<Rightarrow> 'r InstanceExecutor \<Rightarrow> 'r InstanceExecutor \<times> ClaimInstanceResponse option" where
  "Client_ClaimInstance srv env k nodeID e =
     (let n = ex_requests e; e1 = e\<lparr>ex_requests := Suc n\<rparr> in
      if env_net env n = NotSent then (e1, None)
      else
        (case srv_Claim srv '''' (env_rid env n) (env_now env n) k \<lparr>cq_NodeID = nodeID\<rparr> (ex_cluster e) of
           (c, ans) \<Rightarrow>
             (e1\<lparr>ex_cluster := c\<rparr>,
              if env_net env n = AnswerLost then None
              else (case ans of Inl _ \<Rightarrow> None | Inr resp \<Rightarrow> Some resp))))"

definition Client_ReportInstanceStatus ::
  "Server \<Rightarrow> AgentEnv \<Rightarrow> string \<Rightarrow> string \<Rightarrow> string \<Rightarrow> InstanceStatus \<Rightarrow> InstanceHealth \<Rightarrow> string
    \<Rightarrow> Instance.PortMapping list \<Rightarrow> 'r InstanceExecutor \<Rightarrow> 'r InstanceExecutor" where
  "Client_ReportInstanceStatus srv env k nodeID executionID st hl containerID ports e =
     (let n = ex_requests e; e1 = e\<lparr>ex_requests := Suc n\<rparr> in
      if env_net env n = NotSent then e1
      else
        e1\<lparr>ex_cluster := fst (srv_Report srv '''' (env_now env n) k
             \<lparr>sq_NodeID = nodeID, sq_ExecutionID = executionID, sq_Status = st, sq_Health = hl,
              sq_ContainerID = containerID, sq_Ports = ports\<rparr> (ex_cluster e))\<rparr>)"

section \<open>Probers\<close>

definition startProbers ::
  "Server \<Rightarrow> AgentEnv \<Rightarrow> Instance \<Rightarrow> int \<Rightarrow> AppSpec \<Rightarrow> 'r InstanceExecutor \<Rightarrow> 'r InstanceExecutor" where
  "startProbers srv env inst mappedPort spec e =
     (if map_of (ex_probers e) (i_ID inst) \<noteq> None then e
      else
        (let probers = (case s_ReadinessProbe spec of None \<Rightarrow> [] | Some p \<Rightarrow> [(p, True, mappedPort)]) @
                       (case s_LivenessProbe spec of None \<Rightarrow> [] | Some p \<Rightarrow> [(p, False, mappedPort)]);
             e1 = e\<lparr>ex_probers := mput (i_ID inst) probers (ex_probers e)\<rparr>
         in if s_ReadinessProbe spec = None \<and> i_Health inst \<noteq> HealthHealthy
            then Client_ReportInstanceStatus srv env (i_ID inst) (ex_NodeID e) (i_ExecutionID inst) StatusRunning
                   HealthHealthy (i_ContainerID inst) [] e1
            else e1))"

definition stopProbers :: "string \<Rightarrow> 'r InstanceExecutor \<Rightarrow> 'r InstanceExecutor" where
  "stopProbers k e = e\<lparr>ex_probers := mdel k (ex_probers e)\<rparr>"

section \<open>Starting what was assigned\<close>

fun host_ports :: "string \<Rightarrow> AppPort list \<Rightarrow> PortAllocator \<Rightarrow> PortAllocator \<times> Runtime.PortMapping list" where
  "host_ports k [] pa = (pa, [])"
| "host_ports k (p # ps) pa =
     (let (pa1, host) = (if ap_HostPort p = 0
                         then (case Port_Allocate k pa of
                                 (pa1, Some allocd) \<Rightarrow> (pa1, allocd) | (pa1, None) \<Rightarrow> (pa1, 0))
                         else (pa, ap_HostPort p));
          (pa2, rest) = host_ports k ps pa1
      in (pa2, \<lparr>rp_Internal = ap_ContainerPort p, rp_External = host\<rparr> # rest))"

definition container_spec :: "ClaimInstanceResponse \<Rightarrow> Runtime.PortMapping list \<Rightarrow> ContainerSpec" where
  "container_spec resp ports =
     (let inst = cr_Instance resp; spec = cr_Spec resp in
      \<lparr>cs_InstanceID = i_ID inst, cs_ExecutionID = cr_ExecutionID resp, cs_ApplicationID = i_ApplicationID inst,
       cs_DeploymentID = i_DeploymentID inst, cs_Image = s_Image spec, cs_Command = s_Command spec,
       cs_Args = s_Args spec, cs_Environment = s_Environment spec, cs_Ports = ports,
       cs_CPU = (case s_Resources spec of None \<Rightarrow> 0 | Some r \<Rightarrow> rr_CPU r),
       cs_MemoryMB = (case s_Resources spec of None \<Rightarrow> 0 | Some r \<Rightarrow> rr_MemoryMB r)\<rparr>)"

definition main_host_port :: "Runtime.PortMapping list \<Rightarrow> int" where
  "main_host_port ps = foldl (\<lambda>m p. if m = 0 then rp_External p else m) 0 ps"

definition start_claimed ::
  "Server \<Rightarrow> AgentEnv \<Rightarrow> 'r ContainerRuntime \<Rightarrow> Instance \<Rightarrow> ClaimInstanceResponse \<Rightarrow> 'r InstanceExecutor \<Rightarrow> 'r InstanceExecutor" where
  "start_claimed srv env cr inst resp e =
     (let (pa, ports) = host_ports (i_ID (cr_Instance resp)) (s_Ports (cr_Spec resp)) (ex_Ports e);
          (r, started) = rt_Start cr (ex_Runtime e) (container_spec resp ports);
          e1 = e\<lparr>ex_Ports := pa, ex_Runtime := r\<rparr>
      in case started of
           Inl _ \<Rightarrow>
             (let e2 = Client_ReportInstanceStatus srv env (i_ID inst) (ex_NodeID e) (cr_ExecutionID resp) StatusCrashed
                         HealthUnknown '''' [] e1
              in stopProbers (i_ID inst) (e2\<lparr>ex_Ports := Port_Release (i_ID inst) (ex_Ports e2)\<rparr>))
         | Inr info \<Rightarrow>
             (let st = (if ci_State info = CtExited then StatusCrashed else StatusRunning);
                  mainHostPort = main_host_port ports;
                  e2 = e1\<lparr>ex_activeSpecs := mput (i_ID inst) (cr_Spec resp) (ex_activeSpecs e1),
                          ex_activePorts := (if mainHostPort > 0 then mput (i_ID inst) mainHostPort (ex_activePorts e1)
                                             else ex_activePorts e1)\<rparr>;
                  e3 = Client_ReportInstanceStatus srv env (i_ID inst) (ex_NodeID e) (cr_ExecutionID resp) st HealthUnknown
                         (ci_ContainerID info)
                         (map (\<lambda>p. \<lparr>pm_Internal = rp_Internal p, pm_External = rp_External p\<rparr>) ports) e2
              in if st = StatusRunning
                 then startProbers srv env (inst\<lparr>i_ExecutionID := cr_ExecutionID resp\<rparr>) mainHostPort (cr_Spec resp) e3
                 else e3))"

definition poll_instance ::
  "Server \<Rightarrow> AgentEnv \<Rightarrow> 'r ContainerRuntime \<Rightarrow> 'r InstanceExecutor \<Rightarrow> Instance \<Rightarrow> 'r InstanceExecutor" where
  "poll_instance srv env cr e inst =
     (if i_Status inst \<noteq> StatusAssigned \<and> (i_Status inst \<noteq> StatusUnknown \<or> i_ExecutionID inst \<noteq> '''') then e
      else
        (case Client_ClaimInstance srv env (i_ID inst) (ex_NodeID e) e of
           (e1, None) \<Rightarrow> e1
         | (e1, Some resp) \<Rightarrow> start_claimed srv env cr inst resp e1))"

definition pollAndClaim :: "Server \<Rightarrow> AgentEnv \<Rightarrow> 'r ContainerRuntime \<Rightarrow> 'r InstanceExecutor \<Rightarrow> 'r InstanceExecutor" where
  "pollAndClaim srv env cr e =
     (case Client_ListInstances srv env (ex_NodeID e) '''' e of
        (e1, None) \<Rightarrow> e1
      | (e1, Some insts) \<Rightarrow> foldl (poll_instance srv env cr) e1 insts)"

section \<open>Watching what runs\<close>

definition container_of :: "Instance \<Rightarrow> string" where
  "container_of inst = (if i_ContainerID inst \<noteq> '''' then i_ContainerID inst else ''runstack-'' @ i_ID inst)"

definition retire :: "string \<Rightarrow> 'r InstanceExecutor \<Rightarrow> 'r InstanceExecutor" where
  "retire k e = stopProbers k (e\<lparr>ex_Ports := Port_Release k (ex_Ports e)\<rparr>)"

definition capture_crash :: "AgentEnv \<Rightarrow> 'r ContainerRuntime \<Rightarrow> Instance \<Rightarrow> 'r InstanceExecutor \<Rightarrow> 'r InstanceExecutor" where
  "capture_crash env cr inst e =
     (if map_of (lb_records (ex_CrashLogs e)) (i_ID inst) \<noteq> None then e
      else
        (case rt_Logs cr (ex_Runtime e) (container_of inst) of
           (r, l) \<Rightarrow>
             e\<lparr>ex_Runtime := r,
               ex_CrashLogs := CaptureAndFreeze (i_ApplicationID inst) (i_DeploymentID inst) (i_ID inst)
                 (i_ExecutionID inst) (ex_NodeID e) (case l of Inl _ \<Rightarrow> None | Inr s \<Rightarrow> Some s)
                 (env_now env (ex_requests e)) (ex_CrashLogs e)\<rparr>))"

text \<open>The two branches of the switch over the state of the container: the new state, and what to report.\<close>

definition watch_running ::
  "Server \<Rightarrow> AgentEnv \<Rightarrow> 'r ContainerRuntime \<Rightarrow> Instance \<Rightarrow> 'r InstanceExecutor
    \<Rightarrow> 'r InstanceExecutor \<times> (InstanceStatus \<times> InstanceHealth) option" where
  "watch_running srv env cr inst e =
     (if i_Status inst = StatusStopping then
        (let r1 = fst (rt_Stop cr (ex_Runtime e) (container_of inst));
             r2 = fst (rt_Remove cr r1 (container_of inst))
         in (stopProbers (i_ID inst) (e\<lparr>ex_Runtime := r2\<rparr>), Some (StatusStopped, HealthUnknown)))
      else if i_Status inst = StatusStarting \<or> i_Status inst = StatusUnknown then
        (case map_of (ex_activeSpecs e) (i_ID inst) of
           None \<Rightarrow> (e, Some (StatusRunning, i_Health inst))
         | Some spec \<Rightarrow>
             (startProbers srv env inst (mget_or 0 (ex_activePorts e) (i_ID inst)) spec e,
              Some (StatusRunning, i_Health inst)))
      else (e, None))"

definition watch_exited ::
  "AgentEnv \<Rightarrow> 'r ContainerRuntime \<Rightarrow> Instance \<Rightarrow> 'r InstanceExecutor
    \<Rightarrow> 'r InstanceExecutor \<times> (InstanceStatus \<times> InstanceHealth) option" where
  "watch_exited env cr inst e =
     (if i_Status inst = StatusStopping then
        (e\<lparr>ex_Runtime := fst (rt_Remove cr (ex_Runtime e) (container_of inst))\<rparr>, Some (StatusStopped, HealthOther ''''))
      else (stopProbers (i_ID inst) (capture_crash env cr inst e), Some (StatusCrashed, HealthOther '''')))"

definition monitor_instance ::
  "Server \<Rightarrow> AgentEnv \<Rightarrow> 'r ContainerRuntime \<Rightarrow> 'r InstanceExecutor \<Rightarrow> Instance \<Rightarrow> 'r InstanceExecutor" where
  "monitor_instance srv env cr e0 inst =
     (if i_ExecutionID inst = '''' then e0
      else
        (let name = container_of inst;
             (r, state) = rt_Status cr (ex_Runtime e0) name;
             e = e0\<lparr>ex_Runtime := r\<rparr>;
             report = (\<lambda>st hl e. Client_ReportInstanceStatus srv env (i_ID inst) (ex_NodeID e) (i_ExecutionID inst) st hl name [] e)
         in if i_Status inst = StatusStopped then
              (case state of
                 Inl _ \<Rightarrow> retire (i_ID inst) e
               | Inr _ \<Rightarrow>
                   (let r1 = fst (rt_Stop cr r name); r2 = fst (rt_Remove cr r1 name)
                    in retire (i_ID inst) (e\<lparr>ex_Runtime := r2\<rparr>)))
            else if i_Status inst = StatusCrashed then
              retire (i_ID inst)
                (if state = Inr CtRunning then e\<lparr>ex_Runtime := fst (rt_Stop cr r name)\<rparr> else e)
            else if i_Status inst \<notin> {StatusStarting, StatusRunning, StatusStopping, StatusUnknown} then e
            else
              (case state of
                 Inl err \<Rightarrow>
                   if err = ContainerNotFound
                   then report (if i_Status inst = StatusStopping then StatusStopped else StatusCrashed) HealthUnknown e
                   else e
               | Inr st \<Rightarrow>
                   (case (if st = CtRunning then watch_running srv env cr inst e
                          else if st = CtExited then watch_exited env cr inst e
                          else (e, None)) of
                      (e1, None) \<Rightarrow> e1
                    | (e1, Some (targetStatus, hl)) \<Rightarrow>
                        if targetStatus \<noteq> i_Status inst then report targetStatus hl e1 else e1))))"

definition monitorActive :: "Server \<Rightarrow> AgentEnv \<Rightarrow> 'r ContainerRuntime \<Rightarrow> 'r InstanceExecutor \<Rightarrow> 'r InstanceExecutor" where
  "monitorActive srv env cr e =
     (case Client_ListInstances srv env (ex_NodeID e) '''' e of
        (e1, None) \<Rightarrow> e1
      | (e1, Some insts) \<Rightarrow> foldl (monitor_instance srv env cr) e1 insts)"

definition agent_loop :: "Server \<Rightarrow> AgentEnv \<Rightarrow> 'r ContainerRuntime \<Rightarrow> 'r InstanceExecutor \<Rightarrow> 'r InstanceExecutor" where
  "agent_loop srv env cr e = monitorActive srv env cr (pollAndClaim srv env cr e)"

definition held_ports :: "Instance list \<Rightarrow> (int, string) gomap" where
  "held_ports insts =
     foldl (\<lambda>m inst. if i_Status inst \<in> {StatusStarting, StatusRunning, StatusStopping}
                     then foldl (\<lambda>m p. mput (pm_External p) (i_ID inst) m) m (i_Ports inst) else m) [] insts"

definition syncPorts :: "Server \<Rightarrow> AgentEnv \<Rightarrow> 'r InstanceExecutor \<Rightarrow> 'r InstanceExecutor" where
  "syncPorts srv env e =
     (case Client_ListInstances srv env (ex_NodeID e) '''' e of
        (e1, None) \<Rightarrow> e1
      | (e1, Some insts) \<Rightarrow> e1\<lparr>ex_Ports := Port_Sync (held_ports insts) (ex_Ports e1)\<rparr>)"

section \<open>Fencing\<close>

text \<open>Watching only ever stops and removes containers, and only ever frees ports.\<close>

definition less_running :: "(string \<Rightarrow> (string \<times> ContainerState) option) \<Rightarrow> (string \<Rightarrow> (string \<times> ContainerState) option) \<Rightarrow> bool" where
  "less_running v v' \<longleftrightarrow> (\<forall>k. v' k = None \<or> v' k = v k \<or> (\<exists>ex st. v k = Some (ex, st) \<and> v' k = Some (ex, CtExited)))"

lemma less_running_refl [simp]: "less_running v v"
  by (simp add: less_running_def)

lemma less_running_trans: "less_running u v \<Longrightarrow> less_running v w \<Longrightarrow> less_running u w"
  unfolding less_running_def by (metis option.distinct(1) option.inject prod.inject)

lemma Client_Report_frame [simp]:
  "ex_Runtime (Client_ReportInstanceStatus srv env k nd x st hl ct ps e) = ex_Runtime e"
  "ex_Ports (Client_ReportInstanceStatus srv env k nd x st hl ct ps e) = ex_Ports e"
  "ex_probers (Client_ReportInstanceStatus srv env k nd x st hl ct ps e) = ex_probers e"
  "ex_NodeID (Client_ReportInstanceStatus srv env k nd x st hl ct ps e) = ex_NodeID e"
  by (simp_all add: Client_ReportInstanceStatus_def Let_def)

lemma startProbers_frame [simp]:
  "ex_Runtime (startProbers srv env inst p spec e) = ex_Runtime e"
  "ex_Ports (startProbers srv env inst p spec e) = ex_Ports e"
  "ex_NodeID (startProbers srv env inst p spec e) = ex_NodeID e"
  "k \<noteq> i_ID inst \<Longrightarrow> map_of (ex_probers (startProbers srv env inst p spec e)) k = map_of (ex_probers e) k"
  by (simp_all add: startProbers_def Let_def)

lemma stopProbers_frame [simp]:
  "ex_Runtime (stopProbers k e) = ex_Runtime e" "ex_Ports (stopProbers k e) = ex_Ports e"
  "ex_NodeID (stopProbers k e) = ex_NodeID e"
  "map_of (ex_probers (stopProbers k e)) j = (if j = k then None else map_of (ex_probers e) j)"
  by (simp_all add: stopProbers_def)

lemma retire_frame [simp]:
  "ex_Runtime (retire k e) = ex_Runtime e" "ex_NodeID (retire k e) = ex_NodeID e"
  "ex_Ports (retire k e) = Port_Release k (ex_Ports e)"
  "map_of (ex_probers (retire k e)) j = (if j = k then None else map_of (ex_probers e) j)"
  by (simp_all add: retire_def)

definition quiet :: "(string \<Rightarrow> (string \<times> ContainerState) option) \<Rightarrow> PortAllocator \<Rightarrow> (string, 'p) gomap \<Rightarrow> Instance \<Rightarrow> bool" where
  "quiet v pa probers inst \<longleftrightarrow>
     (i_Status inst = StatusStopped \<longrightarrow> v (container_of inst) = None) \<and>
     (i_Status inst = StatusCrashed \<longrightarrow> (\<nexists>ex. v (container_of inst) = Some (ex, CtRunning))) \<and>
     (stopped_or_crashed (i_Status inst) \<longrightarrow>
        map_of (instanceMap pa) (i_ID inst) = None \<and> map_of probers (i_ID inst) = None)"

lemma quiet_less: "quiet v pa pr inst \<Longrightarrow> less_running v v' \<Longrightarrow> map_of (instanceMap pa') (i_ID inst) = None \<or> map_of (instanceMap pa') (i_ID inst) = map_of (instanceMap pa) (i_ID inst) \<Longrightarrow>
    map_of pr' (i_ID inst) = None \<or> map_of pr' (i_ID inst) = map_of pr (i_ID inst) \<Longrightarrow> quiet v' pa' pr' inst"
  unfolding quiet_def less_running_def by (metis ContainerState.distinct(1) option.distinct(1) option.inject prod.inject)

lemma Release_frame: "map_of (instanceMap (Port_Release k pa)) j = (if j = k then None else map_of (instanceMap pa) j)"
  by (auto simp: Port_Release_def split: option.splits)


definition watched ::
  "('r \<Rightarrow> string \<Rightarrow> (string \<times> ContainerState) option) \<Rightarrow> ('r \<Rightarrow> bool) \<Rightarrow> string \<Rightarrow> 'r InstanceExecutor \<Rightarrow> 'r InstanceExecutor \<Rightarrow> bool" where
  "watched view up k e e' \<longleftrightarrow>
     up (ex_Runtime e') \<and> less_running (view (ex_Runtime e)) (view (ex_Runtime e')) \<and>
     (\<forall>j. map_of (instanceMap (ex_Ports e')) j = None \<or>
          map_of (instanceMap (ex_Ports e')) j = map_of (instanceMap (ex_Ports e)) j) \<and>
     (\<forall>j. j \<noteq> k \<longrightarrow> map_of (ex_probers e') j = map_of (ex_probers e) j)"

lemma watched_quiet:
  assumes "watched view up k e e'" and "i_ID inst \<noteq> k"
    and "quiet (view (ex_Runtime e)) (ex_Ports e) (ex_probers e) inst"
  shows "quiet (view (ex_Runtime e')) (ex_Ports e') (ex_probers e') inst"
  using assms by (intro quiet_less [OF assms(3)]) (auto simp: watched_def)

lemma less_running_del [simp]: "less_running v (v(k := None))"
  by (simp add: less_running_def)

lemma less_running_exit [simp]: "v k = Some (ex, st) \<Longrightarrow> less_running v (v(k \<mapsto> (ex, CtExited)))"
  by (simp add: less_running_def)

context container_runtime
begin

lemma watched_refl: "up (ex_Runtime e) \<Longrightarrow> watched view up k e e"
  by (simp add: watched_def)

text \<open>The three calls of the watcher, on the view.\<close>

lemma stopped_view:
  assumes "up r"
  shows "up (fst (rt_Stop rt r k))" and "less_running (view r) (view (fst (rt_Stop rt r k)))"
    and "view (fst (rt_Stop rt r k)) k \<noteq> Some (ex, CtRunning)"
  using stop [OF assms, of k] by (auto split: option.splits)

lemma removed_view:
  assumes "up r"
  shows "up (fst (rt_Remove rt r k))" and "view (fst (rt_Remove rt r k)) = (view r)(k := None)"
  using remove [OF assms, of k] by auto

lemma stopped_removed_view:
  assumes "up r"
  shows "up (fst (rt_Remove rt (fst (rt_Stop rt r k)) k))"
    and "view (fst (rt_Remove rt (fst (rt_Stop rt r k)) k)) = (view r)(k := None)"
  using stop_then_remove [OF assms, of k] by (metis prod.collapse)+

lemma captured:
  assumes "up (ex_Runtime e)"
  shows "up (ex_Runtime (capture_crash env rt inst e))" and "view (ex_Runtime (capture_crash env rt inst e)) = view (ex_Runtime e)"
    and "ex_Ports (capture_crash env rt inst e) = ex_Ports e" and "ex_probers (capture_crash env rt inst e) = ex_probers e"
    and "ex_NodeID (capture_crash env rt inst e) = ex_NodeID e"
  using logs [OF assms, of "container_of inst"] assms by (auto simp: capture_crash_def split: prod.splits)

lemma watch_running_watched:
  assumes "up (ex_Runtime e)"
  shows "watched view up (i_ID inst) e (fst (watch_running srv env rt inst e))"
  using stopped_removed_view [OF assms, of "container_of inst"] assms
  by (auto simp: watch_running_def watched_def Let_def split: option.splits)

lemma watch_exited_watched:
  assumes "up (ex_Runtime e)"
  shows "watched view up (i_ID inst) e (fst (watch_exited env rt inst e))"
  using removed_view [OF assms, of "container_of inst"] captured [OF assms] assms
  by (auto simp: watch_exited_def watched_def)

end

lemma watched_report [simp]:
  "watched view up k e (Client_ReportInstanceStatus srv env j nd x st hl ct ps e') = watched view up k e e'"
  by (simp add: watched_def)

lemma watched_retire [simp]: "watched view up k e e' \<Longrightarrow> watched view up k e (retire k e')"
  by (auto simp: watched_def Release_frame)

lemma watched_trans:
  "watched view up k e e' \<Longrightarrow> watched view up k e' e'' \<Longrightarrow> watched view up k e e''"
  unfolding watched_def using less_running_trans by metis

context container_runtime
begin

lemma monitor_instance_quiet:
  assumes "up (ex_Runtime e)" and "i_ExecutionID inst \<noteq> ''''" and "e' = monitor_instance srv env rt e inst"
  shows "watched view up (i_ID inst) e e'" and "quiet (view (ex_Runtime e')) (ex_Ports e') (ex_probers e') inst"
proof -
  define name where "name = container_of inst"
  obtain r where r: "rt_Status rt (ex_Runtime e) name =
      (r, case view (ex_Runtime e) name of None \<Rightarrow> Inl ContainerNotFound | Some (ex, st) \<Rightarrow> Inr st)" "up r" "view r = view (ex_Runtime e)"
    using status [OF assms(1)] by blast
  define e1 where "e1 = e\<lparr>ex_Runtime := r\<rparr>"
  have w1: "watched view up (i_ID inst) e e1" using r by (simp add: watched_def e1_def)
  have up1: "up (ex_Runtime e1)" by (simp add: e1_def r)
  have run: "e' = monitor_instance srv env rt e inst" by (rule assms(3))
  define s1 where "s1 = fst (rt_Stop rt r name)"
  define s2 where "s2 = fst (rt_Remove rt s1 name)"
  have s: "up s1" "less_running (view r) (view s1)" "\<And>ex. view s1 name \<noteq> Some (ex, CtRunning)" "up s2" "view s2 = (view r)(name := None)"
    unfolding s1_def s2_def using stopped_view [OF r(2), of name] stopped_removed_view [OF r(2), of name] by simp_all
  consider "i_Status inst = StatusStopped" | "i_Status inst = StatusCrashed" | "\<not> stopped_or_crashed (i_Status inst)" by blast
  then have "watched view up (i_ID inst) e e' \<and> quiet (view (ex_Runtime e')) (ex_Ports e') (ex_probers e') inst"
  proof cases
    case 1
    show ?thesis
    proof (cases "view (ex_Runtime e) name")
      case None
      then have "e' = retire (i_ID inst) e1"
        using 1 assms(2) by (simp add: run monitor_instance_def Let_def e1_def name_def [symmetric] r(1))
      with None w1 1 show ?thesis by (simp add: quiet_def Release_frame name_def e1_def r(3))
    next
      case (Some p)
      then have e': "e' = retire (i_ID inst) (e1\<lparr>ex_Runtime := s2\<rparr>)"
        using 1 assms(2) by (cases p) (simp add: run monitor_instance_def Let_def e1_def name_def [symmetric] r(1) s1_def s2_def)
      have "watched view up (i_ID inst) e (e1\<lparr>ex_Runtime := s2\<rparr>)"
        using w1 by (simp add: watched_def e1_def s r(3))
      with 1 show ?thesis by (simp add: e' quiet_def Release_frame s name_def)
    qed
  next
    case 2
    show ?thesis
    proof (cases "\<exists>ex. view (ex_Runtime e) name = Some (ex, CtRunning)")
      case True
      then have e': "e' = retire (i_ID inst) (e1\<lparr>ex_Runtime := s1\<rparr>)"
        using 2 assms(2) by (auto simp: run monitor_instance_def Let_def e1_def name_def [symmetric] r(1) s1_def)
      have "watched view up (i_ID inst) e (e1\<lparr>ex_Runtime := s1\<rparr>)"
        using w1 s(1,2) by (simp add: watched_def e1_def r(3))
      with 2 show ?thesis by (simp add: e' quiet_def Release_frame s name_def [symmetric])
    next
      case False
      then have "e' = retire (i_ID inst) e1"
        using 2 assms(2) by (auto simp: run monitor_instance_def Let_def e1_def name_def [symmetric] r(1) split: option.splits)
      with False w1 2 show ?thesis by (simp add: quiet_def Release_frame name_def [symmetric] e1_def r(3))
    qed
  next
    case 3
    have "watched view up (i_ID inst) e e'"
    proof (cases "i_Status inst \<in> {StatusStarting, StatusRunning, StatusStopping, StatusUnknown}")
      case active: True
      show ?thesis
      proof (cases "view (ex_Runtime e) name")
        case None
        with 3 active w1 show ?thesis
          by (simp add: run monitor_instance_def Let_def e1_def name_def [symmetric] r(1) assms(2))
      next
        case (Some p)
        obtain ex st where p: "p = (ex, st)" by fastforce
        obtain e2 tgt where out: "(if st = CtRunning then watch_running srv env rt inst e1
          else if st = CtExited then watch_exited env rt inst e1 else (e1, None)) = (e2, tgt)" by fastforce
        have "watched view up (i_ID inst) e1 e2"
          using out watch_running_watched [OF up1, of inst srv env] watch_exited_watched [OF up1, of inst env] watched_refl [OF up1]
          by (metis fst_conv)
        from watched_trans [OF w1 this]
        show ?thesis
          using 3 active assms(2) out
          by (cases tgt) (auto simp: run monitor_instance_def Let_def e1_def name_def [symmetric] r(1) Some p)
      qed
    next
      case False
      with 3 w1 show ?thesis by (simp add: run monitor_instance_def Let_def e1_def name_def [symmetric] r(1) assms(2))
    qed
    with 3 show ?thesis by (simp add: quiet_def)
  qed
  then show "watched view up (i_ID inst) e e'" and "quiet (view (ex_Runtime e')) (ex_Ports e') (ex_probers e') inst" by simp_all
qed

lemma monitor_instances_up:
  assumes "up (ex_Runtime e)"
  shows "up (ex_Runtime (foldl (monitor_instance srv env rt) e insts))"
  using assms
proof (induction insts arbitrary: e)
  case (Cons inst insts)
  have "up (ex_Runtime (monitor_instance srv env rt e inst))"
    using monitor_instance_quiet(1) [OF Cons.prems _ refl, of inst] Cons.prems
    by (cases "i_ExecutionID inst = ''''") (simp_all add: monitor_instance_def watched_def)
  from Cons.IH [OF this] show ?case by simp
qed simp

lemma monitor_instances_quiet:
  assumes "up (ex_Runtime e)" and "distinct (map i_ID insts)" and "inst \<in> set insts" and "i_ExecutionID inst \<noteq> ''''"
    and "e' = foldl (monitor_instance srv env rt) e insts"
  shows "quiet (view (ex_Runtime e')) (ex_Ports e') (ex_probers e') inst"
  using assms(2,3,5)
proof (induction insts arbitrary: e' rule: rev_induct)
  case (snoc j js)
  define e1 where "e1 = foldl (monitor_instance srv env rt) e js"
  have up1: "up (ex_Runtime e1)" unfolding e1_def by (rule monitor_instances_up [OF assms(1)])
  have e': "e' = monitor_instance srv env rt e1 j" by (simp add: snoc.prems(3) e1_def)
  show ?case
  proof (cases "inst = j")
    case True
    then show ?thesis using monitor_instance_quiet(2) [OF up1 _ e'] assms(4) by simp
  next
    case False
    then have other: "inst \<in> set js" "i_ID inst \<noteq> i_ID j" using snoc.prems by (auto simp: image_iff)
    then have q: "quiet (view (ex_Runtime e1)) (ex_Ports e1) (ex_probers e1) inst"
      using snoc.IH [OF _ _ e1_def] snoc.prems by simp
    show ?thesis
    proof (cases "i_ExecutionID j = ''''")
      case True
      with q show ?thesis by (simp add: e' monitor_instance_def)
    next
      case False
      from watched_quiet [OF monitor_instance_quiet(1) [OF up1 False e'] other(2) q] show ?thesis .
    qed
  qed
qed simp

end

section \<open>Starting\<close>

text \<open>Requests about one instance leave the record of every other alone.\<close>

definition cl_keeps :: "string \<Rightarrow> Cluster \<Rightarrow> Cluster \<Rightarrow> bool" where
  "cl_keeps k c c' \<longleftrightarrow>
     keyed i_ID (cl_insts c') \<and> map_of (cl_insts c') k = map_of (cl_insts c) k \<and> cl_secrets c' = cl_secrets c \<and>
     (\<forall>d dep. Dep_Get (cl_deps c) d = Inr dep \<longrightarrow>
        (\<exists>dep'. Dep_Get (cl_deps c') d = Inr dep' \<and> d_SpecSnapshot dep' = d_SpecSnapshot dep \<and>
           d_ApplicationID dep' = d_ApplicationID dep))"

lemma cl_keeps_refl: "keyed i_ID (cl_insts c) \<Longrightarrow> cl_keeps k c c"
  by (simp add: cl_keeps_def)

lemma cl_keeps_trans: "cl_keeps k c c' \<Longrightarrow> cl_keeps k c' c'' \<Longrightarrow> cl_keeps k c c''"
  unfolding cl_keeps_def by metis

lemma claim_fields:
  assumes "Inst_Claim rid j nd r = (r1, Inr inst)"
  shows "\<exists>i. map_of r j = Some i \<and> r1 = mput j inst r \<and> i_ID inst = i_ID i \<and> i_NodeID inst = nd \<and>
    i_DeploymentID inst = i_DeploymentID i \<and> i_Status inst = StatusStarting \<and> i_ExecutionID inst = rid"
  using assms by (auto simp: Inst_Claim_def Let_def split: option.splits if_splits)

lemma Inst_Claim_fail: "Inst_Claim rid j nd r = (r1, Inl e) \<Longrightarrow> r1 = r"
  by (auto simp: Inst_Claim_def Let_def split: option.splits if_splits)

lemma UpdateState_table:
  "keyed i_ID r \<Longrightarrow> keyed i_ID (fst (Inst_UpdateState now j st nd ct r))"
  "j \<noteq> k \<Longrightarrow> map_of (fst (Inst_UpdateState now j st nd ct r)) k = map_of r k"
  by (auto simp: Inst_UpdateState_def Let_def split: option.splits dest: keyed_map_of intro!: keyed_mput)

lemma Report_same_write:
  "fst (Report_same j ct ps i r) = r \<or> (\<exists>i'. i_ID i' = i_ID i \<and> fst (Report_same j ct ps i r) = mput j i' r)"
  unfolding Report_same_def Let_def fst_conv
  by (split if_split, intro conjI impI disjI2 exI conjI refl disjI1, simp_all)

lemma ReportStatus_cases:
  "map_of r j = Some i \<Longrightarrow> fst (Inst_ReportStatus now j nd x st hl ct ps r) \<in>
     {r, fst (Report_same j ct ps i r), mput j (Report_apply now st hl ct ps i) r}"
  unfolding Inst_ReportStatus_def Let_def
  by (simp only: option.case if_distrib [of fst] fst_conv) (simp only: split: if_split, blast)

lemma ReportStatus_write:
  assumes "map_of r j = Some i"
  shows "fst (Inst_ReportStatus now j nd x st hl ct ps r) = r \<or>
    (\<exists>i'. i_ID i' = i_ID i \<and> fst (Inst_ReportStatus now j nd x st hl ct ps r) = mput j i' r)"
  using ReportStatus_cases [OF assms, of now nd x st hl ct ps] Report_same_write [of j ct ps i r]
    Report_apply_simps(1) [of now st hl ct ps i]
  by (elim insertE emptyE) (simp_all only:, blast+)

lemma ReportStatus_table:
  "keyed i_ID r \<Longrightarrow> keyed i_ID (fst (Inst_ReportStatus now j nd x st hl ct ps r))"
  "j \<noteq> k \<Longrightarrow> map_of (fst (Inst_ReportStatus now j nd x st hl ct ps r)) k = map_of r k"
proof -
  have put: "fst (Inst_ReportStatus now j nd x st hl ct ps r) = r \<or>
      (\<exists>i i'. map_of r j = Some i \<and> i_ID i' = i_ID i \<and> fst (Inst_ReportStatus now j nd x st hl ct ps r) = mput j i' r)"
    using ReportStatus_write [of r j] by (cases "map_of r j") (simp add: Inst_ReportStatus_def, blast)
  show "keyed i_ID r \<Longrightarrow> keyed i_ID (fst (Inst_ReportStatus now j nd x st hl ct ps r))"
    using put keyed_mput keyed_map_of by metis
  show "j \<noteq> k \<Longrightarrow> map_of (fst (Inst_ReportStatus now j nd x st hl ct ps r)) k = map_of r k"
    using put map_of_mput by metis
qed

lemma Api_Claim_table:
  assumes "keyed i_ID r" and "Api_Claim rid now j q deps sec r = (r', ans)"
  shows "keyed i_ID r'" and "j \<noteq> k \<Longrightarrow> map_of r' k = map_of r k"
    and "ans = Inr resp \<Longrightarrow> i_ID (cr_Instance resp) = j"
proof -
  have claim: "keyed i_ID r1 \<and> i_ID inst = j \<and> (j \<noteq> k \<longrightarrow> map_of r1 k = map_of r k)"
    if "Inst_Claim rid j nd r = (r1, Inr inst)" for nd r1 inst
    using claim_fields [OF that] assms(1) by (auto dest: keyed_map_of intro!: keyed_mput)
  have "keyed i_ID r' \<and> (j \<noteq> k \<longrightarrow> map_of r' k = map_of r k) \<and> (\<forall>resp. ans = Inr resp \<longrightarrow> i_ID (cr_Instance resp) = j)"
    using assms claim
    by (auto simp: Api_Claim_def Let_def UpdateState_table dest: Inst_Claim_fail
        split: option.splits if_splits prod.splits sum.splits)
  then show "keyed i_ID r'" and "j \<noteq> k \<Longrightarrow> map_of r' k = map_of r k"
    and "ans = Inr resp \<Longrightarrow> i_ID (cr_Instance resp) = j" by simp_all
qed

lemma RecordCrash_keeps:
  assumes "Dep_Get deps d = Inr dep"
  shows "\<exists>dep'. Dep_Get (fst (Dep_RecordCrash x th deps)) d = Inr dep' \<and> d_SpecSnapshot dep' = d_SpecSnapshot dep \<and>
    d_ApplicationID dep' = d_ApplicationID dep"
  using assms by (auto simp: Dep_Get_def Dep_RecordCrash_def put_dep_def Let_def split: option.splits)

lemma Api_ReportStatus_table:
  assumes "keyed i_ID r" and "Api_ReportStatus now j q (r, deps) = ((r', deps'), ans)"
  shows "keyed i_ID r'" and "j \<noteq> k \<Longrightarrow> map_of r' k = map_of r k"
    and "Dep_Get deps d = Inr dep \<Longrightarrow> \<exists>dep'. Dep_Get deps' d = Inr dep' \<and> d_SpecSnapshot dep' = d_SpecSnapshot dep \<and>
           d_ApplicationID dep' = d_ApplicationID dep"
proof -
  have out: "r' = r \<or> (\<exists>nd x st hl ct ps. r' = fst (Inst_ReportStatus now j nd x st hl ct ps r))"
    "deps' = deps \<or> (\<exists>x th. deps' = fst (Dep_RecordCrash x th deps))"
    using assms(2) by (auto simp: Api_ReportStatus_def Let_def split: option.splits if_splits prod.splits sum.splits)
      (metis fst_conv)+
  then show "keyed i_ID r'" and "j \<noteq> k \<Longrightarrow> map_of r' k = map_of r k"
    and "Dep_Get deps d = Inr dep \<Longrightarrow> \<exists>dep'. Dep_Get deps' d = Inr dep' \<and> d_SpecSnapshot dep' = d_SpecSnapshot dep \<and>
           d_ApplicationID dep' = d_ApplicationID dep"
    using assms(1) ReportStatus_table RecordCrash_keeps by auto
qed

lemma serve_claim_keeps:
  "keyed i_ID (cl_insts c) \<Longrightarrow> j \<noteq> k \<Longrightarrow> cl_keeps k c (fst (serve_claim rid now j q c))"
  using Api_Claim_table(1,2) [of "cl_insts c"] by (auto simp: serve_claim_def cl_keeps_def split: prod.split)

lemma serve_report_keeps:
  "keyed i_ID (cl_insts c) \<Longrightarrow> j \<noteq> k \<Longrightarrow> cl_keeps k c (fst (serve_report now j q c))"
  using Api_ReportStatus_table [of "cl_insts c"] by (auto simp: serve_report_def cl_keeps_def split: prod.split)

definition others ::
  "('r \<Rightarrow> string \<Rightarrow> (string \<times> ContainerState) option) \<Rightarrow> ('r \<Rightarrow> bool) \<Rightarrow> string \<Rightarrow> 'r InstanceExecutor \<Rightarrow> 'r InstanceExecutor \<Rightarrow> bool" where
  "others view up k e e' \<longleftrightarrow>
     cl_keeps k (ex_cluster e) (ex_cluster e') \<and> up (ex_Runtime e') \<and> ex_NodeID e' = ex_NodeID e \<and>
     view (ex_Runtime e') (containerName k) = view (ex_Runtime e) (containerName k)"

lemma others_trans: "others view up k e e' \<Longrightarrow> others view up k e' e'' \<Longrightarrow> others view up k e e''"
  unfolding others_def using cl_keeps_trans by metis

lemma report_others:
  assumes "others view up k e e'" and "j \<noteq> k"
  shows "others view up k e (Client_ReportInstanceStatus open_server env j nd x st hl ct ps e')"
proof -
  have "keyed i_ID (cl_insts (ex_cluster e'))" using assms(1) by (simp add: others_def cl_keeps_def)
  from serve_report_keeps [OF this assms(2)] assms(1) show ?thesis
    by (auto simp: others_def Client_ReportInstanceStatus_def Let_def open_server_def intro: cl_keeps_trans)
qed

lemma startProbers_others:
  assumes "others view up k e e'" and "i_ID inst \<noteq> k"
  shows "others view up k e (startProbers open_server env inst p spec e')"
proof -
  have "others view up k e (e'\<lparr>ex_probers := ps\<rparr>)" for ps using assms(1) by (simp add: others_def)
  from report_others [OF this assms(2)] this assms(1) show ?thesis
    by (simp add: startProbers_def Let_def)
qed

lemma others_fields [simp]:
  "others view up k e (e'\<lparr>ex_Ports := pa\<rparr>) = others view up k e e'"
  "others view up k e (e'\<lparr>ex_activeSpecs := sp\<rparr>) = others view up k e e'"
  "others view up k e (e'\<lparr>ex_activePorts := po\<rparr>) = others view up k e e'"
  "others view up k e (stopProbers j e') = others view up k e e'"
  by (simp_all add: others_def stopProbers_def)

context container_runtime
begin

lemma start_view:
  assumes "up r" and "rt_Start rt r spec = (r', out)"
  shows "up r'" and "k \<noteq> containerName (cs_InstanceID spec) \<Longrightarrow> view r' k = view r k"
proof -
  have "up r' \<and> (k \<noteq> containerName (cs_InstanceID spec) \<longrightarrow> view r' k = view r k)"
  proof (cases "view r (containerName (cs_InstanceID spec))")
    case None
    with start_new [OF assms(1) None] assms(2) show ?thesis by auto
  next
    case (Some p)
    then show ?thesis
      using start_same [OF assms(1)] start_conflict [OF assms(1)] assms(2)
      by (cases p; cases "fst p = cs_ExecutionID spec") fastforce+
  qed
  then show "up r'" and "k \<noteq> containerName (cs_InstanceID spec) \<Longrightarrow> view r' k = view r k" by simp_all
qed

lemma start_claimed_others:
  assumes "others view up k e0 e" and "i_ID inst \<noteq> k" and "i_ID (cr_Instance resp) = i_ID inst"
  shows "others view up k e0 (start_claimed open_server env rt inst resp e)"
proof -
  obtain pa ports where hp: "host_ports (i_ID (cr_Instance resp)) (s_Ports (cr_Spec resp)) (ex_Ports e) = (pa, ports)" by fastforce
  obtain r out where st: "rt_Start rt (ex_Runtime e) (container_spec resp ports) = (r, out)" by fastforce
  have "up (ex_Runtime e)" using assms(1) by (simp add: others_def)
  from start_view [OF this st] assms(1-3) have "others view up k e0 (e\<lparr>ex_Runtime := r\<rparr>)"
    by (simp add: others_def container_spec_def Let_def containerName_def)
  then have e1: "others view up k e0 (e\<lparr>ex_Ports := pa, ex_Runtime := r\<rparr>)" by (simp add: others_def)
  show ?thesis
  proof (cases out)
    case (Inl err)
    with e1 assms(2) show ?thesis by (simp add: start_claimed_def Let_def hp st report_others del: Client_Report_frame)
  next
    case (Inr info)
    have "others view up k e0 (e\<lparr>ex_Ports := pa, ex_Runtime := r, ex_activeSpecs := sp, ex_activePorts := po\<rparr>)" for sp po
      using e1 by (simp add: others_def)
    with assms(2) Inr show ?thesis
      by (simp add: start_claimed_def Let_def hp st report_others startProbers_others)
  qed
qed

lemma poll_instance_others:
  assumes "up (ex_Runtime e)" and "keyed i_ID (cl_insts (ex_cluster e))" and "i_ID inst \<noteq> k"
  shows "others view up k e (poll_instance open_server env rt e inst)"
proof -
  have e: "others view up k e e" using assms by (simp add: others_def cl_keeps_refl)
  obtain e1 ans where cl: "Client_ClaimInstance open_server env (i_ID inst) (ex_NodeID e) e = (e1, ans)" by fastforce
  obtain c a where sc: "serve_claim (env_rid env (ex_requests e)) (env_now env (ex_requests e)) (i_ID inst)
    \<lparr>cq_NodeID = ex_NodeID e\<rparr> (ex_cluster e) = (c, a)" by fastforce
  have "cl_keeps k (ex_cluster e) c" using serve_claim_keeps [OF assms(2,3)] sc by (metis fst_conv)
  then have e1: "others view up k e e1"
    using cl e by (auto simp: Client_ClaimInstance_def Let_def open_server_def sc others_def split: if_splits)
  show ?thesis
  proof (cases ans)
    case None
    with e e1 cl show ?thesis by (simp add: poll_instance_def)
  next
    case (Some resp)
    then have "a = Inr resp"
      using cl by (auto simp: Client_ClaimInstance_def Let_def open_server_def sc split: if_splits sum.splits)
    then have "i_ID (cr_Instance resp) = i_ID inst"
      using sc Api_Claim_table(3) [OF assms(2)] by (auto simp: serve_claim_def split: prod.splits)
    from start_claimed_others [OF e1 assms(3) this] e Some cl show ?thesis by (simp add: poll_instance_def)
  qed
qed

lemma poll_instances_others:
  assumes "up (ex_Runtime e)" and "keyed i_ID (cl_insts (ex_cluster e))" and "\<And>i. i \<in> set insts \<Longrightarrow> i_ID i \<noteq> k"
  shows "others view up k e (foldl (poll_instance open_server env rt) e insts)"
  using assms
proof (induction insts arbitrary: e)
  case Nil
  then show ?case by (simp add: others_def cl_keeps_refl)
next
  case (Cons inst insts)
  have step: "others view up k e (poll_instance open_server env rt e inst)"
    by (rule poll_instance_others) (use Cons.prems in simp_all)
  then have "up (ex_Runtime (poll_instance open_server env rt e inst))"
    "keyed i_ID (cl_insts (ex_cluster (poll_instance open_server env rt e inst)))"
    by (simp_all add: others_def cl_keeps_def)
  from others_trans [OF step Cons.IH [OF this]] Cons.prems show ?case by simp
qed

end

text \<open>What the control plane records of an instance whose container runs.\<close>

definition recorded :: "string \<Rightarrow> string \<Rightarrow> string \<Rightarrow> InstanceStatus \<Rightarrow> Cluster \<Rightarrow> bool" where
  "recorded k nd x st c \<longleftrightarrow>
     (\<exists>i. map_of (cl_insts c) k = Some i \<and> i_NodeID i = nd \<and> i_ExecutionID i = x \<and> i_Status i = st)"

lemma serve_report_running:
  assumes "recorded k nd x st c" and "st = StatusStarting \<or> st = StatusRunning" and "k \<noteq> ''''" and "nd \<noteq> ''''" and "x \<noteq> ''''"
  shows "recorded k nd x StatusRunning
    (fst (serve_report now k \<lparr>sq_NodeID = nd, sq_ExecutionID = x, sq_Status = StatusRunning, sq_Health = hl,
       sq_ContainerID = ct, sq_Ports = ps\<rparr> c))"
proof -
  obtain i where i: "map_of (cl_insts c) k = Some i" "i_NodeID i = nd" "i_ExecutionID i = x" "i_Status i = st"
    using assms(1) by (auto simp: recorded_def)
  have "\<exists>i'. map_of (fst (Inst_ReportStatus now k nd x StatusRunning hl ct ps (cl_insts c))) k = Some i' \<and>
      i_NodeID i' = nd \<and> i_ExecutionID i' = x \<and> i_Status i' = StatusRunning"
    using i assms(2) by (auto simp: Inst_ReportStatus_def Report_same_def Let_def)
  then show ?thesis
    using i assms by (auto simp: recorded_def serve_report_def Api_ReportStatus_def Let_def split: prod.splits sum.splits)
qed

lemma report_running:
  assumes "recorded k (ex_NodeID e) x st (ex_cluster e)" and "st = StatusStarting \<or> st = StatusRunning"
    and "k \<noteq> ''''" and "ex_NodeID e \<noteq> ''''" and "x \<noteq> ''''" and "\<And>n. env_net env n = Delivered"
  shows "recorded k (ex_NodeID e) x StatusRunning
    (ex_cluster (Client_ReportInstanceStatus open_server env k (ex_NodeID e) x StatusRunning hl ct ps e))"
  using serve_report_running [OF assms(1-5)] assms(6)
  by (simp add: Client_ReportInstanceStatus_def Let_def open_server_def)

lemma startProbers_running:
  assumes "recorded (i_ID inst) (ex_NodeID e) (i_ExecutionID inst) StatusRunning (ex_cluster e)"
    and "i_ID inst \<noteq> ''''" and "ex_NodeID e \<noteq> ''''" and "i_ExecutionID inst \<noteq> ''''" and "\<And>n. env_net env n = Delivered"
  shows "recorded (i_ID inst) (ex_NodeID e) (i_ExecutionID inst) StatusRunning
    (ex_cluster (startProbers open_server env inst p spec e))"
  using assms report_running [of "i_ID inst" "e\<lparr>ex_probers := ps\<rparr>" for ps] by (simp add: startProbers_def Let_def)

definition resolvable :: "SecretRegistry \<Rightarrow> Deployment \<Rightarrow> bool" where
  "resolvable sec dep \<longleftrightarrow> distinct (map fst (s_Environment (d_SpecSnapshot dep))) \<and>
     (\<forall>(n, v) \<in> set (s_Environment (d_SpecSnapshot dep)). \<not> unresolved sec (d_ApplicationID dep) v)"

lemma serve_claim_runs:
  assumes "map_of (cl_insts c) k = Some i" and "i_Status i = StatusAssigned" and "i_NodeID i = nd" and "i_ID i = k"
    and "Dep_Get (cl_deps c) (i_DeploymentID i) = Inr dep" and "resolvable (cl_secrets c) dep" and "k \<noteq> ''''" and "nd \<noteq> ''''"
  shows "\<exists>resp. snd (serve_claim x now k \<lparr>cq_NodeID = nd\<rparr> c) = Inr resp \<and> i_ID (cr_Instance resp) = k \<and>
    cr_ExecutionID resp = x \<and> recorded k nd x StatusStarting (fst (serve_claim x now k \<lparr>cq_NodeID = nd\<rparr> c))"
proof -
  obtain r1 inst where cl: "Inst_Claim x k nd (cl_insts c) = (r1, Inr inst)"
    using assms(1-3) by (simp add: Inst_Claim_def Let_def)
  note f = claim_fields [OF cl]
  obtain out where "(if s_Environment (d_SpecSnapshot dep) \<noteq> []
      then resolve_env (cl_secrets c) (d_ApplicationID dep) (s_Environment (d_SpecSnapshot dep)) []
      else Inr (s_Environment (d_SpecSnapshot dep))) = Inr out"
    using resolve_env_result [of "s_Environment (d_SpecSnapshot dep)" "cl_secrets c" "d_ApplicationID dep" "[]"] assms(6)
    by (cases "s_Environment (d_SpecSnapshot dep) = []") (auto simp: resolvable_def split: if_splits)
  with f assms cl show ?thesis
    by (auto simp: serve_claim_def Api_Claim_def Let_def recorded_def split: if_splits)
qed

context container_runtime
begin

lemma start_claimed_runs:
  assumes "up (ex_Runtime e)" and "view (ex_Runtime e) (containerName k) = None" and "i_ID inst = k" and "i_ID (cr_Instance resp) = k"
    and "recorded k (ex_NodeID e) (cr_ExecutionID resp) StatusStarting (ex_cluster e)"
    and "k \<noteq> ''''" and "ex_NodeID e \<noteq> ''''" and "cr_ExecutionID resp \<noteq> ''''" and "\<And>n. env_net env n = Delivered"
    and "e' = start_claimed open_server env rt inst resp e"
  shows "recorded k (ex_NodeID e) (cr_ExecutionID resp) StatusRunning (ex_cluster e') \<and>
    view (ex_Runtime e') (containerName k) = Some (cr_ExecutionID resp, CtRunning) \<and> up (ex_Runtime e')"
proof -
  obtain pa ports where hp: "host_ports k (s_Ports (cr_Spec resp)) (ex_Ports e) = (pa, ports)" by fastforce
  have cs: "cs_InstanceID (container_spec resp ports) = k" "cs_ExecutionID (container_spec resp ports) = cr_ExecutionID resp"
    by (simp_all add: container_spec_def Let_def assms(4))
  obtain r info where st: "rt_Start rt (ex_Runtime e) (container_spec resp ports) = (r, Inr info)" "up r"
    "ci_State info = CtRunning" "view r (containerName k) = Some (cr_ExecutionID resp, CtRunning)"
    using start_new [OF assms(1), of "container_spec resp ports"] assms(2) by (auto simp: cs)
  define e2 where "e2 = e\<lparr>ex_Ports := pa, ex_Runtime := r, ex_activeSpecs := mput k (cr_Spec resp) (ex_activeSpecs e),
    ex_activePorts := (if main_host_port ports > 0 then mput k (main_host_port ports) (ex_activePorts e) else ex_activePorts e)\<rparr>"
  define e3 where "e3 = Client_ReportInstanceStatus open_server env k (ex_NodeID e) (cr_ExecutionID resp) StatusRunning
    HealthUnknown (ci_ContainerID info) (map (\<lambda>p. \<lparr>pm_Internal = rp_Internal p, pm_External = rp_External p\<rparr>) ports) e2"
  have e': "e' = startProbers open_server env (inst\<lparr>i_ExecutionID := cr_ExecutionID resp\<rparr>) (main_host_port ports) (cr_Spec resp) e3"
    by (simp add: assms(3,4,10) start_claimed_def Let_def hp st(1,3) e3_def e2_def)
  have f: "ex_NodeID e2 = ex_NodeID e" "ex_NodeID e3 = ex_NodeID e" "ex_Runtime e3 = r" "ex_cluster e2 = ex_cluster e"
    by (simp_all add: e3_def e2_def)
  have "recorded k (ex_NodeID e) (cr_ExecutionID resp) StatusRunning (ex_cluster e3)"
    unfolding e3_def using report_running [of k e2 "cr_ExecutionID resp" StatusStarting env] assms(5-9) by (simp add: f)
  then have "recorded k (ex_NodeID e) (cr_ExecutionID resp) StatusRunning (ex_cluster e')"
    unfolding e' using startProbers_running [of "inst\<lparr>i_ExecutionID := cr_ExecutionID resp\<rparr>" e3 env] assms(3,6-9) by (simp add: f)
  then show ?thesis using st by (simp add: e' f)
qed

end

definition startable :: "('r \<Rightarrow> string \<Rightarrow> (string \<times> ContainerState) option) \<Rightarrow> string \<Rightarrow> 'r InstanceExecutor \<Rightarrow> bool" where
  "startable view k e \<longleftrightarrow> k \<noteq> '''' \<and> ex_NodeID e \<noteq> '''' \<and> view (ex_Runtime e) (containerName k) = None \<and>
     (\<exists>i dep. map_of (cl_insts (ex_cluster e)) k = Some i \<and> i_Status i = StatusAssigned \<and> i_NodeID i = ex_NodeID e \<and>
        Dep_Get (cl_deps (ex_cluster e)) (i_DeploymentID i) = Inr dep \<and> resolvable (cl_secrets (ex_cluster e)) dep)"

lemma startable_others:
  assumes "others view up k e e'" and "startable view k e"
  shows "startable view k e'"
proof -
  obtain i dep where i: "map_of (cl_insts (ex_cluster e)) k = Some i" "i_Status i = StatusAssigned" "i_NodeID i = ex_NodeID e"
    "Dep_Get (cl_deps (ex_cluster e)) (i_DeploymentID i) = Inr dep" "resolvable (cl_secrets (ex_cluster e)) dep"
    using assms(2) by (auto simp: startable_def)
  moreover obtain dep' where "Dep_Get (cl_deps (ex_cluster e')) (i_DeploymentID i) = Inr dep'"
    "d_SpecSnapshot dep' = d_SpecSnapshot dep" "d_ApplicationID dep' = d_ApplicationID dep"
    using assms(1) i(4) unfolding others_def cl_keeps_def by blast
  ultimately show ?thesis
    using assms by (simp add: startable_def others_def cl_keeps_def resolvable_def)
qed

context container_runtime
begin

lemma poll_instance_runs:
  assumes "up (ex_Runtime e)" and "keyed i_ID (cl_insts (ex_cluster e))" and "startable view k e"
    and "i_ID inst = k" and "i_Status inst = StatusAssigned" and "\<And>n. env_net env n = Delivered" and "\<And>n. env_rid env n \<noteq> ''''"
    and "e' = poll_instance open_server env rt e inst"
  shows "\<exists>x. recorded k (ex_NodeID e) x StatusRunning (ex_cluster e') \<and>
    view (ex_Runtime e') (containerName k) = Some (x, CtRunning) \<and> up (ex_Runtime e')"
proof -
  obtain i dep where i: "k \<noteq> ''''" "ex_NodeID e \<noteq> ''''" "view (ex_Runtime e) (containerName k) = None"
    "map_of (cl_insts (ex_cluster e)) k = Some i" "i_Status i = StatusAssigned" "i_NodeID i = ex_NodeID e"
    "Dep_Get (cl_deps (ex_cluster e)) (i_DeploymentID i) = Inr dep" "resolvable (cl_secrets (ex_cluster e)) dep"
    using assms(3) by (auto simp: startable_def)
  define n where "n = ex_requests e"
  obtain c resp where cl: "serve_claim (env_rid env n) (env_now env n) k \<lparr>cq_NodeID = ex_NodeID e\<rparr> (ex_cluster e) = (c, Inr resp)"
    "i_ID (cr_Instance resp) = k" "cr_ExecutionID resp = env_rid env n" "recorded k (ex_NodeID e) (env_rid env n) StatusStarting c"
    using serve_claim_runs [OF i(4,5,6) keyed_map_of [OF assms(2) i(4)] i(7,8,1,2), of "env_rid env n" "env_now env n"]
    by (metis fst_conv prod.collapse snd_conv)
  define e1 where "e1 = e\<lparr>ex_requests := Suc n, ex_cluster := c\<rparr>"
  have "Client_ClaimInstance open_server env k (ex_NodeID e) e = (e1, Some resp)"
    using cl(1) by (simp add: Client_ClaimInstance_def Let_def open_server_def assms(6) n_def [symmetric] e1_def)
  then have e': "e' = start_claimed open_server env rt inst resp e1"
    by (simp add: assms(4,5,8) poll_instance_def)
  have "ex_Runtime e1 = ex_Runtime e" "ex_NodeID e1 = ex_NodeID e" "ex_cluster e1 = c" by (simp_all add: e1_def)
  with start_claimed_runs [OF _ _ assms(4) cl(2) _ i(1) _ _ assms(6) e'] assms(1,7) i(2,3) cl(3,4) show ?thesis by auto
qed

lemma pollAndClaim_runs:
  assumes "up (ex_Runtime e)" and "keyed i_ID (cl_insts (ex_cluster e))" and "startable view k e"
    and "\<And>n. env_net env n = Delivered" and "\<And>n. env_rid env n \<noteq> ''''"
    and "e' = pollAndClaim open_server env rt e"
  shows "\<exists>x. recorded k (ex_NodeID e) x StatusRunning (ex_cluster e') \<and>
    view (ex_Runtime e') (containerName k) = Some (x, CtRunning)"
proof -
  define e0 where "e0 = e\<lparr>ex_requests := Suc (ex_requests e)\<rparr>"
  define insts where "insts = Api_List (ex_NodeID e) '''' (cl_insts (ex_cluster e))"
  have e': "e' = foldl (poll_instance open_server env rt) e0 insts"
    by (simp add: assms(4,6) pollAndClaim_def Client_ListInstances_def open_server_def e0_def insts_def)
  obtain i where i: "map_of (cl_insts (ex_cluster e)) k = Some i" "i_Status i = StatusAssigned" "i_NodeID i = ex_NodeID e" "i_ID i = k"
    using assms(3) keyed_map_of [OF assms(2)] by (auto simp: startable_def)
  have dist: "distinct (map i_ID insts)"
    unfolding insts_def Api_List_def Inst_List_def by (intro distinct_map_filter keyed_ids_distinct assms(2))
  have "i \<in> set insts"
    using i keyed_mem [OF assms(2), of i] by (simp add: insts_def Api_List_def Inst_List_def)
  then obtain xs ys where split: "insts = xs @ i # ys" by (meson split_list)
  have xs: "\<And>j. j \<in> set xs \<Longrightarrow> i_ID j \<noteq> k" and ys: "\<And>j. j \<in> set ys \<Longrightarrow> i_ID j \<noteq> k"
    using dist i(4) by (auto simp: split image_iff)
  define e1 where "e1 = foldl (poll_instance open_server env rt) e0 xs"
  define e2 where "e2 = poll_instance open_server env rt e1 i"
  have o1: "others view up k e0 e1"
    unfolding e1_def by (rule poll_instances_others) (use assms(1,2) xs in \<open>simp_all add: e0_def\<close>)
  have s0: "startable view k e0" using assms(3) by (simp add: startable_def e0_def)
  have e1: "up (ex_Runtime e1)" "keyed i_ID (cl_insts (ex_cluster e1))" "ex_NodeID e1 = ex_NodeID e"
    using o1 by (simp_all add: others_def cl_keeps_def e0_def)
  obtain x where x: "recorded k (ex_NodeID e) x StatusRunning (ex_cluster e2)"
    "view (ex_Runtime e2) (containerName k) = Some (x, CtRunning)" "up (ex_Runtime e2)"
    using poll_instance_runs [OF e1(1,2) startable_others [OF o1 s0] i(4,2) assms(4,5) e2_def] e1(3) by auto
  have "keyed i_ID (cl_insts (ex_cluster e2))"
    using poll_instance_others [OF e1(1,2), of i "CHR ''x'' # k" env] i(4) by (simp add: others_def cl_keeps_def e2_def)
  from poll_instances_others [OF x(3) this ys] x show ?thesis
    unfolding e' split by (auto simp: e1_def [symmetric] e2_def [symmetric] others_def cl_keeps_def recorded_def)
qed

end

section \<open>Properties\<close>


definition example_cluster :: "InstRegistry \<Rightarrow> Cluster" where
  "example_cluster insts =
     \<lparr>cl_insts = insts, cl_deps = fst (Dep_Create (\<lambda>_. ''h'') ''dep'' 1 ''app'' example_spec NewDepRegistry),
      cl_secrets = NewSecretRegistry\<rparr>"

definition example_net :: AgentEnv where
  "example_net = \<lparr>env_net = (\<lambda>_. Delivered), env_rid = (\<lambda>_. ''x1''), env_now = (\<lambda>_. 7)\<rparr>"

lemma example_startable:
  "startable fake_view ''i1'' (NewInstanceExecutor ''n1'' Fake_New (example_cluster example_assigned))"
  by (simp add: startable_def NewInstanceExecutor_def Fake_New_def fake_view_def example_cluster_def example_assigned_def
      example_ops_def NewInstRegistry_def Inst_Create_def Inst_UpdateState_def Update_apply_def Let_def
      Dep_Create_lookup Dep_Get_def resolvable_def example_spec_def)



definition example_crashed :: InstRegistry where
  "example_crashed = fst (Inst_UpdateState 5 ''i1'' StatusCrashed '''' '''' example_insts)"

lemma example_crashed_facts:
  "keyed i_ID example_crashed" "\<exists>i. map_of example_crashed ''i1'' = Some i \<and> i_Status i = StatusCrashed \<and> i_NodeID i = ''n1'' \<and>
     i_ExecutionID i = ''x1'' \<and> i_ContainerID i = '''' \<and> i_ID i = ''i1''"
  by (simp_all add: example_crashed_def example_insts_value Inst_UpdateState_def Update_apply_def Let_def keyed_def)

text \<open>A container that the control plane gave up on, and that still runs when the agent looks.\<close>

definition example_survivor :: FakeRuntime where
  "example_survivor = fst (Fake_Start Fake_New example_container)"


text \<open>
  Behind its own guards the control plane never hears the executor. The client sends no
  \<open>Authorization\<close> header, so with the handlers mounted as \<open>cp.go\<close> mounts them every request of
  the executor is refused: a pass of its loop only makes two requests, and \<open>syncPorts\<close> one.
  No instance is ever claimed, started, watched or reported, no port is held, and the
  registries stay as they are, whatever the network does.
\<close>

lemma agent_locked_out:
  "agent_loop (guarded_server m nodes) env cr e = e\<lparr>ex_requests := ex_requests e + 2\<rparr> \<and>
   syncPorts (guarded_server m nodes) env e = e\<lparr>ex_requests := ex_requests e + 1\<rparr> \<and>
   ex_cluster (fst (Client_ClaimInstance (guarded_server m nodes) env k nd e)) = ex_cluster e \<and>
   ex_cluster (Client_ReportInstanceStatus (guarded_server m nodes) env k nd x st hl ct ps e) = ex_cluster e"
  by (simp add: agent_loop_def pollAndClaim_def monitorActive_def syncPorts_def Client_ListInstances_def
      Client_ClaimInstance_def Client_ReportInstanceStatus_def Let_def guarded_server_def RequireOperator_def
      RequireNodeAuth_def extractToken_def)

end
