(* ===== verification/JobAgent.thy ===== *)
theory JobAgent
  imports Handlers Agent
begin

text \<open>
  The job loop of an agent, \<open>cmd/runstack/executor.go\<close>, with the requests of \<open>cmd/runstack/agent.go\<close>:
  fetching the jobs assigned to the node, claiming the first, running its command and reporting
  the result with up to five attempts.

  The state is what the handlers of the control plane see, and a counter of requests; as in the
  executor of instances the network decides the fate of the \<open>n\<close>-th request, and the readings of the
  clock and the identifiers drawn by the control plane are indexed by it. Running a command is an
  argument. Cancellation of the agent is looked at after an attempt that failed, as in the code.
\<close>

section \<open>Definitions\<close>

record JobWorld =
  jw_jobs :: JobRegistry
  jw_nodes :: NodeRegistry
  jw_requests :: nat

record JobServer =
  jsv_List :: "string \<Rightarrow> string \<Rightarrow> string \<Rightarrow> JobWorld \<Rightarrow> nat + Job list"
  jsv_Claim :: "string \<Rightarrow> string \<Rightarrow> time \<Rightarrow> time \<Rightarrow> string \<Rightarrow> string \<Rightarrow> JobWorld \<Rightarrow> JobRegistry \<times> (nat + Job)"
  jsv_Report :: "string \<Rightarrow> time \<Rightarrow> time \<Rightarrow> string \<Rightarrow> ReportResultRequest \<Rightarrow> JobWorld \<Rightarrow> JobRegistry \<times> (nat + Job)"

definition open_jobs :: JobServer where
  "open_jobs =
     \<lparr>jsv_List = (\<lambda>header nodeID st w. Inr (JobApi_List nodeID st (jw_jobs w))),
      jsv_Claim = (\<lambda>header rid now nowE k nodeID w.
        JobApi_Claim rid now nowE None k (Some nodeID) (jw_nodes w) (jw_jobs w)),
      jsv_Report = (\<lambda>header now nowE k req w.
        JobApi_ReportResult now nowE None k (Some req) (jw_nodes w) (jw_jobs w))\<rparr>"

definition guarded_jobs :: "AuthManager \<Rightarrow> JobServer" where
  "guarded_jobs m =
     \<lparr>jsv_List = (\<lambda>header nodeID st w. RequireOperator m header (JobApi_List nodeID st (jw_jobs w))),
      jsv_Claim = (\<lambda>header rid now nowE k nodeID w.
        case RequireNodeAuth m (jw_nodes w) header
               (\<lambda>ctx. JobApi_Claim rid now nowE (Some ctx) k (Some nodeID) (jw_nodes w) (jw_jobs w)) of
          Inl st \<Rightarrow> (jw_jobs w, Inl st) | Inr ans \<Rightarrow> ans),
      jsv_Report = (\<lambda>header now nowE k req w.
        case RequireNodeAuth m (jw_nodes w) header
               (\<lambda>ctx. JobApi_ReportResult now nowE (Some ctx) k (Some req) (jw_nodes w) (jw_jobs w)) of
          Inl st \<Rightarrow> (jw_jobs w, Inl st) | Inr ans \<Rightarrow> ans)\<rparr>"

record JobEnv =
  je_net :: "nat \<Rightarrow> delivery"
  je_rid :: "nat \<Rightarrow> string"
  je_now :: "nat \<Rightarrow> time"
  je_nowE :: "nat \<Rightarrow> time"
  je_cancelled :: "nat \<Rightarrow> bool"

definition bearer :: "string \<Rightarrow> string" where
  "bearer token = (if token \<noteq> '''' then ''Bearer '' @ token else '''')"

definition fetchAssignedJobs ::
  "JobServer \<Rightarrow> JobEnv \<Rightarrow> string \<Rightarrow> string \<Rightarrow> JobWorld \<Rightarrow> JobWorld \<times> Job list option" where
  "fetchAssignedJobs srv env token nodeID w =
     (w\<lparr>jw_requests := Suc (jw_requests w)\<rparr>,
      if je_net env (jw_requests w) = Delivered
      then (case jsv_List srv (bearer token) nodeID ''assigned'' w of Inl _ \<Rightarrow> None | Inr js \<Rightarrow> Some js)
      else None)"

definition claimJob ::
  "JobServer \<Rightarrow> JobEnv \<Rightarrow> string \<Rightarrow> string \<Rightarrow> string \<Rightarrow> JobWorld \<Rightarrow> JobWorld \<times> string option" where
  "claimJob srv env token jobID nodeID w =
     (let n = jw_requests w; w1 = w\<lparr>jw_requests := Suc n\<rparr> in
      if je_net env n = NotSent then (w1, None)
      else
        (case jsv_Claim srv (bearer token) (je_rid env n) (je_now env n) (je_nowE env n) jobID nodeID w of
           (r, ans) \<Rightarrow>
             (w1\<lparr>jw_jobs := r\<rparr>,
              if je_net env n = AnswerLost then None
              else (case ans of Inl _ \<Rightarrow> None | Inr j \<Rightarrow> Some (j_ExecutionID j)))))"

text \<open>A command that ran: its output, and its error with the exit code of the process, if it has one.\<close>

record CommandRun =
  cm_Stdout :: string
  cm_Stderr :: string
  cm_Error :: "(string \<times> int option) option"

fun fields :: "string \<Rightarrow> string list" where
  "fields [] = []"
| "fields (c # s) =
     (if is_space c then fields s
      else (case s of
              [] \<Rightarrow> [[c]]
            | d # _ \<Rightarrow> if is_space d then [c] # fields s
                       else (case fields s of [] \<Rightarrow> [[c]] | w # ws \<Rightarrow> (c # w) # ws)))"

definition executeJob :: "(string list \<Rightarrow> CommandRun) \<Rightarrow> Job \<Rightarrow> JobResult" where
  "executeJob exec j =
     (let parts = fields (j_Command j) in
      if parts = [] then \<lparr>r_ExitCode = - 1, r_Stdout = '''', r_Stderr = '''', r_Error = ''empty command''\<rparr>
      else
        (let run = exec parts in
         \<lparr>r_ExitCode = (case cm_Error run of None \<Rightarrow> 0 | Some (_, Some code) \<Rightarrow> code | Some (_, None) \<Rightarrow> - 1),
          r_Stdout = cm_Stdout run, r_Stderr = cm_Stderr run,
          r_Error = (case cm_Error run of None \<Rightarrow> '''' | Some (msg, _) \<Rightarrow> msg)\<rparr>))"

text \<open>One attempt: the new state, and the status of the answer if one arrives.\<close>

definition send_result ::
  "JobServer \<Rightarrow> JobEnv \<Rightarrow> string \<Rightarrow> string \<Rightarrow> ReportResultRequest \<Rightarrow> JobWorld \<Rightarrow> JobWorld \<times> nat option" where
  "send_result srv env token jobID req w =
     (let n = jw_requests w; w1 = w\<lparr>jw_requests := Suc n\<rparr> in
      if je_net env n = NotSent then (w1, None)
      else
        (case jsv_Report srv (bearer token) (je_now env n) (je_nowE env n) jobID req w of
           (r, ans) \<Rightarrow>
             (w1\<lparr>jw_jobs := r\<rparr>,
              if je_net env n = AnswerLost then None
              else Some (case ans of Inl st \<Rightarrow> st | Inr _ \<Rightarrow> 200))))"

fun report_attempts ::
  "nat \<Rightarrow> JobServer \<Rightarrow> JobEnv \<Rightarrow> string \<Rightarrow> string \<Rightarrow> ReportResultRequest \<Rightarrow> JobWorld \<Rightarrow> JobWorld" where
  "report_attempts 0 srv env token jobID req w = w"
| "report_attempts (Suc i) srv env token jobID req w =
     (case send_result srv env token jobID req w of
        (w1, ans) \<Rightarrow>
          if ans = Some 200 \<or> ans = Some 409 then w1
          else if je_cancelled env (jw_requests w1) then w1
          else report_attempts i srv env token jobID req w1)"

definition reportResultWithRetry ::
  "JobServer \<Rightarrow> JobEnv \<Rightarrow> string \<Rightarrow> string \<Rightarrow> string \<Rightarrow> string \<Rightarrow> JobResult \<Rightarrow> JobWorld \<Rightarrow> JobWorld" where
  "reportResultWithRetry srv env token jobID nodeID execID res w =
     report_attempts 5 srv env token jobID \<lparr>rq_NodeID = nodeID, rq_ExecutionID = execID, rq_Result = res\<rparr> w"

text \<open>One tick of \<open>startJobPolling\<close>.\<close>

definition job_poll ::
  "JobServer \<Rightarrow> JobEnv \<Rightarrow> (string list \<Rightarrow> CommandRun) \<Rightarrow> string \<Rightarrow> string \<Rightarrow> JobWorld \<Rightarrow> JobWorld" where
  "job_poll srv env exec token nodeID w =
     (case fetchAssignedJobs srv env token nodeID w of
        (w1, None) \<Rightarrow> w1
      | (w1, Some []) \<Rightarrow> w1
      | (w1, Some (j # _)) \<Rightarrow>
          (case claimJob srv env token (j_ID j) nodeID w1 of
             (w2, None) \<Rightarrow> w2
           | (w2, Some execID) \<Rightarrow>
               reportResultWithRetry srv env token (j_ID j) nodeID execID (executeJob exec j) w2))"

section \<open>A result counts once\<close>

lemma report_again:
  assumes "Job_ReportResult now nowE k nd x res r = (r1, ans)"
  shows "fst (Job_ReportResult now' nowE' k nd x res r1) = r1"
proof (cases "map_of (jobs r) k")
  case None
  with assms show ?thesis by (auto simp: Job_ReportResult_def)
next
  case (Some j)
  show ?thesis
  proof (cases "j_Status j = JobRunning \<and> j_AssignedNodeID j = nd \<and> j_ExecutionID j = x")
    case True
    with Some assms have "map_of (jobs r1) k = Some (if r_ExitCode res = 0 then finish JobSucceeded now res j
        else if j_Attempts j \<le> j_MaxRetries j then requeue j else finish JobFailed now res j)"
      by (auto simp: Job_ReportResult_def Let_def)
    with True show ?thesis by (auto simp: Job_ReportResult_def finish_def requeue_def)
  next
    case False
    with Some assms have "r1 = r" by (auto simp: Job_ReportResult_def split: if_splits)
    with Some False show ?thesis by (auto simp: Job_ReportResult_def)
  qed
qed

definition deliver :: "JobEnv \<Rightarrow> nat \<Rightarrow> string \<Rightarrow> ReportResultRequest \<Rightarrow> JobRegistry \<Rightarrow> JobRegistry" where
  "deliver env n k req r =
     fst (Job_ReportResult (je_now env n) (je_nowE env n) k (rq_NodeID req) (rq_ExecutionID req) (rq_Result req) r)"

lemma deliver_again: "deliver env n k req (deliver env m k req r) = deliver env m k req r"
  unfolding deliver_def using report_again by (metis prod.collapse)

definition reportable :: "ReportResultRequest \<Rightarrow> JobWorld \<Rightarrow> bool" where
  "reportable req w \<longleftrightarrow> rq_NodeID req \<noteq> '''' \<and> rq_ExecutionID req \<noteq> '''' \<and> map_of (jw_nodes w) (rq_NodeID req) \<noteq> None"

lemma send_open:
  assumes "reportable req w"
  shows "fst (send_result open_jobs env token k req w) =
    w\<lparr>jw_requests := Suc (jw_requests w),
      jw_jobs := (if je_net env (jw_requests w) = NotSent then jw_jobs w else deliver env (jw_requests w) k req (jw_jobs w))\<rparr>"
proof -
  obtain r a where run: "Job_ReportResult (je_now env (jw_requests w)) (je_nowE env (jw_requests w)) k (rq_NodeID req)
      (rq_ExecutionID req) (rq_Result req) (jw_jobs w) = (r, a)" by fastforce
  have "JobApi_ReportResult (je_now env (jw_requests w)) (je_nowE env (jw_requests w)) None k (Some req) (jw_nodes w) (jw_jobs w) =
      (r, case a of Inl e \<Rightarrow> Inl (if e = ErrJobNotFound then 404 else 409) | Inr j \<Rightarrow> Inr j)"
    using assms run by (auto simp: JobApi_ReportResult_def identity_mismatch_def reportable_def Node_Get_def split: sum.splits)
  with run show ?thesis
    by (simp add: send_result_def open_jobs_def Let_def deliver_def)
qed

lemma attempts_settled:
  assumes "reportable req w" and "\<And>n. deliver env n k req (jw_jobs w) = jw_jobs w"
  shows "jw_jobs (report_attempts i open_jobs env token k req w) = jw_jobs w"
  using assms
proof (induction i arbitrary: w)
  case (Suc i)
  obtain w1 ans where s: "send_result open_jobs env token k req w = (w1, ans)" by fastforce
  have w1: "w1 = w\<lparr>jw_requests := Suc (jw_requests w)\<rparr>" using send_open [OF Suc.prems(1), of env token k] Suc.prems(2) s by simp
  then have "reportable req w1" "jw_jobs w1 = jw_jobs w" using Suc.prems(1) by (simp_all add: reportable_def)
  with Suc.IH [of w1] Suc.prems(2) show ?case by (simp add: s)
qed simp

lemma find_upt: "find P [q..<q + Suc i] = (if P q then Some q else find P [Suc q..<Suc q + i])"
  by (subst upt_conv_Cons) simp_all

lemma attempts_once:
  assumes "reportable req w" and "\<And>n. \<not> je_cancelled env n"
  shows "jw_jobs (report_attempts i open_jobs env token k req w) =
    (case find (\<lambda>n. je_net env n \<noteq> NotSent) [jw_requests w..<jw_requests w + i] of
       None \<Rightarrow> jw_jobs w | Some n \<Rightarrow> deliver env n k req (jw_jobs w))"
  using assms(1)
proof (induction i arbitrary: w)
  case (Suc i)
  obtain w1 ans where s: "send_result open_jobs env token k req w = (w1, ans)" by fastforce
  define q where "q = jw_requests w"
  note search = find_upt [of "\<lambda>n. je_net env n \<noteq> NotSent" q i]
  have w1: "w1 = w\<lparr>jw_requests := Suc q, jw_jobs := (if je_net env q = NotSent then jw_jobs w else deliver env q k req (jw_jobs w))\<rparr>"
    using send_open [OF Suc.prems, of env token k] s by (simp add: q_def)
  have rep: "reportable req w1" using Suc.prems by (simp add: w1 reportable_def)
  show ?case
  proof (cases "je_net env q = NotSent")
    case True
    then have "ans = None" using s by (auto simp: send_result_def Let_def q_def)
    with True s assms(2) have "report_attempts (Suc i) open_jobs env token k req w = report_attempts i open_jobs env token k req w1"
      by simp
    moreover have "jw_jobs w1 = jw_jobs w" "jw_requests w1 = Suc q" using True by (simp_all add: w1)
    ultimately show ?thesis
      using Suc.IH [OF rep] True unfolding q_def [symmetric] search
      by (simp del: upt_Suc report_attempts.simps split: option.split)
  next
    case False
    have "jw_jobs (report_attempts i open_jobs env token k req w1) = jw_jobs w1"
      by (rule attempts_settled [OF rep]) (simp add: w1 False deliver_again)
    with s assms(2) have "jw_jobs (report_attempts (Suc i) open_jobs env token k req w) = jw_jobs w1" by simp
    with False show ?thesis unfolding q_def [symmetric] search by (simp add: w1)
  qed
qed simp

text \<open>
  C30: a result counts once, however often it is sent. Of the five attempts to report a result the
  first one that reaches the control plane decides: the registry ends as that one report leaves
  it, whatever becomes of the answers and of later attempts, and as it was if none arrives. In
  particular a lost answer makes neither a second retry of the job nor a second event.
\<close>

theorem job_result_counts_once:
  assumes "nodeID \<noteq> ''''" and "execID \<noteq> ''''" and "map_of (jw_nodes w) nodeID \<noteq> None" and "\<And>n. \<not> je_cancelled env n"
  shows "jw_jobs (reportResultWithRetry open_jobs env token k nodeID execID res w) =
    (case find (\<lambda>n. je_net env n \<noteq> NotSent) [jw_requests w..<jw_requests w + 5] of
       None \<Rightarrow> jw_jobs w
     | Some n \<Rightarrow> fst (Job_ReportResult (je_now env n) (je_nowE env n) k nodeID execID res (jw_jobs w)))"
  using attempts_once [of "\<lparr>rq_NodeID = nodeID, rq_ExecutionID = execID, rq_Result = res\<rparr>" w env 5 token k] assms
  by (simp add: reportResultWithRetry_def reportable_def deliver_def split: option.splits)

section \<open>Properties\<close>


text \<open>
  Behind the guards of the control plane the loop does nothing: the list of jobs is for operators,
  and no other token gets it.
\<close>

lemma job_agent_locked_out:
  assumes "token \<noteq> operatorToken m"
  shows "job_poll (guarded_jobs m) env exec token nodeID w = w\<lparr>jw_requests := Suc (jw_requests w)\<rparr>"
proof -
  have "RequireOperator m (bearer token) x \<noteq> Inr x" for x :: "Job list"
    using operator_only [of m "bearer token" x] assms by (auto simp: bearer_def split: if_splits)
  moreover have "y = x" if "RequireOperator m (bearer token) x = Inr y" for x y :: "Job list"
    using that by (auto simp: RequireOperator_def split: sum.splits if_splits)
  ultimately obtain st where "RequireOperator m (bearer token) (JobApi_List nodeID ''assigned'' (jw_jobs w)) = Inl st"
    by (metis sum.exhaust)
  then show ?thesis by (simp add: job_poll_def fetchAssignedJobs_def guarded_jobs_def)
qed

section \<open>Examples\<close>

definition example_job_nodes :: NodeRegistry where
  "example_job_nodes =
     [(''n1'', \<lparr>n_ID = ''n1'', n_Hostname = ''h'', n_IPAddress = ''10.0.0.7'', n_CPUCores = 1, n_OS = ''linux'',
        n_Architecture = ''amd64'', n_Status = NodeOnline, n_LastHeartbeat = 0, n_OfflineSince = None,
        n_Capabilities = \<lparr>TotalMemoryBytes = 0, AvailableMemoryBytes = 0, HasDocker = True, HasPodman = False\<rparr>,
        n_Token = ''''\<rparr>)]"

definition example_assigned_job :: Job where
  "example_assigned_job = \<lparr>j_ID = ''job-1'', j_Name = ''nightly'', j_Command = ''make all'', j_Status = JobAssigned,
     j_CreatedAt = 1, j_StartedAt = None, j_CompletedAt = None, j_AssignedNodeID = ''n1'', j_ExecutionID = '''',
     j_CPU = 0, j_MemoryMB = 0, j_MaxRetries = 0, j_Attempts = 0, j_Result = None\<rparr>"

definition example_jobs_world :: JobWorld where
  "example_jobs_world = \<lparr>jw_jobs = \<lparr>jobs = [(''job-1'', example_assigned_job)], job_events = []\<rparr>,
     jw_nodes = example_job_nodes, jw_requests = 0\<rparr>"

definition example_job_env :: "(nat \<Rightarrow> delivery) \<Rightarrow> JobEnv" where
  "example_job_env net = \<lparr>je_net = net, je_rid = (\<lambda>_. ''7''), je_now = (\<lambda>n. int n), je_nowE = (\<lambda>n. int n),
     je_cancelled = (\<lambda>_. False)\<rparr>"

definition example_exec :: "string list \<Rightarrow> CommandRun" where
  "example_exec parts = \<lparr>cm_Stdout = concat parts, cm_Stderr = '''', cm_Error = None\<rparr>"


definition example_claimed_world :: JobWorld where
  "example_claimed_world = fst (claimJob open_jobs (example_job_env (\<lambda>_. Delivered)) ''t'' ''job-1'' ''n1'' example_jobs_world)"

text \<open>The first attempt does not arrive, the answer of the second is lost.\<close>

definition example_losses :: "nat \<Rightarrow> delivery" where
  "example_losses n = (if n = 1 then NotSent else if n = 2 then AnswerLost else Delivered)"

theorem job_result_counts_once_witness:
  "jw_jobs (reportResultWithRetry open_jobs (example_job_env example_losses) ''t'' ''job-1'' ''n1'' ''exec-7''
      (executeJob example_exec example_assigned_job) example_claimed_world) =
   fst (Job_ReportResult 2 2 ''job-1'' ''n1'' ''exec-7'' (executeJob example_exec example_assigned_job) (jw_jobs example_claimed_world))"
proof -
  have "map_of (jw_nodes example_claimed_world) ''n1'' \<noteq> None" "jw_requests example_claimed_world = 1"
    by (simp_all add: example_claimed_world_def claimJob_def Let_def open_jobs_def example_job_env_def example_jobs_world_def
        example_job_nodes_def split: prod.split)
  then show ?thesis
    using job_result_counts_once [of "''n1''" "''exec-7''" example_claimed_world "example_job_env example_losses" "''t''" "''job-1''"]
    by (simp add: example_job_env_def example_losses_def numeral_eq_Suc)
qed

end
