(* ===== verification/Client.thy ===== *)
theory Client
  imports JobAgent "HOL-Library.Countable"
begin

text \<open>
  What the commands of operators share: the configuration file with its contexts
  (\<open>internal/config/config.go\<close>), the HTTP client that carries the token of the active context
  (\<open>internal/client/client.go\<close>) and the commands \<open>context\<close> and \<open>auth\<close>
  (\<open>cmd/runstack/context.go\<close>).

  A command runs over a world: the home directory, the network and the lines it printed. It
  ends normally, with an error its caller prints, or by \<open>os.Exit\<close>. The JSON codec, the fate of
  writes to the disk, the parser of URLs and the network are the environment of a command; the
  payload of a request is the value that \<open>json.Marshal\<close> encodes.
\<close>

section \<open>The world of a command\<close>

record Context =
  cx_Name :: string
  cx_Endpoint :: string
  cx_Token :: string

record Config =
  cg_CurrentContext :: string
  cg_Contexts :: "Context list"

datatype config_file = Absent | Unreadable string | Content string

text \<open>The home directory: the answer of \<open>os.UserHomeDir\<close> and the file \<open>.runstack/config\<close> in it.\<close>

record Home =
  hm_Dir :: "string + string"
  hm_File :: config_file

text \<open>The fate of a write. A failed \<open>os.WriteFile\<close> may leave a part of the text in the file.\<close>

datatype disk = DiskOK | MkdirFails string | OpenFails string | WriteFails nat string

datatype payload =
    JobBody CreateJobRequest | SecretBody SetSecretRequest | DomainBody CreateDomainRequest
  | ManifestBody Manifest | DeployBody AppSpec
  | RegisterBody RegisterRequest | HeartbeatBody Capabilities

record HttpReq =
  hq_Method :: string
  hq_URL :: string
  hq_ContentType :: "string option"
  hq_Auth :: "string option"
  hq_Body :: "payload option"

record HttpResp =
  hr_StatusCode :: nat
  hr_Status :: string
  hr_Body :: string

record 'n World =
  wd_Home :: Home
  wd_Net :: 'n
  wd_Out :: "string list"

record 'n Env =
  ev_Enc :: "Config \<Rightarrow> string"
  ev_Dec :: "string \<Rightarrow> string + Config"
  ev_Disk :: disk
  ev_ParseURL :: "string \<Rightarrow> string option"
  ev_Do :: "HttpReq \<Rightarrow> 'n \<Rightarrow> 'n \<times> (string + HttpResp)"

datatype 'a outcome = Done 'a | Failed string | Exited nat

type_synonym ('n, 'a) command = "'n World \<Rightarrow> 'n World \<times> 'a outcome"

definition say :: "string list \<Rightarrow> 'n World \<Rightarrow> 'n World" where
  "say ls w = w\<lparr>wd_Out := wd_Out w @ ls\<rparr>"

fun and_then :: "'n World \<times> 'a outcome \<Rightarrow> ('a \<Rightarrow> ('n, 'b) command) \<Rightarrow> 'n World \<times> 'b outcome" where
  "and_then (w, Done a) f = f a w"
| "and_then (w, Failed e) f = (w, Failed e)"
| "and_then (w, Exited c) f = (w, Exited c)"

section \<open>The configuration file\<close>

definition LoadConfig :: "(string \<Rightarrow> string + Config) \<Rightarrow> Home \<Rightarrow> string + Config" where
  "LoadConfig dec h =
     (case hm_Dir h of
        Inl e \<Rightarrow> Inl e
      | Inr _ \<Rightarrow>
          (case hm_File h of
             Absent \<Rightarrow> Inr \<lparr>cg_CurrentContext = '''', cg_Contexts = []\<rparr>
           | Unreadable e \<Rightarrow> Inl e
           | Content s \<Rightarrow>
               (case dec s of
                  Inl e \<Rightarrow> Inl (''failed to parse config (corrupt?): '' @ e)
                | Inr cfg \<Rightarrow> Inr cfg)))"

definition SaveConfig :: "(Config \<Rightarrow> string) \<Rightarrow> disk \<Rightarrow> Config \<Rightarrow> Home \<Rightarrow> Home \<times> string option" where
  "SaveConfig enc d cfg h =
     (case hm_Dir h of
        Inl e \<Rightarrow> (h, Some e)
      | Inr _ \<Rightarrow>
          (case d of
             MkdirFails e \<Rightarrow> (h, Some e)
           | OpenFails e \<Rightarrow> (h, Some e)
           | WriteFails n e \<Rightarrow> (h\<lparr>hm_File := Content (take n (enc cfg))\<rparr>, Some e)
           | DiskOK \<Rightarrow> (h\<lparr>hm_File := Content (enc cfg)\<rparr>, None)))"

definition no_context :: string where
  "no_context = ''no active context configured''"

definition GetActiveContext :: "Config \<Rightarrow> string + Context" where
  "GetActiveContext c =
     (if cg_CurrentContext c = '''' then Inl no_context
      else (case List.find (\<lambda>x. cx_Name x = cg_CurrentContext c) (cg_Contexts c) of
              Some x \<Rightarrow> Inr x
            | None \<Rightarrow> Inl no_context))"

section \<open>The HTTP client\<close>

record Client =
  cl_BaseURL :: string
  cl_Token :: string
  cl_Timeout :: duration

definition New :: "string \<Rightarrow> string \<Rightarrow> Client" where
  "New baseURL token = \<lparr>cl_BaseURL = baseURL, cl_Token = token, cl_Timeout = 10 * second\<rparr>"

definition NewFromConfig :: "(string \<Rightarrow> string + Config) \<Rightarrow> Home \<Rightarrow> string + Client" where
  "NewFromConfig dec h =
     (case LoadConfig dec h of
        Inl e \<Rightarrow> Inl e
      | Inr cfg \<Rightarrow>
          (case GetActiveContext cfg of
             Inl e \<Rightarrow> Inl e
           | Inr ctx \<Rightarrow> Inr (New (cx_Endpoint ctx) (cx_Token ctx))))"

text \<open>\<open>http.NewRequest\<close>, and \<open>Do\<close> of an HTTP client.\<close>

definition NewRequest ::
  "('n, 'e) Env_scheme \<Rightarrow> string \<Rightarrow> string \<Rightarrow> payload option \<Rightarrow> string + HttpReq" where
  "NewRequest E m url body =
     (case ev_ParseURL E url of
        Some e \<Rightarrow> Inl e
      | None \<Rightarrow> Inr \<lparr>hq_Method = m, hq_URL = url, hq_ContentType = None, hq_Auth = None, hq_Body = body\<rparr>)"

definition http_do :: "('n, 'e) Env_scheme \<Rightarrow> HttpReq \<Rightarrow> 'n World \<Rightarrow> 'n World \<times> (string + HttpResp)" where
  "http_do E q w = (case ev_Do E q (wd_Net w) of (n, ans) \<Rightarrow> (w\<lparr>wd_Net := n\<rparr>, ans))"

definition DoReq ::
  "('n, 'e) Env_scheme \<Rightarrow> Client \<Rightarrow> HttpReq \<Rightarrow> 'n World \<Rightarrow> 'n World \<times> (string + HttpResp)" where
  "DoReq E c q w =
     http_do E (if cl_Token c \<noteq> '''' then q\<lparr>hq_Auth := Some (''Bearer '' @ cl_Token c)\<rparr> else q) w"

definition Client_Get :: "('n, 'e) Env_scheme \<Rightarrow> Client \<Rightarrow> string \<Rightarrow> 'n World \<Rightarrow> 'n World \<times> (string + HttpResp)" where
  "Client_Get E c path w =
     (case NewRequest E ''GET'' (cl_BaseURL c @ path) None of
        Inl e \<Rightarrow> (w, Inl e)
      | Inr q \<Rightarrow> DoReq E c q w)"

definition Client_Post ::
  "('n, 'e) Env_scheme \<Rightarrow> Client \<Rightarrow> string \<Rightarrow> string \<Rightarrow> payload option \<Rightarrow> 'n World \<Rightarrow> 'n World \<times> (string + HttpResp)" where
  "Client_Post E c path contentType body w =
     (case NewRequest E ''POST'' (cl_BaseURL c @ path) body of
        Inl e \<Rightarrow> (w, Inl e)
      | Inr q \<Rightarrow> DoReq E c (if contentType \<noteq> '''' then q\<lparr>hq_ContentType := Some contentType\<rparr> else q) w)"

definition Client_Put ::
  "('n, 'e) Env_scheme \<Rightarrow> Client \<Rightarrow> string \<Rightarrow> string \<Rightarrow> payload option \<Rightarrow> 'n World \<Rightarrow> 'n World \<times> (string + HttpResp)" where
  "Client_Put E c path contentType body w =
     (case NewRequest E ''PUT'' (cl_BaseURL c @ path) body of
        Inl e \<Rightarrow> (w, Inl e)
      | Inr q \<Rightarrow> DoReq E c (if contentType \<noteq> '''' then q\<lparr>hq_ContentType := Some contentType\<rparr> else q) w)"

definition Client_Delete :: "('n, 'e) Env_scheme \<Rightarrow> Client \<Rightarrow> string \<Rightarrow> 'n World \<Rightarrow> 'n World \<times> (string + HttpResp)" where
  "Client_Delete E c path w =
     (case NewRequest E ''DELETE'' (cl_BaseURL c @ path) None of
        Inl e \<Rightarrow> (w, Inl e)
      | Inr q \<Rightarrow> DoReq E c q w)"

definition Client_Patch ::
  "('n, 'e) Env_scheme \<Rightarrow> Client \<Rightarrow> string \<Rightarrow> string \<Rightarrow> payload option \<Rightarrow> 'n World \<Rightarrow> 'n World \<times> (string + HttpResp)" where
  "Client_Patch E c path contentType body w =
     (case NewRequest E ''PATCH'' (cl_BaseURL c @ path) body of
        Inl e \<Rightarrow> (w, Inl e)
      | Inr q \<Rightarrow> DoReq E c (if contentType \<noteq> '''' then q\<lparr>hq_ContentType := Some contentType\<rparr> else q) w)"

definition getClient :: "('n, 'e) Env_scheme \<Rightarrow> ('n, Client) command" where
  "getClient E w =
     (case NewFromConfig (ev_Dec E) (wd_Home w) of
        Inl e \<Rightarrow> (say [''Error: '' @ e, ''Run 'runstack context ...' to configure one.''] w, Exited 1)
      | Inr c \<Rightarrow> (w, Done c))"

section \<open>The commands of contexts\<close>

definition quoted :: "string \<Rightarrow> string" where
  "quoted s = [CHR 0x27] @ s @ [CHR 0x27]"

definition context_list :: "('n, 'e) Env_scheme \<Rightarrow> ('n, unit) command" where
  "context_list E w =
     (case LoadConfig (ev_Dec E) (wd_Home w) of
        Inl e \<Rightarrow> (say [''Error: '' @ e] w, Exited 1)
      | Inr cfg \<Rightarrow>
          if cg_Contexts cfg = [] then (say [''No contexts configured.''] w, Done ())
          else (say (''CONTEXTS:'' #
                  map (\<lambda>x. (if cx_Name x = cg_CurrentContext cfg then ''* '' else ''  '') @ cx_Name x @ [CHR 0x09] @ cx_Endpoint x)
                    (cg_Contexts cfg)) w, Done ()))"

fun put_context :: "string \<Rightarrow> string \<Rightarrow> string \<Rightarrow> Context list \<Rightarrow> Context list" where
  "put_context name endpoint token [] = [\<lparr>cx_Name = name, cx_Endpoint = endpoint, cx_Token = token\<rparr>]"
| "put_context name endpoint token (x # xs) =
     (if cx_Name x = name then x\<lparr>cx_Endpoint := endpoint, cx_Token := token\<rparr> # xs
      else x # put_context name endpoint token xs)"

definition context_save :: "('n, 'e) Env_scheme \<Rightarrow> Config \<Rightarrow> string \<Rightarrow> ('n, unit) command" where
  "context_save E cfg msg w =
     (case SaveConfig (ev_Enc E) (ev_Disk E) cfg (wd_Home w) of
        (h, Some e) \<Rightarrow> (say [''Failed to save config: '' @ e] (w\<lparr>wd_Home := h\<rparr>), Exited 1)
      | (h, None) \<Rightarrow> (say [msg] (w\<lparr>wd_Home := h\<rparr>), Done ()))"

definition context_add :: "('n, 'e) Env_scheme \<Rightarrow> string list \<Rightarrow> ('n, unit) command" where
  "context_add E args w =
     (if length args < 4 \<or> args ! 2 \<noteq> ''--endpoint''
      then (say [''Usage: runstack context add <name> --endpoint <url> [--token <token>]''] w, Exited 1)
      else
        (let name = args ! 1; endpoint = args ! 3;
             token = (if length args \<ge> 6 \<and> args ! 4 = ''--token'' then args ! 5 else '''')
         in case LoadConfig (ev_Dec E) (wd_Home w) of
              Inl e \<Rightarrow> (say [''Error: '' @ e] w, Exited 1)
            | Inr cfg \<Rightarrow>
                context_save E
                  \<lparr>cg_CurrentContext = (if cg_CurrentContext cfg = '''' then name else cg_CurrentContext cfg),
                   cg_Contexts = put_context name endpoint token (cg_Contexts cfg)\<rparr>
                  (''Context '' @ quoted name @ '' added/updated.'') w))"

definition context_use :: "('n, 'e) Env_scheme \<Rightarrow> string list \<Rightarrow> ('n, unit) command" where
  "context_use E args w =
     (if length args < 2 then (say [''Usage: runstack context use <name>''] w, Exited 1)
      else
        (let name = args ! 1 in
         case LoadConfig (ev_Dec E) (wd_Home w) of
           Inl e \<Rightarrow> (say [''Error: '' @ e] w, Exited 1)
         | Inr cfg \<Rightarrow>
             if \<exists>x \<in> set (cg_Contexts cfg). cx_Name x = name
             then context_save E (cfg\<lparr>cg_CurrentContext := name\<rparr>) (''Switched to context '' @ quoted name @ ''.'') w
             else (say [''Context '' @ quoted name @ '' not found.''] w, Exited 1)))"

text \<open>An unknown command falls through the switch and does nothing.\<close>

definition runContext :: "('n, 'e) Env_scheme \<Rightarrow> string list \<Rightarrow> ('n, unit) command" where
  "runContext E args w =
     (case args of
        [] \<Rightarrow> (say [''Usage: runstack context [list|use|add]''] w, Exited 1)
      | cmd # _ \<Rightarrow>
          if cmd = ''list'' then context_list E w
          else if cmd = ''add'' then context_add E args w
          else if cmd = ''use'' then context_use E args w
          else (w, Done ()))"

text \<open>\<open>auth token create\<close>: 32 random bytes in hexadecimal digits.\<close>

definition hex_digit :: "nat \<Rightarrow> char" where
  "hex_digit d = (if d < 10 then char_of (48 + d) else char_of (87 + d))"

definition hex_encode :: "8 word list \<Rightarrow> string" where
  "hex_encode bs = concat (map (\<lambda>b. [hex_digit (unat b div 16), hex_digit (unat b mod 16)]) bs)"

definition runAuth :: "8 word list \<Rightarrow> string list \<Rightarrow> ('n, unit) command" where
  "runAuth random args w =
     (if length args < 2 \<or> args ! 0 \<noteq> ''token'' \<or> args ! 1 \<noteq> ''create''
      then (say [''Usage: runstack auth token create''] w, Exited 1)
      else (say [hex_encode random] w, Done ()))"

section \<open>The file keeps a valid configuration\<close>

text \<open>
  The law of the codec: what was encoded decodes to itself, and a text that was cut off does not
  decode (the text of a JSON object ends with its closing brace).
\<close>

definition config_codec :: "(Config \<Rightarrow> string) \<Rightarrow> (string \<Rightarrow> string + Config) \<Rightarrow> bool" where
  "config_codec enc dec \<longleftrightarrow> (\<forall>c. dec (enc c) = Inr c \<and> (\<forall>n < length (enc c). isl (dec (take n (enc c)))))"

definition config_ok :: "Config \<Rightarrow> bool" where
  "config_ok c \<longleftrightarrow> distinct (map cx_Name (cg_Contexts c)) \<and>
     (cg_CurrentContext c \<noteq> '''' \<longrightarrow> cg_CurrentContext c \<in> cx_Name ` set (cg_Contexts c))"

definition home_ok :: "(Config \<Rightarrow> string) \<Rightarrow> Home \<Rightarrow> bool" where
  "home_ok enc h \<longleftrightarrow> (\<forall>s. hm_File h = Content s \<longrightarrow> (\<exists>n c. s = take n (enc c) \<and> config_ok c))"

lemma decodes: "config_codec enc dec \<Longrightarrow> dec (enc c) = Inr c"
  by (simp add: config_codec_def)

lemma decodes_part:
  assumes "config_codec enc dec"
  shows "dec (take n (enc c)) = Inr c \<or> isl (dec (take n (enc c)))"
  using assms by (cases "n < length (enc c)") (auto simp: config_codec_def)

lemma isl_Inl: "isl x \<longleftrightarrow> (\<exists>e. x = Inl e)"
  by (cases x) auto

lemma loaded_ok:
  assumes "config_codec enc dec" and "home_ok enc h" and "LoadConfig dec h = Inr c"
  shows "config_ok c"
proof (cases "hm_File h")
  case (Content s)
  with assms(2) obtain n c' where "s = take n (enc c')" "config_ok c'" by (auto simp: home_ok_def)
  with assms(3) Content decodes_part [OF assms(1), of n c'] show ?thesis
    by (auto simp: LoadConfig_def isl_Inl split: sum.splits)
qed (use assms(3) in \<open>auto simp: LoadConfig_def config_ok_def split: sum.splits\<close>)

lemma save_ok:
  assumes "home_ok enc h" and "config_ok c" and "SaveConfig enc d c h = (h', r)"
  shows "home_ok enc h'"
proof -
  have "home_ok enc (h\<lparr>hm_File := Content (take n (enc c))\<rparr>)" for n using assms(2) by (auto simp: home_ok_def)
  from this this [of "length (enc c)"] assms show ?thesis
    by (auto simp: SaveConfig_def split: sum.splits disk.splits)
qed

lemma put_context_names:
  "map cx_Name (put_context name e t xs) =
     (if name \<in> cx_Name ` set xs then map cx_Name xs else map cx_Name xs @ [name])"
  by (induction xs) auto

lemma put_context_set: "cx_Name ` set (put_context name e t xs) = insert name (cx_Name ` set xs)"
  using arg_cong [OF put_context_names [of name e t xs], of set] by auto

lemma put_context_find:
  "List.find (\<lambda>x. cx_Name x = n) (put_context name e t xs) =
     (if n = name then Some \<lparr>cx_Name = name, cx_Endpoint = e, cx_Token = t\<rparr> else List.find (\<lambda>x. cx_Name x = n) xs)"
  by (induction xs) auto

lemma put_context_ok:
  assumes "config_ok c"
  shows "config_ok \<lparr>cg_CurrentContext = (if cg_CurrentContext c = '''' then name else cg_CurrentContext c),
    cg_Contexts = put_context name e t (cg_Contexts c)\<rparr>"
  using assms by (auto simp: config_ok_def put_context_names put_context_set)

lemma context_save_home:
  "wd_Home (fst (context_save E cfg msg w)) = fst (SaveConfig (ev_Enc E) (ev_Disk E) cfg (wd_Home w))"
  by (simp add: context_save_def say_def split: prod.split option.split)

lemma context_home:
  "wd_Home (fst (runContext E args w)) = wd_Home w \<or>
   (\<exists>cfg cfg'. LoadConfig (ev_Dec E) (wd_Home w) = Inr cfg \<and> (config_ok cfg \<longrightarrow> config_ok cfg') \<and>
     wd_Home (fst (runContext E args w)) = fst (SaveConfig (ev_Enc E) (ev_Disk E) cfg' (wd_Home w)))"
proof -
  have list: "wd_Home (fst (context_list E w)) = wd_Home w"
    by (auto simp: context_list_def say_def split: sum.splits)
  have "wd_Home (fst (runContext E args w)) = wd_Home w \<or>
      runContext E args w = context_add E args w \<or> runContext E args w = context_use E args w"
    using list by (cases args) (simp_all add: runContext_def say_def)
  then consider (same) "wd_Home (fst (runContext E args w)) = wd_Home w"
    | (add) "runContext E args w = context_add E args w" | (use) "runContext E args w = context_use E args w"
    by blast
  then show ?thesis
  proof cases
    case add
    show ?thesis
    proof (cases "LoadConfig (ev_Dec E) (wd_Home w)")
      case (Inr cfg)
      let ?c = "\<lparr>cg_CurrentContext = (if cg_CurrentContext cfg = '''' then args ! 1 else cg_CurrentContext cfg),
        cg_Contexts = put_context (args ! 1) (args ! 3) (if length args \<ge> 6 \<and> args ! 4 = ''--token'' then args ! 5 else '''')
          (cg_Contexts cfg)\<rparr>"
      have "wd_Home (fst (runContext E args w)) = wd_Home w \<or>
          wd_Home (fst (runContext E args w)) = fst (SaveConfig (ev_Enc E) (ev_Disk E) ?c (wd_Home w))"
        by (simp add: add context_add_def say_def context_save_home Inr Let_def)
      with Inr put_context_ok [of cfg] show ?thesis by blast
    qed (simp add: add context_add_def say_def Let_def)
  next
    case use
    show ?thesis
    proof (cases "LoadConfig (ev_Dec E) (wd_Home w)")
      case (Inr cfg)
      have "config_ok (cfg\<lparr>cg_CurrentContext := name\<rparr>)" if "config_ok cfg" "\<exists>x \<in> set (cg_Contexts cfg). cx_Name x = name" for name
        using that by (auto simp: config_ok_def)
      with Inr show ?thesis
        by (auto simp: use context_use_def say_def context_save_home Let_def)
    qed (simp add: use context_use_def say_def Let_def)
  qed simp
qed

text \<open>Commands of contexts, each with the fate of its write.\<close>

definition context_step :: "('n, 'e) Env_scheme \<Rightarrow> string list \<times> disk \<Rightarrow> 'n World \<Rightarrow> 'n World" where
  "context_step E ev w = fst (runContext (E\<lparr>ev_Disk := snd ev\<rparr>) (fst ev) w)"

interpretation contexts: invariant_machine w0 "\<lambda>_ _. True" "context_step E"
  "\<lambda>w. config_codec (ev_Enc E) (ev_Dec E) \<and> hm_File (wd_Home w0) = Absent \<longrightarrow> home_ok (ev_Enc E) (wd_Home w)"
  for E :: "('n, 'e) Env_scheme" and w0 :: "'n World"
proof
  show "config_codec (ev_Enc E) (ev_Dec E) \<and> hm_File (wd_Home w0) = Absent \<longrightarrow> home_ok (ev_Enc E) (wd_Home w0)"
    by (simp add: home_ok_def)
next
  fix w :: "'n World" and ev
  assume inv: "config_codec (ev_Enc E) (ev_Dec E) \<and> hm_File (wd_Home w0) = Absent \<longrightarrow> home_ok (ev_Enc E) (wd_Home w)"
  show "config_codec (ev_Enc E) (ev_Dec E) \<and> hm_File (wd_Home w0) = Absent \<longrightarrow>
    home_ok (ev_Enc E) (wd_Home (context_step E ev w))"
  proof
    assume c: "config_codec (ev_Enc E) (ev_Dec E) \<and> hm_File (wd_Home w0) = Absent"
    with inv have h: "home_ok (ev_Enc E) (wd_Home w)" by blast
    from context_home [of "E\<lparr>ev_Disk := snd ev\<rparr>" "fst ev" w]
    show "home_ok (ev_Enc E) (wd_Home (context_step E ev w))"
    proof (elim disjE exE conjE)
      fix cfg cfg'
      assume "LoadConfig (ev_Dec (E\<lparr>ev_Disk := snd ev\<rparr>)) (wd_Home w) = Inr cfg" and "config_ok cfg \<longrightarrow> config_ok cfg'"
        and r: "wd_Home (fst (runContext (E\<lparr>ev_Disk := snd ev\<rparr>) (fst ev) w)) =
          fst (SaveConfig (ev_Enc (E\<lparr>ev_Disk := snd ev\<rparr>)) (ev_Disk (E\<lparr>ev_Disk := snd ev\<rparr>)) cfg' (wd_Home w))"
      with loaded_ok [OF _ h, of "ev_Dec E" cfg] c have "config_ok cfg'" by simp
      then show ?thesis
        using save_ok [OF h, of cfg' "snd ev"] by (simp add: context_step_def r prod_eq_iff)
    qed (simp add: context_step_def h)
  qed
qed

lemma active_of_ok:
  assumes "config_ok c" and "cg_CurrentContext c \<noteq> ''''"
  shows "\<exists>x \<in> set (cg_Contexts c). cx_Name x = cg_CurrentContext c \<and> GetActiveContext c = Inr x"
proof -
  obtain x where f: "List.find (\<lambda>x. cx_Name x = cg_CurrentContext c) (cg_Contexts c) = Some x"
    using assms by (cases "List.find (\<lambda>x. cx_Name x = cg_CurrentContext c) (cg_Contexts c)") (auto simp: config_ok_def find_None_iff)
  then have "x \<in> set (cg_Contexts c)" and "cx_Name x = cg_CurrentContext c" by (auto simp: find_Some_iff)
  then show ?thesis using assms(2) by (auto simp: GetActiveContext_def f intro!: bexI [of _ x])
qed

section \<open>Properties\<close>

text \<open>
  C35: the configuration file always holds a valid configuration, or none that loads. Whatever
  context commands run after each other, with whatever arguments and whatever becomes of their
  writes: in a configuration that loads the names are distinct, and the current context, if one
  is set, exists and is the one that is used.
\<close>

theorem context_config_valid:
  assumes "config_codec (ev_Enc E) (ev_Dec E)" and "hm_File (wd_Home w0) = Absent"
    and "reach w0 (\<lambda>_ _. True) (context_step E) w" and "LoadConfig (ev_Dec E) (wd_Home w) = Inr c"
  shows "distinct (map cx_Name (cg_Contexts c)) \<and>
    (cg_CurrentContext c = '''' \<or>
     (\<exists>x \<in> set (cg_Contexts c). cx_Name x = cg_CurrentContext c \<and> GetActiveContext c = Inr x))"
proof -
  have "home_ok (ev_Enc E) (wd_Home w)" using contexts.reach_inv [OF assms(3)] assms(1,2) by blast
  then have "config_ok c" using loaded_ok [OF assms(1) _ assms(4)] by blast
  with active_of_ok [OF this] show ?thesis by (auto simp: config_ok_def)
qed

text \<open>A codec that obeys the law: the number of the configuration in unary notation, closed by a brace.\<close>

definition config_key :: "Config \<Rightarrow> nat list \<times> (nat list \<times> nat list \<times> nat list) list" where
  "config_key c = (map of_char (cg_CurrentContext c),
     map (\<lambda>x. (map of_char (cx_Name x), map of_char (cx_Endpoint x), map of_char (cx_Token x))) (cg_Contexts c))"

definition config_unkey :: "nat list \<times> (nat list \<times> nat list \<times> nat list) list \<Rightarrow> Config" where
  "config_unkey k = \<lparr>cg_CurrentContext = map char_of (fst k),
     cg_Contexts = map (\<lambda>(n, e, t). \<lparr>cx_Name = map char_of n, cx_Endpoint = map char_of e, cx_Token = map char_of t\<rparr>) (snd k)\<rparr>"

definition example_enc :: "Config \<Rightarrow> string" where
  "example_enc c = replicate (to_nat (config_key c)) CHR ''a'' @ ''}''"

definition example_dec :: "string \<Rightarrow> string + Config" where
  "example_dec s = (if s \<noteq> [] \<and> last s = CHR ''}'' then Inr (config_unkey (from_nat (length s - 1))) else Inl ''unexpected end'')"

lemma config_unkey_key: "config_unkey (config_key c) = c"
  by (cases c) (simp add: config_key_def config_unkey_def comp_def map_idI)

lemma example_codec: "config_codec example_enc example_dec"
  unfolding config_codec_def
proof (intro allI conjI impI)
  fix c n
  show "example_dec (example_enc c) = Inr c" by (simp add: example_enc_def example_dec_def config_unkey_key)
  assume "n < length (example_enc c)"
  then have "take n (example_enc c) = replicate n CHR ''a''" by (simp add: example_enc_def)
  then show "isl (example_dec (take n (example_enc c)))" by (auto simp: example_dec_def last_replicate)
qed

definition example_env :: "nat Env" where
  "example_env = \<lparr>ev_Enc = example_enc, ev_Dec = example_dec, ev_Disk = DiskOK, ev_ParseURL = (\<lambda>_. None),
     ev_Do = (\<lambda>q n. (Suc n, Inl ''connection refused''))\<rparr>"

lemma example_env_simps:
  "ev_Enc example_env = example_enc" "ev_Dec example_env = example_dec" "ev_Disk example_env = DiskOK"
  "example_env\<lparr>ev_Disk := DiskOK\<rparr> = example_env"
  by (simp_all add: example_env_def)

definition example_world :: "nat World" where
  "example_world = \<lparr>wd_Home = \<lparr>hm_Dir = Inr ''/root'', hm_File = Absent\<rparr>, wd_Net = 0, wd_Out = []\<rparr>"

definition example_add :: "string list" where
  "example_add = [''add'', ''prod'', ''--endpoint'', ''http://cp'', ''--token'', ''op'']"

definition example_config :: Config where
  "example_config = \<lparr>cg_CurrentContext = ''prod'',
     cg_Contexts = [\<lparr>cx_Name = ''prod'', cx_Endpoint = ''http://cp'', cx_Token = ''op''\<rparr>]\<rparr>"

lemma example_added:
  "runContext example_env example_add example_world =
     (example_world\<lparr>wd_Home := \<lparr>hm_Dir = Inr ''/root'', hm_File = Content (example_enc example_config)\<rparr>,
        wd_Out := [''Context '' @ quoted ''prod'' @ '' added/updated.'']\<rparr>, Done ())"
  by (simp add: runContext_def example_add_def context_add_def context_save_def LoadConfig_def SaveConfig_def
      example_env_simps example_world_def example_config_def say_def Let_def)

theorem context_config_valid_witness:
  "LoadConfig example_dec (wd_Home (context_step example_env (example_add, DiskOK) example_world)) = Inr example_config \<and>
   distinct (map cx_Name (cg_Contexts example_config))"
proof -
  let ?w = "context_step example_env (example_add, DiskOK) example_world"
  have "reach example_world (\<lambda>_ _. True) (context_step example_env) ?w" by (intro reach_step reach_init) simp
  moreover have "LoadConfig (ev_Dec example_env) (wd_Home ?w) = Inr example_config"
    by (simp add: context_step_def example_added example_env_simps LoadConfig_def decodes [OF example_codec])
  moreover have "hm_File (wd_Home example_world) = Absent" by (simp add: example_world_def)
  ultimately show ?thesis
    using context_config_valid [of example_env example_world ?w example_config] by (simp add: example_env_simps example_codec)
qed

text \<open>
  Saving and loading. A configuration that was saved is the one that loads; a write that
  failed leaves the old configuration, the new one or a file that does not load, never a third
  configuration.
\<close>

lemma config_roundtrip:
  assumes "config_codec enc dec" and "SaveConfig enc d cfg h = (h', r)"
  shows "(r = None \<and> LoadConfig dec h' = Inr cfg) \<or>
    (\<exists>e. r = Some e \<and> (LoadConfig dec h' = LoadConfig dec h \<or> LoadConfig dec h' = Inr cfg \<or> isl (LoadConfig dec h')))"
proof (cases d)
  case (WriteFails n e)
  have "LoadConfig dec (h\<lparr>hm_File := Content (take n (enc cfg))\<rparr>) = Inr cfg \<or>
      isl (LoadConfig dec (h\<lparr>hm_File := Content (take n (enc cfg))\<rparr>))"
    using decodes_part [OF assms(1), of n cfg] by (auto simp: LoadConfig_def isl_Inl split: sum.splits)
  with WriteFails assms(2) show ?thesis by (auto simp: SaveConfig_def split: sum.splits)
qed (use assms decodes [OF assms(1)] in \<open>auto simp: SaveConfig_def LoadConfig_def split: sum.splits\<close>)

lemma config_roundtrip_example:
  "LoadConfig example_dec (fst (SaveConfig example_enc DiskOK example_config (wd_Home example_world))) = Inr example_config"
  using config_roundtrip [OF example_codec, of DiskOK example_config "wd_Home example_world"]
  by (auto simp: SaveConfig_def example_world_def)

text \<open>
  Adding a context and switching to it: from then on clients talk to its endpoint with its
  token, whatever was configured before, and every other context is unchanged.
\<close>

lemma context_add_use:
  assumes "config_codec (ev_Enc E) (ev_Dec E)" and "ev_Disk E = DiskOK" and "LoadConfig (ev_Dec E) (wd_Home w) = Inr cfg"
    and "name \<noteq> ''''" and "runContext E [''add'', name, ''--endpoint'', url, ''--token'', tok] w = (w1, r1)"
    and "runContext E [''use'', name] w1 = (w2, r2)"
  shows "r1 = Done () \<and> r2 = Done () \<and> getClient E w2 = (w2, Done (New url tok)) \<and>
    (\<exists>cfg'. LoadConfig (ev_Dec E) (wd_Home w2) = Inr cfg' \<and>
       (\<forall>n. n \<noteq> name \<longrightarrow> List.find (\<lambda>x. cx_Name x = n) (cg_Contexts cfg') = List.find (\<lambda>x. cx_Name x = n) (cg_Contexts cfg)))"
proof -
  note dec = decodes [OF assms(1)]
  obtain d where d: "hm_Dir (wd_Home w) = Inr d" using assms(3) by (auto simp: LoadConfig_def split: sum.splits)
  let ?c1 = "\<lparr>cg_CurrentContext = (if cg_CurrentContext cfg = '''' then name else cg_CurrentContext cfg),
    cg_Contexts = put_context name url tok (cg_Contexts cfg)\<rparr>"
  have w1: "wd_Home w1 = (wd_Home w)\<lparr>hm_File := Content (ev_Enc E ?c1)\<rparr>" "r1 = Done ()"
    using assms(2,3,5) d by (auto simp: runContext_def context_add_def context_save_def SaveConfig_def say_def)
  have l1: "LoadConfig (ev_Dec E) (wd_Home w1) = Inr ?c1" using d by (simp add: LoadConfig_def w1(1) dec)
  have "name \<in> cx_Name ` set (cg_Contexts ?c1)" by (simp add: put_context_set)
  then have "\<exists>x \<in> set (cg_Contexts ?c1). cx_Name x = name" by blast
  then have w2: "wd_Home w2 = (wd_Home w)\<lparr>hm_File := Content (ev_Enc E (?c1\<lparr>cg_CurrentContext := name\<rparr>))\<rparr>" "r2 = Done ()"
    using assms(2,6) d l1 by (auto simp: runContext_def context_use_def context_save_def SaveConfig_def say_def w1(1))
  have l2: "LoadConfig (ev_Dec E) (wd_Home w2) = Inr (?c1\<lparr>cg_CurrentContext := name\<rparr>)" using d by (simp add: LoadConfig_def w2(1) dec)
  then have "getClient E w2 = (w2, Done (New url tok))"
    using assms(4) by (simp add: getClient_def NewFromConfig_def GetActiveContext_def put_context_find)
  with w1(2) w2(2) l2 show ?thesis by (simp add: put_context_find)
qed

lemma context_add_use_example:
  "\<exists>w. getClient example_env w = (w, Done (New ''http://cp'' ''op''))"
proof -
  have "LoadConfig (ev_Dec example_env) (wd_Home example_world) = Inr \<lparr>cg_CurrentContext = [], cg_Contexts = []\<rparr>"
    by (simp add: LoadConfig_def example_world_def)
  then show ?thesis
    using context_add_use [of example_env example_world _ "''prod''" "''http://cp''" "''op''"
        "fst (runContext example_env [''add'', ''prod'', ''--endpoint'', ''http://cp'', ''--token'', ''op''] example_world)" _
        "fst (runContext example_env [''use'', ''prod''] (fst (runContext example_env [''add'', ''prod'', ''--endpoint'', ''http://cp'', ''--token'', ''op''] example_world)))" _]
    by (auto simp: prod_eq_iff example_codec example_env_simps)
qed

end
