(* ===== verification/Cli.thy ===== *)
theory Cli
  imports Client Status
begin

text \<open>
  The commands about the control plane, nodes and jobs, \<open>cmd/runstack/cli.go\<close>: what each requests,
  prints and returns.

  Decoders of answers, the layout of times and fractions and the facts about the local host are the
  record \<open>CliEnv\<close>. Go strings are bytes, so the marks of \<open>doctor\<close> are their UTF-8 encodings. A line
  that goes through a \<open>tabwriter\<close> is given as it is handed to it, before the padding of its columns.
\<close>

section \<open>The environment and texts\<close>

record 'n CliEnv = "'n Env" +
  ce_Status :: "string \<Rightarrow> string + string \<times> string"
  ce_Nodes :: "string \<Rightarrow> string + NodeSummary list"
  ce_Node :: "string \<Rightarrow> string + Node"
  ce_NodeList :: "string \<Rightarrow> string + Node list"
  ce_Jobs :: "string \<Rightarrow> string + Job list"
  ce_Job :: "string \<Rightarrow> string + Job"
  ce_Events :: "string \<Rightarrow> string + JobEvent list"
  ce_Time :: "time \<Rightarrow> string"
  ce_Since :: "time \<Rightarrow> string"
  ce_Quotient :: "nat \<Rightarrow> nat \<Rightarrow> string"
  ce_NumCPU :: int
  ce_Memory :: "64 word"
  ce_Docker :: bool
  ce_Podman :: bool

fun node_status_string :: "NodeStatus \<Rightarrow> string" where
  "node_status_string NodeOnline = ''online''"
| "node_status_string NodeOffline = ''offline''"
| "node_status_string (NodeStatusOther s) = s"

fun event_type_string :: "JobEventType \<Rightarrow> string" where
  "event_type_string EventCreated = ''CREATED''"
| "event_type_string EventAssigned = ''ASSIGNED''"
| "event_type_string EventClaimed = ''CLAIMED''"
| "event_type_string EventSucceeded = ''SUCCEEDED''"
| "event_type_string EventFailed = ''FAILED''"
| "event_type_string EventRecovered = ''RECOVERED''"
| "event_type_string EventRetried = ''RETRIED''"

definition show_bool :: "bool \<Rightarrow> string" where
  "show_bool b = (if b then ''true'' else ''false'')"

fun tabbed :: "string list \<Rightarrow> string" where
  "tabbed [] = ''''"
| "tabbed [c] = c"
| "tabbed (c # cs) = c @ [CHR 0x09] @ tabbed cs"

definition or_dash :: "string \<Rightarrow> string" where
  "or_dash s = (if s = '''' then ''-'' else s)"

lemma unat_div_1024: "unat ((n :: 64 word) div 1024) = unat n div 1024"
  by (simp add: unat_div)

lemma word_ge_1024: "(n :: 64 word) \<ge> 1024 \<longleftrightarrow> 1024 \<le> unat n"
  by (simp add: word_le_nat_alt)

text \<open>The loop of \<open>formatBytes\<close>: the divisor, an \<open>int64\<close>, and the exponent.\<close>

function unit_loop :: "64 word \<Rightarrow> int \<Rightarrow> nat \<Rightarrow> int \<times> nat" where
  "unit_loop n d e = (if n \<ge> 1024 then unit_loop (n div 1024) (wrap64 (d * 1024)) (e + 1) else (d, e))"
  by auto

termination
  by (relation "measure (\<lambda>(n, d, e). unat n)") (auto simp: unat_div_1024 word_ge_1024)

declare unit_loop.simps [simp del]

text \<open>Indexing \<open>"KMGTPE"\<close> out of range would panic: that is \<open>None\<close>.\<close>

definition formatBytes :: "(nat \<Rightarrow> nat \<Rightarrow> string) \<Rightarrow> 64 word \<Rightarrow> string option" where
  "formatBytes quot b =
     (if b < 1024 then Some (show_nat (unat b) @ '' B'')
      else
        (case unit_loop (b div 1024) 1024 0 of
           (d, e) \<Rightarrow>
             if e < length ''KMGTPE''
             then Some (quot (unat b) (nat d) @ '' '' @ [''KMGTPE'' ! e] @ ''iB'') else None))"

section \<open>Requests\<close>

definition connect_error :: string where
  "connect_error = ''failed to connect to control plane: ''"

text \<open>\<open>getClient().Get(path)\<close> with the text that wraps an error.\<close>

definition api_get :: "('n, 'e) Env_scheme \<Rightarrow> string \<Rightarrow> string \<Rightarrow> ('n, HttpResp) command" where
  "api_get E path wrap w =
     and_then (getClient E w) (\<lambda>c w.
       case Client_Get E c path w of
         (w, Inl e) \<Rightarrow> (w, Failed (wrap @ e))
       | (w, Inr r) \<Rightarrow> (w, Done r))"

definition api_post :: "('n, 'e) Env_scheme \<Rightarrow> string \<Rightarrow> payload option \<Rightarrow> string \<Rightarrow> ('n, HttpResp) command" where
  "api_post E path body wrap w =
     and_then (getClient E w) (\<lambda>c w.
       case Client_Post E c path ''application/json'' body w of
         (w, Inl e) \<Rightarrow> (w, Failed (wrap @ e))
       | (w, Inr r) \<Rightarrow> (w, Done r))"

definition api_delete :: "('n, 'e) Env_scheme \<Rightarrow> string \<Rightarrow> string \<Rightarrow> ('n, HttpResp) command" where
  "api_delete E path wrap w =
     and_then (getClient E w) (\<lambda>c w.
       case Client_Delete E c path w of
         (w, Inl e) \<Rightarrow> (w, Failed (wrap @ e))
       | (w, Inr r) \<Rightarrow> (w, Done r))"

text \<open>\<open>http.Get\<close> and \<open>http.DefaultClient\<close>: no base URL, no token.\<close>

definition default_do :: "('n, 'e) Env_scheme \<Rightarrow> string + HttpReq \<Rightarrow> ('n, HttpResp) command" where
  "default_do E q w =
     (case q of
        Inl e \<Rightarrow> (w, Failed (connect_error @ e))
      | Inr q \<Rightarrow>
          (case http_do E q w of
             (w, Inl e) \<Rightarrow> (w, Failed (connect_error @ e))
           | (w, Inr r) \<Rightarrow> (w, Done r)))"

definition expect_ok :: "HttpResp \<Rightarrow> ('n, unit) command" where
  "expect_ok r w =
     (w, if hr_StatusCode r \<noteq> 200 then Failed (''control plane returned status '' @ show_nat (hr_StatusCode r)) else Done ())"

definition decode :: "(string \<Rightarrow> string + 'a) \<Rightarrow> string \<Rightarrow> HttpResp \<Rightarrow> ('n, 'a) command" where
  "decode dec wrap r w = (w, case dec (hr_Body r) of Inl e \<Rightarrow> Failed (wrap @ e) | Inr x \<Rightarrow> Done x)"

definition decode_error :: string where
  "decode_error = ''failed to decode response: ''"

section \<open>Status, nodes and jobs\<close>

definition getStatus :: "('n, 'e) CliEnv_scheme \<Rightarrow> ('n, unit) command" where
  "getStatus E w =
     and_then (api_get E ''/api/v1/status'' connect_error w) (\<lambda>r w.
     and_then (expect_ok r w) (\<lambda>_ w.
     and_then (decode (ce_Status E) decode_error r w) (\<lambda>(status, version) w.
       (say [''RunStack Control Plane'', ''----------------------'', ''Status:  '' @ status, ''Version: '' @ version] w,
        Done ()))))"

text \<open>A panic of \<open>formatBytes\<close> ends the process with exit status 2.\<close>

definition node_row :: "('n, 'e) CliEnv_scheme \<Rightarrow> Node \<Rightarrow> string option" where
  "node_row E n =
     (let caps = n_Capabilities n;
          cs = (if HasDocker caps then ''docker '' else '''') @ (if HasPodman caps then ''podman'' else '''');
          container = (if cs = '''' then ''none'' else cs);
          st = (case n_OfflineSince n of
                  Some t \<Rightarrow> if node_status_string (n_Status n) = ''offline'' then ''offline ('' @ ce_Since E t @ '')''
                             else node_status_string (n_Status n)
                | None \<Rightarrow> node_status_string (n_Status n))
      in map_option (\<lambda>mem. tabbed [n_ID n, n_Hostname n, show_int (n_CPUCores n), mem, n_OS n, n_Architecture n, container, st])
           (formatBytes (ce_Quotient E) (TotalMemoryBytes caps)))"

definition getNodes :: "('n, 'e) CliEnv_scheme \<Rightarrow> ('n, unit) command" where
  "getNodes E w =
     and_then (api_get E ''/api/v1/nodes'' connect_error w) (\<lambda>r w.
     and_then (expect_ok r w) (\<lambda>_ w.
     and_then (decode (ce_Nodes E) decode_error r w) (\<lambda>ns w.
       if ns = [] then (say [''No nodes registered.''] w, Done ())
       else
         (let w1 = say [''RunStack Nodes'', ''''] w; rows = map (\<lambda>n. node_row E (ns_Node n)) ns in
          if None \<in> set rows then (w1, Exited 2)
          else
            (say ([tabbed [''ID'', ''HOSTNAME'', ''CPU'', ''MEM'', ''OS'', ''ARCH'', ''CONTAINER'', ''STATUS''],
                   replicate 80 CHR ''-''] @ map the rows) w1, Done ())))))"

definition getNode :: "('n, 'e) CliEnv_scheme \<Rightarrow> string \<Rightarrow> ('n, unit) command" where
  "getNode E k w =
     and_then (api_get E (''/api/v1/nodes/'' @ k) connect_error w) (\<lambda>r w.
       if hr_StatusCode r = 404 then (w, Failed (''node not found: '' @ k))
       else
     and_then (expect_ok r w) (\<lambda>_ w.
     and_then (decode (ce_Node E) decode_error r w) (\<lambda>n w.
       let w1 = say [''Node'', replicate 25 CHR ''-'', ''ID:             '' @ n_ID n, ''Hostname:       '' @ n_Hostname n,
                  ''CPU Cores:      '' @ show_int (n_CPUCores n), ''OS:             '' @ n_OS n,
                  ''Architecture:   '' @ n_Architecture n, ''Status:         '' @ node_status_string (n_Status n),
                  ''Last Heartbeat: '' @ ce_Time E (n_LastHeartbeat n), '''', ''Capabilities:''] w;
           caps = n_Capabilities n
       in case (formatBytes (ce_Quotient E) (TotalMemoryBytes caps), formatBytes (ce_Quotient E) (AvailableMemoryBytes caps)) of
            (Some mem, Some avail) \<Rightarrow>
              (say [''  Total Memory:     '' @ mem, ''  Available Memory: '' @ avail,
                    ''  Docker:           '' @ show_bool (HasDocker caps), ''  Podman:           '' @ show_bool (HasPodman caps)] w1,
               Done ())
          | (Some mem, None) \<Rightarrow> (say [''  Total Memory:     '' @ mem] w1, Exited 2)
          | (None, _) \<Rightarrow> (w1, Exited 2))))"

fun jobs_filters :: "string list \<Rightarrow> string \<times> string \<Rightarrow> string \<times> string" where
  "jobs_filters (a # v # rest) (st, node) =
     (if a = ''--status'' then jobs_filters rest (v, node)
      else if a = ''--node'' then jobs_filters rest (st, v)
      else jobs_filters (v # rest) (st, node))"
| "jobs_filters _ p = p"

definition jobs_url :: "string \<times> string \<Rightarrow> string" where
  "jobs_url p =
     (let q1 = (if fst p \<noteq> '''' then ''status='' @ fst p else '''');
          q2 = (if snd p \<noteq> '''' then q1 @ (if q1 \<noteq> '''' then ''&'' else '''') @ ''assignedNodeId='' @ snd p else q1)
      in ''/api/v1/jobs'' @ (if q2 \<noteq> '''' then ''?'' @ q2 else ''''))"

definition job_row :: "Job \<Rightarrow> string" where
  "job_row j = tabbed [j_ID j, j_Name j, job_status_string (j_Status j), or_dash (j_AssignedNodeID j),
     show_int (j_Attempts j), show_int (j_MaxRetries j)]"

definition getJobs :: "('n, 'e) CliEnv_scheme \<Rightarrow> string list \<Rightarrow> ('n, unit) command" where
  "getJobs E args w =
     and_then (default_do E (NewRequest E ''GET'' (jobs_url (jobs_filters args ('''', ''''))) None) w) (\<lambda>r w.
     and_then (expect_ok r w) (\<lambda>_ w.
     and_then (decode (ce_Jobs E) decode_error r w) (\<lambda>js w.
       if js = [] then (say [''No jobs found.''] w, Done ())
       else (say ([''RunStack Jobs'', '''', tabbed [''ID'', ''NAME'', ''STATUS'', ''NODE'', ''ATTEMPTS'', ''MAX_RETRIES''],
                   replicate 42 CHR ''-''] @ map job_row js) w, Done ()))))"

definition result_text :: "JobResult option \<Rightarrow> string" where
  "result_text res =
     (case res of
        None \<Rightarrow> ''-''
      | Some r \<Rightarrow> ''ExitCode: '' @ show_int (r_ExitCode r) @ (if r_Error r \<noteq> '''' then '', Error: '' @ r_Error r else ''''))"

definition getJob :: "('n, 'e) CliEnv_scheme \<Rightarrow> string \<Rightarrow> ('n, unit) command" where
  "getJob E k w =
     and_then (api_get E (''/api/v1/jobs/'' @ k) connect_error w) (\<lambda>r w.
       if hr_StatusCode r = 404 then (w, Failed (''job not found: '' @ k))
       else
     and_then (expect_ok r w) (\<lambda>_ w.
     and_then (decode (ce_Job E) decode_error r w) (\<lambda>j w.
       let opt = (\<lambda>t. case t of None \<Rightarrow> ''-'' | Some t \<Rightarrow> ce_Time E t) in
       (say ([''Job'', replicate 25 CHR ''-'', ''ID:            '' @ j_ID j, ''Name:          '' @ j_Name j,
              ''Command:       '' @ j_Command j, ''Status:        '' @ job_status_string (j_Status j),
              ''Created:       '' @ ce_Time E (j_CreatedAt j), ''Started:       '' @ opt (j_StartedAt j),
              ''Completed:     '' @ opt (j_CompletedAt j), ''Assigned Node: '' @ or_dash (j_AssignedNodeID j),
              ''Attempts:      '' @ show_int (j_Attempts j), ''Max Retries:   '' @ show_int (j_MaxRetries j),
              ''Result:        '' @ result_text (j_Result j)] @
             (case j_Result j of
                None \<Rightarrow> []
              | Some res \<Rightarrow> [replicate 25 CHR ''-'', ''Stdout:'', r_Stdout res, ''Stderr:'', r_Stderr res])) w,
        Done ()))))"

definition getJobHistory :: "('n, 'e) CliEnv_scheme \<Rightarrow> string \<Rightarrow> ('n, unit) command" where
  "getJobHistory E k w =
     and_then (api_get E (''/api/v1/jobs/'' @ k @ ''/events'') connect_error w) (\<lambda>r w.
       if hr_StatusCode r = 404 then (w, Failed (''job not found: '' @ k))
       else
     and_then (expect_ok r w) (\<lambda>_ w.
     and_then (decode (ce_Events E) decode_error r w) (\<lambda>es w.
       (say ([''RunStack Job History'', replicate 20 CHR ''-'', tabbed [''TIME'', ''EVENT'', ''FROM'', ''TO'', ''NODE'']] @
             map (\<lambda>e. tabbed [ce_Time E (e_Timestamp e), event_type_string (e_Type e), job_status_string (e_From e),
                              job_status_string (e_To e), or_dash (e_NodeID e)]) es) w,
        Done ()))))"

section \<open>Creating a job\<close>

text \<open>
  \<open>fmt.Sscanf(s, "%d", &n)\<close> on ASCII text: blanks are skipped (a line break is an error), then an
  optional sign and the longest run of digits; what follows is not looked at.
\<close>

definition is_digit :: "char \<Rightarrow> bool" where
  "is_digit c \<longleftrightarrow> (let n = of_char c :: nat in 48 \<le> n \<and> n \<le> 57)"

definition scan_digits :: "string \<Rightarrow> int" where
  "scan_digits ds = foldl (\<lambda>v c. 10 * v + (int (of_char c) - 48)) 0 ds"

definition scan_int :: "string \<Rightarrow> int option" where
  "scan_int s =
     (let t = dropWhile (\<lambda>c. is_space c \<and> c \<noteq> CHR 0x0A) s;
          (neg, u) = (case t of c # u \<Rightarrow> if c = CHR ''-'' then (True, u) else if c = CHR ''+'' then (False, u) else (False, t)
                              | [] \<Rightarrow> (False, t));
          ds = takeWhile is_digit u; v = (if neg then - scan_digits ds else scan_digits ds)
      in if ds = [] \<or> v < min_int64 \<or> max_int64 < v then None else Some v)"

record JobArgs =
  ja_MaxRetries :: int
  ja_Command :: string
  ja_Name :: string

fun job_args :: "string list \<Rightarrow> JobArgs \<Rightarrow> string + JobArgs" where
  "job_args [] p = Inr p"
| "job_args (a # rest) p =
     (if a = ''--max-retries'' then
        (case rest of
           [] \<Rightarrow> Inr p
         | v # rest' \<Rightarrow>
             (case scan_int v of
                None \<Rightarrow> Inl (''invalid --max-retries value: '' @ v)
              | Some n \<Rightarrow>
                  if n < 0 then Inl ''--max-retries must be non-negative''
                  else job_args rest' (p\<lparr>ja_MaxRetries := n\<rparr>)))
      else if a = ''--name'' then
        (case rest of [] \<Rightarrow> Inr p | v # rest' \<Rightarrow> job_args rest' (p\<lparr>ja_Name := v\<rparr>))
      else job_args rest (p\<lparr>ja_Command := a\<rparr>))"

definition createJob :: "('n, 'e) CliEnv_scheme \<Rightarrow> string list \<Rightarrow> ('n, unit) command" where
  "createJob E args w =
     (case job_args args \<lparr>ja_MaxRetries = 0, ja_Command = '''', ja_Name = ''cli-job''\<rparr> of
        Inl e \<Rightarrow> (w, Failed e)
      | Inr p \<Rightarrow>
          if ja_Command p = '''' then (w, Failed ''command is required'')
          else
            and_then (api_post E ''/api/v1/jobs''
                        (Some (JobBody \<lparr>jq_Name = ja_Name p, jq_Command = ja_Command p, jq_MaxRetries = ja_MaxRetries p,
                                        jq_CPU = 0, jq_MemoryMB = 0\<rparr>))
                        ''failed to connect to Control Plane: '' w) (\<lambda>r w.
              if hr_StatusCode r \<noteq> 201 then (w, Failed (''unexpected status code: '' @ show_nat (hr_StatusCode r)))
              else
            and_then (decode (ce_Job E) ''failed to parse response: '' r w) (\<lambda>j w.
              (say [''Job created successfully: '' @ j_ID j] w, Done ()))))"

section \<open>Doctor and errors\<close>

definition tick_mark :: string where
  "tick_mark = [CHR 0xE2, CHR 0x9C, CHR 0x93]"

definition cross_mark :: string where
  "cross_mark = [CHR 0xE2, CHR 0x9C, CHR 0x97]"

definition pad_right :: "nat \<Rightarrow> string \<Rightarrow> string" where
  "pad_right k s = s @ replicate (k - length s) CHR '' ''"

text \<open>A request whose failure is only noted.\<close>

definition probe :: "('n, 'e) Env_scheme \<Rightarrow> string \<Rightarrow> ('n, HttpResp option) command" where
  "probe E path w =
     and_then (getClient E w) (\<lambda>c w.
       case Client_Get E c path w of (w, Inl _) \<Rightarrow> (w, Done None) | (w, Inr r) \<Rightarrow> (w, Done (Some r)))"

definition answered_ok :: "HttpResp option \<Rightarrow> bool" where
  "answered_ok r \<longleftrightarrow> (case r of None \<Rightarrow> False | Some r \<Rightarrow> hr_StatusCode r = 200)"

definition check_line :: "string \<Rightarrow> bool \<Rightarrow> string \<Rightarrow> string \<Rightarrow> string" where
  "check_line label good yes no = pad_right 20 label @ (if good then tick_mark @ '' '' @ yes else cross_mark @ '' '' @ no)"

definition runDoctor :: "('n, 'e) CliEnv_scheme \<Rightarrow> ('n, unit) command" where
  "runDoctor E w =
     and_then (probe E ''/health'' (say [''RunStack Doctor'', concat (replicate 28 [CHR 0xE2, CHR 0x94, CHR 0x80])] w)) (\<lambda>cp w.
     and_then (probe E ''/api/v1/status'' (say [check_line ''Control Plane'' (answered_ok cp) ''reachable'' ''unreachable''] w))
       (\<lambda>st w.
     and_then (probe E ''/api/v1/nodes'' (say [check_line ''API'' (answered_ok st) ''healthy'' ''unreachable''] w)) (\<lambda>nr w.
     and_then (probe E ''/api/v1/jobs'' (say [check_line ''Node Registry'' (answered_ok nr) ''accessible'' ''inaccessible''] w))
       (\<lambda>jr w.
       let ns = (case nr of
                   None \<Rightarrow> []
                 | Some r \<Rightarrow> if hr_StatusCode r = 200 then (case ce_NodeList E (hr_Body r) of Inl _ \<Rightarrow> [] | Inr ns \<Rightarrow> ns) else []);
           healthy = (answered_ok cp \<and> answered_ok st \<and> answered_ok nr \<and> answered_ok jr)
       in (say ([check_line ''Job Registry'' (answered_ok jr) ''accessible'' ''inaccessible'', '''', ''Nodes''] @
                (if ns = [] then [''  (no nodes registered)''] else []) @
                map (\<lambda>n. ''  '' @ pad_right 17 (n_ID n) @ '' '' @
                           (if node_status_string (n_Status n) = ''online'' then tick_mark else cross_mark) @ '' '' @ node_status_string (n_Status n)) ns @
                ['''', ''Local Agent Capabilities'', ''  CPU               '' @ show_int (ce_NumCPU E) @ '' cores'',
                 ''  Memory            '' @ ce_Quotient E (unat (ce_Memory E)) 1073741824 @ '' GiB'',
                 ''  Docker            '' @ (if ce_Docker E then tick_mark else cross_mark),
                 ''  Podman            '' @ (if ce_Podman E then tick_mark else cross_mark),
                 '''', ''Scheduler           '' @ tick_mark @ '' configured'', '''', ''Overall'',
                 check_line '''' healthy ''healthy'' ''degraded'']) w, Done ())))))"

definition printError :: "string \<Rightarrow> string list" where
  "printError msg =
     (if str_contains msg ''connection refused'' \<or> str_contains msg ''failed to connect'' then
        [''Error: unable to connect to RunStack Control Plane at localhost:8080'',
         ''Hint: start the Control Plane with `make control-plane`'']
      else if str_contains msg ''status 404'' then [''Error: resource not found'']
      else [''Error: '' @ msg])"

text \<open>What \<open>runCLI\<close> does with the error of a command.\<close>

fun or_exit :: "(string \<Rightarrow> string list) \<Rightarrow> 'n World \<times> unit outcome \<Rightarrow> 'n World \<times> unit outcome" where
  "or_exit msg (w, Failed e) = (say (msg e) w, Exited 1)"
| "or_exit msg (w, r) = (w, r)"

end
