(* ===== verification/CliApps.thy ===== *)
theory CliApps
  imports Cli
begin

text \<open>
  The commands about applications: \<open>apply\<close>, \<open>diff\<close>, \<open>validate\<close> (\<open>cmd/runstack/apply.go\<close>), \<open>deploy\<close>
  (\<open>deploy.go\<close>), \<open>apps\<close>, \<open>app status\<close> (\<open>apps.go\<close>), \<open>domain\<close>, \<open>secret\<close> and \<open>logs\<close>.

  Files, decoders, the Docker command line and the flags that package \<open>flag\<close> parses are the record
  \<open>AppEnv\<close>. The loop of \<open>apply --wait\<close> selects between a ticker and a deadline; \<open>ae_Ticks\<close> is the number
  of ticks it takes before it takes the deadline.
\<close>

section \<open>The environment and texts\<close>

record ApplyAnswer =
  aa_Action :: string
  aa_DeploymentID :: string

record RunstackConfig =
  rc_Name :: string
  rc_Registry :: string
  rc_Environment :: "(string, string) gomap"
  rc_Ports :: "(int \<times> int) list"
  rc_Replicas :: int
  rc_CPU :: float64
  rc_MemoryMB :: int

record 'n AppEnv = "'n CliEnv" +
  ae_ReadFile :: "string \<Rightarrow> string + string"
  ae_ApplyFlags :: "string list \<Rightarrow> nat + string \<times> bool \<times> duration"
  ae_FileFlag :: "string list \<Rightarrow> nat + string"
  ae_DeployFlags :: "string list \<Rightarrow> nat + float64 \<times> int"
  ae_YAML :: "string \<Rightarrow> string + Manifest"
  ae_Message :: "string \<Rightarrow> string option"
  ae_Answer :: "string \<Rightarrow> string + ApplyAnswer"
  ae_Ticks :: "duration \<Rightarrow> nat"
  ae_Detail :: "string \<Rightarrow> string + AppStatusDetail"
  ae_DetailJSON :: "AppStatusDetail \<Rightarrow> string"
  ae_Apps :: "string \<Rightarrow> string + AppSummary list"
  ae_AppsJSON :: "AppSummary list \<Rightarrow> string"
  ae_Runstack :: "string \<Rightarrow> string + RunstackConfig"
  ae_Docker :: "string list \<Rightarrow> 'n \<Rightarrow> 'n \<times> string option \<times> string"
  ae_Digests :: "string \<Rightarrow> string + string list"
  ae_ErrorField :: "string \<Rightarrow> string option"
  ae_TLS :: "string \<Rightarrow> string \<times> string \<times> string"
  ae_Domains :: "string \<Rightarrow> string + Domain list"
  ae_Secrets :: "string \<Rightarrow> string + Secret list"
  ae_Date :: "time \<Rightarrow> string"

fun manifest_error_string :: "ManifestError \<Rightarrow> string" where
  "manifest_error_string BadName = ''invalid or missing application name (must be a-z0-9-)''"
| "manifest_error_string NoImage = ''image is required''"
| "manifest_error_string NegReplicas = ''replicas cannot be negative''"
| "manifest_error_string BadResources = ''resources (cpu, memory) must be positive''"
| "manifest_error_string BadReadiness = ''readiness probe must have a valid path and port''"
| "manifest_error_string BadLiveness = ''liveness probe must have a valid path and port''"
| "manifest_error_string BadServicePort = ''service port must be greater than 0''"
| "manifest_error_string DomainsNeedService = ''domains require a service to be defined''"
| "manifest_error_string EmptyDomain = ''domain name cannot be empty''"
| "manifest_error_string NegRollout = ''rollout parameters cannot be negative''"

fun app_status_string :: "AppStatus \<Rightarrow> string" where
  "app_status_string AppPending = ''PENDING''"
| "app_status_string AppDeploying = ''DEPLOYING''"
| "app_status_string AppReady = ''READY''"
| "app_status_string AppDegraded = ''DEGRADED''"
| "app_status_string AppStopped = ''STOPPED''"
| "app_status_string (AppStatusOther s) = s"

fun rollout_status_string :: "RolloutStatus \<Rightarrow> string" where
  "rollout_status_string RolloutPending = ''PENDING''"
| "rollout_status_string RolloutProgressing = ''PROGRESSING''"
| "rollout_status_string RolloutPaused = ''PAUSED''"
| "rollout_status_string RolloutFailed = ''FAILED''"
| "rollout_status_string RolloutCompleted = ''COMPLETED''"
| "rollout_status_string RolloutRolledBack = ''ROLLED_BACK''"

fun domain_status_string :: "DomainStatus \<Rightarrow> string" where
  "domain_status_string DomainPending = ''Pending''"
| "domain_status_string DomainActive = ''Active''"
| "domain_status_string DomainTLSFailed = ''TLSFailed''"
| "domain_status_string (DomainStatusOther s) = s"

fun health_string :: "InstanceHealth \<Rightarrow> string" where
  "health_string HealthHealthy = ''HEALTHY''"
| "health_string HealthUnhealthy = ''UNHEALTHY''"
| "health_string HealthUnknown = ''UNKNOWN''"
| "health_string (HealthOther s) = s"

section \<open>apply, diff, validate\<close>

definition parseManifest :: "('n, 'e) AppEnv_scheme \<Rightarrow> string \<Rightarrow> string + Manifest" where
  "parseManifest E path =
     (case ae_ReadFile E path of
        Inl e \<Rightarrow> Inl (''failed to read file: '' @ e)
      | Inr text \<Rightarrow>
          (case ae_YAML E text of
             Inl e \<Rightarrow> Inl (''yaml parse error: '' @ e)
           | Inr m \<Rightarrow>
               (case Manifest_Validate m of
                  Some e \<Rightarrow> Inl (manifest_error_string e)
                | None \<Rightarrow> Inr m)))"

text \<open>The end of a wait: \<open>None\<close> when the loop goes on.\<close>

definition rollout_end :: "string \<Rightarrow> AppStatusDetail \<Rightarrow> (string list \<times> unit outcome option) option" where
  "rollout_end depID d =
     (case sd_ActiveDeployment d of
        None \<Rightarrow> None
      | Some dep \<Rightarrow>
          if pm_ID dep \<noteq> depID then None
          else
            (let line = [CHR 0x0D] @ ''Rollout state: '' @ rollout_status_string (pm_RolloutStatus dep) @ '' ('' @
                   show_int (pm_ReadyReplicas dep) @ ''/'' @ show_int (pm_DesiredReplicas dep) @ '' Ready)  ''
             in Some (case pm_RolloutStatus dep of
                  RolloutCompleted \<Rightarrow> ([line, '''', ''Rollout completed successfully.''], Some (Done ()))
                | RolloutFailed \<Rightarrow>
                    ([line, '''', ''Rollout failed.''] @
                       (if pm_BlockedReason dep \<noteq> '''' then [''Reason: '' @ pm_BlockedReason dep] else []),
                     Some (Failed ''rollout failed''))
                | RolloutRolledBack \<Rightarrow> ([line, '''', ''Rollout rolled back.''], Some (Failed ''rollout rolled back''))
                | _ \<Rightarrow> ([line], None))))"

primrec wait_rollout :: "nat \<Rightarrow> ('n, 'e) AppEnv_scheme \<Rightarrow> string \<Rightarrow> string \<Rightarrow> ('n, unit) command" where
  "wait_rollout 0 E name depID = (\<lambda>w. (w, Failed ''timeout waiting for rollout''))"
| "wait_rollout (Suc k) E name depID =
     (\<lambda>w. and_then (probe E (''/api/v1/apps/'' @ name @ ''/status'') w) (\<lambda>r w.
        case r of
          None \<Rightarrow> wait_rollout k E name depID w
        | Some r \<Rightarrow>
            (case ae_Detail E (hr_Body r) of
               Inl _ \<Rightarrow> wait_rollout k E name depID w
             | Inr d \<Rightarrow>
                 (case rollout_end depID d of
                    None \<Rightarrow> wait_rollout k E name depID w
                  | Some (ls, None) \<Rightarrow> wait_rollout k E name depID (say ls w)
                  | Some (ls, Some out) \<Rightarrow> (say ls w, out)))))"

definition submitManifest ::
  "('n, 'e) AppEnv_scheme \<Rightarrow> string \<Rightarrow> string \<Rightarrow> bool \<Rightarrow> duration \<Rightarrow> ('n, unit) command" where
  "submitManifest E path file_path wait timeout w =
     (case parseManifest E file_path of
        Inl e \<Rightarrow> (w, Failed e)
      | Inr m \<Rightarrow>
          and_then (api_post E path (Some (ManifestBody m)) '''' w) (\<lambda>r w.
            if hr_StatusCode r \<ge> 400 then
              (w, Failed (''server error ('' @ show_nat (hr_StatusCode r) @ '')'' @
                    (case ae_Message E (hr_Body r) of Some msg \<Rightarrow> '': '' @ msg | None \<Rightarrow> '''')))
            else
          and_then (decode (ae_Answer E) '''' r w) (\<lambda>res w.
            let w1 = say ([''Application: '' @ mf_Name m, ''Action:      '' @ aa_Action res] @
                       (if aa_DeploymentID res \<noteq> '''' then [''Deployment:  '' @ aa_DeploymentID res] else [])) w
            in if wait \<and> aa_DeploymentID res \<noteq> '''' then
                 wait_rollout (ae_Ticks E timeout) E (mf_Name m) (aa_DeploymentID res) (say ['''', ''Waiting for rollout...''] w1)
               else (w1, Done ()))))"

definition applyCommand :: "('n, 'e) AppEnv_scheme \<Rightarrow> string list \<Rightarrow> ('n, unit) command" where
  "applyCommand E args w =
     (case ae_ApplyFlags E args of
        Inl c \<Rightarrow> (w, Exited c)
      | Inr (f, wait, timeout) \<Rightarrow> submitManifest E ''/api/v1/apply'' f wait timeout w)"

definition diffCommand :: "('n, 'e) AppEnv_scheme \<Rightarrow> string list \<Rightarrow> ('n, unit) command" where
  "diffCommand E args w =
     (case ae_FileFlag E args of
        Inl c \<Rightarrow> (w, Exited c)
      | Inr f \<Rightarrow> submitManifest E ''/api/v1/diff'' f False 0 w)"

definition validateCommand :: "('n, 'e) AppEnv_scheme \<Rightarrow> string list \<Rightarrow> ('n, unit) command" where
  "validateCommand E args w =
     (case ae_FileFlag E args of
        Inl c \<Rightarrow> (w, Exited c)
      | Inr f \<Rightarrow>
          (case parseManifest E f of
             Inl e \<Rightarrow> (w, Failed e)
           | Inr _ \<Rightarrow> (say [''Manifest '' @ quoted f @ '' is valid.''] w, Done ())))"

section \<open>deploy\<close>

definition base_repo :: "string \<Rightarrow> string" where
  "base_repo s =
     (let tag = takeWhile (\<lambda>c. c \<noteq> CHR '':'') (rev s) in
      if CHR '':'' \<in> set s \<and> CHR ''/'' \<notin> set tag then take (length s - length tag - 1) s else s)"

definition choose_digest :: "string \<Rightarrow> string list \<Rightarrow> string + string" where
  "choose_digest registry digests =
     (let wanted = filter (\<lambda>d. has_prefix d (base_repo registry @ ''@sha256:'')) digests;
          found = (case wanted of d # _ \<Rightarrow> d | [] \<Rightarrow> '''');
          digest = (if found = '''' then hd digests else found)
      in if str_contains digest ''@sha256:'' then Inr digest else Inl (''invalid digest format returned: '' @ digest))"

definition deploy_spec :: "RunstackConfig \<Rightarrow> string \<Rightarrow> AppSpec" where
  "deploy_spec c digest =
     \<lparr>s_Resources = (if rc_CPU c > 0 \<or> rc_MemoryMB c > 0
        then Some \<lparr>rr_CPU = rc_CPU c, rr_MemoryMB = rc_MemoryMB c\<rparr> else None),
      s_Image = digest, s_Command = [], s_Args = [], s_Environment = rc_Environment c,
      s_Ports = map (\<lambda>(cp, hp). \<lparr>ap_ContainerPort = cp, ap_HostPort = hp, ap_Protocol = ''''\<rparr>) (rc_Ports c),
      s_Replicas = (if rc_Replicas c = 0 then 1 else rc_Replicas c), s_Strategy = None,
      s_ReadinessProbe = None, s_LivenessProbe = None\<rparr>"

definition deploy_config :: "('n, 'e) AppEnv_scheme \<Rightarrow> float64 \<Rightarrow> int \<Rightarrow> string + RunstackConfig" where
  "deploy_config E cpu mem =
     (case ae_ReadFile E ''runstack.json'' of
        Inl e \<Rightarrow> Inl (''failed to read runstack.json: '' @ e)
      | Inr text \<Rightarrow>
          (case ae_Runstack E text of
             Inl e \<Rightarrow> Inl (''invalid runstack.json: '' @ e)
           | Inr c \<Rightarrow>
               if rc_Name c = '''' \<or> rc_Registry c = '''' then Inl ''name and registry are required in runstack.json''
               else if has_prefix (rc_Registry c) ''-'' then Inl ''registry cannot start with a dash''
               else
                 (let c1 = c\<lparr>rc_CPU := if cpu > 0 then cpu else rc_CPU c, rc_MemoryMB := if mem > 0 then mem else rc_MemoryMB c\<rparr> in
                  if rc_CPU c1 < 0 then Inl ''cpu must be non-negative''
                  else if rc_MemoryMB c1 < 0 then Inl ''memory must be non-negative''
                  else Inr c1)))"

definition docker_run :: "('n, 'e) AppEnv_scheme \<Rightarrow> string list \<Rightarrow> 'n World \<Rightarrow> 'n World \<times> string option \<times> string" where
  "docker_run E args w = (case ae_Docker E args (wd_Net w) of (n, ans) \<Rightarrow> (w\<lparr>wd_Net := n\<rparr>, ans))"

definition resolve_image :: "('n, 'e) AppEnv_scheme \<Rightarrow> string \<Rightarrow> ('n, string) command" where
  "resolve_image E registry w =
     (case docker_run E [''build'', ''-t'', registry, ''.''] (say [''Building image...''] w) of
        (w, Some e, _) \<Rightarrow> (w, Failed (''build failed: '' @ e))
      | (w, None, _) \<Rightarrow>
     (case docker_run E [''push'', registry] (say [''Pushing image...''] w) of
        (w, Some e, _) \<Rightarrow> (w, Failed (''push failed: '' @ e))
      | (w, None, _) \<Rightarrow>
     (case docker_run E [''inspect'', ''--format={{json .RepoDigests}}'', registry] w of
        (w, err, out) \<Rightarrow>
          if err \<noteq> None \<or> trim_space out = '''' \<or> trim_space out = ''null'' then
            (w, Failed (''failed to get image digest. Ensure registry returns RepoDigests: '' @
                  (case err of Some e \<Rightarrow> e | None \<Rightarrow> ''%!w(<nil>)'')))
          else
            (w, case ae_Digests E (trim_space out) of
                  Inl e \<Rightarrow> Failed (''failed to parse RepoDigests: '' @ e)
                | Inr digests \<Rightarrow>
                    if digests = [] then Failed ''no RepoDigests found for image''
                    else (case choose_digest registry digests of Inl e \<Rightarrow> Failed e | Inr d \<Rightarrow> Done d)))))"

text \<open>The error of \<open>http.NewRequest\<close> is dropped; the \<open>nil\<close> request then panics.\<close>

definition send_deploy :: "('n, 'e) AppEnv_scheme \<Rightarrow> string \<Rightarrow> AppSpec \<Rightarrow> ('n, unit) command" where
  "send_deploy E name spec w =
     (case NewRequest E ''POST'' (''/api/v1/apps/'' @ name @ ''/deploy'') (Some (DeployBody spec)) of
        Inl _ \<Rightarrow> (w, Exited 2)
      | Inr q \<Rightarrow>
          (case http_do E (q\<lparr>hq_ContentType := Some ''application/json''\<rparr>) (say [''Deploying to Control Plane...''] w) of
             (w, Inl e) \<Rightarrow> (w, Failed (connect_error @ e))
           | (w, Inr r) \<Rightarrow>
               if hr_StatusCode r \<noteq> 200 then
                 (w, Failed (case ae_ErrorField E (hr_Body r) of
                        Some msg \<Rightarrow> ''deploy failed: '' @ msg
                      | None \<Rightarrow> ''deploy failed with status: '' @ show_nat (hr_StatusCode r)))
               else (say [''Deployment successful!''] w, Done ())))"

definition runDeploy :: "('n, 'e) AppEnv_scheme \<Rightarrow> string list \<Rightarrow> ('n, unit) command" where
  "runDeploy E args w =
     (case ae_DeployFlags E args of
        Inl c \<Rightarrow> (w, Exited c)
      | Inr (cpu, mem) \<Rightarrow>
          (case deploy_config E cpu mem of
             Inl e \<Rightarrow> (w, Failed e)
           | Inr c \<Rightarrow>
               and_then (resolve_image E (rc_Registry c) w) (\<lambda>digest w.
                 send_deploy E (rc_Name c) (deploy_spec c digest) (say [''Image digest resolved: '' @ digest] w))))"

section \<open>apps and app status\<close>

fun joined :: "string \<Rightarrow> string list \<Rightarrow> string" where
  "joined sep [] = ''''"
| "joined sep [s] = s"
| "joined sep (s # ss) = s @ sep @ joined sep ss"

definition app_row :: "AppSummary \<Rightarrow> string" where
  "app_row a =
     (let all = joined '','' (am_Domains a);
          doms = (if am_Domains a = [] then ''-'' else if length all > 30 then take 27 all @ ''...'' else all);
          tls = (if am_TLSActive a then ''Active'' else if am_Domains a \<noteq> [] then ''Pending/None'' else ''-'');
          rollout = (case am_RolloutStatus a of None \<Rightarrow> ''-'' | Some r \<Rightarrow> rollout_status_string r)
      in tabbed [am_Name a, app_status_string (am_Status a), show_int (am_ReadyReplicas a), show_int (am_DesiredReplicas a),
                 rollout, doms, tls])"

definition runApps :: "('n, 'e) AppEnv_scheme \<Rightarrow> string list \<Rightarrow> ('n, unit) command" where
  "runApps E args w =
     and_then (api_get E ''/api/v1/apps'' connect_error w) (\<lambda>r w.
     and_then (expect_ok r w) (\<lambda>_ w.
     and_then (decode (ae_Apps E) decode_error r w) (\<lambda>as w.
       if ''--json'' \<in> set args then (say [ae_AppsJSON E as] w, Done ())
       else if as = [] then (say [''No applications found.''] w, Done ())
       else (say (tabbed [''NAME'', ''STATUS'', ''READY'', ''DESIRED'', ''ROLLOUT'', ''DOMAINS'', ''TLS''] # map app_row as) w, Done ()))))"

definition deployment_lines :: "DeploymentSummary option \<Rightarrow> string list" where
  "deployment_lines dep =
     (case dep of
        None \<Rightarrow> [''Active Deployment: None'']
      | Some d \<Rightarrow>
          [''Active Deployment: '' @ pm_ID d @ '' (Hash: '' @ pm_Hash d @ '')'', '''',
           ''Rollout State: '' @ rollout_status_string (pm_RolloutStatus d),
           ''  Replicas: '' @ show_int (pm_DesiredReplicas d) @ '' Desired | '' @ show_int (pm_ReadyReplicas d) @ '' Ready | '' @
             show_int (pm_UnavailableReplicas d) @ '' Unavailable'',
           ''  Reason: '' @ or_dash (pm_BlockedReason d)])"

definition detail_lines :: "AppStatusDetail \<Rightarrow> string list" where
  "detail_lines d =
     [''Application: '' @ mt_Name (sd_Application d) @ '' ('' @ app_status_string (mt_Status (sd_Application d)) @ '')''] @
     deployment_lines (sd_ActiveDeployment d) @ ['''', ''Instances:''] @
     (if sd_Instances d = [] then [''  (no instances)'']
      else map (\<lambda>i. ''  '' @ im_ID i @ ''  '' @ im_NodeID i @ ''  '' @ status_string (im_Status i) @ ''  '' @ health_string (im_Health i) @
             (if status_string (im_Status i) = ''CRASHED'' then '' (Logs retained: yes)'' else '' (Resets: -)'')) (sd_Instances d)) @
     ['''', ''Networking:''] @
     (if sd_Domains d = [] then [''  Domains: (none)'']
      else ''  Domains:'' # map (\<lambda>m. ''    - '' @ dq_Name m @ '' (TLS: '' @
             (if dq_TLS m then domain_status_string (dq_Status m) else ''None'') @ '', Path: '' @ dq_Path m @ '')'') (sd_Domains d))"

definition runAppStatus :: "('n, 'e) AppEnv_scheme \<Rightarrow> string list \<Rightarrow> ('n, unit) command" where
  "runAppStatus E args w =
     (case args of
        [] \<Rightarrow> (w, Failed ''usage: runstack app status <name> [--json]'')
      | name # rest \<Rightarrow>
          and_then (api_get E (''/api/v1/apps/'' @ name @ ''/status'') connect_error w) (\<lambda>r w.
            if hr_StatusCode r = 404 then (w, Failed (''application '' @ quoted name @ '' not found''))
            else
          and_then (expect_ok r w) (\<lambda>_ w.
          and_then (decode (ae_Detail E) decode_error r w) (\<lambda>d w.
            (say (if ''--json'' \<in> set rest then [ae_DetailJSON E d] else detail_lines d) w, Done ())))))"

section \<open>domain\<close>

definition domain_tls :: "('n, 'e) AppEnv_scheme \<Rightarrow> string list \<Rightarrow> ('n, unit) command" where
  "domain_tls E args w =
     (if length args < 3 then (w, Failed ''usage: runstack domain tls <enable|status> <domain>'')
      else
        (let act = args ! 1; domain = args ! 2; path = ''/api/v1/domains/'' @ domain @ ''/tls'' in
         if act = ''enable'' then
           and_then (api_post E path None '''' w) (\<lambda>r w.
             if hr_StatusCode r \<noteq> 200 then (w, Failed (''failed: '' @ hr_Status r))
             else (say [''TLS enabled for '' @ domain @ '' (ACME process started)''] w, Done ()))
         else if act = ''status'' then
           and_then (api_get E path '''' w) (\<lambda>r w.
             case ae_TLS E (hr_Body r) of
               (name, st, err) \<Rightarrow>
                 (say ([''Domain: '' @ name, ''Status: '' @ st] @ (if err \<noteq> '''' then [''Error: '' @ err] else [])) w, Done ()))
         else (w, Failed (''unknown action: '' @ act))))"

definition domain_add :: "('n, 'e) AppEnv_scheme \<Rightarrow> string list \<Rightarrow> ('n, unit) command" where
  "domain_add E args w =
     (if length args < 3 then (w, Failed ''usage: runstack domain add <app-name|app-id> <domain>'')
      else
        (let appID = args ! 1; domain = args ! 2 in
         and_then (api_post E ''/api/v1/domains''
             (Some (DomainBody \<lparr>mq_Name = domain, mq_ApplicationID = appID, mq_TLS = False\<rparr>))
             ''failed to connect to Control Plane: '' w) (\<lambda>r w.
           if hr_StatusCode r = 409 then (w, Failed (''domain '' @ domain @ '' is already registered''))
           else if hr_StatusCode r = 403 then (w, Failed (''domain '' @ domain @ '' is claimed by another application''))
           else if hr_StatusCode r \<noteq> 201 then (w, Failed (''unexpected status: '' @ hr_Status r))
           else (say [''Domain '' @ domain @ '' added successfully to application '' @ appID] w, Done ()))))"

definition domain_ls :: "('n, 'e) AppEnv_scheme \<Rightarrow> string list \<Rightarrow> ('n, unit) command" where
  "domain_ls E args w =
     and_then (api_get E (if length args = 2 then ''/api/v1/domains?application_id='' @ args ! 1 else ''/api/v1/domains'')
                 ''failed to connect: '' w) (\<lambda>r w.
     and_then (decode (ae_Domains E) decode_error r w) (\<lambda>ds w.
       (say (tabbed [''ID'', ''DOMAIN'', ''APP_ID'', ''STATUS'', ''TLS''] #
             map (\<lambda>d. tabbed [dm_ID d, dm_Name d, dm_ApplicationID d, domain_status_string (dm_Status d), show_bool (dm_TLS d)]) ds) w,
        Done ())))"

definition domain_rm :: "('n, 'e) AppEnv_scheme \<Rightarrow> string list \<Rightarrow> ('n, unit) command" where
  "domain_rm E args w =
     (if length args < 2 then (w, Failed ''usage: runstack domain rm <domain-id>'')
      else
        and_then (api_delete E (''/api/v1/domains/'' @ args ! 1) ''failed to connect: '' w) (\<lambda>r w.
          if hr_StatusCode r = 404 then (w, Failed ''domain not found'')
          else if hr_StatusCode r \<noteq> 204 then (w, Failed (''unexpected status: '' @ hr_Status r))
          else (say [''Domain deleted''] w, Done ())))"

definition runDomain :: "('n, 'e) AppEnv_scheme \<Rightarrow> string list \<Rightarrow> ('n, unit) command" where
  "runDomain E args w =
     (case args of
        [] \<Rightarrow> (say [''Usage: runstack domain <command>'', ''Commands:'', ''  add <app-name|app-id> <domain>'',
                   ''  tls <enable|status> <domain>'', ''  ls [app-name|app-id]'', ''  rm <domain-id>''] w, Exited 1)
      | cmd # _ \<Rightarrow>
          if cmd = ''tls'' then domain_tls E args w
          else if cmd = ''add'' then domain_add E args w
          else if cmd = ''ls'' then domain_ls E args w
          else if cmd = ''rm'' then domain_rm E args w
          else (w, Done ()))"

section \<open>secret\<close>

definition runSecretSet :: "('n, 'e) AppEnv_scheme \<Rightarrow> string list \<Rightarrow> ('n, unit) command" where
  "runSecretSet E args w =
     (if length args \<noteq> 3 then (w, Failed ''usage: runstack secret set <app_id> <name> <value>'')
      else
        and_then (api_post E ''/api/v1/secrets''
            (Some (SecretBody \<lparr>tq_Name = args ! 1, tq_Value = args ! 2, tq_ApplicationID = args ! 0\<rparr>)) ''failed to connect: '' w)
          (\<lambda>r w.
            if hr_StatusCode r \<ge> 400 then (w, Failed (''failed to set secret: '' @ trim_space (hr_Body r)))
            else (say [''Secret '' @ args ! 1 @ '' set for application '' @ args ! 0] w, Done ())))"

definition runSecretList :: "('n, 'e) AppEnv_scheme \<Rightarrow> string list \<Rightarrow> ('n, unit) command" where
  "runSecretList E args w =
     (if length args \<noteq> 1 then (w, Failed ''usage: runstack secret ls <app_id>'')
      else
        and_then (api_get E (''/api/v1/secrets?application_id='' @ args ! 0) ''failed to connect: '' w) (\<lambda>r w.
          if hr_StatusCode r \<noteq> 200 then (w, Failed (''failed to list secrets: '' @ trim_space (hr_Body r)))
          else
        and_then (decode (ae_Secrets E) ''failed to parse response: '' r w) (\<lambda>ss w.
          (say (tabbed [''ID'', ''NAME'', ''UPDATED_AT''] #
                map (\<lambda>s. tabbed [sec_ID s, sec_Name s, ae_Date E (sec_UpdatedAt s)]) ss) w, Done ()))))"

definition runSecretDelete :: "('n, 'e) AppEnv_scheme \<Rightarrow> string list \<Rightarrow> ('n, unit) command" where
  "runSecretDelete E args w =
     (if length args \<noteq> 1 then (w, Failed ''usage: runstack secret rm <secret_id>'')
      else
        and_then (api_delete E (''/api/v1/secrets/'' @ args ! 0) ''failed to connect: '' w) (\<lambda>r w.
          if hr_StatusCode r \<ge> 400 then (w, Failed (''failed to delete secret: '' @ trim_space (hr_Body r)))
          else (say [''Secret '' @ args ! 0 @ '' deleted''] w, Done ())))"

definition runSecret :: "('n, 'e) AppEnv_scheme \<Rightarrow> string list \<Rightarrow> ('n, unit) command" where
  "runSecret E args w =
     (case args of
        [] \<Rightarrow> (w, Failed ''missing secret command: set, ls, rm'')
      | cmd # rest \<Rightarrow>
          if cmd = ''set'' then runSecretSet E rest w
          else if cmd = ''ls'' then runSecretList E rest w
          else if cmd = ''rm'' then runSecretDelete E rest w
          else (w, Failed (''unknown secret command: '' @ cmd)))"

section \<open>logs\<close>

definition log_header :: "string \<Rightarrow> AppStatusDetail \<Rightarrow> string list" where
  "log_header instanceID d =
     (case List.find (\<lambda>i. if instanceID \<noteq> '''' then im_ID i = instanceID else status_string (im_Status i) = ''RUNNING'')
             (sd_Instances d) of
        None \<Rightarrow> []
      | Some i \<Rightarrow>
          [''Application: '' @ mt_Name (sd_Application d)] @
          (case sd_ActiveDeployment d of None \<Rightarrow> [] | Some dep \<Rightarrow> [''Deployment:  '' @ pm_ID dep]) @
          [''Instance:    '' @ im_ID i, ''Node:        '' @ im_NodeID i, ''Status:      '' @ status_string (im_Status i),
           ''Logs Retained: '' @ (if status_string (im_Status i) = ''CRASHED'' then ''yes'' else ''no''), replicate 80 CHR ''-''])"

definition runLogs :: "('n, 'e) AppEnv_scheme \<Rightarrow> string list \<Rightarrow> ('n, unit) command" where
  "runLogs E args w =
     (case args of
        [] \<Rightarrow> (w, Failed ''usage: runstack logs <app-id> [--instance <instance-id>]'')
      | appID # _ \<Rightarrow>
          (let instanceID = (if length args \<ge> 3 \<and> args ! 1 = ''--instance'' then args ! 2 else '''') in
           and_then (probe E (''/api/v1/apps/'' @ appID @ ''/status'') w) (\<lambda>st w.
             let w1 = (case st of
                         None \<Rightarrow> w
                       | Some r \<Rightarrow>
                           if hr_StatusCode r = 200
                           then (case ae_Detail E (hr_Body r) of Inl _ \<Rightarrow> w | Inr d \<Rightarrow> say (log_header instanceID d) w) else w)
             in and_then (api_get E (''/api/v1/apps/'' @ appID @ ''/logs'' @
                                     (if instanceID \<noteq> '''' then ''?instance='' @ instanceID else ''''))
                            ''failed to fetch logs: '' w1) (\<lambda>r w.
                  if hr_StatusCode r \<ge> 400 then
                    (w, Failed (''failed to fetch logs (status '' @ show_nat (hr_StatusCode r) @ ''): '' @ hr_Body r))
                  else (say [hr_Body r] w, Done ())))))"

section \<open>The command line\<close>

definition usage_lines :: "string list" where
  "usage_lines =
     [''Usage: runstack <command>'', '''', ''Commands:'', ''  deploy    Deploy an application manually'',
      ''  apply     Apply a declarative manifest'', ''  diff      Compare a manifest to Control Plane state'',
      ''  validate  Validate a manifest locally'', ''  apps      List applications'',
      ''  app status <name> Show detailed application status'', ''  cp        Start Control Plane'', ''  agent     Start Agent'',
      ''  status    Show control plane status'', ''  version   Show CLI version'', ''  doctor    Diagnose system health'',
      ''  nodes     List all registered nodes'', ''  node <id> Show details of a specific node'',
      ''  jobs      List all jobs (flags: --status, --node)'',
      ''  job create <command> [--max-retries <n>] Create a new job'', ''  job <id>  Show details of a specific job'',
      ''  domain    Manage custom domains'', ''  secret    Manage application secrets (set, ls, rm)'']"

definition plain_error :: "string \<Rightarrow> string list" where
  "plain_error e = [''Error: '' @ e]"

definition job_command :: "('n, 'e) AppEnv_scheme \<Rightarrow> string list \<Rightarrow> ('n, unit) command" where
  "job_command E args w =
     (if length args < 2 then (say [''Usage: runstack job <id> [--history] OR runstack job create <command>''] w, Exited 1)
      else if args ! 1 = ''create'' then or_exit printError (createJob E (drop 2 args) w)
      else if length args = 3 \<and> args ! 2 = ''--history'' then or_exit printError (getJobHistory E (args ! 1) w)
      else or_exit printError (getJob E (args ! 1) w))"

definition runCLI :: "('n, 'e) AppEnv_scheme \<Rightarrow> string list \<Rightarrow> ('n, unit) command" where
  "runCLI E args w =
     (case args of
        [] \<Rightarrow> (say usage_lines w, Exited 1)
      | command # rest \<Rightarrow>
          if command = ''apply'' then or_exit plain_error (applyCommand E rest w)
          else if command = ''diff'' then or_exit plain_error (diffCommand E rest w)
          else if command = ''validate'' then or_exit plain_error (validateCommand E rest w)
          else if command = ''apps'' then or_exit plain_error (runApps E rest w)
          else if command = ''app'' then
            (if length args > 2 \<and> args ! 1 = ''status'' then or_exit plain_error (runAppStatus E (drop 2 args) w)
             else (say [''Usage: runstack app status <name>''] w, Exited 1))
          else if command = ''deploy'' then or_exit plain_error (runDeploy E rest w)
          else if command = ''logs'' then or_exit plain_error (runLogs E rest w)
          else if command = ''domain'' then or_exit plain_error (runDomain E rest w)
          else if command = ''secret'' then or_exit plain_error (runSecret E rest w)
          else if command = ''status'' then or_exit printError (getStatus E w)
          else if command = ''version'' then (say [''RunStack v0.1.0''] w, Done ())
          else if command = ''doctor'' then runDoctor E w
          else if command = ''nodes'' then or_exit printError (getNodes E w)
          else if command = ''node'' then
            (if length args < 2 then (say [''Usage: runstack node <id>''] w, Exited 1)
             else or_exit printError (getNode E (args ! 1) w))
          else if command = ''jobs'' then or_exit printError (getJobs E rest w)
          else if command = ''job'' then job_command E args w
          else (say [''Unknown command: '' @ command] w, Exited 1))"

text \<open>\<open>cp\<close> and \<open>agent\<close> run until they are stopped; they are arguments here and the subject of other theories.\<close>

definition main ::
  "(string list \<Rightarrow> ('n, unit) command) \<Rightarrow> (string list \<Rightarrow> ('n, unit) command) \<Rightarrow> 8 word list \<Rightarrow> ('n, 'e) AppEnv_scheme \<Rightarrow>
   string list \<Rightarrow> ('n, unit) command" where
  "main runControlPlane runAgent random E args w =
     (case args of
        [] \<Rightarrow> runCLI E [] w
      | command # rest \<Rightarrow>
          if command = ''context'' then runContext E rest w
          else if command = ''auth'' then runAuth random rest w
          else if command = ''cp'' \<or> command = ''control-plane'' then runControlPlane rest w
          else if command = ''agent'' then runAgent rest w
          else runCLI E args w)"

end
