(* ===== verification/Commands.thy ===== *)
theory Commands
  imports CliApps
begin

text \<open>
  Properties of the command line: where the token of a context may go, what the commands without
  the client do, when \<open>apply --wait\<close> succeeds, and the units of \<open>formatBytes\<close>.
\<close>

section \<open>Units\<close>

lemma unit_loop_pow:
  assumes "unit_loop n d e = (d', e')" and "d = 1024 ^ (e + 1)" and "e \<le> 5" and "unat n < 1024 ^ (5 - e) * 16"
  shows "e' \<le> 5 \<and> e \<le> e' \<and> d' = 1024 ^ (e' + 1) \<and> unat n < 1024 ^ (e' - e + 1) \<and> (e < e' \<longrightarrow> 1024 ^ (e' - e) \<le> unat n)"
  using assms
proof (induction n d e rule: unit_loop.induct)
  case (1 n d e)
  show ?case
  proof (cases "n \<ge> 1024")
    case False
    with 1 show ?thesis by (auto simp: unit_loop.simps [of n] word_ge_1024)
  next
    case True
    then have n: "1024 \<le> unat n" by (simp add: word_ge_1024)
    with "1.prems"(3,4) have e: "e < 5" by (cases "e = 5") auto
    then have "e \<in> {0, 1, 2, 3, 4}" by auto
    then have w: "wrap64 (d * 1024) = 1024 ^ (e + 1 + 1)" and p: "1024 ^ (5 - e) = 1024 * (1024 :: nat) ^ (5 - (e + 1))"
      using "1.prems"(2) by (auto simp: wrap64_def)
    have "unat n div 1024 < 1024 ^ (5 - (e + 1)) * 16"
      using "1.prems"(4) by (simp add: p less_mult_imp_div_less mult.commute mult.left_commute)
    moreover have "unit_loop (n div 1024) (wrap64 (d * 1024)) (e + 1) = (d', e')"
      using "1.prems"(1) True by (simp add: unit_loop.simps [of n])
    ultimately have ih: "e' \<le> 5" "e + 1 \<le> e'" "d' = 1024 ^ (e' + 1)" "unat n div 1024 < 1024 ^ (e' - (e + 1) + 1)"
        "e + 1 < e' \<longrightarrow> 1024 ^ (e' - (e + 1)) \<le> unat n div 1024"
      using "1.IH" [OF True _ w] e by (auto simp: unat_div_1024)
    obtain k where k: "e' = e + 1 + k" using ih(2) le_Suc_ex by blast
    from ih(4) have "unat n < 1024 ^ (e' - e + 1)" by (simp add: k div_less_iff_less_mult mult.commute)
    moreover from ih(5) n have "1024 ^ (e' - e) \<le> unat n"
      by (cases "k = 0") (auto simp: k less_eq_div_iff_mult_less_eq mult.commute)
    ultimately show ?thesis using ih(1-3) by simp
  qed
qed

text \<open>
  Sizes print without a panic. For every 64-bit number of bytes the divisor stays in an
  \<open>int64\<close>, the letter exists, and the unit is the largest power of 1024 that fits.
\<close>

lemma formatBytes_unit:
  assumes "1024 \<le> unat b"
  shows "\<exists>e < 6. formatBytes quot b = Some (quot (unat b) (1024 ^ (e + 1)) @ '' '' @ [''KMGTPE'' ! e] @ ''iB'') \<and>
    1024 ^ (e + 1) \<le> unat b \<and> unat b < 1024 ^ (e + 2)"
proof -
  obtain d e where r: "unit_loop (b div 1024) 1024 0 = (d, e)" by fastforce
  have "unat b < 2 ^ 64" by (rule order_less_le_trans [OF unsigned_less]) simp
  then have "unat (b div 1024) < 1024 ^ (5 - 0) * 16" by (simp add: unat_div_1024)
  from unit_loop_pow [OF r _ _ this] have u: "e \<le> 5" "d = 1024 ^ (e + 1)" "unat b div 1024 < 1024 ^ (e + 1)"
      "0 < e \<longrightarrow> 1024 ^ e \<le> unat b div 1024"
    by (auto simp: unat_div_1024)
  have "unat b < 1024 ^ (e + 2)" using u(3) by (simp add: div_less_iff_less_mult mult.commute)
  moreover have "1024 ^ (e + 1) \<le> unat b"
    using u(4) assms by (cases "e = 0") (auto simp: less_eq_div_iff_mult_less_eq mult.commute)
  moreover have "\<not> b < 1024" using assms by (simp add: word_ge_1024 not_less)
  moreover have "nat d = 1024 ^ (e + 1)"
  proof -
    have "d = int (1024 ^ (e + 1))" using u(2) by simp
    then show ?thesis by (simp only: nat_int)
  qed
  moreover have "e < 6" using u(1) by simp
  ultimately show ?thesis using u(1) by (intro exI [of _ e]) (simp add: formatBytes_def r)
qed

lemma formatBytes_unit_example:
  "\<exists>e < 6. formatBytes (\<lambda>a d. show_nat (a div d)) 5368709120 = Some (show_nat (5368709120 div 1024 ^ (e + 1)) @ '' '' @ [''KMGTPE'' ! e] @ ''iB'') \<and>
    1024 ^ (e + 1) \<le> (5368709120 :: nat) \<and> (5368709120 :: nat) < 1024 ^ (e + 2)"
proof -
  have "unat (5368709120 :: 64 word) = 5368709120" by simp
  then show ?thesis using formatBytes_unit [of 5368709120 "\<lambda>a d. show_nat (a div d)"] by simp
qed

section \<open>What a command may do to the network\<close>

definition active_context :: "('n, 'e) Env_scheme \<Rightarrow> Home \<Rightarrow> Context option" where
  "active_context E h =
     (case LoadConfig (ev_Dec E) h of
        Inl _ \<Rightarrow> None
      | Inr cfg \<Rightarrow> (case GetActiveContext cfg of Inl _ \<Rightarrow> None | Inr x \<Rightarrow> Some x))"

text \<open>A request without a token, or with the token of the active context to the endpoint of that context.\<close>

definition may_send :: "('n, 'e) Env_scheme \<Rightarrow> Home \<Rightarrow> HttpReq \<Rightarrow> bool" where
  "may_send E h q \<longleftrightarrow> hq_Auth q = None \<or>
     (\<exists>x. active_context E h = Some x \<and> cx_Token x \<noteq> '''' \<and> hq_Auth q = Some (''Bearer '' @ cx_Token x) \<and>
          has_prefix (hq_URL q) (cx_Endpoint x))"

definition holds :: "Home \<Rightarrow> ('n \<Rightarrow> bool) \<Rightarrow> 'n World \<Rightarrow> bool" where
  "holds h Q w \<longleftrightarrow> wd_Home w = h \<and> Q (wd_Net w)"

text \<open>
  The contract between the commands and the network: a property of the network that the requests a
  command may send and the Docker command line keep.
\<close>

locale network =
  fixes E :: "('n, 'e) AppEnv_scheme"
    and h :: Home
    and Q :: "'n \<Rightarrow> bool"
  assumes request: "may_send E h q \<Longrightarrow> Q n \<Longrightarrow> Q (fst (ev_Do E q n))"
    and docker: "Q n \<Longrightarrow> Q (fst (ae_Docker E args n))"
begin

abbreviation kept :: "'n World \<Rightarrow> bool" where
  "kept \<equiv> holds h Q"

lemma kept_say [simp]: "kept (say ls w) = kept w"
  by (simp add: holds_def say_def)

lemma kept_do: "kept w \<Longrightarrow> may_send E h q \<Longrightarrow> kept (fst (http_do E q w))"
  using request by (simp add: holds_def http_do_def split: prod.split) (metis fst_conv)

lemma kept_docker: "kept w \<Longrightarrow> kept (fst (docker_run E args w))"
  using docker by (simp add: holds_def docker_run_def split: prod.split) (metis fst_conv)

lemma kept_and_then:
  "kept (fst x) \<Longrightarrow> (\<And>a w. kept w \<Longrightarrow> kept (fst (f a w))) \<Longrightarrow> kept (fst (and_then x f))"
  by (cases "(x, f)" rule: and_then.cases) auto

lemma kept_doreq:
  assumes "kept w" and "active_context E h = Some x" and "has_prefix (hq_URL q) (cx_Endpoint x)" and "hq_Auth q = None"
  shows "kept (fst (DoReq E (New (cx_Endpoint x) (cx_Token x)) q w))"
  unfolding DoReq_def using assms by (intro kept_do) (auto simp: may_send_def New_def)

lemma prefix_append [simp]: "has_prefix (a @ b) a"
  by (simp add: has_prefix_def)

lemma get_client:
  assumes "kept w" and "\<And>x. active_context E h = Some x \<Longrightarrow> kept (fst (f (New (cx_Endpoint x) (cx_Token x)) w))"
  shows "kept (fst (and_then (getClient E w) f))"
  using assms
  by (auto simp: getClient_def NewFromConfig_def active_context_def holds_def say_def split: sum.splits)

lemma kept_get: "kept w \<Longrightarrow> active_context E h = Some x \<Longrightarrow> kept (fst (Client_Get E (New (cx_Endpoint x) (cx_Token x)) path w))"
  by (auto simp: Client_Get_def NewRequest_def New_def [of "cx_Endpoint x" "cx_Token x"] split: sum.splits option.splits
      intro!: kept_doreq [unfolded New_def])

lemma kept_post:
  "kept w \<Longrightarrow> active_context E h = Some x \<Longrightarrow> kept (fst (Client_Post E (New (cx_Endpoint x) (cx_Token x)) path ct body w))"
  by (auto simp: Client_Post_def NewRequest_def New_def [of "cx_Endpoint x" "cx_Token x"] split: sum.splits option.splits
      intro!: kept_doreq [unfolded New_def])

lemma kept_delete: "kept w \<Longrightarrow> active_context E h = Some x \<Longrightarrow> kept (fst (Client_Delete E (New (cx_Endpoint x) (cx_Token x)) path w))"
  by (auto simp: Client_Delete_def NewRequest_def New_def [of "cx_Endpoint x" "cx_Token x"] split: sum.splits option.splits
      intro!: kept_doreq [unfolded New_def])

lemma kept_case: "kept (fst r) \<Longrightarrow> (\<And>w e. kept w \<Longrightarrow> kept (fst (f w e))) \<Longrightarrow> (\<And>w a. kept w \<Longrightarrow> kept (fst (g w a))) \<Longrightarrow>
    kept (fst (case r of (w, Inl e) \<Rightarrow> f w e | (w, Inr a) \<Rightarrow> g w a))"
  by (auto split: prod.splits sum.splits)

lemma kept_api_get: "kept w \<Longrightarrow> kept (fst (api_get E path wrap w))"
  unfolding api_get_def by (intro get_client kept_case kept_get) auto

lemma kept_api_post: "kept w \<Longrightarrow> kept (fst (api_post E path body wrap w))"
  unfolding api_post_def by (intro get_client kept_case kept_post) auto

lemma kept_api_delete: "kept w \<Longrightarrow> kept (fst (api_delete E path wrap w))"
  unfolding api_delete_def by (intro get_client kept_case kept_delete) auto

lemma kept_probe: "kept w \<Longrightarrow> kept (fst (probe E path w))"
  unfolding probe_def by (intro get_client kept_case kept_get) auto

lemma holds_default: "kept w \<Longrightarrow> kept (fst (default_do E (NewRequest E m url body) w))"
  unfolding default_do_def NewRequest_def
  by (auto split: option.splits intro!: kept_case kept_do simp: may_send_def)

lemma kept_expect [simp]: "kept (fst (expect_ok r w)) = kept w"
  by (simp add: expect_ok_def)

lemma kept_decode [simp]: "kept (fst (decode dec wrap r w)) = kept w"
  by (simp add: decode_def)

lemma kept_or_exit [simp]: "kept (fst (or_exit msg x)) = kept (fst x)"
  by (cases "(msg, x)" rule: or_exit.cases) auto

lemma kept_if: "kept (fst x) \<Longrightarrow> kept (fst y) \<Longrightarrow> kept (fst (if b then x else y))"
  by simp

lemmas keeps = kept_if kept_and_then kept_api_get kept_api_post kept_api_delete kept_probe holds_default

end

section \<open>Every command keeps what its requests keep\<close>

context network
begin

lemma kept_status: "kept w \<Longrightarrow> kept (fst (getStatus E w))"
  unfolding getStatus_def by (auto intro!: keeps)

lemma kept_nodes: "kept w \<Longrightarrow> kept (fst (getNodes E w))"
  unfolding getNodes_def by (auto intro!: keeps simp: Let_def)

lemma kept_node: "kept w \<Longrightarrow> kept (fst (getNode E k w))"
  unfolding getNode_def by (auto intro!: keeps simp: Let_def split: option.splits)

lemma kept_jobs: "kept w \<Longrightarrow> kept (fst (getJobs E args w))"
  unfolding getJobs_def by (auto intro!: keeps)

lemma kept_job: "kept w \<Longrightarrow> kept (fst (getJob E k w))"
  unfolding getJob_def by (auto intro!: keeps simp: Let_def)

lemma kept_history: "kept w \<Longrightarrow> kept (fst (getJobHistory E k w))"
  unfolding getJobHistory_def by (auto intro!: keeps)

lemma kept_create: "kept w \<Longrightarrow> kept (fst (createJob E args w))"
  unfolding createJob_def by (auto intro!: keeps split: sum.splits)

lemma kept_doctor: "kept w \<Longrightarrow> kept (fst (runDoctor E w))"
  unfolding runDoctor_def Let_def by (intro keeps) (simp_all only: kept_say fst_conv)

lemma kept_wait: "kept w \<Longrightarrow> kept (fst (wait_rollout k E name depID w))"
proof (induction k arbitrary: w)
  case (Suc k)
  have ended: "kept (fst (case rollout_end depID d of
                    None \<Rightarrow> wait_rollout k E name depID w
                  | Some (ls, None) \<Rightarrow> wait_rollout k E name depID (say ls w)
                  | Some (ls, Some out) \<Rightarrow> (say ls w, out)))" if "kept w" for d w
    using that Suc.IH by (cases "rollout_end depID d") (auto split: option.split)
  show ?case
    unfolding wait_rollout.simps
    by (intro kept_and_then kept_probe Suc.prems) (auto split: option.split sum.split intro: ended Suc.IH)
qed simp

lemma kept_submit: "kept w \<Longrightarrow> kept (fst (submitManifest E path file_path wait timeout w))"
  unfolding submitManifest_def by (auto intro!: keeps kept_wait simp: Let_def split: sum.splits)

lemma kept_manifests:
  "kept w \<Longrightarrow> kept (fst (applyCommand E args w))" "kept w \<Longrightarrow> kept (fst (diffCommand E args w))"
  "kept w \<Longrightarrow> kept (fst (validateCommand E args w))"
  by (auto simp: applyCommand_def diffCommand_def validateCommand_def intro!: kept_submit split: sum.splits)

lemma kept_docker_case:
  assumes "kept (fst x)" and "\<And>w err out. kept w \<Longrightarrow> kept (fst (f w err out))"
  shows "kept (fst (case x of (w, err, out) \<Rightarrow> f w err out))"
  using assms by (cases x) auto

lemma kept_image: "kept w \<Longrightarrow> kept (fst (resolve_image E registry w))"
  unfolding resolve_image_def
  by (intro kept_docker_case kept_docker kept_if) (auto split: option.split intro!: kept_docker_case kept_docker)

lemma kept_send: "kept w \<Longrightarrow> kept (fst (send_deploy E name spec w))"
  unfolding send_deploy_def NewRequest_def
  by (auto split: option.splits intro!: kept_case kept_do simp: may_send_def)

lemma kept_deploy: "kept w \<Longrightarrow> kept (fst (runDeploy E args w))"
  unfolding runDeploy_def by (auto intro!: kept_and_then kept_image kept_send split: sum.splits)

lemma kept_apps: "kept w \<Longrightarrow> kept (fst (runApps E args w))"
  unfolding runApps_def by (auto intro!: keeps)

lemma kept_app_status: "kept w \<Longrightarrow> kept (fst (runAppStatus E args w))"
  unfolding runAppStatus_def by (auto intro!: keeps split: list.splits)

lemma kept_domain_commands:
  "kept w \<Longrightarrow> kept (fst (domain_tls E args w))" "kept w \<Longrightarrow> kept (fst (domain_add E args w))"
  "kept w \<Longrightarrow> kept (fst (domain_ls E args w))" "kept w \<Longrightarrow> kept (fst (domain_rm E args w))"
  unfolding domain_tls_def domain_add_def domain_ls_def domain_rm_def Let_def by (auto intro!: keeps split: prod.splits)

lemma kept_domain: "kept w \<Longrightarrow> kept (fst (runDomain E args w))"
  by (cases args) (simp_all add: runDomain_def kept_domain_commands)

lemma kept_secret_commands:
  "kept w \<Longrightarrow> kept (fst (runSecretSet E args w))" "kept w \<Longrightarrow> kept (fst (runSecretList E args w))"
  "kept w \<Longrightarrow> kept (fst (runSecretDelete E args w))"
  unfolding runSecretSet_def runSecretList_def runSecretDelete_def by (auto intro!: keeps)

lemma kept_secret: "kept w \<Longrightarrow> kept (fst (runSecret E args w))"
  by (cases args) (simp_all add: runSecret_def kept_secret_commands)

lemma kept_logs: "kept w \<Longrightarrow> kept (fst (runLogs E args w))"
  unfolding runLogs_def by (auto intro!: keeps simp: Let_def split: list.splits option.splits sum.splits)

lemma kept_job_command: "kept w \<Longrightarrow> kept (fst (job_command E args w))"
  by (simp add: job_command_def kept_create kept_history kept_job)

lemmas kept_commands = kept_status kept_nodes kept_node kept_jobs kept_job_command kept_doctor kept_manifests kept_deploy
  kept_apps kept_app_status kept_domain kept_secret kept_logs

lemma kept_cli: "kept w \<Longrightarrow> kept (fst (runCLI E args w))"
  by (cases args) (simp_all add: runCLI_def kept_commands)

end

section \<open>The token of a context\<close>

text \<open>A network that remembers the requests it was given; Docker is not part of it.\<close>

definition logs_requests :: "('n, 'e) AppEnv_scheme \<Rightarrow> ('n \<Rightarrow> HttpReq list) \<Rightarrow> bool" where
  "logs_requests E sent \<longleftrightarrow> (\<forall>q n. sent (fst (ev_Do E q n)) = sent n @ [q]) \<and> (\<forall>args n. sent (fst (ae_Docker E args n)) = sent n)"

interpretation token_scope: network E h
  "\<lambda>n. logs_requests E sent \<longrightarrow> (\<exists>qs. sent n = before @ qs \<and> (\<forall>q \<in> set qs. may_send E h q))" for E h sent before
  by unfold_locales (auto simp: logs_requests_def)

lemma rollout_end_done:
  assumes "rollout_end depID d = Some (ls, Some (Done ()))"
  shows "\<exists>dep. sd_ActiveDeployment d = Some dep \<and> pm_ID dep = depID \<and> pm_RolloutStatus dep = RolloutCompleted"
proof (cases "sd_ActiveDeployment d")
  case (Some dep)
  with assms show ?thesis by (cases "pm_RolloutStatus dep") (auto simp: rollout_end_def Let_def split: if_splits)
qed (use assms in \<open>simp add: rollout_end_def\<close>)

lemma wait_completed:
  assumes "wait_rollout k E name depID w = (w', Done ())"
  shows "\<exists>w1 w2 r d dep. probe E (''/api/v1/apps/'' @ name @ ''/status'') w1 = (w2, Done (Some r)) \<and> ae_Detail E (hr_Body r) = Inr d \<and>
    sd_ActiveDeployment d = Some dep \<and> pm_ID dep = depID \<and> pm_RolloutStatus dep = RolloutCompleted"
  using assms
proof (induction k arbitrary: w)
  case (Suc k)
  obtain w1 p where p: "probe E (''/api/v1/apps/'' @ name @ ''/status'') w = (w1, p)" by fastforce
  with Suc.prems obtain r where r: "p = Done r" by (cases p) auto
  show ?case
  proof (cases "\<exists>a d. r = Some a \<and> ae_Detail E (hr_Body a) = Inr d \<and> (\<exists>ls out. rollout_end depID d = Some (ls, Some out))")
    case True
    then obtain a d ls out where e: "r = Some a" "ae_Detail E (hr_Body a) = Inr d" "rollout_end depID d = Some (ls, Some out)"
      by blast
    from Suc.prems p e have "out = Done ()" by (simp add: r)
    with e(3) obtain dep where "sd_ActiveDeployment d = Some dep" "pm_ID dep = depID" "pm_RolloutStatus dep = RolloutCompleted"
      using rollout_end_done by blast
    with p r e show ?thesis by blast
  next
    case False
    then have "\<exists>w2. wait_rollout k E name depID w2 = (w', Done ())"
      using Suc.prems p by (auto simp: r split: option.splits sum.splits prod.splits)
    then show ?thesis using Suc.IH by blast
  qed
qed simp

section \<open>Properties of the command line\<close>

text \<open>
  C34: the token of a context goes to the endpoint of that context only. Whatever command runs,
  whatever its arguments and the answers of the network: every request it sends carries no token,
  or the token of the active context to a URL under the endpoint of that context; and no command
  of \<open>runCLI\<close> changes the configuration.
\<close>

theorem token_stays_home:
  assumes "logs_requests E sent" and "runCLI E args w = (w', r)"
  shows "wd_Home w' = wd_Home w \<and>
    (\<exists>qs. sent (wd_Net w') = sent (wd_Net w) @ qs \<and>
      (\<forall>q \<in> set qs. hq_Auth q = None \<or>
        (\<exists>x. active_context E (wd_Home w) = Some x \<and> hq_Auth q = Some (''Bearer '' @ cx_Token x) \<and>
             has_prefix (hq_URL q) (cx_Endpoint x))))"
proof -
  let ?Q = "\<lambda>n. logs_requests E sent \<longrightarrow> (\<exists>qs. sent n = sent (wd_Net w) @ qs \<and> (\<forall>q \<in> set qs. may_send E (wd_Home w) q))"
  have "holds (wd_Home w) ?Q w" by (simp add: holds_def)
  from token_scope.kept_cli [OF this, of args] assms
  have "wd_Home w' = wd_Home w" and "\<exists>qs. sent (wd_Net w') = sent (wd_Net w) @ qs \<and> (\<forall>q \<in> set qs. may_send E (wd_Home w) q)"
    by (simp_all add: holds_def)
  then show ?thesis unfolding may_send_def by blast
qed

text \<open>An operator's machine: the context of the other examples, a network that answers every request with status 200.\<close>

definition example_transport :: "HttpReq \<Rightarrow> HttpReq list \<Rightarrow> HttpReq list \<times> (string + HttpResp)" where
  "example_transport q n = (n @ [q],
     if has_prefix (hq_URL q) ''/'' then Inl ''unsupported protocol scheme''
     else Inr \<lparr>hr_StatusCode = 200, hr_Status = ''200 OK'', hr_Body = ''done''\<rparr>)"

definition example_summary :: DeploymentSummary where
  "example_summary = \<lparr>pm_ID = ''d1'', pm_Version = 1, pm_Hash = ''h'', pm_RolloutStatus = RolloutCompleted, pm_DesiredReplicas = 1,
     pm_UpdatedReplicas = 1, pm_ReadyReplicas = 1, pm_UnavailableReplicas = 0, pm_BlockedReason = '''', pm_Degraded = False,
     pm_Resources = None, pm_Image = ''web''\<rparr>"

definition example_app :: "(HttpReq \<Rightarrow> 'n \<Rightarrow> 'n \<times> (string + HttpResp)) \<Rightarrow> 'n AppEnv" where
  "example_app net =
     \<lparr>ev_Enc = example_enc, ev_Dec = example_dec, ev_Disk = DiskOK, ev_ParseURL = (\<lambda>_. None), ev_Do = net,
      ce_Status = (\<lambda>s. Inr (s, ''v'')), ce_Nodes = Inl, ce_Node = Inl, ce_NodeList = Inl, ce_Jobs = Inl, ce_Job = (\<lambda>_. Inr example_assigned_job),
      ce_Events = Inl, ce_Time = show_int, ce_Since = show_int, ce_Quotient = (\<lambda>a d. show_nat (a div d)), ce_NumCPU = 4,
      ce_Memory = 4096, ce_Docker = True, ce_Podman = False,
      ae_ReadFile = (\<lambda>_. Inr ''m''), ae_ApplyFlags = (\<lambda>_. Inr (''f'', True, minute)), ae_FileFlag = (\<lambda>_. Inr ''f''),
      ae_DeployFlags = (\<lambda>_. Inr (0, 0)), ae_YAML = (\<lambda>_. Inr example_manifest), ae_Message = (\<lambda>_. None),
      ae_Answer = (\<lambda>_. Inr \<lparr>aa_Action = ''created'', aa_DeploymentID = ''d1''\<rparr>), ae_Ticks = (\<lambda>_. 3),
      ae_Detail = (\<lambda>_. Inr \<lparr>sd_Application = \<lparr>mt_ID = ''a'', mt_Name = ''shop'', mt_Status = AppReady\<rparr>,
        sd_ActiveDeployment = Some example_summary, sd_Instances = [], sd_Domains = []\<rparr>),
      ae_DetailJSON = (\<lambda>_. ''{}''), ae_Apps = Inl, ae_AppsJSON = (\<lambda>_. ''[]''), ae_Runstack = Inl,
      ae_Docker = (\<lambda>_ n. (n, None, '''')), ae_Digests = Inl, ae_ErrorField = Some, ae_TLS = (\<lambda>s. (s, s, s)),
      ae_Domains = Inl, ae_Secrets = Inl, ae_Date = show_int\<rparr>"

definition example_app_env :: "HttpReq list AppEnv" where
  "example_app_env = example_app example_transport"

definition example_operator :: "HttpReq list World" where
  "example_operator = \<lparr>wd_Home = \<lparr>hm_Dir = Inr ''/root'', hm_File = Content (example_enc example_config)\<rparr>, wd_Net = [], wd_Out = []\<rparr>"

lemma example_app_fields:
  "ev_Dec example_app_env = example_dec" "ev_ParseURL example_app_env = (\<lambda>_. None)" "ev_Do example_app_env = example_transport"
  "ae_Docker example_app_env = (\<lambda>_ n. (n, None, ''''))" "ce_Status example_app_env = (\<lambda>s. Inr (s, ''v''))"
  by (simp_all add: example_app_env_def example_app_def)

lemma example_operator_net: "wd_Net example_operator = []"
  by (simp add: example_operator_def)

lemma example_client:
  "wd_Home w = wd_Home example_operator \<Longrightarrow> getClient example_app_env w = (w, Done (New ''http://cp'' ''op''))"
  by (simp add: getClient_def NewFromConfig_def LoadConfig_def example_app_fields example_operator_def decodes [OF example_codec]
      GetActiveContext_def example_config_def)

definition example_request_sent :: HttpReq where
  "example_request_sent = \<lparr>hq_Method = ''GET'', hq_URL = ''http://cp/api/v1/status'', hq_ContentType = None,
     hq_Auth = Some ''Bearer op'', hq_Body = None\<rparr>"

lemma example_status_run:
  "wd_Net (fst (runCLI example_app_env [''status''] example_operator)) = [example_request_sent]"
  by (simp add: runCLI_def getStatus_def api_get_def example_client Client_Get_def NewRequest_def New_def DoReq_def http_do_def
      example_transport_def example_app_fields expect_ok_def decode_def say_def has_prefix_def example_operator_net example_request_sent_def)

theorem token_stays_home_witness:
  "wd_Net (fst (runCLI example_app_env [''status''] example_operator)) = [example_request_sent] \<and>
   (hq_Auth example_request_sent = None \<or> has_prefix (hq_URL example_request_sent) ''http://cp'')"
proof -
  have "logs_requests example_app_env (\<lambda>n. n)"
    by (simp add: logs_requests_def example_app_fields example_transport_def)
  moreover have "active_context example_app_env (wd_Home example_operator) =
      Some \<lparr>cx_Name = ''prod'', cx_Endpoint = ''http://cp'', cx_Token = ''op''\<rparr>"
    by (simp add: active_context_def LoadConfig_def example_app_fields example_operator_def decodes [OF example_codec]
      GetActiveContext_def example_config_def)
  ultimately show ?thesis
    using token_stays_home [of example_app_env "\<lambda>n. n" "[''status'']" example_operator
        "fst (runCLI example_app_env [''status''] example_operator)" "snd (runCLI example_app_env [''status''] example_operator)"]
    by (auto simp: example_status_run example_operator_net)
qed

text \<open>
  C0: the commands that do not use the client never work. \<open>jobs\<close> and \<open>deploy\<close> send their request to
  a URL without scheme and host, which an HTTP client refuses: \<open>jobs\<close> always exits with an error and
  \<open>deploy\<close> never succeeds, although it has built and pushed the image by then.
\<close>

definition needs_scheme :: "('n, 'e) Env_scheme \<Rightarrow> bool" where
  "needs_scheme E \<longleftrightarrow> (\<forall>q n. has_prefix (hq_URL q) ''/'' \<longrightarrow> isl (snd (ev_Do E q n)))"

lemma default_fails:
  assumes "needs_scheme E" and "has_prefix url ''/''"
  shows "\<exists>w1 e. default_do E (NewRequest E m url body) w = (w1, Failed e) \<and> wd_Home w1 = wd_Home w \<and> wd_Out w1 = wd_Out w"
proof (cases "ev_ParseURL E url")
  case None
  let ?q = "\<lparr>hq_Method = m, hq_URL = url, hq_ContentType = None, hq_Auth = None, hq_Body = body\<rparr>"
  obtain n ans where "ev_Do E ?q (wd_Net w) = (n, ans)" by fastforce
  moreover have "isl (snd (ev_Do E ?q (wd_Net w)))" using assms by (simp add: needs_scheme_def)
  ultimately show ?thesis using None by (auto simp: default_do_def NewRequest_def http_do_def isl_Inl)
qed (simp add: default_do_def NewRequest_def)

lemma send_deploy_fails:
  assumes "needs_scheme E"
  shows "snd (send_deploy E name spec w) \<noteq> Done ()"
proof (cases "ev_ParseURL E (''/api/v1/apps/'' @ name @ ''/deploy'')")
  case None
  let ?q = "\<lparr>hq_Method = ''POST'', hq_URL = ''/api/v1/apps/'' @ name @ ''/deploy'', hq_ContentType = Some ''application/json'',
    hq_Auth = None, hq_Body = Some (DeployBody spec)\<rparr>"
  have "has_prefix (hq_URL ?q) ''/''" by (simp add: has_prefix_def)
  then have "isl (snd (ev_Do E ?q n))" for n using assms unfolding needs_scheme_def by blast
  then show ?thesis
    using None by (auto simp: send_deploy_def NewRequest_def http_do_def isl_Inl split: prod.splits sum.splits) (metis snd_conv sum.simps(4))
qed (simp add: send_deploy_def NewRequest_def)

theorem relative_urls_fail:
  assumes "needs_scheme E"
  shows "snd (runCLI E (''jobs'' # args) w) = Exited 1 \<and> snd (runCLI E (''deploy'' # args) w) \<noteq> Done ()"
proof
  have "has_prefix (jobs_url (jobs_filters args ('''', ''''))) ''/''" by (simp add: jobs_url_def has_prefix_def Let_def)
  from default_fails [OF assms this] obtain w1 e where
    "default_do E (NewRequest E ''GET'' (jobs_url (jobs_filters args ('''', ''''))) None) w = (w1, Failed e)" by blast
  then show "snd (runCLI E (''jobs'' # args) w) = Exited 1" by (simp add: runCLI_def getJobs_def)
next
  have "snd (runDeploy E args w) \<noteq> Done ()"
  proof -
    have "snd (and_then x (\<lambda>digest w. send_deploy E name (spec digest) (f digest w))) \<noteq> Done ()" for x name spec f
      using send_deploy_fails [OF assms] by (cases x; cases "snd x") auto
    then have "snd (runDeploy E args w) \<noteq> Done ()" if "ae_DeployFlags E args = Inr p" "deploy_config E (fst p) (snd p) = Inr c" for p c
      using that unfolding runDeploy_def by (simp only: sum.case prod.case_eq_if) simp
    then show ?thesis
      by (cases "ae_DeployFlags E args"; cases "deploy_config E (fst (projr (ae_DeployFlags E args))) (snd (projr (ae_DeployFlags E args)))")
        (auto simp: runDeploy_def)
  qed
  then show "snd (runCLI E (''deploy'' # args) w) \<noteq> Done ()"
    by (cases "(plain_error, runDeploy E args w)" rule: or_exit.cases) (auto simp: runCLI_def)
qed

theorem relative_urls_fail_witness:
  "snd (runCLI example_app_env [''jobs''] example_operator) = Exited 1 \<and> snd (runCLI example_app_env [''deploy''] example_operator) \<noteq> Done ()"
proof -
  have "needs_scheme example_app_env" by (simp add: needs_scheme_def example_app_fields example_transport_def)
  then show ?thesis by (rule relative_urls_fail)
qed

text \<open>
  What \<open>apply --wait\<close> reports is true. If it ends without an error, the manifest was valid, the
  control plane accepted it, and unless it answered without a deployment, an answer of the control
  plane said that exactly this deployment is active and its rollout complete.
\<close>

lemma apply_wait_truthful:
  assumes "submitManifest E path f True timeout w = (w', Done ())"
  shows "\<exists>m (r :: HttpResp) res. parseManifest E f = Inr m \<and> Manifest_Validate m = None \<and> hr_StatusCode r < 400 \<and> ae_Answer E (hr_Body r) = Inr res \<and>
    (aa_DeploymentID res = '''' \<or>
     (\<exists>w1 w2 a d dep. probe E (''/api/v1/apps/'' @ mf_Name m @ ''/status'') w1 = (w2, Done (Some a)) \<and> ae_Detail E (hr_Body a) = Inr d \<and>
        sd_ActiveDeployment d = Some dep \<and> pm_ID dep = aa_DeploymentID res \<and> pm_RolloutStatus dep = RolloutCompleted))"
proof -
  obtain m where m: "parseManifest E f = Inr m" using assms by (cases "parseManifest E f") (auto simp: submitManifest_def)
  then have v: "Manifest_Validate m = None" by (auto simp: parseManifest_def split: sum.splits option.splits)
  obtain w1 p where p: "api_post E path (Some (ManifestBody m)) '''' w = (w1, p)" by fastforce
  with assms m obtain r where r: "p = Done r" by (cases p) (auto simp: submitManifest_def)
  have ok: "hr_StatusCode r < 400" using assms m p r by (auto simp: submitManifest_def not_le split: if_splits)
  obtain res where res: "ae_Answer E (hr_Body r) = Inr res"
    using assms m p r ok by (cases "ae_Answer E (hr_Body r)") (auto simp: submitManifest_def decode_def)
  show ?thesis
  proof (cases "aa_DeploymentID res = ''''")
    case False
    then have "\<exists>w2. wait_rollout (ae_Ticks E timeout) E (mf_Name m) (aa_DeploymentID res) w2 = (w', Done ())"
      using assms m p r ok res by (auto simp: submitManifest_def decode_def Let_def)
    then obtain w2 where "wait_rollout (ae_Ticks E timeout) E (mf_Name m) (aa_DeploymentID res) w2 = (w', Done ())" by blast
    from wait_completed [OF this] show ?thesis
      by (intro exI [of _ m] exI [of _ r] exI [of _ res] conjI disjI2 m v ok res)
  qed (use m v ok res in blast)
qed

lemma example_manifest_parses: "parseManifest example_app_env ''f'' = Inr example_manifest"
  by (simp add: parseManifest_def example_app_env_def example_app_def example_manifest_valid)

lemma example_apply_run:
  "snd (submitManifest example_app_env ''/api/v1/apply'' ''f'' True minute example_operator) = Done ()"
proof -
  have "ae_Answer example_app_env = (\<lambda>_. Inr \<lparr>aa_Action = ''created'', aa_DeploymentID = ''d1''\<rparr>)"
    "ae_Ticks example_app_env minute = Suc (Suc (Suc 0))"
    "ae_Detail example_app_env = (\<lambda>_. Inr \<lparr>sd_Application = \<lparr>mt_ID = ''a'', mt_Name = ''shop'', mt_Status = AppReady\<rparr>,
        sd_ActiveDeployment = Some example_summary, sd_Instances = [], sd_Domains = []\<rparr>)"
    by (simp_all add: example_app_env_def example_app_def)
  then show ?thesis
    by (simp add: submitManifest_def example_manifest_parses api_post_def example_client Client_Post_def NewRequest_def New_def DoReq_def
        http_do_def example_transport_def example_app_fields has_prefix_def decode_def say_def Let_def probe_def Client_Get_def
        rollout_end_def example_summary_def)
qed

lemma apply_wait_truthful_example:
  "snd (submitManifest example_app_env ''/api/v1/apply'' ''f'' True minute example_operator) = Done () \<and>
   Manifest_Validate example_manifest = None"
proof -
  let ?run = "submitManifest example_app_env ''/api/v1/apply'' ''f'' True minute example_operator"
  have "?run = (fst ?run, Done ())" using example_apply_run by (simp add: prod_eq_iff)
  from apply_wait_truthful [OF this] show ?thesis by (auto simp: example_manifest_parses example_apply_run)
qed

end
