(* ===== verification/Operator.thy ===== *)
theory Operator
  imports Commands Platform
begin

text \<open>
  The command line against the control plane: the network of a command delivers its requests to the
  routes of \<open>runControlPlane\<close>. The route of a request is the one \<open>http.ServeMux\<close> finds for its method
  and path (\<open>cmd/runstack/cp.go\<close>), for identifiers and names without characters that URLs escape.

  Clock readings and identifiers of the \<open>n\<close>-th request are the input \<open>inp n\<close>; the text of an
  answer is the argument \<open>render\<close>, what the agent of an instance answers to a request for its logs \<open>logs n\<close>.
\<close>

section \<open>Routes\<close>

text \<open>The value of a parameter in the query of a URL, the empty string if it is missing.\<close>

definition query_value :: "string \<Rightarrow> string \<Rightarrow> string" where
  "query_value key query =
     (case filter (\<lambda>p. has_prefix p (key @ ''='')) (split_on CHR ''&'' query) of
        p # _ \<Rightarrow> trim_prefix p (key @ ''='')
      | [] \<Rightarrow> '''')"

definition get_route :: "(nat \<times> string) option \<Rightarrow> string list \<Rightarrow> string \<Rightarrow> request option" where
  "get_route logs path query =
     (if path = [''health''] then Some GetHealth
      else if take 2 path = [''api'', ''v1''] then
        (case drop 2 path of
           [a] \<Rightarrow>
             if a = ''status'' then Some GetStatus
             else if a = ''nodes'' then Some ListNodes
             else if a = ''jobs'' then Some (ListJobs (query_value ''assignedNodeId'' query) (query_value ''status'' query))
             else if a = ''apps'' then Some ListAppSummaries
             else if a = ''domains'' then Some (ListDomains (query_value ''application_id'' query))
             else if a = ''secrets'' then Some (ListSecrets (query_value ''application_id'' query))
             else None
         | [a, k] \<Rightarrow>
             if a = ''nodes'' then Some (GetNode k)
             else if a = ''jobs'' then Some (GetJob k)
             else if a = ''apps'' then Some (GetAppByID k)
             else None
         | [a, k, b] \<Rightarrow>
             if a = ''jobs'' \<and> b = ''events'' then Some (GetJobEvents k)
             else if a = ''apps'' \<and> b = ''status'' then Some (GetAppStatusOf k)
             else if a = ''apps'' \<and> b = ''logs'' then Some (GetLogsOf k (query_value ''instance'' query) logs)
             else if a = ''domains'' \<and> b = ''tls'' then Some (GetTLS k)
             else None
         | _ \<Rightarrow> None)
      else None)"

definition post_route :: "string list \<Rightarrow> payload option \<Rightarrow> request option" where
  "post_route path body =
     (if take 2 path = [''api'', ''v1''] then
        (case drop 2 path of
           [a] \<Rightarrow>
             if a = ''jobs'' then Some (CreateJob (case body of Some (JobBody b) \<Rightarrow> Some b | _ \<Rightarrow> None))
             else if a = ''secrets'' then Some (SetSecret (case body of Some (SecretBody b) \<Rightarrow> Some b | _ \<Rightarrow> None))
             else if a = ''domains'' then Some (CreateDomain (case body of Some (DomainBody b) \<Rightarrow> Some b | _ \<Rightarrow> None))
             else if a = ''apply'' then Some (PostApply (case body of Some (ManifestBody b) \<Rightarrow> Some b | _ \<Rightarrow> None))
             else if a = ''diff'' then Some (PostDiff (case body of Some (ManifestBody b) \<Rightarrow> Some b | _ \<Rightarrow> None))
             else None
         | [a, k, b] \<Rightarrow>
             if a = ''apps'' \<and> b = ''deploy'' then Some (PostDeploy k (case body of Some (DeployBody s) \<Rightarrow> Some s | _ \<Rightarrow> None))
             else if a = ''domains'' \<and> b = ''tls'' then Some (PostTLS k)
             else None
         | _ \<Rightarrow> None)
      else None)"

definition delete_route :: "string list \<Rightarrow> request option" where
  "delete_route path =
     (if take 2 path = [''api'', ''v1''] then
        (case drop 2 path of
           [a, k] \<Rightarrow> if a = ''domains'' then Some (DeleteDomain k) else if a = ''secrets'' then Some (DeleteSecret k) else None
         | _ \<Rightarrow> None)
      else None)"

text \<open>The routes that commands of operators use.\<close>

definition route_request :: "(nat \<times> string) option \<Rightarrow> HttpReq \<Rightarrow> string \<Rightarrow> request option" where
  "route_request logs q url =
     (let path = tl (split_on CHR ''/'' (takeWhile (\<lambda>c. c \<noteq> CHR ''?'') url));
          query = drop 1 (dropWhile (\<lambda>c. c \<noteq> CHR ''?'') url)
      in if hq_Method q = ''GET'' then get_route logs path query
         else if hq_Method q = ''POST'' then post_route path (hq_Body q)
         else if hq_Method q = ''DELETE'' then delete_route path
         else None)"

record OperatorNet =
  on_platform :: Platform
  on_requests :: nat

text \<open>A control plane that listens at \<open>base\<close>.\<close>

definition platform_net ::
  "AuthManager \<Rightarrow> (AppSpec \<Rightarrow> string) \<Rightarrow> (rat \<Rightarrow> rat) \<Rightarrow> (nat \<Rightarrow> RequestInput) \<Rightarrow> (nat \<Rightarrow> (nat \<times> string) option) \<Rightarrow>
   (request \<Rightarrow> Platform \<Rightarrow> string) \<Rightarrow> string \<Rightarrow> HttpReq \<Rightarrow> OperatorNet \<Rightarrow> OperatorNet \<times> (string + HttpResp)" where
  "platform_net m hash rnd inp logs render base q n =
     (if \<not> has_prefix (hq_URL q) base then (n, Inl ''connection refused'')
      else
        (let n1 = n\<lparr>on_requests := Suc (on_requests n)\<rparr> in
         case route_request (logs (on_requests n)) q (drop (length base) (hq_URL q)) of
           None \<Rightarrow> (n1, Inr \<lparr>hr_StatusCode = 404, hr_Status = ''404 Not Found'', hr_Body = ''404 page not found''\<rparr>)
         | Some r \<Rightarrow>
             (case serve m hash rnd (inp (on_requests n)) (case hq_Auth q of None \<Rightarrow> '''' | Some a \<Rightarrow> a) r (on_platform n) of
                (p, st) \<Rightarrow>
                  (n1\<lparr>on_platform := p\<rparr>, Inr \<lparr>hr_StatusCode = st, hr_Status = show_nat st, hr_Body = render r p\<rparr>))))"

section \<open>Without the operator's token\<close>

lemma routes_guarded:
  assumes "route_request logs q url = Some r"
  shows "guard_of r = Operator \<or> r \<in> {GetHealth, GetStatus}"
  using assms
  by (auto simp: route_request_def get_route_def post_route_def delete_route_def Let_def split: if_splits list.splits)

lemma serve_unauthorised:
  assumes "guard_of r = Operator \<or> r \<in> {GetHealth, GetStatus}" and "header \<noteq> ''Bearer '' @ operatorToken m"
  shows "fst (serve m hash rnd x header r p) = p"
proof (cases "guard_of r = Public")
  case True
  then have "r \<in> {GetHealth, GetStatus}" using assms(1) by auto
  then show ?thesis by (auto simp: serve_def handle_def)
next
  case False
  then have g: "guard_of r = Operator" using assms(1) by auto
  show ?thesis
  proof (cases "serve m hash rnd x header r p \<in> {(p, 401), (p, 403)}")
    case admitted: False
    from serve_admitted [OF admitted False] obtain t where t: "extractToken m header = Inr t"
      and "admits m (cp_nodes (pl_core p)) t (guard_of r)" .
    with g bearer_of(1) [OF t] assms(2) show ?thesis by (simp add: admits_def)
  qed auto
qed

text \<open>A machine whose network is \<open>net\<close>; Docker is not part of the control plane.\<close>

definition connected ::
  "(HttpReq \<Rightarrow> OperatorNet \<Rightarrow> OperatorNet \<times> (string + HttpResp)) \<Rightarrow> (OperatorNet, 'e) AppEnv_scheme \<Rightarrow> bool" where
  "connected net E \<longleftrightarrow> ev_Do E = net \<and> (\<forall>args n. on_platform (fst (ae_Docker E args n)) = on_platform n)"

lemma platform_net_same:
  assumes "hq_Auth q \<noteq> Some (''Bearer '' @ operatorToken m)"
  shows "on_platform (fst (platform_net m hash rnd inp logs render base q n)) = on_platform n"
proof (cases "has_prefix (hq_URL q) base")
  case True
  let ?h = "case hq_Auth q of None \<Rightarrow> '''' | Some a \<Rightarrow> a"
  show ?thesis
  proof (cases "route_request (logs (on_requests n)) q (drop (length base) (hq_URL q))")
    case (Some r)
    have "?h \<noteq> ''Bearer '' @ operatorToken m" using assms by (cases "hq_Auth q") auto
    then have "fst (serve m hash rnd (inp (on_requests n)) ?h r (on_platform n)) = on_platform n"
      using serve_unauthorised [OF routes_guarded [OF Some]] by blast
    with True Some show ?thesis by (auto simp: platform_net_def Let_def split: prod.split)
  qed (simp add: platform_net_def True Let_def)
qed (simp add: platform_net_def)

interpretation refused: network E h
  "\<lambda>n. connected (platform_net m hash rnd inp logs render base) E \<and> map_option cx_Token (active_context E h) \<noteq> Some (operatorToken m) \<longrightarrow>
     on_platform n = p0" for E h m hash rnd inp logs render base p0
proof
  fix q and n :: OperatorNet
  assume may: "may_send E h q" and Q: "connected (platform_net m hash rnd inp logs render base) E \<and>
    map_option cx_Token (active_context E h) \<noteq> Some (operatorToken m) \<longrightarrow> on_platform n = p0"
  show "connected (platform_net m hash rnd inp logs render base) E \<and> map_option cx_Token (active_context E h) \<noteq> Some (operatorToken m) \<longrightarrow>
    on_platform (fst (ev_Do E q n)) = p0"
  proof
    assume c: "connected (platform_net m hash rnd inp logs render base) E \<and> map_option cx_Token (active_context E h) \<noteq> Some (operatorToken m)"
    then have "hq_Auth q \<noteq> Some (''Bearer '' @ operatorToken m)" using may by (auto simp: may_send_def)
    then show "on_platform (fst (ev_Do E q n)) = p0" using c Q by (simp add: connected_def platform_net_same)
  qed
qed (simp add: connected_def)

section \<open>Properties\<close>

text \<open>
  C32: without the operator's token the command line changes nothing. Whatever command runs against
  the control plane with whatever arguments: if the active context has another token, or there is
  none, the whole state of the control plane is as before.
\<close>

theorem cli_needs_operator_token:
  assumes "connected (platform_net m hash rnd inp logs render base) E"
    and "map_option cx_Token (active_context E (wd_Home w)) \<noteq> Some (operatorToken m)"
    and "runCLI E args w = (w', r)"
  shows "on_platform (wd_Net w') = on_platform (wd_Net w)"
proof -
  let ?Q = "\<lambda>n. connected (platform_net m hash rnd inp logs render base) E \<and>
    map_option cx_Token (active_context E (wd_Home w)) \<noteq> Some (operatorToken m) \<longrightarrow> on_platform n = on_platform (wd_Net w)"
  have "holds (wd_Home w) ?Q w" by (simp add: holds_def)
  from refused.kept_cli [OF this, of args] assms show ?thesis by (simp add: holds_def)
qed

definition example_inputs :: "nat \<Rightarrow> RequestInput" where
  "example_inputs n = example_request\<lparr>ri_id := show_nat n\<rparr>"

definition example_control :: "HttpReq \<Rightarrow> OperatorNet \<Rightarrow> OperatorNet \<times> (string + HttpResp)" where
  "example_control = platform_net example_auth (\<lambda>_. ''h'') (\<lambda>x. x) example_inputs (\<lambda>_. None) (\<lambda>_ _. ''{}'') ''http://cp''"

definition example_client_world :: "OperatorNet World" where
  "example_client_world =
     \<lparr>wd_Home = wd_Home example_operator, wd_Net = \<lparr>on_platform = example_platform, on_requests = 4\<rparr>, wd_Out = []\<rparr>"

lemma example_connected:
  "connected (platform_net example_auth (\<lambda>_. ''h'') (\<lambda>x. x) example_inputs (\<lambda>_. None) (\<lambda>_ _. ''{}'') ''http://cp'')
     (example_app example_control)"
  by (simp add: connected_def example_app_def example_control_def)

lemma example_active:
  "wd_Home w = wd_Home example_operator \<Longrightarrow>
   active_context (example_app net) (wd_Home w) = Some \<lparr>cx_Name = ''prod'', cx_Endpoint = ''http://cp'', cx_Token = ''op''\<rparr>"
  by (simp add: active_context_def LoadConfig_def example_app_def example_operator_def decodes [OF example_codec]
      GetActiveContext_def example_config_def)

text \<open>The same machine with a context whose token is a guess.\<close>

definition example_guess :: "OperatorNet World" where
  "example_guess = example_client_world\<lparr>wd_Home := \<lparr>hm_Dir = Inr ''/root'', hm_File = Content (example_enc
     \<lparr>cg_CurrentContext = ''prod'', cg_Contexts = [\<lparr>cx_Name = ''prod'', cx_Endpoint = ''http://cp'', cx_Token = ''guess''\<rparr>]\<rparr>)\<rparr>\<rparr>"

theorem cli_needs_operator_token_witness:
  "on_platform (wd_Net (fst (runCLI (example_app example_control) [''secret'', ''rm'', ''s1''] example_guess))) = example_platform"
proof -
  have "map_option cx_Token (active_context (example_app example_control) (wd_Home example_guess)) \<noteq> Some (operatorToken example_auth)"
    by (simp add: active_context_def LoadConfig_def GetActiveContext_def example_guess_def example_app_def decodes [OF example_codec]
        example_auth_def)
  moreover have "on_platform (wd_Net example_guess) = example_platform" by (simp add: example_guess_def example_client_world_def)
  ultimately show ?thesis
    using cli_needs_operator_token [OF example_connected, of example_guess "[''secret'', ''rm'', ''s1'']"
      "fst (runCLI (example_app example_control) [''secret'', ''rm'', ''s1''] example_guess)"
      "snd (runCLI (example_app example_control) [''secret'', ''rm'', ''s1''] example_guess)"] by simp
qed

lemma get_active:
  assumes "active_context E (wd_Home w) = Some x"
  shows "getClient E w = (w, Done (New (cx_Endpoint x) (cx_Token x)))"
  using assms by (auto simp: active_context_def getClient_def NewFromConfig_def split: sum.splits)

lemma serve_operator:
  assumes "guard_of r = Operator" and "operatorToken m \<noteq> ''''"
  shows "serve m hash rnd x (''Bearer '' @ operatorToken m) r p = handle hash rnd x None r p"
proof -
  have e: "extractToken m (''Bearer '' @ operatorToken m) = Inr (operatorToken m)"
    using assms(2) by (simp add: extractToken_def split_space_iff)
  show ?thesis unfolding serve_def assms(1) guard.case RequireOperator_def e sum.case by simp
qed

lemma created_job:
  assumes "handle hash rnd x None (CreateJob (Some b)) p = (p1, st)"
    and "jq_Name b \<noteq> ''''" and "jq_Command b \<noteq> ''''" and "jq_CPU b \<ge> 0" and "jq_MemoryMB b \<ge> 0" and "jq_MaxRetries b \<ge> 0"
  shows "st = 201 \<and> (\<exists>j. map_of (jobs (cp_jobs (pl_core p1))) (''job-'' @ ri_id x) = Some j \<and>
    j_Command j = jq_Command b \<and> j_Status j = JobPending \<and> j_MaxRetries j = jq_MaxRetries b \<and> j_Name j = jq_Name b)"
  using assms by (auto simp: handle_def JobApi_Create_def Job_Create_def appendEvent_def put_job_def code_def Let_def not_less)

text \<open>
  Creating a job from the command line. With the operator's token and the endpoint of the
  control plane, \<open>runstack job create <command>\<close> ends without an error, and the control plane has
  the job with this command, pending and without retries, under a fresh identifier.
\<close>

lemma cli_creates_job:
  assumes "connected (platform_net m hash rnd inp logs render (cx_Endpoint x)) E"
    and "active_context E (wd_Home w) = Some x" and "cx_Token x = operatorToken m" and "operatorToken m \<noteq> ''''"
    and "ev_ParseURL E (cx_Endpoint x @ ''/api/v1/jobs'') = None" and "cmd \<notin> {'''', ''--max-retries'', ''--name''}"
    and "\<And>q p. \<exists>j. ce_Job E (render q p) = Inr j" and "runCLI E [''job'', ''create'', cmd] w = (w', r)"
  shows "r = Done () \<and>
    (\<exists>j. map_of (jobs (cp_jobs (pl_core (on_platform (wd_Net w'))))) (''job-'' @ ri_id (inp (on_requests (wd_Net w)))) = Some j \<and>
       j_Command j = cmd \<and> j_Status j = JobPending \<and> j_MaxRetries j = 0 \<and> j_Name j = ''cli-job'')"
proof -
  let ?b = "\<lparr>jq_Name = ''cli-job'', jq_Command = cmd, jq_MaxRetries = 0, jq_CPU = 0, jq_MemoryMB = 0\<rparr>"
  let ?q = "\<lparr>hq_Method = ''POST'', hq_URL = cx_Endpoint x @ ''/api/v1/jobs'', hq_ContentType = Some ''application/json'',
    hq_Auth = Some (''Bearer '' @ operatorToken m), hq_Body = Some (JobBody ?b)\<rparr>"
  let ?x = "inp (on_requests (wd_Net w))" and ?p = "on_platform (wd_Net w)"
  obtain p st where sv: "serve m hash rnd ?x (''Bearer '' @ operatorToken m) (CreateJob (Some ?b)) ?p = (p, st)" by fastforce
  have s: "st = 201 \<and> (\<exists>j. map_of (jobs (cp_jobs (pl_core p))) (''job-'' @ ri_id ?x) = Some j \<and>
       j_Command j = cmd \<and> j_Status j = JobPending \<and> j_MaxRetries j = 0 \<and> j_Name j = ''cli-job'')"
    using created_job [of hash rnd ?x ?b ?p p st] sv assms(4,6) by (simp add: serve_operator del: append.simps)
  have rt: "route_request lg ?q ''/api/v1/jobs'' = Some (CreateJob (Some ?b))" for lg
    by (simp add: route_request_def post_route_def)
  have net: "ev_Do E ?q (wd_Net w) = (wd_Net w\<lparr>on_requests := Suc (on_requests (wd_Net w)), on_platform := p\<rparr>,
      Inr \<lparr>hr_StatusCode = st, hr_Status = show_nat st, hr_Body = render (CreateJob (Some ?b)) p\<rparr>)"
    using assms(1) sv by (simp add: connected_def platform_net_def has_prefix_def rt [simplified] Let_def)
  obtain j where "ce_Job E (render (CreateJob (Some ?b)) p) = Inr j" using assms(7) by blast
  then have "or_exit printError (createJob E [cmd] w) =
      (say [''Job created successfully: '' @ j_ID j] (w\<lparr>wd_Net := wd_Net w\<lparr>on_requests := Suc (on_requests (wd_Net w)), on_platform := p\<rparr>\<rparr>), Done ())"
    using assms(3-6) s net
    by (simp add: createJob_def api_post_def get_active [OF assms(2)] Client_Post_def NewRequest_def New_def DoReq_def http_do_def decode_def)
  with assms(8) s show ?thesis by (auto simp: runCLI_def job_command_def say_def)
qed

lemma cli_creates_job_example:
  "\<exists>w' j. runCLI (example_app example_control) [''job'', ''create'', ''make''] example_client_world = (w', Done ()) \<and>
     map_of (jobs (cp_jobs (pl_core (on_platform (wd_Net w'))))) ''job-4'' = Some j \<and> j_Command j = ''make''"
proof -
  obtain w' r where run: "runCLI (example_app example_control) [''job'', ''create'', ''make''] example_client_world = (w', r)" by fastforce
  have "wd_Home example_client_world = wd_Home example_operator" by (simp add: example_client_world_def)
  note act = example_active [OF this]
  have "show_nat 4 = ''4''" by code_simp
  then have ident: "''job-'' @ ri_id (example_inputs (on_requests (wd_Net example_client_world))) = ''job-4''"
    by (simp add: example_inputs_def example_client_world_def)
  have "connected (platform_net example_auth (\<lambda>_. ''h'') (\<lambda>x. x) example_inputs (\<lambda>_. None) (\<lambda>_ _. ''{}'')
      (cx_Endpoint \<lparr>cx_Name = ''prod'', cx_Endpoint = ''http://cp'', cx_Token = ''op''\<rparr>)) (example_app example_control)"
    using example_connected by simp
  from cli_creates_job [OF this act _ _ _ _ _ run]
  have "r = Done () \<and>
    (\<exists>j. map_of (jobs (cp_jobs (pl_core (on_platform (wd_Net w')))))
        (''job-'' @ ri_id (example_inputs (on_requests (wd_Net example_client_world)))) = Some j \<and>
       j_Command j = ''make'' \<and> j_Status j = JobPending \<and> j_MaxRetries j = 0 \<and> j_Name j = ''cli-job'')"
    by (simp add: example_auth_def example_app_def)
  with run show ?thesis unfolding ident by blast
qed

end
