(* ===== verification/Edge.thy ===== *)
theory Edge
  imports Routing Tls
begin

text \<open>
  The edge of the platform: the two listeners that \<open>HTTPProxy.Start\<close> (\<open>internal/route/proxy_impl.go\<close>)
  opens, as \<open>runControlPlane\<close> (\<open>cmd/runstack/cp.go\<close>) wires them. Port 80 serves a \<open>ServeMux\<close> with two
  patterns, the challenges of the certificate authority and everything else; port 8443 serves the
  proxy behind a handshake that asks the certificate provider. Of \<open>net/http\<close> the part is modelled
  that decides between the two patterns: the path is cleaned first, and a request for an unclean
  path is redirected to the clean one. The path is one that needs no percent encoding; CONNECT
  and \<open>OPTIONS *\<close> are left out. The handler of the challenges is that of \<open>autocert\<close>, a library:
  the model says when it is called.
\<close>

section \<open>Paths\<close>

text \<open>\<open>path.Clean\<close> of a rooted path: the segments kept so far are a stack.\<close>

fun clean_segments :: "string list \<Rightarrow> string list \<Rightarrow> string list" where
  "clean_segments stack [] = rev stack"
| "clean_segments stack (s # ss) =
     (if s = '''' \<or> s = ''.'' then clean_segments stack ss
      else if s = ''..'' then clean_segments (tl stack) ss
      else clean_segments (s # stack) ss)"

definition join_segments :: "string list \<Rightarrow> string" where
  "join_segments ss = concat (map (\<lambda>s. CHR ''/'' # s) ss)"

definition path_Clean :: "string \<Rightarrow> string" where
  "path_Clean p = (case clean_segments [] (split_on CHR ''/'' p) of [] \<Rightarrow> ''/'' | ss \<Rightarrow> join_segments ss)"

definition cleanPath :: "string \<Rightarrow> string" where
  "cleanPath p =
     (if p = '''' then ''/''
      else
        (let q = (if hd p = CHR ''/'' then p else CHR ''/'' # p);
             c = path_Clean q
         in if last q = CHR ''/'' \<and> c \<noteq> ''/'' then c @ ''/'' else c))"

section \<open>Listeners\<close>

definition proxyPort :: int where "proxyPort = 80"
definition proxyTLSPort :: int where "proxyTLSPort = 8443"

definition IsTLSEnabled :: "DomainRegistry \<Rightarrow> string \<Rightarrow> bool" where
  "IsTLSEnabled r name = (case Domain_GetByName r name of Inr d \<Rightarrow> dm_TLS d | Inl _ \<Rightarrow> False)"

datatype EdgeAnswer =
    ChallengeAnswer | MovedPermanently string | HandshakeFailed string | Proxied Response

definition challenge_path :: string where
  "challenge_path = ''/.well-known/acme-challenge/''"

definition http_listener ::
  "bool \<Rightarrow> (string \<Rightarrow> bool) option \<Rightarrow> Request \<Rightarrow> HTTPProxy \<Rightarrow> HTTPProxy \<times> EdgeAnswer" where
  "http_listener acme isTLSEnabled rq p =
     (let path = cleanPath (rq_Path rq) in
      if acme \<and> path @ ''/'' = challenge_path then (p, MovedPermanently challenge_path)
      else if acme \<and> path \<noteq> rq_Path rq then (p, MovedPermanently path)
      else if acme \<and> has_prefix path challenge_path then (p, ChallengeAnswer)
      else (case handleRequestInternal isTLSEnabled False rq p of (p', resp) \<Rightarrow> (p', Proxied resp)))"

definition https_listener ::
  "string \<Rightarrow> string option \<Rightarrow> (string \<Rightarrow> bool) option \<Rightarrow> Request \<Rightarrow> ACMEProvider \<Rightarrow> HTTPProxy \<Rightarrow>
   ACMEProvider \<times> HTTPProxy \<times> EdgeAnswer" where
  "https_listener serverName answer isTLSEnabled rq acme p =
     (case GetTLSCertificate serverName answer acme of
        (acme', Some e) \<Rightarrow> (acme', p, HandshakeFailed e)
      | (acme', None) \<Rightarrow>
          (case handleRequestInternal isTLSEnabled True rq p of (p', resp) \<Rightarrow> (acme', p', Proxied resp)))"

section \<open>Clean paths\<close>

definition plain_segment :: "string \<Rightarrow> bool" where
  "plain_segment s \<longleftrightarrow> s \<noteq> '''' \<and> s \<noteq> ''.'' \<and> s \<noteq> ''..'' \<and> CHR ''/'' \<notin> set s"

lemma split_on_plain: "d \<notin> set s \<Longrightarrow> split_on d s = [s]"
  by (induction s) auto

lemma split_on_segment: "d \<notin> set s \<Longrightarrow> split_on d (s @ d # rest) = s # split_on d rest"
  by (induction s) auto

lemma split_on_join:
  "\<forall>s \<in> set ss. CHR ''/'' \<notin> set s \<Longrightarrow> CHR ''/'' \<notin> set t \<Longrightarrow> split_on CHR ''/'' (t @ join_segments ss) = t # ss"
proof (induction ss arbitrary: t)
  case Nil
  then show ?case by (simp add: join_segments_def split_on_plain)
next
  case (Cons s ss)
  have "t @ join_segments (s # ss) = t @ CHR ''/'' # (s @ join_segments ss)" by (simp add: join_segments_def)
  then show ?case using Cons.IH [of s] Cons.prems by (simp add: split_on_segment)
qed

lemma clean_segments_plain:
  "\<forall>s \<in> set ss. plain_segment s \<Longrightarrow> clean_segments stack ss = rev stack @ ss"
  by (induction ss arbitrary: stack) (auto simp: plain_segment_def)

lemma last_join_segments: "ss \<noteq> [] \<Longrightarrow> plain_segment (last ss) \<Longrightarrow> last (join_segments ss) \<noteq> CHR ''/''"
proof (induction ss rule: rev_induct)
  case (snoc s ss)
  then have "s \<noteq> ''''" "CHR ''/'' \<notin> set s" by (simp_all add: plain_segment_def)
  then have "last (join_segments (ss @ [s])) = last s" by (simp add: join_segments_def)
  then show ?case using \<open>s \<noteq> ''''\<close> \<open>CHR ''/'' \<notin> set s\<close> last_in_set by metis
qed simp

lemma cleanPath_plain:
  assumes "ss \<noteq> []" and "\<forall>s \<in> set ss. plain_segment s"
  shows "cleanPath (join_segments ss) = join_segments ss"
proof -
  have "split_on CHR ''/'' (join_segments ss) = '''' # ss"
    using split_on_join [of ss "''''"] assms(2) by (simp add: plain_segment_def)
  then have "path_Clean (join_segments ss) = join_segments ss"
    using assms(1) clean_segments_plain [OF assms(2), of "[]"] by (simp add: path_Clean_def split: list.split)
  moreover have "hd (join_segments ss) = CHR ''/''" "join_segments ss \<noteq> ''''"
    using assms(1) by (cases ss; simp add: join_segments_def)+
  moreover have "last (join_segments ss) \<noteq> CHR ''/''" using last_join_segments assms by auto
  ultimately show ?thesis by (simp add: cleanPath_def)
qed

lemma challenge_path_clean:
  assumes "plain_segment token"
  shows "cleanPath (challenge_path @ token) = challenge_path @ token"
proof -
  have "challenge_path @ token = join_segments [''.well-known'', ''acme-challenge'', token]"
    by (simp add: challenge_path_def join_segments_def)
  moreover have "\<forall>s \<in> set [''.well-known'', ''acme-challenge'', token]. plain_segment s"
    using assms by (simp add: plain_segment_def)
  ultimately show ?thesis using cleanPath_plain by (metis list.distinct(1))
qed

section \<open>Certificates and redirects agree\<close>

text \<open>
  The hosts for which the client may ask for a certificate are exactly those whose plain requests
  are redirected.
\<close>

lemma policy_matches_redirect: "HostPolicy r host = None \<longleftrightarrow> IsTLSEnabled r host"
  by (simp add: HostPolicy_def IsTLSEnabled_def split: sum.splits)

lemma IsTLSEnabled_iff:
  assumes "domain_inv r"
  shows "IsTLSEnabled r host \<longleftrightarrow> (\<exists>d \<in> set (Domain_List r). dm_Name d = NormalizeDomain host \<and> dm_TLS d)"
  using host_policy_iff [OF assms] policy_matches_redirect by metis

lemma plain_request_redirected:
  assumes "isTLSEnabled (request_host (rq_Host rq))"
  shows "handleRequestInternal (Some isTLSEnabled) False rq p = (p, Redirect (''https://'' @ rq_Host rq @ rq_URI rq))"
  using assms by (simp add: handleRequestInternal_def Let_def)

text \<open>Behind the handshake nothing is redirected, so no client is sent in circles.\<close>

lemma https_never_redirects:
  assumes "https_listener serverName answer isTLSEnabled rq acme p = (acme', p', a)"
  shows "a \<noteq> Proxied (Redirect url)"
  using assms
  by (auto simp: https_listener_def handleRequestInternal_def Let_def split: prod.splits option.splits if_splits)

text \<open>
  The redirect names the host as the request names it. Without a port that is port 443, where
  nothing listens: the TLS listener is on port 8443.
\<close>

definition url_port :: "string \<Rightarrow> string" where
  "url_port url =
     (let authority = takeWhile (\<lambda>c. c \<noteq> CHR ''/'') (trim_prefix url ''https://'') in
      if CHR '':'' \<in> set authority then tl (dropWhile (\<lambda>c. c \<noteq> CHR '':'') authority) else ''443'')"

lemma redirect_misses_tls_listener:
  assumes "handleRequestInternal (Some isTLSEnabled) False rq p = (p', Redirect url)"
    and "CHR '':'' \<notin> set (rq_Host rq)" and "CHR ''/'' \<notin> set (rq_Host rq)" and "has_prefix (rq_URI rq) ''/''"
  shows "url_port url = ''443'' \<and> url_port url \<noteq> show_int proxyTLSPort"
proof -
  have url: "url = ''https://'' @ rq_Host rq @ rq_URI rq"
    using assms(1) by (auto simp: handleRequestInternal_def Let_def split: option.splits if_splits prod.splits)
  have "trim_prefix url ''https://'' = rq_Host rq @ rq_URI rq"
    unfolding url by (simp add: trim_prefix_def has_prefix_def)
  moreover obtain rest where "rq_URI rq = CHR ''/'' # rest"
    using assms(4) by (cases "rq_URI rq") (auto simp: has_prefix_def)
  moreover have "takeWhile (\<lambda>c. c \<noteq> CHR ''/'') (rq_Host rq @ CHR ''/'' # rest) = rq_Host rq"
    using assms(3) by (subst takeWhile_append2) auto
  ultimately have "takeWhile (\<lambda>c. c \<noteq> CHR ''/'') (trim_prefix url ''https://'') = rq_Host rq" by metis
  then have "url_port url = ''443''" using assms(2) by (simp only: url_port_def Let_def if_False)
  moreover have "show_int proxyTLSPort = ''8443''"
    by (simp add: show_int_def proxyTLSPort_def show_nat.simps [of 8443] show_nat.simps [of 844]
        show_nat.simps [of 84] show_nat.simps [of 8] digit_char_def char_of_def bit_Suc_0_iff)
  ultimately show ?thesis by simp
qed

section \<open>Properties\<close>

text \<open>
  C33: a domain with TLS is never served in the clear, and its certificate can still be issued. In
  every reachable state of the domain registry, a plain request for a host that is the name of a
  domain with TLS changes nothing in the proxy and is forwarded to no endpoint: it is answered
  with a redirect to the clean path or to the same URL over https, or it is a challenge of the
  certificate authority. A challenge with a token of one segment reaches the handler of the
  challenges, and the policy admits the host.
\<close>

theorem tls_domain_never_plain:
  assumes "reach NewDomainRegistry domain_op_ok domain_step r"
    and "d \<in> set (Domain_List r)" and "dm_TLS d" and "NormalizeDomain (request_host (rq_Host rq)) = dm_Name d"
    and "http_listener True (Some (IsTLSEnabled r)) rq p = (p', a)"
  shows "p' = p \<and> (\<forall>resp. a = Proxied resp \<longrightarrow> resp = Redirect (''https://'' @ rq_Host rq @ rq_URI rq)) \<and>
    (\<forall>token. rq_Path rq = challenge_path @ token \<and> plain_segment token \<longrightarrow>
       a = ChallengeAnswer \<and> HostPolicy r (request_host (rq_Host rq)) = None)"
proof -
  have on: "IsTLSEnabled r (request_host (rq_Host rq))"
    using IsTLSEnabled_iff [OF domain_machine.reach_inv [OF assms(1)]] assms(2-4) by metis
  note red = plain_request_redirected [where isTLSEnabled = "IsTLSEnabled r", OF on, of p]
  have "a = ChallengeAnswer" if t: "rq_Path rq = challenge_path @ token" "plain_segment token" for token
  proof -
    have "last (challenge_path @ token @ ''/'') = last challenge_path" by (simp add: challenge_path_def)
    moreover have "(challenge_path @ token) @ ''/'' \<noteq> challenge_path" by simp
    ultimately show ?thesis
      using assms(5) t challenge_path_clean [OF t(2)] by (simp add: http_listener_def)
  qed
  moreover have "p' = p \<and> (\<forall>resp. a = Proxied resp \<longrightarrow> resp = Redirect (''https://'' @ rq_Host rq @ rq_URI rq))"
    using assms(5) red by (auto simp: http_listener_def Let_def split: if_splits)
  ultimately show ?thesis using on policy_matches_redirect by blast
qed

definition ex_edge :: DomainRegistry where
  "ex_edge = domain_step (DmCreate ''d1'' ''Example.com'' ''a1'' True) NewDomainRegistry"

definition ex_challenge :: Request where
  "ex_challenge = \<lparr>rq_Host = ''example.com:80'', rq_Path = ''/.well-known/acme-challenge/tok'', rq_URI = ''/''\<rparr>"

theorem tls_domain_never_plain_witness:
  "snd (http_listener True (Some (IsTLSEnabled ex_edge)) ex_challenge NewHTTPProxy) = ChallengeAnswer \<and>
   HostPolicy ex_edge ''example.com'' = None"
proof -
  let ?d = "\<lparr>dm_ID = ''d1'', dm_Name = ''example.com'', dm_ApplicationID = ''a1'', dm_TLS = True, dm_Status = DomainPending\<rparr>"
  have "reach NewDomainRegistry domain_op_ok domain_step ex_edge"
    unfolding ex_edge_def by (rule reach.reach_step [OF reach.reach_init]) code_simp
  moreover have "Domain_List ex_edge = [?d]" by code_simp
  then have "?d \<in> set (Domain_List ex_edge)" by simp
  moreover have "dm_TLS ?d" by simp
  moreover have host: "request_host (rq_Host ex_challenge) = ''example.com''" by code_simp
  moreover have "NormalizeDomain ''example.com'' = dm_Name ?d" by code_simp
  ultimately have "\<forall>token. rq_Path ex_challenge = challenge_path @ token \<and> plain_segment token \<longrightarrow>
      snd (http_listener True (Some (IsTLSEnabled ex_edge)) ex_challenge NewHTTPProxy) = ChallengeAnswer \<and>
      HostPolicy ex_edge (request_host (rq_Host ex_challenge)) = None"
    using tls_domain_never_plain by (metis prod.collapse)
  moreover have "rq_Path ex_challenge = challenge_path @ ''tok'' \<and> plain_segment ''tok''"
    by (simp add: ex_challenge_def challenge_path_def plain_segment_def)
  ultimately show ?thesis using host by metis
qed

end
