(* ===== verification/Copies.thy ===== *)
theory Copies
  imports Application Instance
begin

text \<open>
  Copies and sharing. The registries store values and return copies made by the three \<open>DeepCopy\<close>
  methods (\<open>internal/application/application.go\<close>, \<open>internal/deployment/deployment.go\<close> and
  \<open>internal/instance/instance.go\<close>); the other theories therefore treat a specification and an
  instance as a plain value. This theory justifies that on an explicit store: maps, slices and
  pointers are addresses of cells, a copy allocates new cells, and whoever holds a value may write
  to every cell it reaches. A map or slice that is nil is no address and reads as empty.
\<close>

section \<open>The store\<close>

datatype cell =
    Strings "string list" | EnvMap "(string, string) gomap" | AppPorts "AppPort list"
  | StrategyCell RolloutStrategy | ResourcesCell ResourceRequirements | ProbeCell Probe
  | InstPorts "PortMapping list" | TimeCell time

type_synonym store = "cell list"
type_synonym ref = "nat option"

definition look :: "store \<Rightarrow> ref \<Rightarrow> cell option" where
  "look h r = (case r of None \<Rightarrow> None | Some a \<Rightarrow> if a < length h then Some (h ! a) else None)"

definition get_strings :: "store \<Rightarrow> ref \<Rightarrow> string list" where
  "get_strings h r = (case look h r of Some (Strings xs) \<Rightarrow> xs | _ \<Rightarrow> [])"

definition get_env :: "store \<Rightarrow> ref \<Rightarrow> (string, string) gomap" where
  "get_env h r = (case look h r of Some (EnvMap m) \<Rightarrow> m | _ \<Rightarrow> [])"

definition get_app_ports :: "store \<Rightarrow> ref \<Rightarrow> AppPort list" where
  "get_app_ports h r = (case look h r of Some (AppPorts ps) \<Rightarrow> ps | _ \<Rightarrow> [])"

definition get_strategy :: "store \<Rightarrow> ref \<Rightarrow> RolloutStrategy option" where
  "get_strategy h r = (case look h r of Some (StrategyCell s) \<Rightarrow> Some s | _ \<Rightarrow> None)"

definition get_resources :: "store \<Rightarrow> ref \<Rightarrow> ResourceRequirements option" where
  "get_resources h r = (case look h r of Some (ResourcesCell s) \<Rightarrow> Some s | _ \<Rightarrow> None)"

definition get_probe :: "store \<Rightarrow> ref \<Rightarrow> Probe option" where
  "get_probe h r = (case look h r of Some (ProbeCell s) \<Rightarrow> Some s | _ \<Rightarrow> None)"

definition get_inst_ports :: "store \<Rightarrow> ref \<Rightarrow> PortMapping list" where
  "get_inst_ports h r = (case look h r of Some (InstPorts ps) \<Rightarrow> ps | _ \<Rightarrow> [])"

definition get_time :: "store \<Rightarrow> ref \<Rightarrow> time option" where
  "get_time h r = (case look h r of Some (TimeCell t) \<Rightarrow> Some t | _ \<Rightarrow> None)"

lemmas get_defs = get_strings_def get_env_def get_app_ports_def get_strategy_def get_resources_def
  get_probe_def get_inst_ports_def get_time_def

text \<open>A new cell with the contents of an old one; a nil reference stays nil.\<close>

definition clone :: "ref \<Rightarrow> store \<Rightarrow> store \<times> ref" where
  "clone r h = (case look h r of None \<Rightarrow> (h, None) | Some c \<Rightarrow> (h @ [c], Some (length h)))"

section \<open>Specifications\<close>

record SpecRefs =
  f_Resources :: ref
  f_Image :: string
  f_Command :: ref
  f_Args :: ref
  f_Environment :: ref
  f_Ports :: ref
  f_Replicas :: int
  f_Strategy :: ref
  f_ReadinessProbe :: ref
  f_LivenessProbe :: ref

definition read_spec :: "store \<Rightarrow> SpecRefs \<Rightarrow> AppSpec" where
  "read_spec h s =
     \<lparr>s_Resources = get_resources h (f_Resources s), s_Image = f_Image s,
      s_Command = get_strings h (f_Command s), s_Args = get_strings h (f_Args s),
      s_Environment = get_env h (f_Environment s), s_Ports = get_app_ports h (f_Ports s),
      s_Replicas = f_Replicas s, s_Strategy = get_strategy h (f_Strategy s),
      s_ReadinessProbe = get_probe h (f_ReadinessProbe s), s_LivenessProbe = get_probe h (f_LivenessProbe s)\<rparr>"

text \<open>\<open>Deployment.DeepCopy\<close> on the snapshot: map and slices only.\<close>

definition Dep_DeepCopy :: "SpecRefs \<Rightarrow> store \<Rightarrow> store \<times> SpecRefs" where
  "Dep_DeepCopy s h =
     (let (h1, e) = clone (f_Environment s) h;
          (h2, p) = clone (f_Ports s) h1;
          (h3, c) = clone (f_Command s) h2;
          (h4, a) = clone (f_Args s) h3
      in (h4, s\<lparr>f_Environment := e, f_Ports := p, f_Command := c, f_Args := a\<rparr>))"

text \<open>\<open>Application.DeepCopy\<close> on the specification: the same, and the strategy.\<close>

definition App_DeepCopy :: "SpecRefs \<Rightarrow> store \<Rightarrow> store \<times> SpecRefs" where
  "App_DeepCopy s h =
     (let (h1, e) = clone (f_Environment s) h;
          (h2, p) = clone (f_Ports s) h1;
          (h3, c) = clone (f_Command s) h2;
          (h4, a) = clone (f_Args s) h3;
          (h5, st) = clone (f_Strategy s) h4
      in (h5, s\<lparr>f_Environment := e, f_Ports := p, f_Command := c, f_Args := a, f_Strategy := st\<rparr>))"

section \<open>Instances\<close>

record InstRefs =
  f_DrainStartedAt :: ref
  f_InstPorts :: ref
  f_StartedAt :: ref
  f_StoppedAt :: ref
  f_UnknownSince :: ref

definition read_inst :: "store \<Rightarrow> InstRefs \<Rightarrow> time option \<times> PortMapping list \<times> time option \<times> time option \<times> time option" where
  "read_inst h i =
     (get_time h (f_DrainStartedAt i), get_inst_ports h (f_InstPorts i), get_time h (f_StartedAt i),
      get_time h (f_StoppedAt i), get_time h (f_UnknownSince i))"

definition Inst_DeepCopy :: "InstRefs \<Rightarrow> store \<Rightarrow> store \<times> InstRefs" where
  "Inst_DeepCopy i h =
     (let (h1, a) = clone (f_StartedAt i) h;
          (h2, b) = clone (f_StoppedAt i) h1;
          (h3, c) = clone (f_UnknownSince i) h2
      in (h3, i\<lparr>f_StartedAt := a, f_StoppedAt := b, f_UnknownSince := c\<rparr>))"

section \<open>What a copy does to the store\<close>

definition in_store :: "store \<Rightarrow> ref \<Rightarrow> bool" where
  "in_store h r \<longleftrightarrow> (\<forall>a. r = Some a \<longrightarrow> a < length h)"

text \<open>\<open>r'\<close> holds in \<open>h'\<close> what \<open>r\<close> holds in \<open>h\<close>, in a cell that \<open>h\<close> does not have.\<close>

definition copied :: "store \<Rightarrow> ref \<Rightarrow> store \<Rightarrow> ref \<Rightarrow> bool" where
  "copied h r h' r' \<longleftrightarrow> look h' r' = look h r \<and> (\<forall>a. r' = Some a \<longrightarrow> length h \<le> a \<and> a < length h')"

lemma look_append: "in_store h r \<Longrightarrow> look (h @ xs) r = look h r"
  by (auto simp: look_def in_store_def nth_append split: option.splits)

lemma look_write: "r \<noteq> Some a \<Longrightarrow> look (h[a := c]) r = look h r"
  by (cases r) (auto simp: look_def nth_list_update)

lemma look_apart: "in_store h r \<Longrightarrow> length h \<le> a \<Longrightarrow> look (h'[a := c]) r = look h' r"
  by (rule look_write) (auto simp: in_store_def)

lemma copied_append: "copied h r h' r' \<Longrightarrow> copied h r (h' @ xs) r'"
  using look_append [of h' r' xs] by (auto simp: copied_def in_store_def)

lemma clone_copied:
  assumes "clone r h1 = (h2, r2)" and "h1 = h @ xs" and "in_store h r"
  shows "copied h r h2 r2 \<and> (\<exists>ys. h2 = h1 @ ys)"
  using assms look_append [OF assms(3), of xs]
  by (auto simp: clone_def copied_def look_def in_store_def split: option.splits if_splits)

lemma get_cong:
  assumes "look h' r' = look h r"
  shows "get_strings h' r' = get_strings h r" "get_env h' r' = get_env h r" "get_app_ports h' r' = get_app_ports h r"
    "get_strategy h' r' = get_strategy h r" "get_resources h' r' = get_resources h r" "get_probe h' r' = get_probe h r"
    "get_inst_ports h' r' = get_inst_ports h r" "get_time h' r' = get_time h r"
  using assms by (simp_all add: get_defs)

section \<open>Copies of specifications\<close>

definition spec_refs :: "SpecRefs \<Rightarrow> nat set" where
  "spec_refs s = \<Union> (set_option ` {f_Resources s, f_Command s, f_Args s, f_Environment s, f_Ports s, f_Strategy s,
     f_ReadinessProbe s, f_LivenessProbe s})"

lemma spec_refs_fields:
  "spec_refs s = (\<Union>f \<in> {f_Resources, f_Command, f_Args, f_Environment, f_Ports, f_Strategy, f_ReadinessProbe, f_LivenessProbe}.
     set_option (f s))"
  by (simp add: spec_refs_def)

definition app_shared :: "SpecRefs \<Rightarrow> nat set" where
  "app_shared s = \<Union> (set_option ` {f_Resources s, f_ReadinessProbe s, f_LivenessProbe s})"

definition dep_shared :: "SpecRefs \<Rightarrow> nat set" where
  "dep_shared s = app_shared s \<union> set_option (f_Strategy s)"

definition spec_in :: "store \<Rightarrow> SpecRefs \<Rightarrow> bool" where
  "spec_in h s \<longleftrightarrow> (\<forall>a \<in> spec_refs s. a < length h)"

lemma spec_in_fields:
  assumes "spec_in h s"
  shows "in_store h (f_Resources s)" "in_store h (f_Command s)" "in_store h (f_Args s)" "in_store h (f_Environment s)"
    "in_store h (f_Ports s)" "in_store h (f_Strategy s)" "in_store h (f_ReadinessProbe s)" "in_store h (f_LivenessProbe s)"
  using assms by (auto simp: spec_in_def spec_refs_def in_store_def)

text \<open>
  The shape of both copies: every field is either copied or the very reference of the original.
\<close>

definition field_kept :: "store \<Rightarrow> store \<Rightarrow> nat set \<Rightarrow> ref \<Rightarrow> ref \<Rightarrow> bool" where
  "field_kept h h' shared r r' \<longleftrightarrow> copied h r h' r' \<or> r' = r \<and> set_option r \<subseteq> shared"

definition spec_kept :: "store \<Rightarrow> store \<Rightarrow> nat set \<Rightarrow> SpecRefs \<Rightarrow> SpecRefs \<Rightarrow> bool" where
  "spec_kept h h' shared s s' \<longleftrightarrow> f_Image s' = f_Image s \<and> f_Replicas s' = f_Replicas s \<and>
     list_all (\<lambda>f. field_kept h h' shared (f s) (f s'))
       [f_Resources, f_Command, f_Args, f_Environment, f_Ports, f_Strategy, f_ReadinessProbe, f_LivenessProbe]"

lemma field_kept_look:
  assumes "field_kept h h' shared r r'" and "in_store h r" and "h' = h @ xs"
  shows "look h' r' = look h r"
  using assms look_append by (auto simp: field_kept_def copied_def)

lemma field_kept_apart:
  assumes "field_kept h h' shared r r'" and "a \<notin> shared"
  shows "a < length h \<Longrightarrow> r' \<noteq> Some a" "r' = Some a \<Longrightarrow> length h \<le> a"
  using assms by (auto simp: field_kept_def copied_def)

lemma read_spec_cong:
  assumes "f_Image s' = f_Image s" and "f_Replicas s' = f_Replicas s"
    and "\<forall>f \<in> {f_Resources, f_Command, f_Args, f_Environment, f_Ports, f_Strategy, f_ReadinessProbe, f_LivenessProbe}.
      look h' (f s') = look h (f s)"
  shows "read_spec h' s' = read_spec h s"
  using assms get_cong [of h' _ h] by (simp add: read_spec_def get_defs)

lemma spec_kept_isolated:
  assumes k: "spec_kept h h' shared s s'" and i: "spec_in h s" and g: "h' = h @ xs"
  shows "read_spec h' s' = read_spec h s" "read_spec h' s = read_spec h s"
    and "a \<notin> shared \<Longrightarrow> a \<in> spec_refs s' \<Longrightarrow> read_spec (h'[a := c]) s = read_spec h s"
    and "a \<notin> shared \<Longrightarrow> a \<in> spec_refs s \<Longrightarrow> read_spec (h'[a := c]) s' = read_spec h s"
proof -
  let ?fs = "{f_Resources, f_Command, f_Args, f_Environment, f_Ports, f_Strategy, f_ReadinessProbe, f_LivenessProbe}"
  have kept: "field_kept h h' shared (f s) (f s')" and inn: "in_store h (f s)" if "f \<in> ?fs" for f
    using that k spec_in_fields [OF i] by (auto simp: spec_kept_def)
  have copy: "look h' (f s') = look h (f s)" if "f \<in> ?fs" for f
    by (rule field_kept_look [OF kept [OF that] inn [OF that] g])
  have orig: "look h' (f s) = look h (f s)" if "f \<in> ?fs" for f
    unfolding g by (rule look_append [OF inn [OF that]])
  have same: "f_Image s' = f_Image s" "f_Replicas s' = f_Replicas s" using k by (simp_all add: spec_kept_def)
  show "read_spec h' s' = read_spec h s" by (rule read_spec_cong [OF same]) (use copy in blast)
  show "read_spec h' s = read_spec h s" by (rule read_spec_cong [OF refl refl]) (use orig in blast)
  assume out: "a \<notin> shared"
  show "read_spec (h'[a := c]) s = read_spec h s" if m: "a \<in> spec_refs s'"
  proof (rule read_spec_cong [OF refl refl])
    obtain f where f: "f \<in> ?fs" and "a \<in> set_option (f s')"
      using m unfolding spec_refs_fields by (rule UN_E)
    then have "f s' = Some a" by (simp only: elem_set)
    then have "length h \<le> a" by (rule field_kept_apart(2) [OF kept [OF f] out])
    then have "look (h'[a := c]) (f s) = look h (f s)" if "f \<in> ?fs" for f
      using look_apart [OF inn [OF that]] orig [OF that] by simp
    then show "\<forall>f \<in> ?fs. look (h'[a := c]) (f s) = look h (f s)" by blast
  qed
  show "read_spec (h'[a := c]) s' = read_spec h s" if "a \<in> spec_refs s"
  proof (rule read_spec_cong [OF same])
    have "a < length h" using that i by (simp add: spec_in_def)
    then have "look (h'[a := c]) (f s') = look h (f s)" if "f \<in> ?fs" for f
      using field_kept_apart(1) [OF kept [OF that] out] copy [OF that] look_write [of "f s'" a] by simp
    then show "\<forall>f \<in> ?fs. look (h'[a := c]) (f s') = look h (f s)" by blast
  qed
qed

lemma copied_kept: "copied h r h' r' \<Longrightarrow> field_kept h h' shared r r'"
  by (simp add: field_kept_def)

text \<open>The four copies that both methods make.\<close>

lemma clone_containers:
  assumes "spec_in h s" and "clone (f_Environment s) h = (h1, e)" and "clone (f_Ports s) h1 = (h2, p)"
    and "clone (f_Command s) h2 = (h3, c)" and "clone (f_Args s) h3 = (h4, a)"
  shows "copied h (f_Environment s) h4 e \<and> copied h (f_Ports s) h4 p \<and> copied h (f_Command s) h4 c \<and>
    copied h (f_Args s) h4 a \<and> (\<exists>xs. h4 = h @ xs)"
proof -
  note i = spec_in_fields [OF assms(1)]
  obtain x1 where c1: "copied h (f_Environment s) h1 e" "h1 = h @ x1"
    using clone_copied [OF assms(2), of h "[]"] i by auto
  obtain x2 where c2: "copied h (f_Ports s) h2 p" "h2 = h1 @ x2" using clone_copied [OF assms(3) c1(2)] i by auto
  obtain x3 where c3: "copied h (f_Command s) h3 c" "h3 = h2 @ x3"
    using clone_copied [OF assms(4), of h "x1 @ x2"] c1 c2 i by auto
  obtain x4 where c4: "copied h (f_Args s) h4 a" "h4 = h3 @ x4"
    using clone_copied [OF assms(5), of h "x1 @ x2 @ x3"] c1 c2 c3 i by auto
  show ?thesis
    using copied_append [OF c1(1), of "x2 @ x3 @ x4"] copied_append [OF c2(1), of "x3 @ x4"]
      copied_append [OF c3(1), of x4] c4 c1(2) c2(2) c3(2) by auto
qed

lemma Dep_DeepCopy_kept:
  assumes "Dep_DeepCopy s h = (h', s')" and "spec_in h s"
  shows "spec_kept h h' (dep_shared s) s s' \<and> (\<exists>xs. h' = h @ xs) \<and> dep_shared s' = dep_shared s"
proof -
  obtain h1 e h2 p h3 c a where k: "clone (f_Environment s) h = (h1, e)" "clone (f_Ports s) h1 = (h2, p)"
      "clone (f_Command s) h2 = (h3, c)" "clone (f_Args s) h3 = (h', a)"
    and s': "s' = s\<lparr>f_Environment := e, f_Ports := p, f_Command := c, f_Args := a\<rparr>"
    using assms(1) by (auto simp: Dep_DeepCopy_def split: prod.splits)
  note c = clone_containers [OF assms(2) k]
  have "spec_kept h h' (dep_shared s) s s'"
    unfolding s' spec_kept_def using c
    by (simp add: copied_kept) (auto simp: field_kept_def dep_shared_def app_shared_def)
  moreover have "dep_shared s' = dep_shared s" unfolding s' by (simp add: dep_shared_def app_shared_def)
  ultimately show ?thesis using c by blast
qed

lemma App_DeepCopy_kept:
  assumes "App_DeepCopy s h = (h', s')" and "spec_in h s"
  shows "spec_kept h h' (app_shared s) s s' \<and> (\<exists>xs. h' = h @ xs) \<and> app_shared s' = app_shared s"
proof -
  obtain h1 e h2 p h3 c h4 a st where k: "clone (f_Environment s) h = (h1, e)" "clone (f_Ports s) h1 = (h2, p)"
      "clone (f_Command s) h2 = (h3, c)" "clone (f_Args s) h3 = (h4, a)"
    and st: "clone (f_Strategy s) h4 = (h', st)"
    and s': "s' = s\<lparr>f_Environment := e, f_Ports := p, f_Command := c, f_Args := a, f_Strategy := st\<rparr>"
    using assms(1) by (auto simp: App_DeepCopy_def split: prod.splits)
  obtain xs where c: "copied h (f_Environment s) h4 e" "copied h (f_Ports s) h4 p" "copied h (f_Command s) h4 c"
      "copied h (f_Args s) h4 a" "h4 = h @ xs"
    using clone_containers [OF assms(2) k] by blast
  obtain ys where d: "copied h (f_Strategy s) h' st" "h' = h4 @ ys"
    using clone_copied [OF st c(5)] spec_in_fields [OF assms(2)] by blast
  note d' = c(1-4) [THEN copied_append, of ys, folded d(2)]
  have "h' = h @ xs @ ys" using c(5) d(2) by simp
  then have "\<exists>xs. h' = h @ xs" by blast
  moreover have "spec_kept h h' (app_shared s) s s'"
    unfolding s' spec_kept_def using d(1) d' by (simp add: copied_kept) (auto simp: field_kept_def app_shared_def)
  moreover have "app_shared s' = app_shared s" unfolding s' by (simp add: app_shared_def)
  ultimately show ?thesis by blast
qed


section \<open>Properties\<close>

text \<open>
  A copy is the value of the original and is isolated from it. Both copies of a specification
  read as the original does, the original reads as before, and a write to any cell that one of
  the two reaches is not seen by the other, except through the pointers the copy shares: the
  resources and the probes, and for a deployment the strategy as well.
\<close>

lemma copies_isolated:
  assumes "spec_in h s"
    and "App_DeepCopy s h = (h', s') \<and> shared = app_shared s \<or> Dep_DeepCopy s h = (h', s') \<and> shared = dep_shared s"
  shows "read_spec h' s' = read_spec h s \<and> read_spec h' s = read_spec h s \<and>
    (\<forall>a c. a \<notin> shared \<longrightarrow>
       (a \<in> spec_refs s' \<longrightarrow> read_spec (h'[a := c]) s = read_spec h s) \<and>
       (a \<in> spec_refs s \<longrightarrow> read_spec (h'[a := c]) s' = read_spec h s))"
proof -
  obtain xs where k: "spec_kept h h' shared s s'" and g: "h' = h @ xs"
    using assms(2) App_DeepCopy_kept [OF _ assms(1)] Dep_DeepCopy_kept [OF _ assms(1)] by blast
  show ?thesis using spec_kept_isolated [OF k assms(1) g] by blast
qed

definition ex_store :: store where
  "ex_store = [EnvMap [(''K'', ''v'')], ResourcesCell \<lparr>rr_CPU = 1, rr_MemoryMB = 128\<rparr>]"

definition ex_refs :: SpecRefs where
  "ex_refs = \<lparr>f_Resources = Some 1, f_Image = ''img'', f_Command = None, f_Args = None, f_Environment = Some 0,
     f_Ports = None, f_Replicas = 1, f_Strategy = None, f_ReadinessProbe = None, f_LivenessProbe = None\<rparr>"

lemma ex_copy:
  "App_DeepCopy ex_refs ex_store = (ex_store @ [EnvMap [(''K'', ''v'')]], ex_refs\<lparr>f_Environment := Some 2\<rparr>)"
  by (simp add: App_DeepCopy_def clone_def look_def ex_refs_def ex_store_def)

lemma copies_isolated_example:
  "read_spec ((ex_store @ [EnvMap [(''K'', ''v'')]]) [2 := EnvMap []]) ex_refs = read_spec ex_store ex_refs"
proof -
  have "spec_in ex_store ex_refs" by (simp add: spec_in_def spec_refs_def ex_refs_def ex_store_def)
  from copies_isolated [OF this, of _ _ "app_shared ex_refs"] ex_copy
  have "2 \<notin> app_shared ex_refs \<longrightarrow> 2 \<in> spec_refs (ex_refs\<lparr>f_Environment := Some 2\<rparr>) \<longrightarrow>
      read_spec ((ex_store @ [EnvMap [(''K'', ''v'')]]) [2 := EnvMap []]) ex_refs = read_spec ex_store ex_refs"
    by blast
  then show ?thesis by (simp add: app_shared_def spec_refs_def ex_refs_def)
qed

text \<open>The copy of an application is not complete: a write through its resources is seen by the stored one.\<close>

lemma copy_shares_resources:
  "\<exists>h' s' a. App_DeepCopy ex_refs ex_store = (h', s') \<and> f_Resources s' = Some a \<and>
     s_Resources (read_spec (h'[a := ResourcesCell \<lparr>rr_CPU = 8, rr_MemoryMB = 0\<rparr>]) ex_refs) =
       Some \<lparr>rr_CPU = 8, rr_MemoryMB = 0\<rparr>"
  unfolding ex_copy by (simp add: ex_refs_def ex_store_def read_spec_def get_resources_def look_def)

text \<open>Instances: the three time stamps are copied, the drain time and the slice of ports are shared.\<close>

lemma inst_copy_isolated:
  assumes "Inst_DeepCopy i h = (h', i')"
    and "\<forall>r \<in> {f_DrainStartedAt i, f_InstPorts i, f_StartedAt i, f_StoppedAt i, f_UnknownSince i}. in_store h r"
  shows "read_inst h' i' = read_inst h i \<and> f_DrainStartedAt i' = f_DrainStartedAt i \<and> f_InstPorts i' = f_InstPorts i \<and>
    (\<forall>r a c. r \<in> {f_StartedAt i', f_StoppedAt i', f_UnknownSince i'} \<longrightarrow> r = Some a \<longrightarrow>
       read_inst (h'[a := c]) i = read_inst h i)"
proof -
  obtain h1 a h2 b c where 1: "clone (f_StartedAt i) h = (h1, a)" and 2: "clone (f_StoppedAt i) h1 = (h2, b)"
    and 3: "clone (f_UnknownSince i) h2 = (h', c)" and i': "i' = i\<lparr>f_StartedAt := a, f_StoppedAt := b, f_UnknownSince := c\<rparr>"
    using assms(1) by (auto simp: Inst_DeepCopy_def split: prod.splits)
  obtain x1 where c1: "copied h (f_StartedAt i) h1 a" "h1 = h @ x1" using clone_copied [OF 1, of h "[]"] assms(2) by auto
  obtain x2 where c2: "copied h (f_StoppedAt i) h2 b" "h2 = h1 @ x2" using clone_copied [OF 2 c1(2)] assms(2) by auto
  obtain x3 where c3: "copied h (f_UnknownSince i) h' c" "h' = h2 @ x3"
    using clone_copied [OF 3, of h "x1 @ x2"] c1 c2 assms(2) by auto
  have new: "copied h (f_StartedAt i) h' a" "copied h (f_StoppedAt i) h' b" "copied h (f_UnknownSince i) h' c"
    using copied_append [OF c1(1), of "x2 @ x3"] copied_append [OF c2(1), of x3] c1 c2 c3 by simp_all
  have grown: "h' = h @ x1 @ x2 @ x3" using c1 c2 c3 by simp
  have old: "look h' r = look h r" if "in_store h r" for r
    unfolding grown by (rule look_append [OF that])
  have apart: "look (h'[e := v]) r = look h r" if "in_store h r" "length h \<le> e" for r e v
    using old [OF that(1)] look_apart [OF that] by simp
  have "read_inst h' i' = read_inst h i"
    using new old assms(2) unfolding i' read_inst_def copied_def by (simp add: get_defs)
  moreover have "read_inst (h'[e := v]) i = read_inst h i" if "length h \<le> e" for e v
    using apart [OF _ that] assms(2) by (simp add: read_inst_def get_defs)
  ultimately show ?thesis using new unfolding i' copied_def by simp
qed

end
