(* ===== verification/NodeAgent.thy ===== *)
theory NodeAgent
  imports Client Platform
begin

text \<open>
  An agent joins the control plane: what it finds out about its machine (\<open>internal/sysinfo/sysinfo.go\<close>),
  its registration, which it repeats until it succeeds, and its heartbeats (\<open>cmd/runstack/agent.go\<close>).

  The operating system of the agent is a value of \<open>Host\<close>: the lines that a scanner reads from
  \<open>/proc/meminfo\<close>, or the output of \<open>sysctl\<close>. Between two attempts the agent sleeps; time passes in the
  network.
\<close>

section \<open>The machine\<close>

record MemoryInfo =
  mi_TotalBytes :: "64 word"
  mi_AvailableBytes :: "64 word"

text \<open>
  The value of \<open>strconv.ParseUint(s, 10, 64)\<close>, its error ignored: 0 on a syntax error, the largest
  64-bit number when it would be exceeded.
\<close>

fun parse_digits :: "string \<Rightarrow> nat \<Rightarrow> nat" where
  "parse_digits [] n = n"
| "parse_digits (c # s) n =
     (let d = of_char c - (48 :: nat) in
      if (of_char c :: nat) < 48 \<or> 57 < (of_char c :: nat) then 0
      else if 18446744073709551615 < n * 10 + d then 18446744073709551615
      else parse_digits s (n * 10 + d))"

definition parse_uint :: "string \<Rightarrow> 64 word" where
  "parse_uint s = (if s = '''' then 0 else word_of_nat (parse_digits s 0))"

datatype OperatingSystem = Linux "string list option" | Darwin "string option" | OtherOS

definition meminfo_line :: "string \<Rightarrow> MemoryInfo \<Rightarrow> MemoryInfo" where
  "meminfo_line line info =
     (case JobAgent.fields line of
        key # val # _ \<Rightarrow>
          if key = ''MemTotal:'' then info\<lparr>mi_TotalBytes := parse_uint val * 1024\<rparr>
          else if key = ''MemAvailable:'' then info\<lparr>mi_AvailableBytes := parse_uint val * 1024\<rparr>
          else info
      | _ \<Rightarrow> info)"

definition GetMemoryInfo :: "OperatingSystem \<Rightarrow> MemoryInfo" where
  "GetMemoryInfo os =
     (let info = \<lparr>mi_TotalBytes = 0, mi_AvailableBytes = 0\<rparr> in
      case os of
        Linux (Some lines) \<Rightarrow> foldl (\<lambda>i l. meminfo_line l i) info lines
      | Darwin (Some out) \<Rightarrow> info\<lparr>mi_TotalBytes := parse_uint (trim_space out), mi_AvailableBytes := 0\<rparr>
      | _ \<Rightarrow> info)"

record Host =
  ho_Hostname :: "string option"
  ho_NumCPU :: int
  ho_GOOS :: string
  ho_GOARCH :: string
  ho_System :: OperatingSystem
  ho_Path :: "string list"

text \<open>\<open>exec.LookPath\<close>: the executables in the path.\<close>

definition HasExecutable :: "Host \<Rightarrow> string \<Rightarrow> bool" where
  "HasExecutable host name \<longleftrightarrow> name \<in> set (ho_Path host)"

definition getHostname :: "Host \<Rightarrow> string" where
  "getHostname host = (case ho_Hostname host of None \<Rightarrow> ''unknown'' | Some n \<Rightarrow> n)"

definition host_capabilities :: "Host \<Rightarrow> Capabilities" where
  "host_capabilities host =
     (let mem = GetMemoryInfo (ho_System host) in
      \<lparr>TotalMemoryBytes = mi_TotalBytes mem, AvailableMemoryBytes = mi_AvailableBytes mem,
       HasDocker = HasExecutable host ''docker'', HasPodman = HasExecutable host ''podman''\<rparr>)"

section \<open>Requests\<close>

definition agentDoReq ::
  "('n, 'e) Env_scheme \<Rightarrow> string \<Rightarrow> string \<Rightarrow> payload option \<Rightarrow> string \<Rightarrow> 'n World \<Rightarrow> 'n World \<times> (string + HttpResp)" where
  "agentDoReq E m url body token w =
     (case NewRequest E m url body of
        Inl e \<Rightarrow> (w, Inl e)
      | Inr q \<Rightarrow>
          (let q1 = q\<lparr>hq_ContentType := Some ''application/json''\<rparr> in
           http_do E (if token \<noteq> '''' then q1\<lparr>hq_Auth := Some (''Bearer '' @ token)\<rparr> else q1) w))"

text \<open>The field \<open>token\<close> of an answer, the empty string if it has none, is the argument \<open>tok\<close>.\<close>

definition registerNode ::
  "('n, 'e) Env_scheme \<Rightarrow> (string \<Rightarrow> string) \<Rightarrow> Host \<Rightarrow> string \<Rightarrow> string \<Rightarrow> string \<Rightarrow> 'n World \<Rightarrow> 'n World \<times> (string + string)" where
  "registerNode E tok host nodeID cpURL token w =
     (let data = \<lparr>gq_NodeID = nodeID, gq_Hostname = getHostname host, gq_IPAddress = '''', gq_CPUCores = ho_NumCPU host,
                  gq_OS = ho_GOOS host, gq_Architecture = ho_GOARCH host, gq_Capabilities = host_capabilities host\<rparr>
      in case agentDoReq E ''POST'' (cpURL @ ''/api/v1/nodes/register'') (Some (RegisterBody data)) token w of
           (w1, Inl e) \<Rightarrow> (w1, Inl (''failed to connect to control plane: '' @ e))
         | (w1, Inr r) \<Rightarrow>
             (w1, if hr_StatusCode r \<noteq> 200 then Inl (''control plane returned status '' @ show_nat (hr_StatusCode r))
                  else Inr (tok (hr_Body r))))"

definition sendHeartbeat ::
  "('n, 'e) Env_scheme \<Rightarrow> Host \<Rightarrow> string \<Rightarrow> string \<Rightarrow> string \<Rightarrow> 'n World \<Rightarrow> 'n World \<times> string option" where
  "sendHeartbeat E host nodeID cpURL token w =
     (case agentDoReq E ''POST'' (cpURL @ ''/api/v1/nodes/'' @ nodeID @ ''/heartbeat'')
             (Some (HeartbeatBody (host_capabilities host))) token w of
        (w1, Inl e) \<Rightarrow> (w1, Some (''failed to connect to control plane: '' @ e))
      | (w1, Inr r) \<Rightarrow>
          (w1, if hr_StatusCode r \<noteq> 200 then Some (''control plane returned status '' @ show_nat (hr_StatusCode r)) else None))"

text \<open>The loop at the start of an agent; it may run forever, so its result is optional.\<close>

partial_function (option) register_loop ::
  "('n World \<Rightarrow> 'n World \<times> (string + string)) \<Rightarrow> 'n World \<Rightarrow> ('n World \<times> string) option" where
  "register_loop attempt w =
     (if isl (snd (attempt w)) then register_loop attempt (fst (attempt w))
      else Some (fst (attempt w), projr (snd (attempt w))))"

text \<open>The start of \<open>runAgent\<close>: the defaults of its flags, then the loop, up to the first heartbeat.\<close>

definition runAgent_start ::
  "('n, 'e) Env_scheme \<Rightarrow> (string \<Rightarrow> string) \<Rightarrow> Host \<Rightarrow> string \<Rightarrow> string \<Rightarrow> 'n World \<Rightarrow> ('n World \<times> string) option" where
  "runAgent_start E tok host cpURL token w =
     (let url = (if cpURL = '''' then ''http://localhost:8080'' else cpURL); nodeID = getHostname host in
      register_loop (registerNode E tok host nodeID url token) w)"

section \<open>The loop\<close>

primrec attempts :: "('n World \<Rightarrow> 'n World \<times> 'a) \<Rightarrow> nat \<Rightarrow> 'n World \<Rightarrow> 'n World" where
  "attempts a 0 w = w"
| "attempts a (Suc n) w = attempts a n (fst (a w))"

lemma register_after:
  assumes "\<not> isl (snd (attempt (attempts attempt n w)))" and "\<And>k. k < n \<Longrightarrow> isl (snd (attempt (attempts attempt k w)))"
  shows "register_loop attempt w =
    Some (fst (attempt (attempts attempt n w)), projr (snd (attempt (attempts attempt n w))))"
  using assms
proof (induction n arbitrary: w)
  case 0
  then show ?case by (subst register_loop.simps) simp
next
  case (Suc n)
  have "isl (snd (attempt w))" using Suc.prems(2) [of 0] by simp
  moreover have "isl (snd (attempt (attempts attempt k (fst (attempt w)))))" if "k < n" for k
    using Suc.prems(2) [of "Suc k"] that by simp
  ultimately show ?case using Suc.IH [of "fst (attempt w)"] Suc.prems(1) by (subst register_loop.simps) simp
qed

lemma register_needs:
  assumes "register_loop attempt w = Some r"
  shows "\<exists>n. \<not> isl (snd (attempt (attempts attempt n w)))"
proof (rule register_loop.raw_induct [of "\<lambda>attempt w r. \<exists>n. \<not> isl (snd (attempt (attempts attempt n w)))", OF _ assms])
  fix loop :: "('a World \<Rightarrow> 'a World \<times> (string + string)) \<Rightarrow> 'a World \<Rightarrow> ('a World \<times> string) option"
    and attempt :: "'a World \<Rightarrow> 'a World \<times> (string + string)" and w r
  assume ih: "\<And>attempt w r. loop attempt w = Some r \<Longrightarrow> \<exists>n. \<not> isl (snd (attempt (attempts attempt n w)))"
    and s: "(if isl (snd (attempt w)) then loop attempt (fst (attempt w))
      else Some (fst (attempt w), projr (snd (attempt w)))) = Some r"
  show "\<exists>n. \<not> isl (snd (attempt (attempts attempt n w)))"
  proof (cases "isl (snd (attempt w))")
    case True
    with s have "loop attempt (fst (attempt w)) = Some r" by simp
    from ih [OF this] obtain n where "\<not> isl (snd (attempt (attempts attempt n (fst (attempt w)))))" by blast
    then show ?thesis by (intro exI [of _ "Suc n"]) simp
  next
    case False
    then show ?thesis by (intro exI [of _ 0]) simp
  qed
qed

section \<open>The agent and the control plane\<close>

definition agent_route :: "string \<Rightarrow> HttpReq \<Rightarrow> string \<Rightarrow> request option" where
  "agent_route remote q url =
     (if hq_Method q \<noteq> ''POST'' then None
      else
        (case split_slash url of
           [_, api, v, ns, r] \<Rightarrow>
             if [api, v, ns, r] = [''api'', ''v1'', ''nodes'', ''register'']
             then Some (RegisterNode remote (case hq_Body q of Some (RegisterBody b) \<Rightarrow> Some b | _ \<Rightarrow> None)) else None
         | [_, api, v, ns, k, hb] \<Rightarrow>
             if [api, v, ns, hb] = [''api'', ''v1'', ''nodes'', ''heartbeat'']
             then Some (HeartbeatNode k (case hq_Body q of Some (HeartbeatBody c) \<Rightarrow> Some c | _ \<Rightarrow> None)) else None
         | _ \<Rightarrow> None))"

text \<open>A control plane that listens at \<open>base\<close> and numbers the requests it gets.\<close>

definition agent_net ::
  "AuthManager \<Rightarrow> (AppSpec \<Rightarrow> string) \<Rightarrow> (rat \<Rightarrow> rat) \<Rightarrow> (nat \<Rightarrow> RequestInput) \<Rightarrow> (RequestInput \<Rightarrow> request \<Rightarrow> string) \<Rightarrow> string \<Rightarrow>
   string \<Rightarrow> HttpReq \<Rightarrow> Platform \<times> nat \<Rightarrow> (Platform \<times> nat) \<times> (string + HttpResp)" where
  "agent_net m hash rnd inp render remote base q n =
     (if \<not> has_prefix (hq_URL q) base then (n, Inl ''connection refused'')
      else
        (case agent_route remote q (drop (length base) (hq_URL q)) of
           None \<Rightarrow> ((fst n, Suc (snd n)), Inr \<lparr>hr_StatusCode = 404, hr_Status = ''404 Not Found'', hr_Body = ''''\<rparr>)
         | Some r \<Rightarrow>
             (case serve m hash rnd (inp (snd n)) (case hq_Auth q of None \<Rightarrow> '''' | Some a \<Rightarrow> a) r (fst n) of
                (p, st) \<Rightarrow> ((p, Suc (snd n)), Inr \<lparr>hr_StatusCode = st, hr_Status = show_nat st, hr_Body = render (inp (snd n)) r\<rparr>))))"

lemma split_slash_end: "CHR ''/'' \<notin> set k \<Longrightarrow> split_slash k = [k]"
  by (induction k) auto

lemma split_slash_middle: "CHR ''/'' \<notin> set k \<Longrightarrow> split_slash (k @ CHR ''/'' # s) = k # split_slash s"
  by (induction k) auto

lemma agent_routes:
  "agent_route remote q ''/api/v1/nodes/register'' =
     (if hq_Method q = ''POST'' then Some (RegisterNode remote (case hq_Body q of Some (RegisterBody b) \<Rightarrow> Some b | _ \<Rightarrow> None)) else None)"
  "CHR ''/'' \<notin> set k \<Longrightarrow> agent_route remote q (''/api/v1/nodes/'' @ k @ ''/heartbeat'') =
     (if hq_Method q = ''POST'' then Some (HeartbeatNode k (case hq_Body q of Some (HeartbeatBody c) \<Rightarrow> Some c | _ \<Rightarrow> None)) else None)"
  by (simp_all add: agent_route_def split_slash_end split_slash_middle)

section \<open>Properties\<close>

text \<open>
  C36: an agent starts exactly when the control plane accepts it. The loop at the start of an agent
  returns the token of the first registration that succeeds; it runs forever only if every
  registration fails.
\<close>

theorem registration_loop:
  "let attempt = registerNode E tok host (getHostname host) (if cpURL = '''' then ''http://localhost:8080'' else cpURL) token in
   case runAgent_start E tok host cpURL token w of
      None \<Rightarrow> \<forall>n. isl (snd (attempt (attempts attempt n w)))
    | Some (w', t) \<Rightarrow> \<exists>n. attempt (attempts attempt n w) = (w', Inr t) \<and> (\<forall>k < n. isl (snd (attempt (attempts attempt k w))))"
proof -
  define attempt where "attempt = registerNode E tok host (getHostname host) (if cpURL = '''' then ''http://localhost:8080'' else cpURL) token"
  have run: "runAgent_start E tok host cpURL token w = register_loop attempt w"
    by (simp add: runAgent_start_def attempt_def Let_def)
  have "case register_loop attempt w of
      None \<Rightarrow> \<forall>n. isl (snd (attempt (attempts attempt n w)))
    | Some (w', t) \<Rightarrow> \<exists>n. attempt (attempts attempt n w) = (w', Inr t) \<and> (\<forall>k < n. isl (snd (attempt (attempts attempt k w))))"
  proof (cases "\<exists>n. \<not> isl (snd (attempt (attempts attempt n w)))")
    case True
    define n where "n = (LEAST n. \<not> isl (snd (attempt (attempts attempt n w))))"
    have n: "\<not> isl (snd (attempt (attempts attempt n w)))" using True unfolding n_def by (rule LeastI_ex)
    have before: "isl (snd (attempt (attempts attempt k w)))" if "k < n" for k using not_less_Least [of k] that unfolding n_def by blast
    obtain t where t: "snd (attempt (attempts attempt n w)) = Inr t" using n by (cases "snd (attempt (attempts attempt n w))") auto
    have "register_loop attempt w = Some (fst (attempt (attempts attempt n w)), t)"
      using register_after [of attempt n w, OF n before] t by simp
    moreover have "attempt (attempts attempt n w) = (fst (attempt (attempts attempt n w)), Inr t)" using t by (simp add: prod_eq_iff)
    ultimately show ?thesis using before by auto
  next
    case False
    then show ?thesis using register_needs [of attempt w] by (cases "register_loop attempt w") auto
  qed
  then show ?thesis by (simp add: run Let_def flip: attempt_def)
qed

definition example_host :: Host where
  "example_host = \<lparr>ho_Hostname = Some ''n1'', ho_NumCPU = 4, ho_GOOS = ''linux'', ho_GOARCH = ''amd64'',
     ho_System = Linux (Some [''MemTotal:       16384 kB'', ''MemAvailable:    8192 kB'']), ho_Path = [''docker'']\<rparr>"

text \<open>A control plane that is down for the first attempt.\<close>

definition example_agent_env :: "nat Env" where
  "example_agent_env = example_env\<lparr>ev_Do := (\<lambda>q n. (Suc n,
     if n = 0 then Inl ''connection refused'' else Inr \<lparr>hr_StatusCode = 200, hr_Status = ''200 OK'', hr_Body = ''{}''\<rparr>))\<rparr>"

theorem registration_loop_witness:
  "\<exists>w'. runAgent_start example_agent_env (\<lambda>_. ''tk'') example_host ''http://cp'' ''ag'' example_world = Some (w', ''tk'')"
proof -
  let ?a = "registerNode example_agent_env (\<lambda>_. ''tk'') example_host (getHostname example_host) ''http://cp'' ''ag''"
  have "\<not> isl (snd (?a (attempts ?a (Suc 0) example_world)))"
    by (simp add: registerNode_def agentDoReq_def NewRequest_def http_do_def example_agent_env_def example_env_def example_world_def)
  then have "\<not> (\<forall>n. isl (snd (?a (attempts ?a n example_world))))" by blast
  moreover have "t = ''tk''" if "?a w = (w', Inr t)" for w w' t
    using that by (auto simp: registerNode_def Let_def split: prod.splits sum.splits if_splits)
  ultimately show ?thesis
    using registration_loop [of example_agent_env "\<lambda>_. ''tk''" example_host "''http://cp''" "''ag''" example_world]
    by (auto simp: Let_def split: option.splits prod.splits)
qed

text \<open>
  An agent joins. On a machine with a name, with processors and a known system, an agent that
  has the agents' token is registered by its first attempt: the loop returns the token that the
  control plane drew for it, and the node is online with the capabilities of the machine.
\<close>

lemma agent_joins:
  assumes "ev_Do E = agent_net m hash rnd inp render remote url" and "url \<noteq> ''''" and "\<And>u. ev_ParseURL E u = None"
    and "agentToken m \<noteq> ''''" and "ho_Hostname host = Some k" and "k \<noteq> ''''" and "0 < ho_NumCPU host"
    and "ho_GOOS host \<noteq> ''''" and "ho_GOARCH host \<noteq> ''''" and "\<And>x r b. tok (render x (RegisterNode r b)) = ri_token x"
  shows "\<exists>w1 n. runAgent_start E tok host url (agentToken m) w = Some (w1, ri_token (inp (snd (wd_Net w)))) \<and>
    map_of (cp_nodes (pl_core (fst (wd_Net w1)))) k = Some n \<and> n_Status n = NodeOnline \<and>
    n_LastHeartbeat n = ri_now (inp (snd (wd_Net w))) \<and> n_Capabilities n = host_capabilities host"
proof -
  let ?x = "inp (snd (wd_Net w))" and ?p = "fst (wd_Net w)"
  let ?d = "\<lparr>gq_NodeID = k, gq_Hostname = k, gq_IPAddress = '''', gq_CPUCores = ho_NumCPU host,
                  gq_OS = ho_GOOS host, gq_Architecture = ho_GOARCH host, gq_Capabilities = host_capabilities host\<rparr>"
  let ?q = "\<lparr>hq_Method = ''POST'', hq_URL = url @ ''/api/v1/nodes/register'', hq_ContentType = Some ''application/json'',
    hq_Auth = Some (''Bearer '' @ agentToken m), hq_Body = Some (RegisterBody ?d)\<rparr>"
  have e: "extractToken m (''Bearer '' @ agentToken m) = Inr (agentToken m)"
    using assms(4) by (simp add: extractToken_def split_space_iff)
  obtain p st where sv: "serve m hash rnd ?x (''Bearer '' @ agentToken m) (RegisterNode remote (Some ?d)) ?p = (p, st)" by fastforce
  have "serve m hash rnd ?x (''Bearer '' @ agentToken m) (RegisterNode remote (Some ?d)) ?p =
      handle hash rnd ?x None (RegisterNode remote (Some ?d)) ?p"
    unfolding serve_def guard_of.simps guard.case RequireAgent_def e sum.case by simp
  with sv have h: "handle hash rnd ?x None (RegisterNode remote (Some ?d)) ?p = (p, st)" by simp
  have st: "st = 200" and n: "\<exists>n. map_of (cp_nodes (pl_core p)) k = Some n \<and> n_Status n = NodeOnline \<and>
      n_LastHeartbeat n = ri_now ?x \<and> n_Capabilities n = host_capabilities host"
    using h assms(6-9) by (auto simp: handle_def NodeApi_Register_def Node_Register_def code_def Let_def split: option.splits)
  have net: "ev_Do E ?q (wd_Net w) = ((p, Suc (snd (wd_Net w))),
      Inr \<lparr>hr_StatusCode = 200, hr_Status = show_nat 200, hr_Body = render ?x (RegisterNode remote (Some ?d))\<rparr>)"
    using assms(1) sv st by (simp add: agent_net_def has_prefix_def agent_routes(1) [simplified])
  have "registerNode E tok host k url (agentToken m) w = (w\<lparr>wd_Net := (p, Suc (snd (wd_Net w)))\<rparr>, Inr (ri_token ?x))"
    using net assms(3,4,5,10) by (simp add: registerNode_def agentDoReq_def NewRequest_def http_do_def getHostname_def Let_def)
  then have "runAgent_start E tok host url (agentToken m) w = Some (w\<lparr>wd_Net := (p, Suc (snd (wd_Net w)))\<rparr>, ri_token ?x)"
    using assms(2,5) by (simp add: runAgent_start_def getHostname_def register_loop.simps)
  with n show ?thesis by auto
qed
definition example_agent :: "(Platform \<times> nat) Env" where
  "example_agent =
     \<lparr>ev_Enc = example_enc, ev_Dec = example_dec, ev_Disk = DiskOK, ev_ParseURL = (\<lambda>_. None),
      ev_Do = agent_net example_auth (\<lambda>_. ''h'') (\<lambda>x. x) (\<lambda>n. example_request) (\<lambda>x r. ri_token x) ''10.0.0.9:41'' ''http://cp''\<rparr>"

definition example_start :: "(Platform \<times> nat) World" where
  "example_start = \<lparr>wd_Home = wd_Home example_world, wd_Net = (example_platform, 0), wd_Out = []\<rparr>"

lemma example_agent_net:
  "ev_Do example_agent = agent_net example_auth (\<lambda>_. ''h'') (\<lambda>x. x) (\<lambda>n. example_request) (\<lambda>x r. ri_token x) ''10.0.0.9:41'' ''http://cp''"
  by (simp add: example_agent_def)

lemma agent_joins_example:
  "\<exists>w1 n. runAgent_start example_agent (\<lambda>s. s) example_host ''http://cp'' ''ag'' example_start = Some (w1, ''t1'') \<and>
    map_of (cp_nodes (pl_core (fst (wd_Net w1)))) ''n1'' = Some n \<and> n_Status n = NodeOnline \<and>
    n_Capabilities n = \<lparr>TotalMemoryBytes = 16777216, AvailableMemoryBytes = 8388608, HasDocker = True, HasPodman = False\<rparr>"
proof -
  have c: "host_capabilities example_host =
      \<lparr>TotalMemoryBytes = 16777216, AvailableMemoryBytes = 8388608, HasDocker = True, HasPodman = False\<rparr>"
    by (simp add: host_capabilities_def GetMemoryInfo_def meminfo_line_def example_host_def parse_uint_def is_space_def
        HasExecutable_def)
  have "\<exists>w1 n. runAgent_start example_agent (\<lambda>s. s) example_host ''http://cp'' (agentToken example_auth) example_start =
        Some (w1, ri_token example_request) \<and>
      map_of (cp_nodes (pl_core (fst (wd_Net w1)))) ''n1'' = Some n \<and> n_Status n = NodeOnline \<and>
      n_LastHeartbeat n = ri_now example_request \<and> n_Capabilities n = host_capabilities example_host"
    by (rule agent_joins [OF example_agent_net]) (simp_all add: example_agent_def example_auth_def example_host_def)
  then show ?thesis by (auto simp: c example_auth_def example_request_def)
qed

lemma refused_header:
  assumes "token \<notin> {operatorToken m, agentToken m}" and "guard_of r = NodeToken"
  shows "serve m hash rnd x (case if token \<noteq> '''' then Some (''Bearer '' @ token) else None of None \<Rightarrow> '''' | Some a \<Rightarrow> a) r p = (p, 401)"
proof -
  have "extractToken m (case if token \<noteq> '''' then Some (''Bearer '' @ token) else None of None \<Rightarrow> '''' | Some a \<Rightarrow> a) = Inl 401"
    using assms(1) by (auto simp: extractToken_def split_space_iff split: option.splits prod.splits)
  then show ?thesis using assms(2) by (simp only: serve_def guard.case RequireNodeAuth_def sum.case)
qed

text \<open>
  C39: the token that a node gets at its registration is of no use. Unless it happens to be the
  operator's or the agents' token, every heartbeat with it is answered with 401 and leaves the
  control plane as it was; so the check for lost nodes that runs more than 30 seconds after the
  registration marks the node offline although its agent is alive.
\<close>

theorem heartbeats_refused:
  assumes "ev_Do E = agent_net m hash rnd inp render remote url" and "\<And>u. ev_ParseURL E u = None"
    and "token \<notin> {operatorToken m, agentToken m}" and "CHR ''/'' \<notin> set k" and "sendHeartbeat E host k url token w = (w', r)"
  shows "r = Some ''control plane returned status 401'' \<and> fst (wd_Net w') = fst (wd_Net w) \<and>
    (\<forall>n now. map_of (cp_nodes (pl_core (fst (wd_Net w)))) k = Some n \<and> time_sub now (n_LastHeartbeat n) > 30 * second \<longrightarrow>
      (\<exists>n'. map_of (cp_nodes (offline_tick now (pl_core (fst (wd_Net w'))))) k = Some n' \<and> n_Status n' = NodeOffline))"
proof -
  let ?auth = "if token \<noteq> '''' then Some (''Bearer '' @ token) else None"
  let ?q = "\<lparr>hq_Method = ''POST'', hq_URL = url @ ''/api/v1/nodes/'' @ k @ ''/heartbeat'', hq_ContentType = Some ''application/json'',
    hq_Auth = ?auth, hq_Body = Some (HeartbeatBody (host_capabilities host))\<rparr>"
  let ?r = "HeartbeatNode k (Some (host_capabilities host))"
  have "agent_route remote ?q (drop (length url) (hq_URL ?q)) = Some ?r"
    using agent_routes(2) [OF assms(4), of remote ?q] by simp
  moreover have "has_prefix (hq_URL ?q) url" by (simp add: has_prefix_def)
  moreover have "serve m hash rnd (inp (snd (wd_Net w))) (case hq_Auth ?q of None \<Rightarrow> '''' | Some a \<Rightarrow> a) ?r (fst (wd_Net w)) = (fst (wd_Net w), 401)"
    using refused_header [OF assms(3), of ?r] by simp
  ultimately have net: "ev_Do E ?q (wd_Net w) = ((fst (wd_Net w), Suc (snd (wd_Net w))),
      Inr \<lparr>hr_StatusCode = 401, hr_Status = show_nat 401, hr_Body = render (inp (snd (wd_Net w))) ?r\<rparr>)"
    unfolding assms(1) agent_net_def by (simp only: not_True_eq_False if_False option.case prod.case)
  have q: "(if token \<noteq> '''' then q\<lparr>hq_Auth := Some (''Bearer '' @ token)\<rparr> else q\<lparr>hq_Auth := None\<rparr>) = q\<lparr>hq_Auth := ?auth\<rparr>" for q :: HttpReq
    by simp
  have "agentDoReq E ''POST'' (url @ ''/api/v1/nodes/'' @ k @ ''/heartbeat'') (Some (HeartbeatBody (host_capabilities host))) token w =
      (w\<lparr>wd_Net := (fst (wd_Net w), Suc (snd (wd_Net w)))\<rparr>,
       Inr \<lparr>hr_StatusCode = 401, hr_Status = show_nat 401, hr_Body = render (inp (snd (wd_Net w))) ?r\<rparr>)"
    using net assms(2) by (cases "token = ''''") (simp_all add: agentDoReq_def NewRequest_def http_do_def)
  moreover have "show_nat 401 = ''401''" by code_simp
  ultimately have "r = Some ''control plane returned status 401''" and w': "w' = w\<lparr>wd_Net := (fst (wd_Net w), Suc (snd (wd_Net w)))\<rparr>"
    using assms(5) by (simp_all add: sendHeartbeat_def)
  moreover have "map_of (MarkOfflineNodes now timeout reg) k = map_option (mark_offline now timeout) (map_of reg k)" for now timeout reg
    by (induction reg) (auto simp: MarkOfflineNodes_def)
  ultimately show ?thesis by (auto simp: offline_tick_def mark_offline_def)
qed

theorem heartbeats_refused_witness:
  "snd (sendHeartbeat example_agent example_host ''n1'' ''http://cp'' ''t1'' example_start) = Some ''control plane returned status 401''"
  using heartbeats_refused [OF example_agent_net, of "''t1''" "''n1''" example_host example_start
      "fst (sendHeartbeat example_agent example_host ''n1'' ''http://cp'' ''t1'' example_start)"
      "snd (sendHeartbeat example_agent example_host ''n1'' ''http://cp'' ''t1'' example_start)"]
  by (simp add: example_agent_def example_auth_def)

end
