(* ===== verification/Migrate.thy ===== *)
theory Migrate
  imports Cli
begin

text \<open>
  Schema migrations: \<open>internal/db/migrate.go\<close> with the transactions of \<open>internal/db/db.go\<close>.

  The database is the table of applied versions (absent until it is created) and everything else,
  on which the text of a migration acts through the argument \<open>mg_Exec\<close>; a migration does not touch the
  table of versions. Each statement may fail, and the answer to a \<open>COMMIT\<close> may get lost after it
  took effect. The embedded files are a list of names with their texts.
\<close>

section \<open>Definitions\<close>

record 'd DB =
  db_Versions :: "int list option"
  db_Data :: 'd

datatype commit = Committed | NotCommitted string | CommitLost string

record 'd MigrateEnv =
  mg_Files :: "(string \<times> string) list"
  mg_Exec :: "string \<Rightarrow> 'd \<Rightarrow> string + 'd"
  mg_CreateTable :: "string option"
  mg_ReadDir :: "string option"
  mg_Begin :: "string option"
  mg_Query :: "string option"
  mg_Record :: "int \<Rightarrow> string option"
  mg_Rollback :: "string option"
  mg_Commit :: commit

definition RunInTx :: "('d, 'e) MigrateEnv_scheme \<Rightarrow> ('s \<Rightarrow> 's \<times> string option) \<Rightarrow> 's \<Rightarrow> 's \<times> string option" where
  "RunInTx E fn s =
     (case mg_Begin E of
        Some e \<Rightarrow> (s, Some e)
      | None \<Rightarrow>
          (case fn s of
             (_, Some e) \<Rightarrow>
               (s, Some (case mg_Rollback E of
                           Some rb \<Rightarrow> ''tx error: '' @ e @ '', rollback error: '' @ rb
                         | None \<Rightarrow> e))
           | (s1, None) \<Rightarrow>
               (case mg_Commit E of
                  Committed \<Rightarrow> (s1, None)
                | NotCommitted e \<Rightarrow> (s, Some e)
                | CommitLost e \<Rightarrow> (s1, Some e))))"

text \<open>\<open>strings.HasSuffix\<close>; \<open>fmt.Sscanf(filename, "%d_", &version)\<close> leaves 0 if no number can be read.\<close>

definition has_suffix :: "string \<Rightarrow> string \<Rightarrow> bool" where
  "has_suffix s p \<longleftrightarrow> length p \<le> length s \<and> drop (length s - length p) s = p"

definition extractVersion :: "string \<Rightarrow> int" where
  "extractVersion filename = (case scan_int filename of None \<Rightarrow> 0 | Some v \<Rightarrow> v)"

definition current_version :: "int list \<Rightarrow> int" where
  "current_version vs = (if vs = [] then 0 else Max (set vs))"

text \<open>\<open>INSERT INTO schema_migrations\<close>: the version is the primary key and a 32-bit integer.\<close>

definition insert_version :: "('d, 'e) MigrateEnv_scheme \<Rightarrow> int \<Rightarrow> 'd DB \<Rightarrow> 'd DB \<times> string option" where
  "insert_version E v s =
     (case mg_Record E v of
        Some e \<Rightarrow> (s, Some e)
      | None \<Rightarrow>
          (case db_Versions s of
             None \<Rightarrow> (s, Some ''relation does not exist'')
           | Some vs \<Rightarrow>
               if v \<in> set vs then (s, Some ''duplicate key value'')
               else if v < - 2147483648 \<or> 2147483647 < v then (s, Some ''integer out of range'')
               else (s\<lparr>db_Versions := Some (vs @ [v])\<rparr>, None)))"

definition delete_version :: "('d, 'e) MigrateEnv_scheme \<Rightarrow> int \<Rightarrow> 'd DB \<Rightarrow> 'd DB \<times> string option" where
  "delete_version E v s =
     (case mg_Record E v of
        Some e \<Rightarrow> (s, Some e)
      | None \<Rightarrow> (s\<lparr>db_Versions := map_option (filter (\<lambda>u. u \<noteq> v)) (db_Versions s)\<rparr>, None))"

text \<open>The text of a file, run against the database.\<close>

definition run_file :: "('d, 'e) MigrateEnv_scheme \<Rightarrow> string \<Rightarrow> 'd DB \<Rightarrow> string + 'd DB" where
  "run_file E f s =
     (case map_of (mg_Files E) f of
        None \<Rightarrow> Inl ''file does not exist''
      | Some content \<Rightarrow>
          (case mg_Exec E content (db_Data s) of
             Inl e \<Rightarrow> Inl (''failed to apply '' @ f @ '': '' @ e)
           | Inr d \<Rightarrow> Inr (s\<lparr>db_Data := d\<rparr>)))"

fun apply_up :: "('d, 'e) MigrateEnv_scheme \<Rightarrow> int \<Rightarrow> string list \<Rightarrow> 'd DB \<Rightarrow> 'd DB \<times> string option" where
  "apply_up E cur [] s = (s, None)"
| "apply_up E cur (f # fs) s =
     (if extractVersion f > cur then
        (case run_file E f s of
           Inl e \<Rightarrow> (s, Some e)
         | Inr s1 \<Rightarrow>
             (case insert_version E (extractVersion f) s1 of
                (s2, Some e) \<Rightarrow> (s2, Some e)
              | (s2, None) \<Rightarrow> apply_up E cur fs s2))
      else apply_up E cur fs s)"

fun apply_down :: "('d, 'e) MigrateEnv_scheme \<Rightarrow> int \<Rightarrow> string list \<Rightarrow> 'd DB \<Rightarrow> 'd DB \<times> string option" where
  "apply_down E cur [] s = (s, None)"
| "apply_down E cur (f # fs) s =
     (if extractVersion f = cur then
        (case run_file E f s of
           Inl e \<Rightarrow> (s, Some e)
         | Inr s1 \<Rightarrow> delete_version E (extractVersion f) s1)
      else apply_down E cur fs s)"

definition up_files :: "('d, 'e) MigrateEnv_scheme \<Rightarrow> string list" where
  "up_files E = sort (filter (\<lambda>f. has_suffix f ''.up.sql'') (map fst (mg_Files E)))"

definition down_files :: "('d, 'e) MigrateEnv_scheme \<Rightarrow> string list" where
  "down_files E =
     rev (sort (filter (\<lambda>f. \<not> has_suffix f ''.up.sql'' \<and> has_suffix f ''.down.sql'') (map fst (mg_Files E))))"

datatype direction = Up | Down

definition migrate_tx :: "('d, 'e) MigrateEnv_scheme \<Rightarrow> direction \<Rightarrow> 'd DB \<Rightarrow> 'd DB \<times> string option" where
  "migrate_tx E dir s =
     (case mg_Query E of
        Some e \<Rightarrow> (s, Some e)
      | None \<Rightarrow>
          (case db_Versions s of
             None \<Rightarrow> (s, Some ''relation does not exist'')
           | Some vs \<Rightarrow>
               (case dir of
                  Up \<Rightarrow> apply_up E (current_version vs) (up_files E) s
                | Down \<Rightarrow> apply_down E (current_version vs) (down_files E) s)))"

definition create_table :: "'d DB \<Rightarrow> 'd DB" where
  "create_table s = (case db_Versions s of None \<Rightarrow> s\<lparr>db_Versions := Some []\<rparr> | Some _ \<Rightarrow> s)"

definition runMigrations :: "('d, 'e) MigrateEnv_scheme \<Rightarrow> direction \<Rightarrow> 'd DB \<Rightarrow> 'd DB \<times> string option" where
  "runMigrations E dir s =
     (case mg_CreateTable E of
        Some e \<Rightarrow> (s, Some (''failed to create schema_migrations table: '' @ e))
      | None \<Rightarrow>
          (case mg_ReadDir E of
             Some e \<Rightarrow> (create_table s, Some (''failed to read migrations directory: '' @ e))
           | None \<Rightarrow> RunInTx E (migrate_tx E dir) (create_table s)))"

definition MigrateUp :: "('d, 'e) MigrateEnv_scheme \<Rightarrow> 'd DB \<Rightarrow> 'd DB \<times> string option" where
  "MigrateUp E s = runMigrations E Up s"

definition MigrateDown :: "('d, 'e) MigrateEnv_scheme \<Rightarrow> 'd DB \<Rightarrow> 'd DB \<times> string option" where
  "MigrateDown E s = runMigrations E Down s"

section \<open>Connecting\<close>

record DbConfig =
  dc_URL :: string
  dc_MaxOpenConns :: int
  dc_MaxIdleConns :: int
  dc_ConnMaxIdleTime :: duration
  dc_ConnMaxLifetime :: duration

text \<open>The argument is the value of \<open>RUNSTACK_DATABASE_URL\<close>.\<close>

definition LoadConfigFromEnv :: "string \<Rightarrow> string + DbConfig" where
  "LoadConfigFromEnv url =
     (if url = '''' then Inl ''RUNSTACK_DATABASE_URL is required''
      else Inr \<lparr>dc_URL = url, dc_MaxOpenConns = 25, dc_MaxIdleConns = 25, dc_ConnMaxIdleTime = 5 * minute,
                dc_ConnMaxLifetime = 30 * minute\<rparr>)"

text \<open>The pool that \<open>sql.Open\<close> returns, with its settings; it is pinged within five seconds.\<close>

definition Connect :: "(string \<Rightarrow> string option) \<Rightarrow> (DbConfig \<Rightarrow> duration \<Rightarrow> string option) \<Rightarrow> DbConfig \<Rightarrow> string + DbConfig" where
  "Connect open_error ping cfg =
     (case open_error (dc_URL cfg) of
        Some e \<Rightarrow> Inl (''failed to open database: '' @ e)
      | None \<Rightarrow>
          (case ping cfg (5 * second) of
             Some e \<Rightarrow> Inl (''database unreachable: '' @ e)
           | None \<Rightarrow> Inr cfg))"

section \<open>What a run does\<close>

definition pending :: "int \<Rightarrow> string list \<Rightarrow> string list" where
  "pending cur fs = filter (\<lambda>f. extractVersion f > cur) fs"

text \<open>The texts of the files, one after the other.\<close>

fun run_all :: "('d, 'e) MigrateEnv_scheme \<Rightarrow> string list \<Rightarrow> 'd \<Rightarrow> 'd option" where
  "run_all E [] d = Some d"
| "run_all E (f # fs) d =
     (case map_of (mg_Files E) f of
        None \<Rightarrow> None
      | Some content \<Rightarrow> (case mg_Exec E content d of Inl _ \<Rightarrow> None | Inr d1 \<Rightarrow> run_all E fs d1))"

lemma run_file_ok:
  assumes "run_file E f s = Inr s1"
  shows "db_Versions s1 = db_Versions s \<and> run_all E (f # fs) (db_Data s) = run_all E fs (db_Data s1)"
  using assms by (auto simp: run_file_def split: option.splits sum.splits)

lemma insert_version_ok:
  assumes "insert_version E v s = (s1, None)"
  shows "\<exists>vs. db_Versions s = Some vs \<and> v \<notin> set vs \<and> s1 = s\<lparr>db_Versions := Some (vs @ [v])\<rparr> \<and> mg_Record E v = None"
  using assms by (auto simp: insert_version_def split: option.splits if_splits)

lemma apply_up_ok:
  assumes "apply_up E cur fs s = (s', None)" and "db_Versions s = Some vs"
  shows "db_Versions s' = Some (vs @ map extractVersion (pending cur fs)) \<and>
    run_all E (pending cur fs) (db_Data s) = Some (db_Data s')"
  using assms
proof (induction E cur fs s arbitrary: vs rule: apply_up.induct)
  case (2 E cur f fs s)
  show ?case
  proof (cases "extractVersion f > cur")
    case True
    with "2.prems"(1) obtain s1 where s1: "run_file E f s = Inr s1" by (cases "run_file E f s") auto
    obtain s2 r where i: "insert_version E (extractVersion f) s1 = (s2, r)" by fastforce
    with "2.prems"(1) True s1 have r: "r = None" and u: "apply_up E cur fs s2 = (s', None)" by (auto split: option.splits)
    have s2: "s2 = s1\<lparr>db_Versions := Some (vs @ [extractVersion f])\<rparr>"
      using insert_version_ok [OF i [unfolded r]] run_file_ok [OF s1] "2.prems"(2) by auto
    from "2.IH"(1) [OF True s1 i [symmetric] r u, of "vs @ [extractVersion f]"] run_file_ok [OF s1, of "pending cur fs"] True
    show ?thesis by (simp add: pending_def s2 del: run_all.simps)
  next
    case False
    with 2 show ?thesis by (simp add: pending_def)
  qed
qed (simp add: pending_def)

lemma current_version_ge: "v \<in> set vs \<Longrightarrow> v \<le> current_version vs"
  by (auto simp: current_version_def)

lemma current_version_append:
  "current_version vs \<le> current_version (vs @ map extractVersion (pending (current_version vs) fs))"
proof (cases "vs = []")
  case True
  then show ?thesis
  proof (cases "pending 0 fs = []")
    case False
    then obtain f gs where p: "pending 0 fs = f # gs" by (cases "pending 0 fs") auto
    then have "0 < extractVersion f" by (metis pending_def filter_eq_Cons_iff)
    then have "0 < current_version (map extractVersion (pending 0 fs))"
      using current_version_ge [of "extractVersion f" "map extractVersion (pending 0 fs)"] p by auto
    then show ?thesis using True by (simp add: current_version_def)
  qed (simp add: current_version_def)
next
  case False
  then have "current_version vs \<in> set vs" by (simp add: current_version_def)
  then show ?thesis by (intro current_version_ge) simp
qed

lemma nothing_pending: "pending (current_version (vs @ map extractVersion (pending (current_version vs) fs))) fs = []"
proof -
  have "extractVersion f \<le> current_version (vs @ map extractVersion (pending (current_version vs) fs))" if "f \<in> set fs" for f
  proof (cases "extractVersion f > current_version vs")
    case True
    with that show ?thesis by (intro current_version_ge) (auto simp: pending_def)
  next
    case False
    with current_version_append [of vs fs] show ?thesis by simp
  qed
  then show ?thesis by (auto simp: pending_def filter_empty_conv not_less)
qed

lemma apply_up_none: "pending cur fs = [] \<Longrightarrow> apply_up E cur fs s = (s, None)"
  by (induction fs) (auto simp: pending_def split: if_splits)

lemma run_ok:
  assumes "runMigrations E dir s = (s', None)"
  shows "mg_CreateTable E = None \<and> mg_ReadDir E = None \<and> mg_Begin E = None \<and> mg_Commit E = Committed \<and> mg_Query E = None \<and>
    migrate_tx E dir (create_table s) = (s', None)"
  using assms
  by (auto simp: runMigrations_def RunInTx_def migrate_tx_def split: option.splits prod.splits commit.splits)

lemma run_run:
  assumes "runMigrations E dir s = (s', None)" and "migrate_tx E dir' (create_table t) = (t', None)"
  shows "runMigrations E dir' t = (t', None)"
  using run_ok [OF assms(1)] assms(2) by (simp add: runMigrations_def RunInTx_def)

lemma created_versions: "\<exists>vs. db_Versions (create_table s) = Some vs"
  by (auto simp: create_table_def split: option.split)

lemma created_same: "db_Versions s = Some vs \<Longrightarrow> create_table s = s"
  by (simp add: create_table_def)

section \<open>Properties\<close>

text \<open>
  C37: a migration that succeeds is complete, and repeating it does nothing. After \<open>MigrateUp\<close> without
  an error exactly the files with a version above the highest applied one have been run, each once
  and in the order of their names, their versions are recorded, and running it again changes
  nothing.
\<close>

theorem migrate_up_complete:
  assumes "MigrateUp E s = (s', None)" and "db_Versions (create_table s) = Some vs"
  shows "let todo = filter (\<lambda>f. extractVersion f > current_version vs) (up_files E) in
    sorted todo \<and> db_Versions s' = Some (vs @ map extractVersion todo) \<and> run_all E todo (db_Data s) = Some (db_Data s') \<and>
    MigrateUp E s' = (s', None)"
proof -
  note ok = run_ok [OF assms(1) [unfolded MigrateUp_def]]
  then have u: "apply_up E (current_version vs) (up_files E) (create_table s) = (s', None)"
    using assms(2) by (auto simp: migrate_tx_def)
  let ?todo = "pending (current_version vs) (up_files E)"
  have d: "db_Data (create_table s) = db_Data s" by (simp add: create_table_def split: option.split)
  from apply_up_ok [OF u assms(2)] have r: "db_Versions s' = Some (vs @ map extractVersion ?todo)" "run_all E ?todo (db_Data s) = Some (db_Data s')"
    by (simp_all add: d)
  have "migrate_tx E Up (create_table s') = (s', None)"
    using ok by (simp add: created_same [OF r(1)] migrate_tx_def r(1) apply_up_none nothing_pending)
  from run_run [OF assms(1) [unfolded MigrateUp_def] this] have "MigrateUp E s' = (s', None)" by (simp add: MigrateUp_def)
  moreover have "sorted ?todo" by (simp add: pending_def up_files_def sorted_filter [where f = id, simplified])
  ultimately show ?thesis using r by (simp add: pending_def Let_def)
qed

text \<open>
  C38: a migration that fails changes nothing. When a run ends with an error, in either direction
  and wherever it failed, the database is as before, at most with an empty table of versions; only
  when the answer to the final \<open>COMMIT\<close> was lost is it in the state after a complete run.
\<close>

theorem migrate_atomic:
  assumes "runMigrations E dir s = (s', Some e)"
  shows "s' = s \<or> s' = create_table s \<or>
    (\<exists>e'. mg_Commit E = CommitLost e' \<and> runMigrations (E\<lparr>mg_Commit := Committed\<rparr>) dir s = (s', None))"
proof -
  have f: "run_file (E\<lparr>mg_Commit := c\<rparr>) g t = run_file E g t" "insert_version (E\<lparr>mg_Commit := c\<rparr>) v t = insert_version E v t"
    "delete_version (E\<lparr>mg_Commit := c\<rparr>) v t = delete_version E v t" for g v t c
    by (simp_all add: run_file_def insert_version_def delete_version_def split: option.split)
  have u: "apply_up (E\<lparr>mg_Commit := c\<rparr>) cur fs t = apply_up E cur fs t" for cur fs t c
    by (induction fs arbitrary: t) (simp_all add: f split: option.split sum.split prod.split)
  have w: "apply_down (E\<lparr>mg_Commit := c\<rparr>) cur fs t = apply_down E cur fs t" for cur fs t c
    by (induction fs) (simp_all add: f split: sum.split)
  have "migrate_tx (E\<lparr>mg_Commit := c\<rparr>) dir t = migrate_tx E dir t" for t c
    by (simp add: migrate_tx_def u w up_files_def down_files_def split: direction.split option.split)
  then show ?thesis
    using assms by (auto simp: runMigrations_def RunInTx_def split: option.splits prod.splits commit.splits)
qed

text \<open>
  Rolling back what was migrated. If one file was pending and the file that
  takes back its version undoes its text, then \<open>MigrateUp\<close> followed by \<open>MigrateDown\<close> restores the
  data and the table of versions.
\<close>

lemma migrate_roundtrip:
  assumes "MigrateUp E s = (s1, None)" and "db_Versions s = Some vs"
    and "filter (\<lambda>f. extractVersion f > current_version vs) (up_files E) = [f]"
    and "List.find (\<lambda>g. extractVersion g = extractVersion f) (down_files E) = Some g"
    and "map_of (mg_Files E) f = Some up" and "map_of (mg_Files E) g = Some down"
    and "\<And>d d'. mg_Exec E up d = Inr d' \<Longrightarrow> mg_Exec E down d' = Inr d"
  shows "MigrateDown E s1 = (s, None)"
proof -
  note same = created_same [OF assms(2)]
  note ok = run_ok [OF assms(1) [unfolded MigrateUp_def], unfolded same]
  then have u: "apply_up E (current_version vs) (up_files E) s = (s1, None)"
    using assms(2) by (auto simp: migrate_tx_def)
  have p: "pending (current_version vs) (up_files E) = [f]" using assms(3) by (simp add: pending_def)
  then have gt: "extractVersion f > current_version vs" by (metis pending_def filter_eq_Cons_iff)
  have v1: "db_Versions s1 = Some (vs @ [extractVersion f])" and x: "run_all E [f] (db_Data s) = Some (db_Data s1)"
    using apply_up_ok [OF u assms(2)] by (simp_all add: p)
  have undone: "mg_Exec E down (db_Data s1) = Inr (db_Data s)"
    using x assms(5,7) by (auto split: sum.splits)
  have new: "extractVersion f \<notin> set vs" using gt current_version_ge [of "extractVersion f" vs] by auto
  have cur: "current_version (vs @ [extractVersion f]) = extractVersion f"
    using gt by (cases "vs = []") (auto simp: current_version_def)
  have recorded: "mg_Record E (extractVersion f) = None" if "apply_up E c fs t = (t', None)" "pending c fs = [f]" for c fs t t'
    using that
  proof (induction fs arbitrary: t)
    case (Cons h fs)
    then show ?case
      by (cases "extractVersion h > c")
        (auto simp: pending_def split: sum.splits prod.splits option.splits dest!: insert_version_ok)
  qed (simp add: pending_def)
  have down: "apply_down E (extractVersion f) gs s1 = delete_version E (extractVersion f) (s1\<lparr>db_Data := db_Data s\<rparr>)"
    if "List.find (\<lambda>g. extractVersion g = extractVersion f) gs = Some g" for gs
    using that
  proof (induction gs)
    case (Cons h gs)
    then show ?case by (cases "extractVersion h = extractVersion f") (auto simp: run_file_def assms(6) undone)
  qed simp
  have "filter (\<lambda>u. u \<noteq> extractVersion f) vs = vs" using new by (simp add: filter_id_conv) blast
  then have "migrate_tx E Down s1 = (s, None)"
    using ok by (simp add: migrate_tx_def v1 cur down [OF assms(4)] delete_version_def recorded [OF u p] assms(2))
  then show ?thesis
    using run_run [OF assms(1) [unfolded MigrateUp_def], of Down s1] by (simp add: MigrateDown_def created_same [OF v1])
qed

text \<open>One pending migration that creates a table and the file that drops it.\<close>

definition example_migrations :: "string list MigrateEnv" where
  "example_migrations =
     \<lparr>mg_Files = [(''0001_a.down.sql'', ''drop''), (''0001_a.up.sql'', ''create'')],
      mg_Exec = (\<lambda>sql d. if sql = ''create'' then Inr (''t'' # d) else if d = [] then Inl ''no table'' else Inr (tl d)),
      mg_CreateTable = None, mg_ReadDir = None, mg_Begin = None, mg_Query = None, mg_Record = (\<lambda>_. None), mg_Rollback = None,
      mg_Commit = Committed\<rparr>"

definition example_db :: "string list DB" where
  "example_db = \<lparr>db_Versions = Some [], db_Data = []\<rparr>"

lemma example_files: "up_files example_migrations = [''0001_a.up.sql'']" "down_files example_migrations = [''0001_a.down.sql'']"
  "extractVersion ''0001_a.up.sql'' = 1" "extractVersion ''0001_a.down.sql'' = 1"
  by code_simp+

lemma example_up: "MigrateUp example_migrations example_db = (\<lparr>db_Versions = Some [1], db_Data = [''t'']\<rparr>, None)"
  by code_simp

theorem migrate_up_complete_witness:
  "MigrateUp example_migrations \<lparr>db_Versions = Some [1], db_Data = [''t'']\<rparr> = (\<lparr>db_Versions = Some [1], db_Data = [''t'']\<rparr>, None)"
proof -
  have "db_Versions (create_table example_db) = Some []" by (simp add: create_table_def example_db_def)
  from migrate_up_complete [OF example_up this] show ?thesis unfolding Let_def by blast
qed

lemma migrate_roundtrip_example:
  "MigrateDown example_migrations \<lparr>db_Versions = Some [1], db_Data = [''t'']\<rparr> = (example_db, None)"
proof (rule migrate_roundtrip [OF example_up])
  show "db_Versions example_db = Some []" by (simp add: example_db_def)
  show "filter (\<lambda>f. extractVersion f > current_version []) (up_files example_migrations) = [''0001_a.up.sql'']"
    by (simp add: example_files current_version_def)
  show "List.find (\<lambda>g. extractVersion g = extractVersion ''0001_a.up.sql'') (down_files example_migrations) = Some ''0001_a.down.sql''"
    by (simp add: example_files)
  show "map_of (mg_Files example_migrations) ''0001_a.up.sql'' = Some ''create''"
    and "map_of (mg_Files example_migrations) ''0001_a.down.sql'' = Some ''drop''" by (simp_all add: example_migrations_def)
  show "mg_Exec example_migrations ''drop'' d' = Inr d" if "mg_Exec example_migrations ''create'' d = Inr d'" for d d'
    using that by (auto simp: example_migrations_def)
qed

text \<open>The file ran, but the transaction cannot be committed.\<close>

theorem migrate_atomic_witness:
  "runMigrations (example_migrations\<lparr>mg_Commit := NotCommitted ''gone''\<rparr>) Up example_db = (example_db, Some ''gone'')"
proof -
  have r: "runMigrations (example_migrations\<lparr>mg_Commit := NotCommitted ''gone''\<rparr>) Up example_db = (example_db, Some ''gone'')"
    by code_simp
  from migrate_atomic [OF r] r show ?thesis by simp
qed

end
