(* ===== verification/Repository.thy ===== *)
theory Repository
  imports Instance Node
begin

text \<open>
  The PostgreSQL repository, \<open>internal/repository/postgres.go\<close>: what its statements do to the tables
  \<open>nodes\<close> and \<open>instances\<close> under the constraints of the first migration
  (\<open>internal/db/migrations/0001_initial.up.sql\<close>). A statement may fail for reasons of the connection;
  that failure is the argument \<open>fail\<close>. No other part of the program calls the repository.
\<close>

section \<open>Definitions\<close>

record PgDB =
  pg_Nodes :: "(string, Node) gomap"
  pg_Instances :: "(string, Instance) gomap"
  pg_Applications :: "string list"
  pg_Deployments :: "string list"

datatype RepoError = RecordNotFound | StaleUpdate | SqlError string

text \<open>The columns that the query selects; the other fields of the value are zero.\<close>

definition GetNodeByToken :: "string option \<Rightarrow> string \<Rightarrow> PgDB \<Rightarrow> RepoError + Node" where
  "GetNodeByToken fail token db =
     (case fail of
        Some e \<Rightarrow> Inl (SqlError e)
      | None \<Rightarrow>
          (case List.find (\<lambda>n. n_Token n = token) (mvals (pg_Nodes db)) of
             None \<Rightarrow> Inl RecordNotFound
           | Some n \<Rightarrow>
               Inr \<lparr>n_ID = n_ID n, n_Hostname = n_Hostname n, n_IPAddress = n_IPAddress n, n_CPUCores = 0, n_OS = '''',
                    n_Architecture = '''', n_Status = n_Status n, n_LastHeartbeat = 0, n_OfflineSince = None,
                    n_Capabilities = \<lparr>TotalMemoryBytes = 0, AvailableMemoryBytes = 0, HasDocker = False, HasPodman = False\<rparr>,
                    n_Token = n_Token n\<rparr>))"

text \<open>On a conflict of the primary key five columns are overwritten; tokens are unique.\<close>

definition Repo_RegisterNode :: "string option \<Rightarrow> Node \<Rightarrow> PgDB \<Rightarrow> PgDB \<times> RepoError option" where
  "Repo_RegisterNode fail n db =
     (case fail of
        Some e \<Rightarrow> (db, Some (SqlError e))
      | None \<Rightarrow>
          (case map_of (pg_Nodes db) (n_ID n) of
             Some old \<Rightarrow>
               (db\<lparr>pg_Nodes := mput (n_ID n)
                  (old\<lparr>n_Hostname := n_Hostname n, n_IPAddress := n_IPAddress n, n_Status := n_Status n,
                       n_LastHeartbeat := n_LastHeartbeat n, n_Capabilities := n_Capabilities n\<rparr>) (pg_Nodes db)\<rparr>, None)
           | None \<Rightarrow>
               if \<exists>u \<in> set (mvals (pg_Nodes db)). n_Token u = n_Token n then (db, Some (SqlError ''duplicate key value''))
               else (db\<lparr>pg_Nodes := mput (n_ID n) (n\<lparr>n_OfflineSince := None\<rparr>) (pg_Nodes db)\<rparr>, None)))"

definition UpdateInstanceStatusWithFencing ::
  "string option \<Rightarrow> string option \<Rightarrow> string \<Rightarrow> string \<Rightarrow> InstanceStatus \<Rightarrow> PgDB \<Rightarrow> PgDB \<times> RepoError option" where
  "UpdateInstanceStatusWithFencing fail fail2 k executionID st db =
     (case fail of
        Some e \<Rightarrow> (db, Some (SqlError e))
      | None \<Rightarrow>
          (case map_of (pg_Instances db) k of
             Some i \<Rightarrow>
               if i_ExecutionID i = executionID
               then (db\<lparr>pg_Instances := mput k (i\<lparr>i_Status := st\<rparr>) (pg_Instances db)\<rparr>, None)
               else (db, Some StaleUpdate)
           | None \<Rightarrow> (db, Some (if fail2 = None then RecordNotFound else StaleUpdate))))"

text \<open>Empty strings of node and container are stored as \<open>NULL\<close>, which satisfies the foreign key.\<close>

definition Repo_CreateInstance :: "string option \<Rightarrow> Instance \<Rightarrow> PgDB \<Rightarrow> PgDB \<times> RepoError option" where
  "Repo_CreateInstance fail i db =
     (case fail of
        Some e \<Rightarrow> (db, Some (SqlError e))
      | None \<Rightarrow>
          if map_of (pg_Instances db) (i_ID i) \<noteq> None then (db, Some (SqlError ''duplicate key value''))
          else if i_ApplicationID i \<notin> set (pg_Applications db) \<or> i_DeploymentID i \<notin> set (pg_Deployments db) \<or>
                  (i_NodeID i \<noteq> '''' \<and> map_of (pg_Nodes db) (i_NodeID i) = None)
          then (db, Some (SqlError ''violates foreign key constraint''))
          else
            (db\<lparr>pg_Instances := mput (i_ID i)
               (i\<lparr>i_DrainStartedAt := None, i_StartedAt := None, i_StoppedAt := None, i_UnknownSince := None\<rparr>) (pg_Instances db)\<rparr>,
             None))"

definition LockInstanceForUpdate :: "string option \<Rightarrow> string \<Rightarrow> PgDB \<Rightarrow> RepoError + (string \<times> InstanceStatus \<times> string)" where
  "LockInstanceForUpdate fail k db =
     (case fail of
        Some e \<Rightarrow> Inl (SqlError e)
      | None \<Rightarrow>
          (case map_of (pg_Instances db) k of
             None \<Rightarrow> Inl RecordNotFound
           | Some i \<Rightarrow> Inr (i_ID i, i_Status i, i_ExecutionID i)))"

section \<open>Fencing\<close>

text \<open>A status is written only under the execution that the row names, and nothing else changes.\<close>

lemma update_fenced:
  assumes "UpdateInstanceStatusWithFencing fail fail2 k ex st db = (db', r)"
  shows "(r = None \<and> (\<exists>i. map_of (pg_Instances db) k = Some i \<and> i_ExecutionID i = ex \<and>
            db' = db\<lparr>pg_Instances := mput k (i\<lparr>i_Status := st\<rparr>) (pg_Instances db)\<rparr>)) \<or>
    (db' = db \<and> (\<exists>e. r = Some e \<and> (e = RecordNotFound \<longrightarrow> map_of (pg_Instances db) k = None)))"
  using assms by (auto simp: UpdateInstanceStatusWithFencing_def split: option.splits if_splits)

text \<open>
  The second query of a refused update drops its error, so a lost connection looks like a stale
  execution.
\<close>

lemma lost_connection_is_stale:
  assumes "map_of (pg_Instances db) k = None"
  shows "UpdateInstanceStatusWithFencing None (Some e) k ex st db = (db, Some StaleUpdate)"
  using assms by (simp add: UpdateInstanceStatusWithFencing_def)

text \<open>
  Registering a node again leaves its old token in the table: the token that the control plane
  has just issued to it is unknown.
\<close>

lemma mvals_mput_mem: "u \<in> set (mvals (mput k v m)) \<Longrightarrow> u = v \<or> u \<in> set (mvals m)"
proof (induction m)
  case (Cons p m)
  then show ?case by (cases p) (auto split: if_splits)
qed simp

lemma reregistered_token_unknown:
  assumes "map_of (pg_Nodes db) (n_ID n) = Some old" and "\<forall>u \<in> set (mvals (pg_Nodes db)). n_Token u \<noteq> n_Token n"
    and "Repo_RegisterNode None n db = (db', r)"
  shows "r = None \<and> GetNodeByToken None (n_Token n) db' = Inl RecordNotFound"
proof -
  have old: "n_Token old \<noteq> n_Token n" using assms(2) mvals_lookup [OF assms(1)] by auto
  have "\<forall>u \<in> set (mvals (pg_Nodes db')). n_Token u \<noteq> n_Token n"
    using assms old by (auto simp: Repo_RegisterNode_def dest!: mvals_mput_mem)
  then have "List.find (\<lambda>u. n_Token u = n_Token n) (mvals (pg_Nodes db')) = None" by (auto simp: find_None_iff)
  moreover have "r = None" using assms by (auto simp: Repo_RegisterNode_def)
  ultimately show ?thesis by (simp add: GetNodeByToken_def)
qed

end
