(* ===== verification/Spec2Isabelle.thy ===== *)
theory Spec2Isabelle
  imports Lifecycle Operator Edge Copies NodeAgent Migrate Repository JobAgent Agent Apply Job Secret
begin

text \<open>
  RunStack: a control plane and agents that run jobs and long-running containerised applications.

  \<^bold>\<open>The parts and how they interact.\<close> The control plane (\<open>cmd/runstack/cp.go\<close>) owns one registry per
  kind of object, each a table behind a mutex. Operators act on the registries through the HTTP
  handlers (\<open>internal/api\<close>) and the application service (\<open>internal/service\<close>); every second a round
  runs the job scheduler, the instance reconciler with the rollout controller, the instance
  scheduler and the routing reconciler (\<open>internal/scheduler\<close>), which read all registries and write
  those of jobs, instances, deployments and the table of the HTTP proxy. Agents claim what was
  assigned to their node, start containers through a runtime (\<open>internal/runtime\<close>), watch and probe
  them (\<open>internal/executor\<close>) and report back; a report is accepted only from the node and the
  execution that the stored object names.

  \<^bold>\<open>How the code is modelled.\<close> A registry is a record or an association list (\<open>gomap\<close>: a Go map with
  the order in which a range loop visits it; theorems hold for every order). An operation is one
  function from the state to the new state and the result; errors are values of a datatype in a
  sum, a panic is a value too, and every early return is a branch. Sizes and counters of Go's
  \<open>int\<close> are integers with \<open>wrap64\<close> where the code does arithmetic on them that could wrap; a
  property that needs it bounds the number of stored instances by \<open>2 ^ 31\<close>, far above what a
  process can hold. The counters of a prober are unbounded. \<open>float64\<close> is a rational with the rounding
  \<open>rnd\<close> as a parameter. Other parameters: random identifiers (\<open>rid\<close>, \<open>gen\<close>), readings of the
  clock (\<open>now\<close>, \<open>RecClock\<close>, \<open>TickClock\<close>, \<open>AgentEnv\<close>), the content hash, the Docker command
  line (\<open>cli\<close>, \<open>parse\<close>, \<open>fmt_cpu\<close>) and the network (\<open>env_net\<close>). Loops are structural recursion over
  the list they range over, or folds; no definition needs fuel. Logging is left out.

  \<^bold>\<open>The theories.\<close>
  \<^item> \<open>Prelude\<close>: Go maps, wrap-around, time, \<open>reach\<close> (runs of a step function under a protocol), and the
    locales \<open>id_registry\<close>, \<open>invariant_machine\<close>, \<open>monotone_machine\<close>, \<open>fenced_store\<close>, \<open>slice_order\<close> and
    \<open>simulation\<close> that the components interpret.
  \<^item> \<open>Job\<close>, \<open>Instance\<close>, \<open>Application\<close>, \<open>Secret\<close>, \<open>Deployment\<close>, \<open>Node\<close>, \<open>Ingress\<close>, \<open>Route\<close>: the registries
    (\<open>internal/job\<close>, \<open>instance\<close>, \<open>application\<close>, \<open>deployment\<close>, \<open>node\<close> with its port allocator, \<open>ingress\<close>,
    \<open>route\<close> with the request routing of the proxy). Each has its invariant over all reachable
    states: retry budgets and event histories of jobs, agreement of the fields of an instance,
    finality of terminal states, single claims, fencing of reports, gapless versions, crash-loop
    detection, failure detection, exclusive ports; \<open>Secret\<close> refines a map.
  \<^item> \<open>Routing\<close>, \<open>Scheduling\<close>, \<open>Rollout\<close>, \<open>Reconciler\<close>: the controllers (\<open>internal/scheduler\<close>): isolation
    and completeness of the routing table; no overcommitment and no waiting job; surge,
    availability and progress of rolling updates; targets met, draining first, and the pass as a
    run of the registries under their protocols.
  \<^item> \<open>AppService\<close>, \<open>Apply\<close>, \<open>Api\<close>: the application service, manifests and their application
    (\<open>internal/manifest\<close>, \<open>internal/api/apply.go\<close>), the handlers towards agents and the
    authentication (\<open>internal/api/instance.go\<close>, \<open>middleware.go\<close>).
  \<^item> \<open>LogBuffer\<close>, \<open>Runtime\<close>, \<open>Prober\<close>, \<open>Agent\<close>: the agent: crash logs as a bounded queue; the runtime
    interface with its contract as the locale \<open>container_runtime\<close>, the runtime in memory that
    satisfies it, and the one over the Docker command line; probers against the verdict that the
    history of outcomes defines; the executor over any server and any runtime.
  \<^item> \<open>ControlPlane\<close>: the registries and a round of the controllers put together; the invariant
    \<open>cp_inv\<close> is kept by every round.
  \<^item> \<open>Tls\<close>, \<open>Handlers\<close>, \<open>Status\<close>, \<open>Logs\<close>: certificates (\<open>internal/ingress/tls.go\<close>) and the other HTTP
    handlers of \<open>internal/api\<close>; \<open>Logs\<close> has the endpoint of the agent too (\<open>cmd/runstack/agent_api.go\<close>)
    and shows that logs never cross applications.
  \<^item> \<open>Edge\<close>: the two listeners of the proxy as the control plane wires them: a domain with TLS is never
    served in the clear, and its challenges still reach the ACME handler. \<open>Copies\<close>: the \<open>DeepCopy\<close>
    methods on an explicit store, which justify that the registries are modelled on values, and the
    pointers that these copies share.
  \<^item> \<open>JobAgent\<close>: the job executor of the agent (\<open>cmd/runstack/executor.go\<close>) over a network that loses
    requests and answers: an assigned job runs, and its result counts once.
  \<^item> \<open>Platform\<close>: the routes of the control plane with their guards over one state; nothing is read or
    changed without a token.
  \<^item> \<open>System\<close>: the whole control plane as one machine, a request, a check for offline nodes or a round per
    step, from the empty state of \<open>runControlPlane\<close>; safety of every run. \<open>Lifecycle\<close>: an application
    whose creation was answered with 201 has its replicas after the next round.

  \<^item> \<open>Client\<close>: the configuration file and the contexts of operators (\<open>internal/config\<close>, \<open>internal/client\<close>,
    \<open>cmd/runstack/context.go\<close>) with writes that may fail. \<open>Cli\<close>, \<open>CliApps\<close>: the commands of
    \<open>cmd/runstack/cli.go\<close>, \<open>apply.go\<close>, \<open>deploy.go\<close>, \<open>apps.go\<close>, \<open>domain.go\<close>, \<open>secret.go\<close>, \<open>logs.go\<close> and
    \<open>main.go\<close>: a command is a function from the home directory, the network and the lines printed so
    far to the same and its end (normal, an error, or \<open>os.Exit\<close>). \<open>Commands\<close>: where tokens may go, which
    commands cannot work, what \<open>apply --wait\<close> reports; the locale \<open>network\<close> is the contract between
    commands and network. \<open>Operator\<close>: the commands over the control plane of \<open>Platform\<close>.
  \<^item> \<open>NodeAgent\<close>: system information, registration and heartbeats of an agent (\<open>internal/sysinfo\<close>,
    \<open>cmd/runstack/agent.go\<close>) over the control plane. The loop that registers may run forever: it is a
    partial function, and it is shown when it returns.
  \<^item> \<open>Migrate\<close>, \<open>Repository\<close>: migrations in transactions (\<open>internal/db\<close>) and the statements of the
    PostgreSQL repository (\<open>internal/repository\<close>), which no other part calls.

  \<^bold>\<open>Not modelled.\<close> Libraries are parameters: the ACME client of \<open>golang.org/x/crypto\<close>, \<open>net/http\<close> below
  requests and routes, JSON and YAML codecs, package \<open>flag\<close>, the padding of \<open>text/tabwriter\<close>, the effect
  of SQL text on the schema. The reverse proxy forwards what the model decides; signals,
  goroutines and tickers of \<open>cmd/runstack\<close> are process wiring, and \<open>internal/repository/interfaces.go\<close>
  declares interfaces without implementation.
\<close>

end
